(* ===== verification/Prelude.thy ===== *)
theory Prelude
  imports Complex_Main "HOL-Library.AList"
begin

text \<open>
  Shared vocabulary of the development: the Python values the components are written with
  (insertion-ordered dictionaries, strings and their \<open>strip\<close>, list slices), the result type of
  code that raises, and the locales every component uses to state its contract. A dictionary is an
  association list in insertion order; \<^const>\<open>AList.update\<close> overwrites in place or appends, and
  \<^const>\<open>AList.delete\<close> drops the key, exactly as \<open>d[k] = v\<close> and \<open>d.pop(k, None)\<close> do.
  Time stamps are integers (microseconds for \<open>datetime\<close>) or reals (seconds for \<open>time.time()\<close>).
\<close>

section \<open>Collections of rewrite rules\<close>

named_theorems dict_simps \<open>laws of Python dictionaries as association lists\<close>

section \<open>Python dictionaries\<close>

type_synonym ('k, 'v) dict = "('k \<times> 'v) list"

abbreviation dict_get :: "('k, 'v) dict \<Rightarrow> 'k \<Rightarrow> 'v option" where
  "dict_get d k \<equiv> map_of d k"

abbreviation dict_set :: "'k \<Rightarrow> 'v \<Rightarrow> ('k, 'v) dict \<Rightarrow> ('k, 'v) dict" where
  "dict_set k v d \<equiv> AList.update k v d"

abbreviation dict_pop :: "'k \<Rightarrow> ('k, 'v) dict \<Rightarrow> ('k, 'v) dict" where
  "dict_pop k d \<equiv> AList.delete k d"

abbreviation dict_keys :: "('k, 'v) dict \<Rightarrow> 'k list" where
  "dict_keys d \<equiv> map fst d"

abbreviation dict_values :: "('k, 'v) dict \<Rightarrow> 'v list" where
  "dict_values d \<equiv> map snd d"

definition wf_dict :: "('k, 'v) dict \<Rightarrow> bool" where
  "wf_dict d \<longleftrightarrow> distinct (dict_keys d)"

definition dict_get_default :: "('k, 'v) dict \<Rightarrow> 'k \<Rightarrow> 'v \<Rightarrow> 'v" where
  "dict_get_default d k dflt = (case dict_get d k of None \<Rightarrow> dflt | Some v \<Rightarrow> v)"

text \<open>\<open>{**d, **e}\<close>: the entries of \<open>e\<close> written over those of \<open>d\<close>, one by one.\<close>

definition dict_merge :: "('k, 'v) dict \<Rightarrow> ('k, 'v) dict \<Rightarrow> ('k, 'v) dict" where
  "dict_merge d e = foldl (\<lambda>acc kv. dict_set (fst kv) (snd kv) acc) d e"

lemma wf_dict_Nil [simp]: "wf_dict []"
  by (simp add: wf_dict_def)

lemma wf_dict_set [simp, intro]: "wf_dict d \<Longrightarrow> wf_dict (dict_set k v d)"
  by (simp add: wf_dict_def distinct_update)

lemma wf_dict_pop [simp, intro]: "wf_dict d \<Longrightarrow> wf_dict (dict_pop k d)"
  by (simp add: wf_dict_def distinct_delete)

lemma dict_get_set [dict_simps]: "dict_get (dict_set k v d) k' = (if k' = k then Some v else dict_get d k')"
  by (simp add: update_conv')

lemma dict_get_pop [dict_simps]: "dict_get (dict_pop k d) k' = (if k' = k then None else dict_get d k')"
  by (simp add: delete_conv')

lemma dict_keys_set: "set (dict_keys (dict_set k v d)) = insert k (set (dict_keys d))"
  using dom_update [of k v d] by simp

lemma dict_keys_pop: "set (dict_keys (dict_pop k d)) = set (dict_keys d) - {k}"
  using delete_keys [of k d] by auto

lemmas dict_key_image = dict_keys_set [unfolded set_map] dict_keys_pop [unfolded set_map]

lemma dict_set_fresh [dict_simps]: "k \<notin> set (dict_keys d) \<Longrightarrow> dict_set k v d = d @ [(k, v)]"
  by (induction d) auto

lemma dict_keys_set_present: "k \<in> set (dict_keys d) \<Longrightarrow> dict_keys (dict_set k v d) = dict_keys d"
  by (induction d) auto

lemma dict_get_None_iff: "dict_get d k = None \<longleftrightarrow> k \<notin> set (dict_keys d)"
  by (induction d) auto

lemma dict_get_mem: "dict_get d k = Some v \<Longrightarrow> (k, v) \<in> set d"
  by (rule map_of_SomeD)

lemma dict_get_iff_mem: "wf_dict d \<Longrightarrow> dict_get d k = Some v \<longleftrightarrow> (k, v) \<in> set d"
  by (simp add: wf_dict_def)

lemma dict_get_Some_key: "dict_get d k = Some v \<Longrightarrow> k \<in> set (dict_keys d)"
  by (force dest: map_of_SomeD)

lemma dict_set_mem: "(k', v') \<in> set (dict_set k v d) \<Longrightarrow> (k', v') = (k, v) \<or> (k', v') \<in> set d"
  by (induction d) (auto split: if_splits)

lemma dict_set_mem_iff:
  "wf_dict d \<Longrightarrow> (k', v') \<in> set (dict_set k v d) \<longleftrightarrow> (k' = k \<and> v' = v) \<or> (k' \<noteq> k \<and> (k', v') \<in> set d)"
  by (auto simp flip: dict_get_iff_mem simp: dict_get_set)

lemma dict_pop_mem_iff: "(k', v) \<in> set (dict_pop k d) \<longleftrightarrow> k' \<noteq> k \<and> (k', v) \<in> set d"
  by (induction d) auto

lemma length_dict_set: "length (dict_set k v d) = (if k \<in> set (dict_keys d) then length d else Suc (length d))"
  by (induction d) auto

lemma length_dict_pop:
  "wf_dict d \<Longrightarrow> length (dict_pop k d) = (if k \<in> set (dict_keys d) then length d - 1 else length d)"
proof (induction d)
  case (Cons kv d)
  then show ?case
    by (cases kv; cases d) (auto simp: wf_dict_def)
qed simp

lemma wf_dict_merge [simp, intro]: "wf_dict d \<Longrightarrow> wf_dict (dict_merge d e)"
  unfolding dict_merge_def by (induction e arbitrary: d) auto

lemma dict_get_merge:
  "wf_dict e \<Longrightarrow> dict_get (dict_merge d e) k = (case dict_get e k of None \<Rightarrow> dict_get d k | Some v \<Rightarrow> Some v)"
proof (induction e arbitrary: d)
  case (Cons kv e)
  then have "wf_dict e" and "dict_get e (fst kv) = None"
    by (auto simp: wf_dict_def dict_get_None_iff)
  with Cons.IH [of "dict_set (fst kv) (snd kv) d"] show ?case
    by (cases kv) (auto simp: dict_merge_def dict_get_set split: option.splits)
qed (simp add: dict_merge_def)

lemma dict_get_filter_values:
  "wf_dict d \<Longrightarrow> dict_get (filter (\<lambda>kv. P (snd kv)) d) k =
     (case dict_get d k of None \<Rightarrow> None | Some v \<Rightarrow> if P v then Some v else None)"
proof (induction d)
  case (Cons kv d)
  then have "wf_dict d" "dict_get d (fst kv) = None" by (auto simp: wf_dict_def dict_get_None_iff)
  with Cons.IH show ?case by (cases kv) auto
qed simp

lemma dict_pop_split:
  "wf_dict d \<Longrightarrow> dict_get d k = Some v \<Longrightarrow> \<exists>xs ys. d = xs @ (k, v) # ys \<and> dict_pop k d = xs @ ys"
proof (induction d)
  case (Cons kv d)
  show ?case
  proof (cases "fst kv = k")
    case True
    then have "k \<notin> set (dict_keys d)" using Cons.prems(1) by (auto simp: wf_dict_def)
    then have "dict_pop k d = d" by (simp add: delete_idem)
    then have "kv # d = [] @ (k, v) # d \<and> dict_pop k (kv # d) = [] @ d" using True Cons.prems by (cases kv) simp
    then show ?thesis by blast
  next
    case False
    then have "wf_dict d" "dict_get d k = Some v" using Cons.prems by (auto simp: wf_dict_def)
    then obtain xs ys where "d = xs @ (k, v) # ys" "dict_pop k d = xs @ ys" using Cons.IH by blast
    then have "kv # d = (kv # xs) @ (k, v) # ys \<and> dict_pop k (kv # d) = (kv # xs) @ ys" using False by (cases kv) simp
    then show ?thesis by blast
  qed
qed simp

section \<open>The dictionary interface\<close>

text \<open>
  What the clients of a mutable mapping rely on. The registries of the program are written against
  these laws only; the interpretation below discharges them for the association lists of the model.
\<close>

locale mutable_mapping =
  fixes get :: "'m \<Rightarrow> 'k \<Rightarrow> 'v option"
    and put :: "'k \<Rightarrow> 'v \<Rightarrow> 'm \<Rightarrow> 'm"
    and remove :: "'k \<Rightarrow> 'm \<Rightarrow> 'm"
  assumes get_put: "get (put k v m) k' = (if k' = k then Some v else get m k')"
    and get_remove: "get (remove k m) k' = (if k' = k then None else get m k')"
begin

lemma get_remove_all: "get (foldr remove ks m) k = (if k \<in> set ks then None else get m k)"
  by (induction ks) (auto simp: get_remove)

lemma get_put_all:
  "distinct (map fst kvs) \<Longrightarrow>
   get (foldr (\<lambda>kv. put (fst kv) (snd kv)) kvs m) k =
     (case map_of kvs k of None \<Rightarrow> get m k | Some v \<Rightarrow> Some v)"
  by (induction kvs) (auto simp: get_put)

lemma put_preserves_all:
  "(\<And>k' v'. get m k' = Some v' \<Longrightarrow> P k' v') \<Longrightarrow> P k v \<Longrightarrow> get (put k v m) k' = Some v' \<Longrightarrow> P k' v'"
  by (auto simp: get_put split: if_splits)

lemma remove_preserves_all:
  "(\<And>k' v'. get m k' = Some v' \<Longrightarrow> P k' v') \<Longrightarrow> get (remove k m) k' = Some v' \<Longrightarrow> P k' v'"
  by (auto simp: get_remove split: if_splits)

end

interpretation dict: mutable_mapping
  "\<lambda>d k. dict_get d k" "\<lambda>k v d. dict_set k v d" "\<lambda>k d. dict_pop k d"
  by unfold_locales (auto simp: dict_simps)

section \<open>State machines\<close>

text \<open>
  A deterministic machine whose steps keep an invariant keeps it along every run. Components
  interpret this locale on their step function; the properties use the instance of \<open>run_inv\<close>.
\<close>

locale invariant_machine =
  fixes step :: "'s \<Rightarrow> 'e \<Rightarrow> 's" and inv :: "'s \<Rightarrow> bool"
  assumes step_inv: "inv s \<Longrightarrow> inv (step s e)"
begin

lemma run_inv: "inv s \<Longrightarrow> inv (foldl step s es)"
  by (induction es arbitrary: s) (auto intro: step_inv)

end

text \<open>A sequence of status changes, stopped by the first one that raises.\<close>

fun run_changes :: "('st \<Rightarrow> 'st \<Rightarrow> 'err + 'st) \<Rightarrow> 'st \<Rightarrow> 'st list \<Rightarrow> 'err + 'st" where
  "run_changes change s [] = Inr s"
| "run_changes change s (t # ts) =
     (case change s t of Inl e \<Rightarrow> Inl e | Inr s' \<Rightarrow> run_changes change s' ts)"

text \<open>
  A guarded status machine: \<open>allowed\<close> is the table of legal next states and \<open>change\<close> the operation
  that raises unless the target is in the table. Successful sequences of changes are then paths of
  the table, and a state without successors absorbs.
\<close>

locale status_machine =
  fixes allowed :: "'st \<Rightarrow> 'st set" and change :: "'st \<Rightarrow> 'st \<Rightarrow> 'err + 'st"
  assumes change_ok: "(\<exists>t'. change s t = Inr t') \<longleftrightarrow> t \<in> allowed s"
    and change_target: "change s t = Inr t' \<Longrightarrow> t' = t"
begin

lemma run_path: "run_changes change s ts = Inr s' \<Longrightarrow> (s, s') \<in> {(a, b). b \<in> allowed a}\<^sup>*"
proof (induction ts arbitrary: s)
  case (Cons t ts)
  then obtain u where u: "change s t = Inr u" "run_changes change u ts = Inr s'"
    by (auto split: sum.splits)
  then have "(s, u) \<in> {(a, b). b \<in> allowed a}"
    using change_ok [of s t] change_target [of s t u] by auto
  with Cons.IH [OF u(2)] show ?case
    by (rule converse_rtrancl_into_rtrancl [rotated])
qed simp

lemma terminal_absorbs: "allowed s = {} \<Longrightarrow> run_changes change s ts = Inr s' \<Longrightarrow> ts = [] \<and> s' = s"
  using change_ok [of s] by (cases ts) (force split: sum.splits)+

lemma run_Cons: "run_changes change s (t # ts) = Inr u \<longleftrightarrow> t \<in> allowed s \<and> run_changes change t ts = Inr u"
  using change_ok [of s t] change_target [of s t] by (cases "change s t") auto

lemma final_absorbs: "allowed s \<subseteq> {s} \<Longrightarrow> run_changes change s ts = Inr s' \<Longrightarrow> s' = s"
  by (induction ts) (auto simp: run_Cons simp del: run_changes.simps(2))

lemma rejected: "t \<notin> allowed s \<Longrightarrow> \<exists>e. change s t = Inl e"
  using change_ok [of s t] by (cases "change s t") auto

end

text \<open>
  Refinement. A specification steps partially, \<open>None\<close> meaning that the caller broke its side of the
  contract; the implementation always steps. When related states give the same answers and stay
  related, a whole run of a well-behaved caller gets the answers of the specification.
\<close>

fun answers :: "('s \<Rightarrow> 'e \<Rightarrow> 'a \<times> 's) \<Rightarrow> 's \<Rightarrow> 'e list \<Rightarrow> 'a list \<times> 's" where
  "answers step s [] = ([], s)"
| "answers step s (e # es) = (let (a, s1) = step s e; (as, s2) = answers step s1 es in (a # as, s2))"

fun spec_answers :: "('s \<Rightarrow> 'e \<Rightarrow> ('a \<times> 's) option) \<Rightarrow> 's \<Rightarrow> 'e list \<Rightarrow> ('a list \<times> 's) option" where
  "spec_answers step s [] = Some ([], s)"
| "spec_answers step s (e # es) =
     (case step s e of
        None \<Rightarrow> None
      | Some (a, s1) \<Rightarrow> (case spec_answers step s1 es of None \<Rightarrow> None | Some (as, s2) \<Rightarrow> Some (a # as, s2)))"

locale refinement =
  fixes cstep :: "'c \<Rightarrow> 'e \<Rightarrow> 'a \<times> 'c"
    and astep :: "'s \<Rightarrow> 'e \<Rightarrow> ('a \<times> 's) option"
    and related :: "'c \<Rightarrow> 's \<Rightarrow> bool"
    and aok :: "'s \<Rightarrow> bool"
  assumes sim: "related c s \<Longrightarrow> aok s \<Longrightarrow> astep s e = Some (a, s') \<Longrightarrow> fst (cstep c e) = a \<and> related (snd (cstep c e)) s'"
    and aok_step: "aok s \<Longrightarrow> astep s e = Some (a, s') \<Longrightarrow> aok s'"
begin

lemma run_refines:
  "related c s \<Longrightarrow> aok s \<Longrightarrow> spec_answers astep s es = Some (as, s') \<Longrightarrow>
   fst (answers cstep c es) = as \<and> related (snd (answers cstep c es)) s' \<and> aok s'"
proof (induction es arbitrary: c s as)
  case (Cons e es)
  obtain a s1 as1 where a: "astep s e = Some (a, s1)" "spec_answers astep s1 es = Some (as1, s')" "as = a # as1"
    using Cons.prems(3) by (auto split: option.splits prod.splits)
  note s1 = sim [OF Cons.prems(1,2) a(1)] aok_step [OF Cons.prems(2) a(1)]
  with Cons.IH [of "snd (cstep c e)" s1 as1] a show ?case by (auto split: prod.splits)
qed simp

end

section \<open>Python strings and lists\<close>

text \<open>\<open>str.isspace\<close> on the code points below 256.\<close>

definition py_isspace :: "char \<Rightarrow> bool" where
  "py_isspace c \<longleftrightarrow>
     (let n = (of_char c :: nat) in (9 \<le> n \<and> n \<le> 13) \<or> (28 \<le> n \<and> n \<le> 32) \<or> n = 133 \<or> n = 160)"

definition py_strip :: "string \<Rightarrow> string" where
  "py_strip s = rev (dropWhile py_isspace (rev (dropWhile py_isspace s)))"

text \<open>\<open>str.lower\<close> on the code points below 256.\<close>

definition lower_char :: "char \<Rightarrow> char" where
  "lower_char c = (let n = (of_char c :: nat)
     in if (65 \<le> n \<and> n \<le> 90) \<or> (192 \<le> n \<and> n \<le> 222 \<and> n \<noteq> 215) then char_of (n + 32) else c)"

definition py_lower :: "string \<Rightarrow> string" where
  "py_lower s = map lower_char s"

text \<open>A text cut at the first occurrence of a character.\<close>

fun split_at :: "char \<Rightarrow> string \<Rightarrow> (string \<times> string) option" where
  "split_at d [] = None"
| "split_at d (c # cs) = (if c = d then Some ([], cs) else map_option (\<lambda>(a, b). (c # a, b)) (split_at d cs))"

lemma split_at_eq: "split_at d s = Some (a, b) \<Longrightarrow> s = a @ d # b"
  by (induction s arbitrary: a) (auto split: if_splits)

lemma find_append: "find P (xs @ ys) = (case find P xs of None \<Rightarrow> find P ys | Some x \<Rightarrow> Some x)"
  by (induction xs) auto

text \<open>\<open>xs[-n:]\<close>: the last \<open>n\<close> elements, the whole list for \<open>n = 0\<close>, and \<open>xs[m:]\<close> for \<open>n = -m\<close>.\<close>

definition py_last_n :: "int \<Rightarrow> 'a list \<Rightarrow> 'a list" where
  "py_last_n n xs = (if n = 0 then xs else if 0 < n then drop (length xs - nat n) xs else drop (nat (- n)) xs)"

text \<open>\<open>xs[:n]\<close>.\<close>

definition py_first_n :: "int \<Rightarrow> 'a list \<Rightarrow> 'a list" where
  "py_first_n n xs = (if n < 0 then take (length xs - nat (- n)) xs else take (nat n) xs)"

lemma py_last_n_suffix: "\<exists>ys. xs = ys @ py_last_n n xs"
  unfolding py_last_n_def by (auto intro: append_take_drop_id [symmetric])

lemma py_strip_Nil [simp]: "py_strip [] = []"
  by (simp add: py_strip_def)

lemma py_strip_idem: "py_strip (py_strip s) = py_strip s"
proof -
  let ?t = "rev (dropWhile py_isspace s)"
  have "dropWhile py_isspace (rev (dropWhile py_isspace ?t)) = rev (dropWhile py_isspace ?t)"
  proof (cases "rev (dropWhile py_isspace ?t)")
    case (Cons c cs)
    then have "dropWhile py_isspace ?t \<noteq> []" by auto
    then have "last (dropWhile py_isspace ?t) = last ?t"
      by (metis dropWhile_eq_Nil_conv last_appendR takeWhile_dropWhile_id)
    then have "c = last ?t"
      using Cons by (metis last_snoc rev_eq_Cons_iff)
    then have "c = hd (dropWhile py_isspace s)"
      by (simp add: last_rev)
    moreover have "dropWhile py_isspace s \<noteq> []" using \<open>dropWhile py_isspace ?t \<noteq> []\<close> by fastforce
    ultimately have "\<not> py_isspace c" using hd_dropWhile by metis
    then show ?thesis using Cons by simp
  next
    case Nil
    then show ?thesis by (simp only: dropWhile.simps)
  qed
  then show ?thesis
    by (simp add: py_strip_def dropWhile_idem)
qed

text \<open>\<open>str(n)\<close> for a natural number.\<close>

fun nat_str :: "nat \<Rightarrow> string" where
  "nat_str n = (if n < 10 then [char_of (48 + n)] else nat_str (n div 10) @ [char_of (48 + n mod 10)])"

declare nat_str.simps [simp del]

definition nat_of_str :: "string \<Rightarrow> nat" where
  "nat_of_str s = foldl (\<lambda>a c. 10 * a + (of_char c - 48)) 0 s"

lemma nat_of_str_inverse [simp]: "nat_of_str (nat_str n) = n"
proof (induction n rule: nat_str.induct)
  case (1 n)
  show ?case
  proof (cases "n < 10")
    case True
    then show ?thesis by (simp add: nat_str.simps [of n] nat_of_str_def of_char_of)
  next
    case False
    then have "nat_of_str (nat_str n) = 10 * nat_of_str (nat_str (n div 10)) + n mod 10"
      by (simp add: nat_str.simps [of n] nat_of_str_def of_char_of)
    with 1 False show ?thesis by simp
  qed
qed

lemma nat_str_inject [simp]: "nat_str m = nat_str n \<longleftrightarrow> m = n"
  by (metis nat_of_str_inverse)

text \<open>\<open>str\<close> of an integer.\<close>

definition int_str :: "int \<Rightarrow> string" where
  "int_str n = (if n < 0 then CHR ''-'' # nat_str (nat (- n)) else nat_str (nat n))"

end
