(* ===== verification/PlanNode.thy ===== *)
theory PlanNode
  imports Prelude
begin

text \<open>
  The nodes of a workspace plan and the two status axes they move along:
  \<open>src/domain/model/workspace_plan/plan_node.py\<close> and \<open>state_machine.py\<close>. Every check of a
  dataclass' \<open>__post_init__\<close> is a branch of its \<open>_init\<close> function, one constructor of
  \<open>node_error\<close> per raised message; \<open>dataclasses.replace\<close> runs the same checks again, so the
  \<open>with_\<close> methods call \<open>plan_node_init\<close>. Percentages, confidences and weights are reals. Fields
  that no modelled operation reads (schemas, criteria, checkpoints, hand-off packages, free
  metadata) are left out of the record.
\<close>

section \<open>Data\<close>

type_synonym plan_node_id = string

datatype plan_node_kind = GOAL | MILESTONE | TASK | VERIFY

datatype task_intent = TODO | IN_PROGRESS | BLOCKED | DONE

datatype task_execution = IDLE | DISPATCHED | RUNNING | REPORTED | VERIFYING

record effort =
  effort_minutes :: int
  effort_confidence :: real

record progress =
  progress_percent :: real
  progress_confidence :: real
  progress_note :: string

record capability =
  capability_name :: string
  capability_weight :: real

record plan_node =
  node_id :: plan_node_id
  node_plan_id :: string
  node_parent :: "plan_node_id option"
  node_kind :: plan_node_kind
  node_title :: string
  node_description :: string
  node_depends :: "plan_node_id list" \<comment> \<open>a frozenset, in its iteration order\<close>
  node_capabilities :: "capability list"
  node_preferred_agent :: "string option"
  node_effort :: effort
  node_priority :: int
  node_intent :: task_intent
  node_execution :: task_execution
  node_progress :: progress
  node_assignee :: "string option"
  node_attempt :: "string option"
  node_task_id :: "string option"
  node_created_at :: int
  node_updated_at :: "int option"
  node_completed_at :: "int option"

datatype node_error =
    EffortMinutesNegative
  | EffortConfidenceRange
  | ProgressPercentRange
  | ProgressConfidenceRange
  | CapabilityNameEmpty
  | CapabilityWeightNotPositive
  | NodeIdEmpty
  | PlanIdEmpty
  | TitleEmpty
  | PriorityNegative
  | GoalHasParent
  | NonGoalWithoutParent plan_node_kind
  | DependsOnSelf

section \<open>Construction checks\<close>

definition effort_init :: "effort \<Rightarrow> node_error + effort" where
  "effort_init e =
     (if effort_minutes e < 0 then Inl EffortMinutesNegative
      else if \<not> (0 \<le> effort_confidence e \<and> effort_confidence e \<le> 1) then Inl EffortConfidenceRange
      else Inr e)"

definition progress_init :: "progress \<Rightarrow> node_error + progress" where
  "progress_init p =
     (if \<not> (0 \<le> progress_percent p \<and> progress_percent p \<le> 100) then Inl ProgressPercentRange
      else if \<not> (0 \<le> progress_confidence p \<and> progress_confidence p \<le> 1) then Inl ProgressConfidenceRange
      else Inr p)"

definition capability_init :: "capability \<Rightarrow> node_error + capability" where
  "capability_init c =
     (if capability_name c = [] then Inl CapabilityNameEmpty
      else if capability_weight c \<le> 0 then Inl CapabilityWeightNotPositive
      else Inr c)"

definition plan_node_id_init :: "string \<Rightarrow> node_error + plan_node_id" where
  "plan_node_id_init s = (if s = [] then Inl NodeIdEmpty else Inr s)"

definition plan_node_init :: "plan_node \<Rightarrow> node_error + plan_node" where
  "plan_node_init n =
     (if node_plan_id n = [] then Inl PlanIdEmpty
      else if py_strip (node_title n) = [] then Inl TitleEmpty
      else if node_priority n < 0 then Inl PriorityNegative
      else if node_kind n = GOAL \<and> node_parent n \<noteq> None then Inl GoalHasParent
      else if node_kind n \<noteq> GOAL \<and> node_parent n = None then Inl (NonGoalWithoutParent (node_kind n))
      else case plan_node_id_init (node_id n) of
             Inl e \<Rightarrow> Inl e
           | Inr i \<Rightarrow> if i \<in> set (node_depends n) then Inl DependsOnSelf else Inr n)"

definition node_is_terminal :: "plan_node \<Rightarrow> bool" where
  "node_is_terminal n \<longleftrightarrow> node_intent n = DONE"

definition is_ready :: "plan_node \<Rightarrow> plan_node_id set \<Rightarrow> bool" where
  "is_ready n completed_ids \<longleftrightarrow>
     (if node_intent n \<noteq> TODO then False else set (node_depends n) \<subseteq> completed_ids)"

definition with_intent :: "plan_node \<Rightarrow> task_intent \<Rightarrow> int \<Rightarrow> node_error + plan_node" where
  "with_intent n i now = plan_node_init (n\<lparr>node_intent := i, node_updated_at := Some now\<rparr>)"

definition with_execution :: "plan_node \<Rightarrow> task_execution \<Rightarrow> int \<Rightarrow> node_error + plan_node" where
  "with_execution n x now = plan_node_init (n\<lparr>node_execution := x, node_updated_at := Some now\<rparr>)"

definition with_progress :: "plan_node \<Rightarrow> progress \<Rightarrow> int \<Rightarrow> node_error + plan_node" where
  "with_progress n p now = plan_node_init (n\<lparr>node_progress := p, node_updated_at := Some now\<rparr>)"

section \<open>The two transition tables\<close>

datatype 'st transition_reason =
    NoOpTransition 'st
  | CurrentIsTerminal
  | NotInAllowedSet 'st "'st set"

datatype 'st transition_error = IllegalTransition 'st 'st "'st transition_reason list"

fun allowed_intent_next :: "task_intent \<Rightarrow> task_intent set" where
  "allowed_intent_next TODO = {IN_PROGRESS, BLOCKED}"
| "allowed_intent_next IN_PROGRESS = {DONE, BLOCKED, TODO}"
| "allowed_intent_next BLOCKED = {TODO, IN_PROGRESS}"
| "allowed_intent_next DONE = {}"

definition can_transition_intent :: "task_intent \<Rightarrow> task_intent \<Rightarrow> bool" where
  "can_transition_intent current target \<longleftrightarrow> target \<in> allowed_intent_next current"

definition guard_intent_reasons :: "task_intent \<Rightarrow> task_intent \<Rightarrow> task_intent transition_reason list" where
  "guard_intent_reasons current target =
     (if current = target then [NoOpTransition current]
      else let reasons = (if current = DONE then [CurrentIsTerminal] else [])
           in if \<not> can_transition_intent current target \<and> reasons = []
              then reasons @ [NotInAllowedSet target (allowed_intent_next current)]
              else reasons)"

definition transition_intent :: "task_intent \<Rightarrow> task_intent \<Rightarrow> task_intent transition_error + task_intent" where
  "transition_intent current target =
     (let reasons = guard_intent_reasons current target
      in if reasons \<noteq> [] then Inl (IllegalTransition current target reasons) else Inr target)"

fun allowed_execution_next :: "task_execution \<Rightarrow> task_execution set" where
  "allowed_execution_next IDLE = {DISPATCHED}"
| "allowed_execution_next DISPATCHED = {RUNNING, IDLE, REPORTED}"
| "allowed_execution_next RUNNING = {REPORTED, IDLE}"
| "allowed_execution_next REPORTED = {VERIFYING, IDLE}"
| "allowed_execution_next VERIFYING = {IDLE}"

definition can_transition_execution :: "task_execution \<Rightarrow> task_execution \<Rightarrow> bool" where
  "can_transition_execution current target \<longleftrightarrow> target \<in> allowed_execution_next current"

definition guard_execution_reasons ::
  "task_execution \<Rightarrow> task_execution \<Rightarrow> task_execution transition_reason list" where
  "guard_execution_reasons current target =
     (if current = target then [NoOpTransition current]
      else if \<not> can_transition_execution current target
           then [NotInAllowedSet target (allowed_execution_next current)] else [])"

definition transition_execution ::
  "task_execution \<Rightarrow> task_execution \<Rightarrow> task_execution transition_error + task_execution" where
  "transition_execution current target =
     (let reasons = guard_execution_reasons current target
      in if reasons \<noteq> [] then Inl (IllegalTransition current target reasons) else Inr target)"

section \<open>The tables are what the operations enforce\<close>

lemma intent_irreflexive: "s \<notin> allowed_intent_next s"
  by (cases s) auto

lemma execution_irreflexive: "s \<notin> allowed_execution_next s"
  by (cases s) auto

lemma transition_intent_Inr:
  "transition_intent s t = Inr t' \<longleftrightarrow> t' = t \<and> t \<in> allowed_intent_next s"
  by (cases s; cases t)
    (auto simp: transition_intent_def guard_intent_reasons_def can_transition_intent_def Let_def)

lemma transition_execution_Inr:
  "transition_execution s t = Inr t' \<longleftrightarrow> t' = t \<and> t \<in> allowed_execution_next s"
  by (cases s; cases t)
    (auto simp: transition_execution_def guard_execution_reasons_def can_transition_execution_def Let_def)

interpretation intent: status_machine allowed_intent_next transition_intent
  by unfold_locales (auto simp: transition_intent_Inr)

interpretation execution: status_machine allowed_execution_next transition_execution
  by unfold_locales (auto simp: transition_execution_Inr)

lemma execution_reaches_idle: "(s, IDLE) \<in> {(a, b). b \<in> allowed_execution_next a}\<^sup>*"
proof (cases s)
  case IDLE
  then show ?thesis by simp
qed (auto intro: converse_rtrancl_into_rtrancl r_into_rtrancl)

text \<open>
  A sequence of intent changes through \<open>transition_intent\<close> that never raises stays inside the
  transition table, and once a node is \<open>DONE\<close> no further change is accepted at all.
\<close>

theorem intent_lifecycle:
  "(run_changes transition_intent s ts = Inr s' \<longrightarrow> (s, s') \<in> {(a, b). b \<in> allowed_intent_next a}\<^sup>*) \<and>
   (run_changes transition_intent DONE ts = Inr s' \<longrightarrow> ts = [] \<and> s' = DONE) \<and>
   (\<forall>t. \<exists>e. transition_intent DONE t = Inl e)"
  using intent.run_path [of s ts s'] intent.terminal_absorbs [of DONE ts s'] intent.rejected
  by auto

theorem intent_lifecycle_witness:
  "run_changes transition_intent TODO [IN_PROGRESS, BLOCKED, TODO, IN_PROGRESS, DONE] = Inr DONE \<and>
   (TODO, DONE) \<in> {(a, b). b \<in> allowed_intent_next a}\<^sup>* \<and> run_changes transition_intent DONE [] = Inr DONE"
proof -
  have "run_changes transition_intent TODO [IN_PROGRESS, BLOCKED, TODO, IN_PROGRESS, DONE] = Inr DONE"
    by (simp add: transition_intent_def guard_intent_reasons_def can_transition_intent_def)
  with intent_lifecycle [of TODO "[IN_PROGRESS, BLOCKED, TODO, IN_PROGRESS, DONE]" DONE]
  show ?thesis by simp
qed

section \<open>Construction and update of a node\<close>

text \<open>What a constructed node satisfies.\<close>

definition node_ok :: "plan_node \<Rightarrow> bool" where
  "node_ok n \<longleftrightarrow>
     node_plan_id n \<noteq> [] \<and> py_strip (node_title n) \<noteq> [] \<and> 0 \<le> node_priority n \<and>
     (node_kind n = GOAL \<longleftrightarrow> node_parent n = None) \<and> node_id n \<noteq> [] \<and> node_id n \<notin> set (node_depends n)"

lemma plan_node_init_Inr: "plan_node_init n = Inr n' \<longleftrightarrow> n' = n \<and> node_ok n"
  by (auto simp: plan_node_init_def node_ok_def plan_node_id_init_def)

lemma with_intent_Inr:
  "with_intent n i now = Inr n' \<longleftrightarrow> n' = n\<lparr>node_intent := i, node_updated_at := Some now\<rparr> \<and> node_ok n"
  by (auto simp: with_intent_def plan_node_init_Inr node_ok_def)

lemma with_execution_Inr:
  "with_execution n x now = Inr n' \<longleftrightarrow> n' = n\<lparr>node_execution := x, node_updated_at := Some now\<rparr> \<and> node_ok n"
  by (auto simp: with_execution_def plan_node_init_Inr node_ok_def)

lemma with_progress_Inr:
  "with_progress n p now = Inr n' \<longleftrightarrow> n' = n\<lparr>node_progress := p, node_updated_at := Some now\<rparr> \<and> node_ok n"
  by (auto simp: with_progress_def plan_node_init_Inr node_ok_def)

lemmas with_Inr = with_intent_Inr with_execution_Inr with_progress_Inr

lemma progress_init_Inr:
  "progress_init p = Inr p' \<longleftrightarrow>
     p' = p \<and> 0 \<le> progress_percent p \<and> progress_percent p \<le> 100 \<and>
     0 \<le> progress_confidence p \<and> progress_confidence p \<le> 1"
  by (auto simp: progress_init_def)

end
