(* ===== verification/PlanOrder.thy ===== *)
theory PlanOrder
  imports Plan
begin

text \<open>
  Correctness of \<open>Plan.topological_order\<close>: the loop invariant of Kahn's algorithm
  (\<open>kahn_inv\<close>: the in-degree table counts the dependencies that are not yet emitted, the emitted
  nodes and the queue are exactly the nodes at degree zero, and every emitted node comes after its
  dependencies), one lemma per part of a round, and the theorem that the algorithm returns a
  topological order exactly on acyclic dependency graphs. The loop always ends: each round either
  shortens the queue or moves a node out of the positive degrees (\<open>relax_measure\<close> in Plan).
\<close>

section \<open>Well-formed node dictionaries and the dependency graph\<close>

definition wf_nodes :: "(plan_node_id, plan_node) dict \<Rightarrow> bool" where
  "wf_nodes nodes \<longleftrightarrow>
     wf_dict nodes \<and> (\<forall>kn \<in> set nodes. node_id (snd kn) = fst kn \<and> distinct (node_depends (snd kn)))"

definition dep_rel :: "(plan_node_id, plan_node) dict \<Rightarrow> (plan_node_id \<times> plan_node_id) set" where
  "dep_rel nodes =
     {(a, b). \<exists>n. dict_get nodes b = Some n \<and> a \<in> set (node_depends n) \<and> a \<in> set (dict_keys nodes)}"

definition by_id :: "plan_node list \<Rightarrow> (plan_node_id, plan_node) dict" where
  "by_id ns = map (\<lambda>n. (node_id n, n)) ns"

definition open_deps :: "(plan_node_id, plan_node) dict \<Rightarrow> plan_node_id set \<Rightarrow> plan_node \<Rightarrow> plan_node_id list" where
  "open_deps nodes P n = filter (\<lambda>d. d \<in> set (dict_keys nodes) \<and> d \<notin> P) (node_depends n)"

lemma wf_nodes_by_id: "wf_nodes nodes \<Longrightarrow> by_id (dict_values nodes) = nodes"
  unfolding wf_nodes_def by_id_def by (induction nodes) (auto simp: wf_dict_def)

lemma wf_nodes_ids: "wf_nodes nodes \<Longrightarrow> map node_id (dict_values nodes) = dict_keys nodes"
  unfolding wf_nodes_def by (induction nodes) (auto simp: wf_dict_def)

lemma wf_nodes_get: "wf_nodes nodes \<Longrightarrow> dict_get nodes k = Some n \<Longrightarrow> node_id n = k \<and> distinct (node_depends n)"
  unfolding wf_nodes_def by (force dest: dict_get_mem)

lemma wf_nodes_mem: "wf_nodes nodes \<Longrightarrow> (k, n) \<in> set nodes \<longleftrightarrow> dict_get nodes k = Some n"
  unfolding wf_nodes_def by (simp add: dict_get_iff_mem)

lemma wf_nodes_values:
  assumes "wf_nodes nodes"
  shows "k \<in> set (map node_id (filter P (dict_values nodes))) \<longleftrightarrow> (\<exists>m. dict_get nodes k = Some m \<and> P m)"
proof -
  have "m \<in> set (dict_values nodes) \<longleftrightarrow> (\<exists>k. dict_get nodes k = Some m)" for m
    unfolding wf_nodes_mem [OF assms, symmetric] by (auto intro: rev_image_eqI)
  moreover have "dict_get nodes j = Some m \<Longrightarrow> node_id m = j" for j m
    using wf_nodes_get [OF assms] by blast
  ultimately show ?thesis by (auto simp del: set_map simp: set_map [of node_id] image_iff)
qed

lemma length_filter_without:
  "distinct xs \<Longrightarrow> x \<in> set xs \<Longrightarrow> P x \<Longrightarrow>
   length (filter P xs) = Suc (length (filter (\<lambda>y. P y \<and> y \<noteq> x) xs))"
proof (induction xs)
  case (Cons y ys)
  show ?case
  proof (cases "y = x")
    case True
    then have "filter (\<lambda>z. P z \<and> z \<noteq> x) ys = filter P ys"
      using Cons.prems by (intro filter_cong) auto
    with True Cons.prems show ?thesis by simp
  next
    case False
    with Cons show ?thesis by auto
  qed
qed simp

section \<open>The in-degree table\<close>

lemma count_edges_get:
  assumes "dict_get deg (node_id n) = Some c"
  shows "dict_keys (count_edges deg n) = dict_keys deg \<and>
     dict_get (count_edges deg n) j =
       (if j = node_id n then Some (c + int (length (filter (\<lambda>d. d \<in> set (dict_keys deg)) (node_depends n))))
        else dict_get deg j)"
proof -
  define bump where "bump = (\<lambda>deg dep. if dict_get deg dep \<noteq> None
    then dict_set (node_id n) (dict_get_default deg (node_id n) (0::int) + 1) deg else deg)"
  have "dict_keys (foldl bump deg deps) = dict_keys deg \<and> dict_get (foldl bump deg deps) j =
         (if j = node_id n then Some (c + int (length (filter (\<lambda>d. d \<in> set (dict_keys deg)) deps)))
          else dict_get deg j)" for deps
    using assms
  proof (induction deps arbitrary: deg c)
    case (Cons dep deps)
    show ?case
    proof (cases "dict_get deg dep = None")
      case True
      with Cons.IH [OF Cons.prems] show ?thesis by (simp add: dict_get_None_iff bump_def)
    next
      case False
      let ?deg = "dict_set (node_id n) (dict_get_default deg (node_id n) 0 + 1) deg"
      have keys: "dict_keys ?deg = dict_keys deg"
        using Cons.prems by (intro dict_keys_set_present) (rule dict_get_Some_key)
      have "dict_get ?deg (node_id n) = Some (c + 1)"
        using Cons.prems by (simp add: dict_get_set dict_get_default_def)
      from Cons.IH [OF this] False keys show ?thesis
        by (simp add: dict_get_None_iff dict_get_set bump_def)
    qed
  qed simp
  then show ?thesis by (simp add: count_edges_def bump_def)
qed

lemma count_edges_fold:
  assumes "distinct (map node_id ns)" and "node_id ` set ns \<subseteq> set (dict_keys deg)"
  shows "dict_keys (foldl count_edges deg ns) = dict_keys deg \<and>
     dict_get (foldl count_edges deg ns) j =
       (case dict_get (by_id ns) j of
          None \<Rightarrow> dict_get deg j
        | Some n \<Rightarrow> map_option (\<lambda>c. c + int (length (filter (\<lambda>d. d \<in> set (dict_keys deg)) (node_depends n))))
                      (dict_get deg j))"
  using assms
proof (induction ns arbitrary: deg)
  case (Cons n ns)
  then obtain c where c: "dict_get deg (node_id n) = Some c"
    using dict_get_None_iff [of deg "node_id n"] by fastforce
  note step = count_edges_get [OF c]
  have "dict_get (by_id ns) (node_id n) = None"
    using Cons.prems(1) by (auto simp: by_id_def dict_get_None_iff)
  moreover have "node_id ` set ns \<subseteq> set (dict_keys (count_edges deg n))"
    using step Cons.prems(2) by simp
  ultimately show ?case
    using Cons.IH [of "count_edges deg n"] Cons.prems(1) step c
    by (auto simp: by_id_def split: option.splits)
qed (simp add: by_id_def)

lemma in_degrees_spec:
  assumes wf: "wf_nodes nodes"
  shows "dict_keys (in_degrees nodes) = dict_keys nodes \<and>
    (\<forall>k n. dict_get nodes k = Some n \<longrightarrow>
       dict_get (in_degrees nodes) k = Some (int (length (open_deps nodes {} n))))"
proof -
  let ?zero = "map (\<lambda>kn. (fst kn, 0 :: int)) nodes"
  have keys: "dict_keys ?zero = dict_keys nodes" by (simp add: comp_def)
  have zero: "k \<in> set (dict_keys nodes) \<Longrightarrow> dict_get ?zero k = Some 0" for k
    by (induction nodes) auto
  have "distinct (map node_id (dict_values nodes))" "node_id ` set (dict_values nodes) \<subseteq> set (dict_keys ?zero)"
    unfolding keys set_map [symmetric] wf_nodes_ids [OF wf] using wf by (auto simp: wf_nodes_def wf_dict_def)
  note spec = count_edges_fold [OF this]
  have "dict_get (in_degrees nodes) k = Some (int (length (open_deps nodes {} n)))"
    if n: "dict_get nodes k = Some n" for k n
    using spec [of k] zero [OF dict_get_Some_key [OF n]] n
    by (simp add: in_degrees_def open_deps_def wf_nodes_by_id [OF wf] comp_def)
  with spec keys show ?thesis by (simp add: in_degrees_def)
qed

section \<open>One round of the loop\<close>

lemma relax_spec:
  assumes "distinct (map node_id ms)" and "node_id ` set ms \<subseteq> set (dict_keys deg)"
  shows "\<exists>deg'. relax nid ms deg q =
           Inr (deg', q @ map node_id (filter (\<lambda>m. nid \<in> set (node_depends m) \<and>
                                               dict_get deg (node_id m) = Some 1) ms)) \<and>
     dict_keys deg' = dict_keys deg \<and>
     (\<forall>j. dict_get deg' j = (case dict_get (by_id ms) j of
        None \<Rightarrow> dict_get deg j
      | Some m \<Rightarrow> map_option (\<lambda>c. if nid \<in> set (node_depends m) then c - 1 else c) (dict_get deg j)))"
  using assms
proof (induction ms arbitrary: deg q)
  case (Cons m ms)
  then obtain c where c: "dict_get deg (node_id m) = Some c"
    using dict_get_None_iff [of deg "node_id m"] by fastforce
  have fresh: "dict_get (by_id ms) (node_id m) = None"
    using Cons.prems(1) by (auto simp: by_id_def dict_get_None_iff)
  let ?deg = "if nid \<in> set (node_depends m) then dict_set (node_id m) (c - 1) deg else deg"
  have keys: "dict_keys ?deg = dict_keys deg"
    using dict_keys_set_present [OF dict_get_Some_key [OF c]] by simp
  have new: "filter (\<lambda>m. nid \<in> set (node_depends m) \<and> dict_get ?deg (node_id m) = Some 1) ms =
             filter (\<lambda>m. nid \<in> set (node_depends m) \<and> dict_get deg (node_id m) = Some 1) ms"
    using Cons.prems(1) by (intro filter_cong) (auto simp: dict_get_set image_iff)
  let ?q = "if nid \<in> set (node_depends m) \<and> c - 1 = 0 then q @ [node_id m] else q"
  from Cons.prems keys Cons.IH [of ?deg ?q] obtain deg' where
      r: "relax nid ms ?deg ?q = Inr (deg', ?q @ map node_id
            (filter (\<lambda>m. nid \<in> set (node_depends m) \<and> dict_get deg (node_id m) = Some 1) ms))"
    and k: "dict_keys deg' = dict_keys deg"
    and g: "\<And>j. dict_get deg' j = (case dict_get (by_id ms) j of None \<Rightarrow> dict_get ?deg j
        | Some m \<Rightarrow> map_option (\<lambda>c. if nid \<in> set (node_depends m) then c - 1 else c) (dict_get ?deg j))"
    unfolding new by (auto simp del: map_of.simps)
  have "dict_get deg' j = (case dict_get (by_id (m # ms)) j of None \<Rightarrow> dict_get deg j
      | Some m \<Rightarrow> map_option (\<lambda>c. if nid \<in> set (node_depends m) then c - 1 else c) (dict_get deg j))" for j
    using g [of j] fresh c by (cases "j = node_id m") (simp_all add: by_id_def dict_get_set split: option.splits)
  with r k c show ?case by (cases "nid \<in> set (node_depends m)") auto
qed (simp add: by_id_def)

definition kahn_inv :: "(plan_node_id, plan_node) dict \<Rightarrow> (plan_node_id, int) dict \<Rightarrow> plan_node_id list
    \<Rightarrow> plan_node list \<Rightarrow> bool" where
  "kahn_inv nodes deg q order \<longleftrightarrow>
     dict_keys deg = dict_keys nodes \<and>
     (\<forall>k n. dict_get nodes k = Some n \<longrightarrow>
        dict_get deg k = Some (int (length (open_deps nodes (node_id ` set order) n)))) \<and>
     distinct (map node_id order @ q) \<and>
     (\<forall>k. k \<in> node_id ` set order \<union> set q \<longleftrightarrow> dict_get deg k = Some 0) \<and>
     (\<forall>n \<in> set order. dict_get nodes (node_id n) = Some n) \<and>
     (\<forall>xs n ys. order = xs @ n # ys \<longrightarrow> set (node_depends n) \<inter> set (dict_keys nodes) \<subseteq> node_id ` set xs)"

lemma kahn_invD:
  assumes "kahn_inv nodes deg q order"
  shows "dict_keys deg = dict_keys nodes"
    and "dict_get nodes k = Some n \<Longrightarrow>
           dict_get deg k = Some (int (length (open_deps nodes (node_id ` set order) n)))"
    and "distinct (map node_id order @ q)"
    and "k \<in> node_id ` set order \<union> set q \<longleftrightarrow> dict_get deg k = Some 0"
    and "n \<in> set order \<Longrightarrow> dict_get nodes (node_id n) = Some n"
    and "order = xs @ n # ys \<Longrightarrow> set (node_depends n) \<inter> set (dict_keys nodes) \<subseteq> node_id ` set xs"
  using assms unfolding kahn_inv_def by blast+

lemma kahn_inv_perm: "kahn_inv nodes deg q order \<Longrightarrow> mset q' = mset q \<Longrightarrow> kahn_inv nodes deg q' order"
proof -
  assume "kahn_inv nodes deg q order" and "mset q' = mset q"
  then show ?thesis
    using mset_eq_setD [of q' q] mset_eq_imp_distinct_iff [of q' q] by (simp add: kahn_inv_def)
qed

lemma kahn_inv_zero: "kahn_inv nodes deg q order \<Longrightarrow> k \<in> set q \<Longrightarrow> dict_get deg k = Some 0"
  using kahn_invD(4) [of nodes deg q order k] by blast

lemma kahn_inv_node:
  assumes "kahn_inv nodes deg q order" and "dict_get deg k = Some c"
  obtains n where "dict_get nodes k = Some n"
  using dict_get_Some_key [OF assms(2)] kahn_invD(1) [OF assms(1)] dict_get_None_iff [of nodes k]
  by (metis not_None_eq)

lemma open_deps_insert:
  assumes "distinct (node_depends m)" and "nid \<in> set (dict_keys nodes)" and "nid \<notin> P"
  shows "length (open_deps nodes P m) =
    (if nid \<in> set (node_depends m) then 1 else 0) + length (open_deps nodes (insert nid P) m)"
proof -
  have "open_deps nodes (insert nid P) m = filter (\<lambda>y. (y \<in> set (dict_keys nodes) \<and> y \<notin> P) \<and> y \<noteq> nid) (node_depends m)"
    unfolding open_deps_def by (rule filter_cong) auto
  moreover have "filter (\<lambda>y. (y \<in> set (dict_keys nodes) \<and> y \<notin> P) \<and> y \<noteq> nid) (node_depends m) = open_deps nodes P m"
    if "nid \<notin> set (node_depends m)"
    unfolding open_deps_def using that by (intro filter_cong) auto
  ultimately show ?thesis
    using length_filter_without [of "node_depends m" nid "\<lambda>y. y \<in> set (dict_keys nodes) \<and> y \<notin> P"] assms
    by (simp add: open_deps_def)
qed

lemma open_deps_Nil: "open_deps nodes P m = [] \<longleftrightarrow> set (node_depends m) \<inter> set (dict_keys nodes) \<subseteq> P"
  by (auto simp: open_deps_def filter_empty_conv)

text \<open>Popping \<open>nid\<close> turns the table of open dependencies of \<open>P\<close> into that of \<open>P \<union> {nid}\<close>.\<close>

lemma kahn_relax:
  assumes wf: "wf_nodes nodes" and inv: "kahn_inv nodes deg (nid # rest) order"
    and n: "dict_get nodes nid = Some n"
  shows "\<exists>deg' new. relax nid (dict_values nodes) deg rest = Inr (deg', rest @ new) \<and>
    dict_keys deg' = dict_keys nodes \<and> distinct new \<and>
    (\<forall>k m. dict_get nodes k = Some m \<longrightarrow>
       dict_get deg' k = Some (int (length (open_deps nodes (insert nid (node_id ` set order)) m)))) \<and>
    (\<forall>k. k \<in> set new \<longleftrightarrow> dict_get deg' k = Some 0 \<and> dict_get deg k \<noteq> Some 0)"
proof -
  let ?P = "node_id ` set order"
  note keys = kahn_invD(1) [OF inv] and deg = kahn_invD(2) [OF inv]
  have ids: "distinct (map node_id (dict_values nodes))" "node_id ` set (dict_values nodes) \<subseteq> set (dict_keys deg)"
    unfolding keys set_map [symmetric] wf_nodes_ids [OF wf] using wf by (auto simp: wf_nodes_def wf_dict_def)
  let ?new = "map node_id (filter (\<lambda>m. nid \<in> set (node_depends m) \<and> dict_get deg (node_id m) = Some 1) (dict_values nodes))"
  obtain deg' where r: "relax nid (dict_values nodes) deg rest = Inr (deg', rest @ ?new)"
    and keys': "dict_keys deg' = dict_keys deg"
    and get': "\<And>j. dict_get deg' j = (case dict_get nodes j of None \<Rightarrow> dict_get deg j
        | Some m \<Rightarrow> map_option (\<lambda>c. if nid \<in> set (node_depends m) then c - 1 else c) (dict_get deg j))"
    using relax_spec [OF ids, of nid rest] unfolding wf_nodes_by_id [OF wf] by blast
  have nid: "nid \<in> set (dict_keys nodes)" "nid \<notin> ?P"
    using dict_get_Some_key [OF n] kahn_invD(3) [OF inv] by auto
  have count: "dict_get deg' k = Some (int (length (open_deps nodes (insert nid ?P) m)))"
    if m: "dict_get nodes k = Some m" for k m
    using get' [of k] deg [OF m] m open_deps_insert [of m nid nodes ?P] wf_nodes_get [OF wf m] nid by simp
  have new: "k \<in> set ?new \<longleftrightarrow> dict_get deg' k = Some 0 \<and> dict_get deg k \<noteq> Some 0" for k
  proof (cases "dict_get nodes k")
    case None
    then show ?thesis
      using get' [of k] wf_nodes_values [OF wf, of k] by simp
  next
    case (Some m)
    then have "node_id m = k" using wf_nodes_get [OF wf] by blast
    then have w: "k \<in> set ?new \<longleftrightarrow> nid \<in> set (node_depends m) \<and> dict_get deg k = Some 1"
      using Some wf_nodes_values [OF wf, of k] by simp
    show ?thesis unfolding w using get' [of k] deg [OF Some] Some by (auto simp: length_Suc_conv)
  qed
  have keys'': "dict_keys deg' = dict_keys nodes" using keys keys' by simp
  show ?thesis
    by (intro exI [of _ deg'] exI [of _ ?new] conjI allI impI r keys'' distinct_map_filter [OF ids(1)] count new)
qed

lemma kahn_step:
  assumes wf: "wf_nodes nodes" and inv: "kahn_inv nodes deg (nid # rest) order"
  shows "\<exists>n deg' q'. dict_get nodes nid = Some n \<and>
    relax nid (dict_values nodes) deg rest = Inr (deg', q') \<and> kahn_inv nodes deg' q' (order @ [n])"
proof -
  have zero: "dict_get deg nid = Some 0" by (rule kahn_inv_zero [OF inv]) simp
  then obtain n where n: "dict_get nodes nid = Some n" by (rule kahn_inv_node [OF inv])
  then have id: "node_id n = nid" using wf_nodes_get [OF wf] by blast
  obtain deg' new where r: "relax nid (dict_values nodes) deg rest = Inr (deg', rest @ new)"
    and keys': "dict_keys deg' = dict_keys nodes" and dist: "distinct new"
    and count: "\<forall>k m. dict_get nodes k = Some m \<longrightarrow>
           dict_get deg' k = Some (int (length (open_deps nodes (insert nid (node_id ` set order)) m)))"
    and new: "\<forall>k. k \<in> set new \<longleftrightarrow> dict_get deg' k = Some 0 \<and> dict_get deg k \<noteq> Some 0"
    using kahn_relax [OF wf inv n] by blast
  have mono: "dict_get deg' k = Some 0" if k: "dict_get deg k = Some 0" for k
  proof -
    obtain m where m: "dict_get nodes k = Some m" by (rule kahn_inv_node [OF inv k])
    then have "open_deps nodes (node_id ` set order) m = []" using kahn_invD(2) [OF inv m] k by simp
    then have "open_deps nodes (insert nid (node_id ` set order)) m = []" by (auto simp: open_deps_Nil)
    with count m show ?thesis by simp
  qed
  have "distinct (map node_id (order @ [n]) @ rest @ new)"
    using kahn_invD(3) [OF inv] kahn_invD(4) [OF inv] new dist id by auto
  moreover have "k \<in> node_id ` set (order @ [n]) \<union> set (rest @ new) \<longleftrightarrow> dict_get deg' k = Some 0" for k
    using kahn_invD(4) [OF inv, of k] new mono [of k] id by auto
  moreover have "open_deps nodes (node_id ` set order) n = []" using kahn_invD(2) [OF inv n] zero by simp
  then have "set (node_depends m) \<inter> set (dict_keys nodes) \<subseteq> node_id ` set xs"
    if "order @ [n] = xs @ m # ys" for xs m ys
    using that kahn_invD(6) [OF inv] open_deps_Nil by (cases ys rule: rev_cases) auto
  moreover have "insert nid (node_id ` set order) = node_id ` set (order @ [n])" using id by simp
  moreover have "dict_get nodes (node_id m) = Some m" if "m \<in> set (order @ [n])" for m
    using that kahn_invD(5) [OF inv] n id by auto
  ultimately have "kahn_inv nodes deg' (rest @ new) (order @ [n])"
    unfolding kahn_inv_def using keys' count by metis
  with n r show ?thesis by blast
qed


lemma topo_loop_correct:
  assumes "wf_nodes nodes" and "kahn_inv nodes deg q order"
  shows "\<exists>order' deg'. topo_loop nodes deg q order = Inr order' \<and> kahn_inv nodes deg' [] order'"
  using assms
proof (induction nodes deg q order rule: topo_loop.induct)
  case (1 nodes deg q order)
  show ?case
  proof (cases "q = []")
    case True
    with 1 show ?thesis by (auto simp: topo_loop.simps)
  next
    case False
    have "dict_get nodes k \<noteq> None" if "k \<in> set q" for k
      using kahn_inv_node [OF "1.prems"(2) kahn_inv_zero [OF "1.prems"(2) that]] by blast
    then have "find (\<lambda>k. dict_get nodes k = None) q = None" by (auto simp: find_None_iff)
    then obtain q' where q': "sort_queue nodes q = Inr q'" by (simp add: sort_queue_def)
    with False obtain nid rest where nr: "q' = nid # rest"
      using sort_queue_props [OF q'] by (cases q') auto
    have "kahn_inv nodes deg (nid # rest) order"
      using kahn_inv_perm [OF "1.prems"(2)] sort_queue_props [OF q'] nr by simp
    then obtain n deg' q'' where s: "dict_get nodes nid = Some n"
        "relax nid (dict_values nodes) deg rest = Inr (deg', q'')" "kahn_inv nodes deg' q'' (order @ [n])"
      using kahn_step [OF "1.prems"(1)] by blast
    with "1.IH" [OF False q' nr s(1) s(2) refl "1.prems"(1) s(3)] False q' nr
    show ?thesis by (simp add: topo_loop.simps [of nodes deg q order])
  qed
qed

section \<open>Kahn's algorithm decides acyclicity\<close>

lemma kahn_inv_init:
  assumes wf: "wf_nodes nodes"
  shows "kahn_inv nodes (in_degrees nodes) (map fst (filter (\<lambda>kd. snd kd = 0) (in_degrees nodes))) []"
proof -
  note spec = in_degrees_spec [OF wf]
  have wfd: "wf_dict (in_degrees nodes)" using wf spec by (simp add: wf_nodes_def wf_dict_def)
  then have "k \<in> set (map fst (filter (\<lambda>kd. snd kd = 0) (in_degrees nodes))) \<longleftrightarrow> dict_get (in_degrees nodes) k = Some 0" for k
    by (force simp: dict_get_iff_mem)
  then show ?thesis
    using spec wfd by (simp add: kahn_inv_def wf_dict_def distinct_map_filter)
qed

lemma topo_final:
  assumes wf: "wf_nodes nodes" and inv: "kahn_inv nodes deg [] order"
  shows "node_id ` set order \<subseteq> set (dict_keys nodes)"
    and "length order = length nodes \<longleftrightarrow> node_id ` set order = set (dict_keys nodes)"
proof -
  show sub: "node_id ` set order \<subseteq> set (dict_keys nodes)"
    by (rule image_subsetI) (rule dict_get_Some_key [OF kahn_invD(5) [OF inv]])
  have "card (set (dict_keys nodes)) = length nodes"
    using wf distinct_card [of "dict_keys nodes"] by (simp add: wf_nodes_def wf_dict_def)
  moreover have "card (node_id ` set order) = length order"
    using kahn_invD(3) [OF inv] distinct_card [of "map node_id order"] by simp
  ultimately show "length order = length nodes \<longleftrightarrow> node_id ` set order = set (dict_keys nodes)"
    using card_subset_eq [OF _ sub] by auto
qed

lemma topo_final_acyclic:
  assumes wf: "wf_nodes nodes" and inv: "kahn_inv nodes deg [] order"
    and len: "node_id ` set order = set (dict_keys nodes)"
  shows "acyclic (dep_rel nodes)"
proof -
  define rank where "rank k = (LEAST i. i < length order \<and> node_id (order ! i) = k)" for k
  have "rank a < rank b" if ab: "(a, b) \<in> dep_rel nodes" for a b
  proof -
    obtain n where n: "dict_get nodes b = Some n" "a \<in> set (node_depends n)" "a \<in> set (dict_keys nodes)"
      using ab by (auto simp: dep_rel_def simp del: set_map)
    have "b \<in> node_id ` set order" using len dict_get_Some_key [OF n(1)] by simp
    then have ex: "\<exists>i. i < length order \<and> node_id (order ! i) = b" by (auto simp: in_set_conv_nth)
    then have rb: "rank b < length order" "node_id (order ! rank b) = b"
      unfolding rank_def using LeastI_ex [OF ex] by auto
    have "order ! rank b = n"
      using kahn_invD(5) [OF inv nth_mem [OF rb(1)]] rb(2) n(1) by simp
    then have "order = take (rank b) order @ n # drop (Suc (rank b)) order"
      using id_take_nth_drop [OF rb(1)] by simp
    then have "a \<in> node_id ` set (take (rank b) order)" using kahn_invD(6) [OF inv] n(2,3) by blast
    then obtain i where "i < rank b" "i < length order" "node_id (order ! i) = a"
      by (auto simp: in_set_conv_nth)
    then have "rank a \<le> i" unfolding rank_def by (intro Least_le) simp
    with \<open>i < rank b\<close> show ?thesis by simp
  qed
  then have "dep_rel nodes \<subseteq> measure rank" by (auto simp: in_measure)
  then show ?thesis using wf_acyclic wf_measure acyclic_subset by blast
qed

lemma wf_dep_rel: "acyclic (dep_rel nodes) \<Longrightarrow> wf (dep_rel nodes)"
proof -
  assume ac: "acyclic (dep_rel nodes)"
  have "dep_rel nodes \<subseteq> set (dict_keys nodes) \<times> set (dict_keys nodes)"
    using dict_get_Some_key by (auto simp: dep_rel_def simp del: set_map)
  then have "finite (dep_rel nodes)" by (rule finite_subset) simp
  from this ac show ?thesis by (rule finite_acyclic_wf)
qed

lemma topo_final_cyclic:
  assumes wf: "wf_nodes nodes" and inv: "kahn_inv nodes deg [] order"
    and ne: "node_id ` set order \<noteq> set (dict_keys nodes)"
  shows "\<not> acyclic (dep_rel nodes)"
proof
  assume ac: "acyclic (dep_rel nodes)"
  let ?U = "set (dict_keys nodes) - node_id ` set order"
  obtain x where "x \<in> ?U" using topo_final(1) [OF wf inv] ne by blast
  then obtain z where z: "z \<in> ?U" "\<And>y. (y, z) \<in> dep_rel nodes \<Longrightarrow> y \<notin> ?U"
    by (rule wfE_min [OF wf_dep_rel [OF ac]]) blast
  then obtain n where n: "dict_get nodes z = Some n" using dict_get_None_iff [of nodes z] by auto
  have "dict_get deg z \<noteq> Some 0" using z(1) kahn_invD(4) [OF inv, of z] by auto
  then have "open_deps nodes (node_id ` set order) n \<noteq> []" using kahn_invD(2) [OF inv n] by auto
  then obtain d where "d \<in> set (node_depends n)" "d \<in> ?U" by (auto simp: open_deps_Nil simp del: set_map)
  with z(2) [of d] n show False by (auto simp: dep_rel_def)
qed

lemma topological_order_cases:
  assumes wf: "wf_nodes (plan_nodes p)"
  shows "\<exists>deg order. kahn_inv (plan_nodes p) deg [] order \<and> topological_order p =
    (if length order \<noteq> length (plan_nodes p) then Inl DependencyCycle else Inr order)"
proof -
  obtain order deg where "topo_loop (plan_nodes p) (in_degrees (plan_nodes p))
      (map fst (filter (\<lambda>kd. snd kd = 0) (in_degrees (plan_nodes p)))) [] = Inr order"
    and inv: "kahn_inv (plan_nodes p) deg [] order"
    using topo_loop_correct [OF wf kahn_inv_init [OF wf]] by blast
  then have "topological_order p = (if length order \<noteq> length (plan_nodes p) then Inl DependencyCycle else Inr order)"
    by (simp add: topological_order_def)
  with inv show ?thesis by blast
qed

lemma topological_order_acyclic:
  assumes wf: "wf_nodes (plan_nodes p)"
  shows "acyclic (dep_rel (plan_nodes p)) \<longleftrightarrow> (\<exists>order. topological_order p = Inr order)"
    and "\<not> acyclic (dep_rel (plan_nodes p)) \<longleftrightarrow> topological_order p = Inl DependencyCycle"
proof -
  obtain deg order where inv: "kahn_inv (plan_nodes p) deg [] order"
    and res: "topological_order p = (if length order \<noteq> length (plan_nodes p) then Inl DependencyCycle else Inr order)"
    using topological_order_cases [OF wf] by blast
  have "acyclic (dep_rel (plan_nodes p)) \<longleftrightarrow> length order = length (plan_nodes p)"
    using topo_final_acyclic [OF wf inv] topo_final_cyclic [OF wf inv] topo_final(2) [OF wf inv] by blast
  with res show "acyclic (dep_rel (plan_nodes p)) \<longleftrightarrow> (\<exists>order. topological_order p = Inr order)"
    and "\<not> acyclic (dep_rel (plan_nodes p)) \<longleftrightarrow> topological_order p = Inl DependencyCycle" by auto
qed

lemma topological_order_sound:
  assumes wf: "wf_nodes (plan_nodes p)" and res: "topological_order p = Inr order"
  shows "mset order = mset (dict_values (plan_nodes p))"
    and "order = xs @ n # ys \<Longrightarrow> set (node_depends n) \<inter> set (dict_keys (plan_nodes p)) \<subseteq> node_id ` set xs"
proof -
  obtain deg where inv: "kahn_inv (plan_nodes p) deg [] order" and len: "length order = length (plan_nodes p)"
    using topological_order_cases [OF wf] res by (auto split: if_splits)
  have ids: "node_id ` set order = set (dict_keys (plan_nodes p))" using topo_final(2) [OF wf inv] len by simp
  have vals: "n \<in> set (dict_values (plan_nodes p)) \<longleftrightarrow> dict_get (plan_nodes p) (node_id n) = Some n" for n
    using wf_nodes_values [OF wf, of "node_id n" "\<lambda>m. m = n"] by (auto simp: image_iff)
  have "n \<in> set order \<longleftrightarrow> n \<in> set (dict_values (plan_nodes p))" for n
    using vals [of n] kahn_invD(5) [OF inv] ids dict_get_Some_key [of "plan_nodes p" "node_id n" n]
    by (metis image_iff option.inject)
  then have "set order = set (dict_values (plan_nodes p))" by blast
  moreover have "distinct (dict_values (plan_nodes p))"
    using wf wf_nodes_ids [OF wf] by (metis distinct_map wf_dict_def wf_nodes_def)
  moreover have "distinct order" using kahn_invD(3) [OF inv] by (simp add: distinct_map)
  ultimately show "mset order = mset (dict_values (plan_nodes p))"
    using set_eq_iff_mset_eq_distinct by blast
  show "order = xs @ n # ys \<Longrightarrow> set (node_depends n) \<inter> set (dict_keys (plan_nodes p)) \<subseteq> node_id ` set xs"
    by (rule kahn_invD(6) [OF inv])
qed

section \<open>The theorem\<close>

text \<open>
  C1: on a plan whose dictionary is keyed by node id and whose \<open>depends_on\<close> sets have no duplicates,
  \<open>topological_order\<close> returns if and only if the dependencies among the plan's nodes are acyclic;
  then the result is a permutation of the plan's nodes in which every node comes after all of its
  dependencies that belong to the plan. On a cyclic graph it raises the cycle error.
\<close>

theorem topological_order_correct:
  assumes "wf_nodes (plan_nodes p)"
  shows "(acyclic (dep_rel (plan_nodes p)) \<longrightarrow>
            (\<exists>order. topological_order p = Inr order \<and> mset order = mset (dict_values (plan_nodes p)) \<and>
               (\<forall>xs n ys. order = xs @ n # ys \<longrightarrow>
                  set (node_depends n) \<inter> set (dict_keys (plan_nodes p)) \<subseteq> node_id ` set xs))) \<and>
         (\<not> acyclic (dep_rel (plan_nodes p)) \<longrightarrow> topological_order p = Inl DependencyCycle)"
  using topological_order_acyclic [OF assms] topological_order_sound [OF assms] by metis

definition sample_node :: "string \<Rightarrow> string option \<Rightarrow> plan_node_kind \<Rightarrow> string list \<Rightarrow> int \<Rightarrow> plan_node" where
  "sample_node i par kind deps prio =
     \<lparr>node_id = i, node_plan_id = ''p'', node_parent = par, node_kind = kind, node_title = i,
      node_description = [], node_depends = deps, node_capabilities = [], node_preferred_agent = None,
      node_effort = \<lparr>effort_minutes = 0, effort_confidence = 1 / 2\<rparr>, node_priority = prio,
      node_intent = TODO, node_execution = IDLE,
      node_progress = \<lparr>progress_percent = 0, progress_confidence = 1, progress_note = []\<rparr>,
      node_assignee = None, node_attempt = None, node_task_id = None,
      node_created_at = 0, node_updated_at = None, node_completed_at = None\<rparr>"

definition sample_plan :: "plan_node list \<Rightarrow> plan" where
  "sample_plan ns =
     \<lparr>plan_id = ''p'', plan_workspace_id = ''w'', plan_goal_id = ''g'', plan_nodes = by_id ns,
      plan_status = DRAFT, plan_created_at = 0, plan_updated_at = None\<rparr>"

definition diamond :: plan where
  "diamond = sample_plan
     [sample_node ''g'' None GOAL [] 0, sample_node ''a'' (Some ''g'') TASK [] 1,
      sample_node ''b'' (Some ''g'') TASK [''a''] 1, sample_node ''c'' (Some ''g'') TASK [''a''] 5,
      sample_node ''d'' (Some ''g'') VERIFY [''b'', ''c''] 0]"

lemma diamond_order:
  "map_sum id (map node_id) (topological_order diamond) = Inr [''a'', ''c'', ''b'', ''g'', ''d'']"
  by code_simp

lemma diamond_wf: "wf_nodes (plan_nodes diamond)"
  by (simp add: diamond_def sample_plan_def sample_node_def by_id_def wf_nodes_def wf_dict_def)

theorem topological_order_correct_witness:
  "wf_nodes (plan_nodes diamond) \<and>
   (\<exists>order. topological_order diamond = Inr order \<and> mset order = mset (dict_values (plan_nodes diamond)))"
proof -
  have "topological_order diamond \<noteq> Inl DependencyCycle" using diamond_order by auto
  with topological_order_correct [OF diamond_wf] diamond_wf show ?thesis by blast
qed

end
