(* ===== verification/PlanBuild.thy ===== *)
theory PlanBuild
  imports PlanOrder
begin

text \<open>
  Plans as the program makes them: grown from the empty plan by \<open>add_node\<close> with constructed nodes,
  then driven by \<open>replace_node\<close> with nodes whose status axes moved along the transition tables.
  The invariant \<open>plan_built\<close> (every node's parent and dependencies were added before it) gives
  that such a plan validates, that \<open>descendants_of\<close> ends on it and returns the transitive
  children, and that the scheduling frontier \<open>ready_nodes\<close> is not empty while work is left.
\<close>

section \<open>The invariant of plans built by \<open>add_node\<close>\<close>

fun ordered_from :: "plan_node_id \<Rightarrow> plan_node_id set \<Rightarrow> (plan_node_id, plan_node) dict \<Rightarrow> bool" where
  "ordered_from g seen [] = True"
| "ordered_from g seen ((k, n) # nodes) =
     (node_id n = k \<and> k \<notin> seen \<and> node_ok n \<and> distinct (node_depends n) \<and> set (node_depends n) \<subseteq> seen \<and>
      (case node_parent n of None \<Rightarrow> k = g | Some q \<Rightarrow> q \<in> seen) \<and> ordered_from g (insert k seen) nodes)"

definition plan_built :: "plan \<Rightarrow> bool" where
  "plan_built p \<longleftrightarrow> ordered_from (plan_goal_id p) {} (plan_nodes p)"

lemma ordered_from_append:
  "ordered_from g seen (xs @ ys) \<longleftrightarrow> ordered_from g seen xs \<and> ordered_from g (seen \<union> set (dict_keys xs)) ys"
  by (induction g seen xs rule: ordered_from.induct) auto

lemma ordered_from_keys: "ordered_from g seen nodes \<Longrightarrow> distinct (dict_keys nodes) \<and> set (dict_keys nodes) \<inter> seen = {}"
  by (induction g seen nodes rule: ordered_from.induct) auto

lemma ordered_from_mem:
  "ordered_from g seen nodes \<Longrightarrow> (k, n) \<in> set nodes \<Longrightarrow>
   node_id n = k \<and> node_ok n \<and> distinct (node_depends n) \<and> set (node_depends n) \<subseteq> seen \<union> set (dict_keys nodes) \<and>
   (case node_parent n of None \<Rightarrow> k = g | Some q \<Rightarrow> q \<in> seen \<union> set (dict_keys nodes))"
  by (induction g seen nodes rule: ordered_from.induct) (auto split: option.splits)

lemma ordered_from_wf: "ordered_from g seen nodes \<Longrightarrow> wf_nodes nodes"
  using ordered_from_keys [of g seen nodes] ordered_from_mem [of g seen nodes]
  by (auto simp: wf_nodes_def wf_dict_def)

text \<open>The position at which a node was added ranks both the dependency and the parent relation.\<close>

fun position :: "(plan_node_id, plan_node) dict \<Rightarrow> plan_node_id \<Rightarrow> nat" where
  "position [] k = 0"
| "position ((j, n) # nodes) k = (if j = k then 0 else Suc (position nodes k))"

lemma position_append: "k \<in> set (dict_keys xs) \<Longrightarrow> position (xs @ ys) k = position xs k"
  by (induction xs) (force split: if_splits)+

lemma position_less: "k \<in> set (dict_keys xs) \<Longrightarrow> position xs k < length xs"
  by (induction xs) (force split: if_splits)+

lemma position_new: "k \<notin> set (dict_keys xs) \<Longrightarrow> position (xs @ (k, n) # ys) k = length xs"
  by (induction xs) auto

lemma ordered_from_split:
  assumes "ordered_from g {} nodes" and "dict_get nodes k = Some n"
  obtains xs ys where "nodes = xs @ (k, n) # ys" and "k \<notin> set (dict_keys xs)"
    and "set (node_depends n) \<subseteq> set (dict_keys xs)"
    and "case node_parent n of None \<Rightarrow> k = g | Some q \<Rightarrow> q \<in> set (dict_keys xs)"
proof -
  obtain xs ys where split: "nodes = xs @ (k, n) # ys"
    using dict_get_mem [OF assms(2)] by (auto simp: in_set_conv_decomp)
  moreover have "ordered_from g (set (dict_keys xs)) ((k, n) # ys)"
    using assms(1) unfolding split ordered_from_append by simp
  ultimately show ?thesis using that by (auto simp del: set_map)
qed

lemma built_position:
  assumes "plan_built p" and "dict_get (plan_nodes p) k = Some n" and "d \<in> set (node_depends n) \<or> node_parent n = Some d"
  shows "position (plan_nodes p) d < position (plan_nodes p) k" and "d \<in> set (dict_keys (plan_nodes p))"
proof -
  obtain xs ys where split: "plan_nodes p = xs @ (k, n) # ys" "k \<notin> set (dict_keys xs)"
    and d: "d \<in> set (dict_keys xs)"
    using ordered_from_split [OF assms(1) [unfolded plan_built_def] assms(2)] assms(3)
    by (metis option.simps(5) subsetD)
  show "position (plan_nodes p) d < position (plan_nodes p) k"
    using position_append [OF d, of "(k, n) # ys"] position_less [OF d] position_new [OF split(2), of n ys]
    by (simp add: split(1))
  show "d \<in> set (dict_keys (plan_nodes p))" using d by (simp add: split(1))
qed

lemma built_wf: "plan_built p \<Longrightarrow> wf_nodes (plan_nodes p)"
  by (auto simp: plan_built_def dest: ordered_from_wf)

lemma built_head: "plan_built p \<Longrightarrow> plan_nodes p = (k, n) # nodes \<Longrightarrow> k = plan_goal_id p \<and> node_parent n = None"
  by (auto simp: plan_built_def split: option.splits)

lemma built_node:
  assumes "plan_built p" and "dict_get (plan_nodes p) k = Some n"
  shows "node_id n = k" and "node_ok n" and "node_kind n = GOAL \<longleftrightarrow> k = plan_goal_id p"
proof -
  note facts = ordered_from_mem [OF assms(1) [unfolded plan_built_def] dict_get_mem [OF assms(2)]]
  show "node_id n = k" and ok: "node_ok n" using facts by auto
  have "node_parent n = None" if "k = plan_goal_id p"
    using built_head [OF assms(1)] assms(2) that by (cases "plan_nodes p") auto
  then show "node_kind n = GOAL \<longleftrightarrow> k = plan_goal_id p"
    using facts ok by (auto simp: node_ok_def split: option.splits)
qed


section \<open>The operations keep the invariant\<close>

lemma check_deps_None: "check_deps p nid deps = None \<longleftrightarrow> set deps \<subseteq> insert nid (set (dict_keys (plan_nodes p)))"
  by (induction deps) (auto simp: dict_get_None_iff)

lemma add_node_Inr:
  "add_node p n = Inr p' \<longleftrightarrow>
     p' = p\<lparr>plan_nodes := dict_set (node_id n) n (plan_nodes p)\<rparr> \<and>
     node_id n \<notin> set (dict_keys (plan_nodes p)) \<and> node_plan_id n = plan_id p \<and>
     check_kind p n = None \<and> check_deps p (node_id n) (node_depends n) = None"
  by (auto simp: add_node_def dict_get_None_iff split: option.splits)

lemma add_node_built:
  assumes "plan_built p" and "node_ok n" and "distinct (node_depends n)" and add: "add_node p n = Inr p'"
  shows "plan_built p'"
proof -
  note a = add [unfolded add_node_Inr check_deps_None]
  have deps: "set (node_depends n) \<subseteq> set (dict_keys (plan_nodes p))"
    using a assms(2) by (auto simp: node_ok_def simp del: set_map)
  have "case node_parent n of None \<Rightarrow> node_id n = plan_goal_id p | Some q \<Rightarrow> q \<in> set (dict_keys (plan_nodes p))"
    using a assms(2) dict_get_None_iff [of "plan_nodes p"]
    by (auto simp: check_kind_def node_ok_def simp del: set_map split: option.splits if_splits)
  with a deps assms(1-3) show ?thesis
    by (simp add: plan_built_def dict_set_fresh ordered_from_append del: set_map split: option.splits)
qed

text \<open>A replacement that leaves the identity, the edges and the kind of the node alone.\<close>

definition same_structure :: "plan_node \<Rightarrow> plan_node \<Rightarrow> bool" where
  "same_structure n m \<longleftrightarrow>
     node_id m = node_id n \<and> node_parent m = node_parent n \<and> node_depends m = node_depends n"

lemma ordered_from_update:
  "ordered_from g seen nodes \<Longrightarrow> dict_get nodes (node_id n) = Some n \<Longrightarrow> same_structure n m \<Longrightarrow> node_ok m \<Longrightarrow>
   ordered_from g seen (dict_set (node_id m) m nodes)"
  by (induction g seen nodes rule: ordered_from.induct) (auto simp: same_structure_def)

lemma replace_node_built:
  assumes "plan_built p" and "dict_get (plan_nodes p) (node_id n) = Some n"
    and "same_structure n m" and "node_ok m" and "replace_node p m now = Inr p'"
  shows "plan_built p'"
  using assms ordered_from_update [of "plan_goal_id p" "{}" "plan_nodes p" n m]
  by (auto simp: plan_built_def replace_node_def split: if_splits)

inductive plan_reachable :: "plan \<Rightarrow> bool" where
  start: "plan_init p = Inr p \<Longrightarrow> plan_nodes p = [] \<Longrightarrow> plan_reachable p"
| add: "plan_reachable p \<Longrightarrow> plan_node_init n = Inr n' \<Longrightarrow> distinct (node_depends n) \<Longrightarrow>
        add_node p n' = Inr p' \<Longrightarrow> plan_reachable p'"
| intent: "plan_reachable p \<Longrightarrow> dict_get (plan_nodes p) k = Some n \<Longrightarrow>
        transition_intent (node_intent n) i = Inr i' \<Longrightarrow> with_intent n i' now = Inr n' \<Longrightarrow>
        replace_node p n' now' = Inr p' \<Longrightarrow> plan_reachable p'"
| execution: "plan_reachable p \<Longrightarrow> dict_get (plan_nodes p) k = Some n \<Longrightarrow>
        transition_execution (node_execution n) x = Inr x' \<Longrightarrow> with_execution n x' now = Inr n' \<Longrightarrow>
        replace_node p n' now' = Inr p' \<Longrightarrow> plan_reachable p'"
| progress: "plan_reachable p \<Longrightarrow> dict_get (plan_nodes p) k = Some n \<Longrightarrow>
        progress_init pr = Inr pr' \<Longrightarrow> with_progress n pr' now = Inr n' \<Longrightarrow>
        replace_node p n' now' = Inr p' \<Longrightarrow> plan_reachable p'"

lemma reachable_built: "plan_reachable p \<Longrightarrow> plan_built p"
proof (induction rule: plan_reachable.induct)
  case (start p)
  then show ?case by (simp add: plan_built_def)
next
  case (add p n n' p')
  then show ?case by (auto simp: plan_node_init_Inr intro: add_node_built)
next
  case (intent p k n i i' now n' now' p')
  then show ?case
    using built_node(1) [of p k n] replace_node_built [of p n n' now' p']
    by (auto simp: with_Inr same_structure_def node_ok_def)
next
  case (execution p k n x x' now n' now' p')
  then show ?case
    using built_node(1) [of p k n] replace_node_built [of p n n' now' p']
    by (auto simp: with_Inr same_structure_def node_ok_def)
next
  case (progress p k n pr pr' now n' now' p')
  then show ?case
    using built_node(1) [of p k n] replace_node_built [of p n n' now' p']
    by (auto simp: with_Inr same_structure_def node_ok_def)
qed

section \<open>Built plans validate\<close>

lemma built_acyclic: "plan_built p \<Longrightarrow> acyclic (dep_rel (plan_nodes p))"
proof -
  assume "plan_built p"
  then have "dep_rel (plan_nodes p) \<subseteq> measure (position (plan_nodes p))"
    using built_position(1) [of p] by (auto simp: dep_rel_def in_measure)
  then show ?thesis using wf_acyclic wf_measure acyclic_subset by blast
qed

lemma built_no_violations:
  assumes "plan_built p" and "n \<in> set (dict_values (plan_nodes p))"
  shows "node_violations p n = []"
proof -
  obtain k where "dict_get (plan_nodes p) k = Some n"
    using assms wf_nodes_mem [OF built_wf [OF assms(1)]] by auto
  note pos = built_position(2) [OF assms(1) this]
  show ?thesis
    using pos dict_get_None_iff [of "plan_nodes p"]
    by (auto simp: node_violations_def filter_empty_conv simp del: set_map split: option.splits)
qed

lemma built_validate:
  assumes "plan_built p" and "plan_nodes p \<noteq> []"
  shows "validate p = Inr []"
proof -
  obtain k n nodes where nodes: "plan_nodes p = (k, n) # nodes" using assms(2) by (cases "plan_nodes p") auto
  then have "dict_get (plan_nodes p) k = Some n" by simp
  then have "node_kind n = GOAL"
    using built_node(3) [OF assms(1)] built_head [OF assms(1) nodes] by blast
  then have "find_goal p = Some n" by (simp add: find_goal_def nodes)
  moreover obtain order where "topological_order p = Inr order"
    using topological_order_acyclic(1) [OF built_wf [OF assms(1)]] built_acyclic [OF assms(1)] by blast
  moreover have "concat (map (node_violations p) (dict_values (plan_nodes p))) = []"
    using built_no_violations [OF assms(1)] by (auto simp del: map_map)
  ultimately show ?thesis by (simp add: validate_def)
qed


section \<open>The scheduling frontier\<close>

lemma count_children_get:
  "dict_get_default (count_children ns) q 0 = length (filter (\<lambda>n. node_parent n = Some q) ns)"
proof -
  define bump where "bump = (\<lambda>counts (n :: plan_node). case node_parent n of None \<Rightarrow> counts
    | Some q \<Rightarrow> dict_set q (dict_get_default counts q (0::nat) + 1) counts)"
  have "dict_get_default (foldl bump counts ns) q 0 =
      dict_get_default counts q 0 + length (filter (\<lambda>n. node_parent n = Some q) ns)" for counts
    by (induction ns arbitrary: counts)
      (auto simp: bump_def dict_get_default_def dict_get_set split: option.splits)
  then show ?thesis by (simp add: count_children_def bump_def dict_get_default_def)
qed

lemma leaf_tasks_iff:
  "n \<in> set (leaf_tasks p) \<longleftrightarrow>
     n \<in> set (dict_values (plan_nodes p)) \<and> (node_kind n = TASK \<or> node_kind n = VERIFY) \<and> children_of p (node_id n) = []"
  by (auto simp: leaf_tasks_def Let_def count_children_get children_of_def)

lemma ready_nodes_iff:
  "n \<in> set (ready_nodes p) \<longleftrightarrow>
     n \<in> set (leaf_tasks p) \<and> node_intent n = TODO \<and>
     (\<forall>d \<in> set (node_depends n). \<exists>m \<in> set (dict_values (plan_nodes p)). node_id m = d \<and> node_intent m = DONE)"
  by (auto simp: ready_nodes_def is_ready_def done_ids_def subset_iff image_iff Bex_def simp del: set_map)

lemma frontier_progress:
  assumes built: "plan_built p" and n: "n \<in> set (leaf_tasks p)" "node_intent n = TODO"
    and idle: "\<And>m. m \<in> set (leaf_tasks p) \<Longrightarrow> node_intent m = TODO \<or> node_intent m = DONE"
    and deps: "\<And>m d. m \<in> set (leaf_tasks p) \<Longrightarrow> d \<in> set (node_depends m) \<Longrightarrow>
                 \<exists>l \<in> set (leaf_tasks p). node_id l = d"
  shows "ready_nodes p \<noteq> []"
  using n
proof (induction "position (plan_nodes p) (node_id n)" arbitrary: n rule: less_induct)
  case less
  show ?case
  proof (cases "n \<in> set (ready_nodes p)")
    case False
    then obtain d where d: "d \<in> set (node_depends n)"
      and open_dep: "\<And>m. m \<in> set (dict_values (plan_nodes p)) \<Longrightarrow> node_id m = d \<Longrightarrow> node_intent m \<noteq> DONE"
      using less.prems by (auto simp: ready_nodes_iff)
    obtain l where l: "l \<in> set (leaf_tasks p)" "node_id l = d" using deps [OF less.prems(1) d] by blast
    then have todo: "node_intent l = TODO" using idle [OF l(1)] open_dep [of l] by (auto simp: leaf_tasks_iff)
    obtain k where k: "dict_get (plan_nodes p) k = Some n"
      using less.prems(1) wf_nodes_mem [OF built_wf [OF built]] by (auto simp: leaf_tasks_iff)
    then have "position (plan_nodes p) (node_id l) < position (plan_nodes p) (node_id n)"
      using built_position(1) [OF built k, of d] d l(2) built_node(1) [OF built k] by simp
    then show ?thesis using less.hyps l(1) todo by blast
  qed auto
qed

section \<open>Descendants\<close>

definition child_rel :: "plan \<Rightarrow> (plan_node_id \<times> plan_node_id) set" where
  "child_rel p = {(k, c). \<exists>n. dict_get (plan_nodes p) c = Some n \<and> node_parent n = Some k}"

lemma children_of_iff:
  "wf_nodes (plan_nodes p) \<Longrightarrow> c \<in> set (map node_id (children_of p k)) \<longleftrightarrow> (k, c) \<in> child_rel p"
  using wf_nodes_values [of "plan_nodes p" c "\<lambda>n. node_parent n = Some k"]
  by (auto simp: children_of_def child_rel_def)

lemma built_wf_child: "plan_built p \<Longrightarrow> wf ((child_rel p)\<inverse>)"
proof -
  assume built: "plan_built p"
  have sub: "child_rel p \<subseteq> set (dict_keys (plan_nodes p)) \<times> set (dict_keys (plan_nodes p))"
    using built_position(2) [OF built] dict_get_Some_key by (auto simp: child_rel_def simp del: set_map)
  have "child_rel p \<subseteq> measure (position (plan_nodes p))"
    using built_position(1) [OF built] by (auto simp: child_rel_def in_measure)
  then have "acyclic (child_rel p)" using wf_acyclic wf_measure acyclic_subset by blast
  with finite_subset [OF sub] show ?thesis by (intro finite_acyclic_wf_converse) auto
qed

lemma descendants_unfold:
  "(k, j) \<in> (child_rel p)\<^sup>* \<longleftrightarrow> j = k \<or> (\<exists>c. (k, c) \<in> child_rel p \<and> (c, j) \<in> (child_rel p)\<^sup>*)"
  by (metis converse_rtranclE converse_rtrancl_into_rtrancl rtrancl.rtrancl_refl)

lemma descendants_step:
  assumes "wf_nodes (plan_nodes p)" and "dict_get (plan_nodes p) k = Some n"
  shows "(\<exists>j. (k, j) \<in> (child_rel p)\<^sup>* \<and> dict_get (plan_nodes p) j = Some m) \<longleftrightarrow>
    m = n \<or> (\<exists>c \<in> set (map node_id (children_of p k)). \<exists>j. (c, j) \<in> (child_rel p)\<^sup>* \<and> dict_get (plan_nodes p) j = Some m)"
proof -
  have "(\<exists>j. (k, j) \<in> (child_rel p)\<^sup>* \<and> dict_get (plan_nodes p) j = Some m) \<longleftrightarrow>
    (\<exists>j. (j = k \<or> (\<exists>c. (k, c) \<in> child_rel p \<and> (c, j) \<in> (child_rel p)\<^sup>*)) \<and> dict_get (plan_nodes p) j = Some m)"
    by (subst descendants_unfold) (rule refl)
  then show ?thesis unfolding Bex_def children_of_iff [OF assms(1)] using assms(2) by auto
qed

lemma descendants_loop_correct:
  assumes built: "plan_built p" and "set stack \<subseteq> set (dict_keys (plan_nodes p))"
  shows "\<exists>ns. descendants_loop p stack out = Some (out @ ns) \<and>
    (\<forall>n. n \<in> set ns \<longleftrightarrow> (\<exists>k \<in> set stack. \<exists>j. (k, j) \<in> (child_rel p)\<^sup>* \<and> dict_get (plan_nodes p) j = Some n))"
proof -
  define r where "r = (child_rel p)\<inverse>"
  have wf: "wf (mult r)" unfolding r_def by (rule wf_mult [OF built_wf_child [OF built]])
  show ?thesis
    using assms(2)
  proof (induction "mset stack" arbitrary: stack out rule: wf_induct_rule [OF wf])
    case 1
    show ?case
    proof (cases stack)
      case Nil
      then show ?thesis by (simp add: descendants_loop.simps)
    next
      case (Cons nid rest)
      obtain n where n: "dict_get (plan_nodes p) nid = Some n"
        using "1.prems" Cons dict_get_None_iff [of "plan_nodes p" nid] by auto
      let ?children = "map node_id (children_of p nid)"
      note kids = children_of_iff [OF built_wf [OF built], of _ nid]
      have "(mset rest + mset ?children, mset rest + {#nid#}) \<in> mult r"
        using kids by (intro one_step_implies_mult) (auto simp: r_def)
      moreover have "set (rest @ ?children) \<subseteq> set (dict_keys (plan_nodes p))"
        using "1.prems" Cons kids dict_get_Some_key by (auto simp: child_rel_def simp del: set_map)
      ultimately obtain ns where ns: "descendants_loop p (rest @ ?children) (out @ [n]) = Some ((out @ [n]) @ ns)"
        "\<And>m. m \<in> set ns \<longleftrightarrow> (\<exists>k \<in> set (rest @ ?children). \<exists>j. (k, j) \<in> (child_rel p)\<^sup>* \<and> dict_get (plan_nodes p) j = Some m)"
        using "1.hyps" [of "rest @ ?children" "out @ [n]"] Cons by (auto simp del: set_map)
      have "descendants_loop p stack out = Some (out @ n # ns)"
        using ns(1) n Cons by (simp add: descendants_loop.simps [of p "nid # rest"])
      moreover have "m \<in> set (n # ns) \<longleftrightarrow> (\<exists>k \<in> set stack. \<exists>j. (k, j) \<in> (child_rel p)\<^sup>* \<and> dict_get (plan_nodes p) j = Some m)" for m
        unfolding Cons using descendants_step [OF built_wf [OF built] n, of m] ns(2) [of m]
        by (auto simp del: set_map)
      ultimately show ?thesis by blast
    qed
  qed
qed


section \<open>A reachable plan\<close>

fun add_nodes :: "plan \<Rightarrow> plan_node list \<Rightarrow> plan_error + plan" where
  "add_nodes p [] = Inr p"
| "add_nodes p (n # ns) = (case add_node p n of Inl e \<Rightarrow> Inl e | Inr p' \<Rightarrow> add_nodes p' ns)"

lemma add_nodes_reachable:
  "plan_reachable p \<Longrightarrow> \<forall>n \<in> set ns. node_ok n \<and> distinct (node_depends n) \<Longrightarrow> add_nodes p ns = Inr p' \<Longrightarrow>
   plan_reachable p'"
proof (induction ns arbitrary: p)
  case (Cons n ns)
  then obtain q where q: "add_node p n = Inr q" "add_nodes q ns = Inr p'" by (auto split: sum.splits)
  have "plan_reachable q" using Cons.prems q(1) by (intro plan_reachable.add [of p n n q]) (auto simp: plan_node_init_Inr)
  with Cons q(2) show ?case by simp
qed simp

lemma diamond_reachable: "plan_reachable diamond"
proof (rule add_nodes_reachable)
  show "plan_reachable (sample_plan [])"
    by (rule plan_reachable.start) (simp_all add: plan_init_def sample_plan_def by_id_def)
  show "\<forall>n \<in> set (dict_values (plan_nodes diamond)). node_ok n \<and> distinct (node_depends n)"
    by (simp add: diamond_def sample_plan_def sample_node_def by_id_def node_ok_def py_strip_def py_isspace_def Let_def)
  show "add_nodes (sample_plan []) (dict_values (plan_nodes diamond)) = Inr diamond"
    by (simp add: diamond_def sample_plan_def sample_node_def by_id_def add_node_def check_kind_def find_goal_def)
qed

lemma diamond_leaf: "map node_id (leaf_tasks diamond) = [''a'', ''b'', ''c'', ''d'']"
  by code_simp

section \<open>Properties\<close>

text \<open>
  C2: a non-empty plan grown by \<open>add_node\<close> from constructed nodes and then updated along the status
  tables has no violation for \<open>validate\<close>, and has exactly one goal node, which \<open>goal_node\<close> returns.
\<close>

theorem reachable_plan_valid:
  assumes "plan_reachable p" and "plan_nodes p \<noteq> []"
  shows "validate p = Inr [] \<and>
    (\<exists>g. goal_node p = Inr g \<and> node_kind g = GOAL \<and>
         (\<forall>n \<in> set (dict_values (plan_nodes p)). node_kind n = GOAL \<longrightarrow> n = g))"
proof -
  note built = reachable_built [OF assms(1)]
  obtain k g nodes where nodes: "plan_nodes p = (k, g) # nodes" using assms(2) by (cases "plan_nodes p") auto
  then have g: "dict_get (plan_nodes p) (plan_goal_id p) = Some g" using built_head [OF built nodes] by auto
  have "n = g" if "n \<in> set (dict_values (plan_nodes p))" "node_kind n = GOAL" for n
    using that wf_nodes_mem [OF built_wf [OF built]] built_node(3) [OF built] g by auto
  then show ?thesis
    using built_validate [OF built assms(2)] g built_node(3) [OF built g] by (auto simp: goal_node_def)
qed

theorem reachable_plan_valid_witness: "plan_reachable diamond \<and> plan_nodes diamond \<noteq> [] \<and> validate diamond = Inr []"
proof -
  have "plan_nodes diamond \<noteq> []" by (simp add: diamond_def sample_plan_def by_id_def)
  with reachable_plan_valid [OF diamond_reachable] diamond_reachable show ?thesis by blast
qed

text \<open>
  C3: \<open>ready_nodes\<close> returns exactly the executable leaves (\<open>TASK\<close> or \<open>VERIFY\<close>, without children)
  that are \<open>TODO\<close> and whose dependencies are all nodes of the plan at \<open>DONE\<close>; and on a reachable plan
  the frontier is never empty while some leaf is \<open>TODO\<close>, provided no leaf is blocked or in progress
  and leaves depend on leaves only.
\<close>

theorem frontier_never_stuck:
  "(\<forall>n. n \<in> set (ready_nodes p) \<longleftrightarrow>
      n \<in> set (dict_values (plan_nodes p)) \<and> (node_kind n = TASK \<or> node_kind n = VERIFY) \<and>
      children_of p (node_id n) = [] \<and> node_intent n = TODO \<and>
      (\<forall>d \<in> set (node_depends n). \<exists>m \<in> set (dict_values (plan_nodes p)). node_id m = d \<and> node_intent m = DONE)) \<and>
   (plan_reachable p \<and>
    (\<forall>m \<in> set (leaf_tasks p). (node_intent m = TODO \<or> node_intent m = DONE) \<and>
       (\<forall>d \<in> set (node_depends m). \<exists>l \<in> set (leaf_tasks p). node_id l = d)) \<and>
    (\<exists>n \<in> set (leaf_tasks p). node_intent n = TODO) \<longrightarrow> ready_nodes p \<noteq> [])"
proof (intro conjI impI)
  show "plan_reachable p \<and>
    (\<forall>m \<in> set (leaf_tasks p). (node_intent m = TODO \<or> node_intent m = DONE) \<and>
       (\<forall>d \<in> set (node_depends m). \<exists>l \<in> set (leaf_tasks p). node_id l = d)) \<and>
    (\<exists>n \<in> set (leaf_tasks p). node_intent n = TODO) \<Longrightarrow> ready_nodes p \<noteq> []"
    using frontier_progress [OF reachable_built, of p] by blast
qed (auto simp: ready_nodes_iff leaf_tasks_iff simp del: set_map)

theorem frontier_never_stuck_witness:
  "plan_reachable diamond \<and> (\<exists>n \<in> set (leaf_tasks diamond). node_intent n = TODO) \<and> ready_nodes diamond \<noteq> []"
proof -
  have todo: "\<exists>n \<in> set (leaf_tasks diamond). node_intent n = TODO" by code_simp
  have "\<forall>m \<in> set (leaf_tasks diamond). (node_intent m = TODO \<or> node_intent m = DONE) \<and>
      (\<forall>d \<in> set (node_depends m). \<exists>l \<in> set (leaf_tasks diamond). node_id l = d)" by code_simp
  with frontier_never_stuck [of diamond] diamond_reachable todo show ?thesis by blast
qed

text \<open>
  C4: on a reachable plan the work list of \<open>descendants_of\<close> runs empty, although it keeps no visited
  set, and the result holds exactly the transitive children of the node.
\<close>

theorem descendants_of_correct:
  assumes "plan_reachable p"
  shows "\<exists>ns. descendants_of p k = Some ns \<and>
    (\<forall>n. n \<in> set ns \<longleftrightarrow> (\<exists>j. (k, j) \<in> (child_rel p)\<^sup>+ \<and> dict_get (plan_nodes p) j = Some n))"
proof -
  note built = reachable_built [OF assms]
  note kids = children_of_iff [OF built_wf [OF built], of _ k]
  have sub: "set (map node_id (children_of p k)) \<subseteq> set (dict_keys (plan_nodes p))"
  proof
    fix c assume "c \<in> set (map node_id (children_of p k))"
    then have "(k, c) \<in> child_rel p" using kids by blast
    then show "c \<in> set (dict_keys (plan_nodes p))" by (auto simp: child_rel_def simp del: set_map dest: dict_get_Some_key)
  qed
  have "(k, j) \<in> (child_rel p)\<^sup>+ \<longleftrightarrow> (\<exists>c \<in> set (map node_id (children_of p k)). (c, j) \<in> (child_rel p)\<^sup>*)" for j
    unfolding Bex_def kids by (metis rtrancl_into_trancl2 tranclD)
  then show ?thesis
    using descendants_loop_correct [OF built sub, of "[]"] unfolding descendants_of_def append_Nil by meson
qed

theorem descendants_of_correct_witness:
  "plan_reachable diamond \<and> (\<exists>ns. descendants_of diamond ''g'' = Some ns)"
  using descendants_of_correct [OF diamond_reachable, of "''g''"] diamond_reachable by blast


section \<open>Parent cycles\<close>

text \<open>
  \<open>replace_node\<close> checks only that the node exists, and \<open>validate\<close> looks at dependency cycles only.
  Re-parenting an existing node below its own child is therefore accepted by both.
\<close>

definition reparented :: plan where
  "reparented = sample_plan
     [sample_node ''g'' None GOAL [] 0, sample_node ''a'' (Some ''b'') TASK [] 0,
      sample_node ''b'' (Some ''a'') TASK [] 0]"

definition before_reparenting :: plan where
  "before_reparenting = sample_plan
     [sample_node ''g'' None GOAL [] 0, sample_node ''a'' (Some ''g'') TASK [] 0,
      sample_node ''b'' (Some ''a'') TASK [] 0]"

lemma reparented_children:
  "map node_id (children_of reparented ''a'') = [''b'']" "map node_id (children_of reparented ''b'') = [''a'']"
  by code_simp+

lemma reparented_diverges:
  assumes "descendants_loop p stack out = Some r"
  shows "p = reparented \<longrightarrow> stack \<noteq> [''a''] \<and> stack \<noteq> [''b'']"
proof (rule descendants_loop.raw_induct [where P = "\<lambda>p stack out r. p = reparented \<longrightarrow> stack \<noteq> [''a''] \<and> stack \<noteq> [''b'']", OF _ assms])
  fix f p stack out and r :: "plan_node list"
  assume IH: "\<And>p stack out r. f p stack out = Some r \<Longrightarrow> p = reparented \<longrightarrow> stack \<noteq> [''a''] \<and> stack \<noteq> [''b'']"
    and eq: "(case stack of [] \<Rightarrow> Some out | nid # rest \<Rightarrow>
          (case dict_get (plan_nodes p) nid of None \<Rightarrow> f p rest out
           | Some n \<Rightarrow> f p (rest @ map node_id (children_of p nid)) (out @ [n]))) = Some r"
  have "\<exists>n. dict_get (plan_nodes reparented) ''a'' = Some n" "\<exists>n. dict_get (plan_nodes reparented) ''b'' = Some n"
    by (simp_all add: reparented_def sample_plan_def sample_node_def by_id_def)
  then show "p = reparented \<longrightarrow> stack \<noteq> [''a''] \<and> stack \<noteq> [''b'']"
    using eq IH reparented_children by fastforce
qed

text \<open>
  Re-parenting a node below its own child with \<open>replace_node\<close> is accepted and passes \<open>validate\<close>,
  and \<open>descendants_of\<close> does not return on the result.
\<close>

theorem validate_misses_parent_cycles:
  "plan_reachable before_reparenting \<and>
   (\<exists>p. replace_node before_reparenting (sample_node ''a'' (Some ''b'') TASK [] 0) 0 = Inr p \<and>
        plan_nodes p = plan_nodes reparented) \<and>
   validate reparented = Inr [] \<and> descendants_of reparented ''a'' = None"
proof (intro conjI)
  show "plan_reachable before_reparenting"
  proof (rule add_nodes_reachable)
    show "plan_reachable (sample_plan [])"
      by (rule plan_reachable.start) (simp_all add: plan_init_def sample_plan_def by_id_def)
    show "\<forall>n \<in> set (dict_values (plan_nodes before_reparenting)). node_ok n \<and> distinct (node_depends n)"
      by (simp add: before_reparenting_def sample_plan_def sample_node_def by_id_def node_ok_def py_strip_def
          py_isspace_def Let_def)
    show "add_nodes (sample_plan []) (dict_values (plan_nodes before_reparenting)) = Inr before_reparenting"
      by (simp add: before_reparenting_def sample_plan_def sample_node_def by_id_def add_node_def check_kind_def
          find_goal_def)
  qed
  show "\<exists>p. replace_node before_reparenting (sample_node ''a'' (Some ''b'') TASK [] 0) 0 = Inr p \<and>
        plan_nodes p = plan_nodes reparented"
    by (simp add: replace_node_def before_reparenting_def reparented_def sample_plan_def sample_node_def by_id_def)
  show "validate reparented = Inr []" by code_simp
  show "descendants_of reparented ''a'' = None"
    using reparented_diverges [of reparented "[''b'']" "[]"] reparented_children(1)
    by (cases "descendants_loop reparented [''b''] []") (auto simp: descendants_of_def)
qed

end
