(* ===== verification/SubAgentRun.thy ===== *)
theory SubAgentRun
  imports Prelude
begin

text \<open>
  One delegated run and its lifecycle: \<open>src/domain/model/agent/subagent_run.py\<close>, and its JSON
  payload (\<open>to_event_data\<close> there, \<open>_deserialize_run\<close> in
  \<open>src/infrastructure/agent/subagent/run_registry.py\<close>). Runs are immutable values; each lifecycle
  method returns the new value or raises. Time stamps are integers, passed in where the code reads
  the clock. Of a metadata value the code only ever observes its truth value and its \<open>str()\<close>, so
  \<open>MObj\<close> carries just these two for values that are no string, integer or boolean.
\<close>

section \<open>Data\<close>

datatype run_status = Pending | Running | Completed | Failed | Cancelled | TimedOut

datatype announce_state = AnnPending | Announcing | Announced | AnnFailed | AnnExpired

datatype mval = MNone | MBool bool | MInt int | MStr string | MObj bool string

record run =
  run_id :: string
  run_conversation_id :: string
  run_subagent_name :: string
  run_task :: string
  run_status :: run_status
  run_created_at :: int
  run_started_at :: "int option"
  run_ended_at :: "int option"
  run_summary :: "string option"
  run_error :: "string option"
  run_execution_time_ms :: "int option"
  run_tokens_used :: "int option"
  run_metadata :: "(string, mval) dict"
  run_frozen_result_text :: "string option"
  run_frozen_at :: "int option"
  run_trace_id :: "string option"
  run_parent_span_id :: "string option"
  run_announce_state :: "announce_state option"

datatype run_error =
    EmptyRunId
  | EmptyConversationId
  | EmptySubagentName
  | EmptyTask
  | InvalidStatusTransition run_status run_status
  | CannotFreezeIn run_status
  | ResultAlreadyFrozen
  | CannotTraceIn run_status
  | EmptyTraceId
  | ProtectedMetadataKeys "string list"

section \<open>Lifecycle\<close>

definition run_init :: "run \<Rightarrow> run_error + run" where
  "run_init r =
     (if run_id r = [] \<or> py_strip (run_id r) = [] then Inl EmptyRunId
      else if run_conversation_id r = [] \<or> py_strip (run_conversation_id r) = [] then Inl EmptyConversationId
      else if run_subagent_name r = [] \<or> py_strip (run_subagent_name r) = [] then Inl EmptySubagentName
      else if run_task r = [] \<or> py_strip (run_task r) = [] then Inl EmptyTask
      else Inr r)"

definition run_start :: "run \<Rightarrow> int \<Rightarrow> run_error + run" where
  "run_start r now =
     (if run_status r \<noteq> Pending then Inl (InvalidStatusTransition (run_status r) Running)
      else run_init (r\<lparr>run_status := Running, run_started_at := Some now, run_ended_at := None,
                       run_error := None\<rparr>))"

definition or_else :: "'a option \<Rightarrow> 'a option \<Rightarrow> 'a option" where
  "or_else x y = (case x of Some v \<Rightarrow> Some v | None \<Rightarrow> y)"

definition run_complete ::
  "run \<Rightarrow> string option \<Rightarrow> int option \<Rightarrow> int option \<Rightarrow> int \<Rightarrow> run_error + run" where
  "run_complete r summary tokens_used execution_time_ms now =
     (if run_status r \<noteq> Running then Inl (InvalidStatusTransition (run_status r) Completed)
      else run_init (r\<lparr>run_status := Completed, run_ended_at := Some now,
                       run_summary := or_else summary (run_summary r),
                       run_tokens_used := or_else tokens_used (run_tokens_used r),
                       run_execution_time_ms := or_else execution_time_ms (run_execution_time_ms r),
                       run_error := None\<rparr>))"

definition run_fail :: "run \<Rightarrow> string \<Rightarrow> int option \<Rightarrow> int \<Rightarrow> run_error + run" where
  "run_fail r error execution_time_ms now =
     (if run_status r \<noteq> Running then Inl (InvalidStatusTransition (run_status r) Failed)
      else run_init (r\<lparr>run_status := Failed, run_ended_at := Some now, run_error := Some error,
                       run_execution_time_ms := or_else execution_time_ms (run_execution_time_ms r)\<rparr>))"

definition run_cancel :: "run \<Rightarrow> string option \<Rightarrow> int \<Rightarrow> run_error + run" where
  "run_cancel r reason now =
     (if run_status r \<noteq> Pending \<and> run_status r \<noteq> Running
      then Inl (InvalidStatusTransition (run_status r) Cancelled)
      else run_init (r\<lparr>run_status := Cancelled, run_ended_at := Some now,
                       run_error := (case reason of
                           Some t \<Rightarrow> if t \<noteq> [] then Some t else run_error r
                         | None \<Rightarrow> run_error r)\<rparr>))"

definition run_time_out :: "run \<Rightarrow> string \<Rightarrow> int \<Rightarrow> run_error + run" where
  "run_time_out r reason now =
     (if run_status r \<noteq> Pending \<and> run_status r \<noteq> Running
      then Inl (InvalidStatusTransition (run_status r) TimedOut)
      else run_init (r\<lparr>run_status := TimedOut, run_ended_at := Some now, run_error := Some reason\<rparr>))"

definition run_freeze_result :: "run \<Rightarrow> string \<Rightarrow> int \<Rightarrow> run_error + run" where
  "run_freeze_result r result_text now =
     (if run_status r \<noteq> Completed \<and> run_status r \<noteq> Failed then Inl (CannotFreezeIn (run_status r))
      else if run_frozen_result_text r \<noteq> None then Inl ResultAlreadyFrozen
      else run_init (r\<lparr>run_frozen_result_text := Some result_text, run_frozen_at := Some now\<rparr>))"

definition run_with_trace_context :: "run \<Rightarrow> string \<Rightarrow> string option \<Rightarrow> run_error + run" where
  "run_with_trace_context r trace_id parent_span_id =
     (if run_status r \<noteq> Pending then Inl (CannotTraceIn (run_status r))
      else let trace = py_strip trace_id;
               span = (case parent_span_id of
                         None \<Rightarrow> None
                       | Some s \<Rightarrow> if s = [] then None else if py_strip s = [] then None else Some (py_strip s))
           in if trace = [] then Inl EmptyTraceId
              else run_init (r\<lparr>run_trace_id := Some trace, run_parent_span_id := span\<rparr>))"

definition run_active :: "run \<Rightarrow> bool" where
  "run_active r \<longleftrightarrow> run_status r = Pending \<or> run_status r = Running"

section \<open>The JSON payload\<close>

datatype jval = JNull | JInt int | JStr string | JMeta "(string, mval) dict" | JOther bool string

datatype jpayload = PDict "(string, jval) dict" | PNotDict

text \<open>
  \<open>datetime.isoformat\<close>, \<open>datetime.fromisoformat\<close> (brought to UTC), \<open>int()\<close> on a value that is no
  integer and \<open>str()\<close> of a dictionary, as the Python runtime provides them.
\<close>

record runtime =
  iso_format :: "int \<Rightarrow> string"
  iso_parse :: "string \<Rightarrow> int option"
  int_of :: "jval \<Rightarrow> int option"
  dict_text :: "(string, mval) dict \<Rightarrow> string"

fun status_value :: "run_status \<Rightarrow> string" where
  "status_value Pending = ''pending''"
| "status_value Running = ''running''"
| "status_value Completed = ''completed''"
| "status_value Failed = ''failed''"
| "status_value Cancelled = ''cancelled''"
| "status_value TimedOut = ''timed_out''"

definition status_of_value :: "string \<Rightarrow> run_status option" where
  "status_of_value s = find (\<lambda>st. status_value st = s) [Pending, Running, Completed, Failed, Cancelled, TimedOut]"

fun announce_value :: "announce_state \<Rightarrow> string" where
  "announce_value AnnPending = ''pending''"
| "announce_value Announcing = ''announcing''"
| "announce_value Announced = ''announced''"
| "announce_value AnnFailed = ''failed''"
| "announce_value AnnExpired = ''expired''"

definition announce_of_value :: "string \<Rightarrow> announce_state option" where
  "announce_of_value s = find (\<lambda>st. announce_value st = s) [AnnPending, Announcing, Announced, AnnFailed, AnnExpired]"

definition j_str :: "string option \<Rightarrow> jval" where
  "j_str x = (case x of None \<Rightarrow> JNull | Some s \<Rightarrow> JStr s)"

definition j_int :: "int option \<Rightarrow> jval" where
  "j_int x = (case x of None \<Rightarrow> JNull | Some i \<Rightarrow> JInt i)"

definition j_time :: "runtime \<Rightarrow> int option \<Rightarrow> jval" where
  "j_time rt x = (case x of None \<Rightarrow> JNull | Some t \<Rightarrow> JStr (iso_format rt t))"

definition to_event_data :: "runtime \<Rightarrow> run \<Rightarrow> (string, jval) dict" where
  "to_event_data rt r =
     [(''run_id'', JStr (run_id r)),
      (''conversation_id'', JStr (run_conversation_id r)),
      (''subagent_name'', JStr (run_subagent_name r)),
      (''task'', JStr (run_task r)),
      (''status'', JStr (status_value (run_status r))),
      (''created_at'', JStr (iso_format rt (run_created_at r))),
      (''started_at'', j_time rt (run_started_at r)),
      (''ended_at'', j_time rt (run_ended_at r)),
      (''summary'', j_str (run_summary r)),
      (''error'', j_str (run_error r)),
      (''execution_time_ms'', j_int (run_execution_time_ms r)),
      (''tokens_used'', j_int (run_tokens_used r)),
      (''metadata'', JMeta (run_metadata r)),
      (''frozen_result_text'', j_str (run_frozen_result_text r)),
      (''frozen_at'', j_time rt (run_frozen_at r)),
      (''trace_id'', j_str (run_trace_id r)),
      (''parent_span_id'', j_str (run_parent_span_id r)),
      (''announce_state'', j_str (map_option announce_value (run_announce_state r)))]"

text \<open>Decimal text of an integer, and \<open>str()\<close> of a payload value.\<close>

fun nat_text :: "nat \<Rightarrow> string" where
  "nat_text n = (if n < 10 then [char_of (48 + n)] else nat_text (n div 10) @ [char_of (48 + n mod 10)])"

definition int_text :: "int \<Rightarrow> string" where
  "int_text i = (if i < 0 then CHR ''-'' # nat_text (nat (- i)) else nat_text (nat i))"

definition j_text :: "runtime \<Rightarrow> jval \<Rightarrow> string" where
  "j_text rt v = (case v of JNull \<Rightarrow> ''None'' | JInt i \<Rightarrow> int_text i | JStr s \<Rightarrow> s
     | JMeta m \<Rightarrow> dict_text rt m | JOther b t \<Rightarrow> t)"

definition j_truthy :: "jval \<Rightarrow> bool" where
  "j_truthy v = (case v of JNull \<Rightarrow> False | JInt i \<Rightarrow> i \<noteq> 0 | JStr s \<Rightarrow> s \<noteq> [] | JMeta m \<Rightarrow> m \<noteq> [] | JOther b t \<Rightarrow> b)"

definition payload_get :: "(string, jval) dict \<Rightarrow> string \<Rightarrow> jval" where
  "payload_get d k = dict_get_default d k JNull"

definition parse_datetime :: "runtime \<Rightarrow> jval \<Rightarrow> int option" where
  "parse_datetime rt v = (case v of JStr s \<Rightarrow> if py_strip s = [] then None else iso_parse rt s | _ \<Rightarrow> None)"

definition optional_str :: "runtime \<Rightarrow> jval \<Rightarrow> string option" where
  "optional_str rt v = (if v = JNull then None else if j_text rt v = [] then None else Some (j_text rt v))"

definition optional_int :: "runtime \<Rightarrow> jval \<Rightarrow> int option" where
  "optional_int rt v = (case v of JNull \<Rightarrow> None | JInt i \<Rightarrow> Some i | _ \<Rightarrow> int_of rt v)"

definition parse_announce_state :: "runtime \<Rightarrow> jval \<Rightarrow> announce_state option" where
  "parse_announce_state rt v = (case optional_str rt v of None \<Rightarrow> None | Some s \<Rightarrow> announce_of_value s)"

definition text_or_empty :: "runtime \<Rightarrow> jval \<Rightarrow> string" where
  "text_or_empty rt v = (if j_truthy v then j_text rt v else [])"

definition deserialize_run :: "runtime \<Rightarrow> int \<Rightarrow> jpayload \<Rightarrow> run option" where
  "deserialize_run rt now payload =
     (case payload of
        PNotDict \<Rightarrow> None
      | PDict d \<Rightarrow>
          let status = (case status_of_value (j_text rt (dict_get_default d ''status'' (JStr ''pending''))) of
                          Some st \<Rightarrow> st | None \<Rightarrow> Pending);
              meta = (case payload_get d ''metadata'' of JMeta m \<Rightarrow> m | _ \<Rightarrow> [])
          in case run_init
               \<lparr>run_id = text_or_empty rt (payload_get d ''run_id''),
                run_conversation_id = text_or_empty rt (payload_get d ''conversation_id''),
                run_subagent_name = text_or_empty rt (payload_get d ''subagent_name''),
                run_task = text_or_empty rt (payload_get d ''task''),
                run_status = status,
                run_created_at = (case parse_datetime rt (payload_get d ''created_at'') of Some t \<Rightarrow> t | None \<Rightarrow> now),
                run_started_at = parse_datetime rt (payload_get d ''started_at''),
                run_ended_at = parse_datetime rt (payload_get d ''ended_at''),
                run_summary = optional_str rt (payload_get d ''summary''),
                run_error = optional_str rt (payload_get d ''error''),
                run_execution_time_ms = optional_int rt (payload_get d ''execution_time_ms''),
                run_tokens_used = optional_int rt (payload_get d ''tokens_used''),
                run_metadata = meta,
                run_frozen_result_text = optional_str rt (payload_get d ''frozen_result_text''),
                run_frozen_at = parse_datetime rt (payload_get d ''frozen_at''),
                run_trace_id = optional_str rt (payload_get d ''trace_id''),
                run_parent_span_id = optional_str rt (payload_get d ''parent_span_id''),
                run_announce_state = parse_announce_state rt (payload_get d ''announce_state'')\<rparr> of
               Inl e \<Rightarrow> None
             | Inr r \<Rightarrow> Some r)"


declare nat_text.simps [simp del]

section \<open>What the lifecycle methods guarantee\<close>

definition run_ok :: "run \<Rightarrow> bool" where
  "run_ok r \<longleftrightarrow>
     py_strip (run_id r) \<noteq> [] \<and> py_strip (run_conversation_id r) \<noteq> [] \<and>
     py_strip (run_subagent_name r) \<noteq> [] \<and> py_strip (run_task r) \<noteq> []"

lemma run_init_Inr: "run_init r = Inr r' \<longleftrightarrow> r' = r \<and> run_ok r"
  by (auto simp: run_init_def run_ok_def)

definition same_identity :: "run \<Rightarrow> run \<Rightarrow> bool" where
  "same_identity r r' \<longleftrightarrow>
     run_id r' = run_id r \<and> run_conversation_id r' = run_conversation_id r \<and>
     run_subagent_name r' = run_subagent_name r \<and> run_task r' = run_task r \<and>
     run_created_at r' = run_created_at r"

lemmas run_method_defs =
  run_start_def run_complete_def run_fail_def run_cancel_def run_time_out_def run_freeze_result_def
  run_with_trace_context_def

text \<open>The lifecycle methods as one step function, for statements about all of them.\<close>

datatype run_call =
    CallStart int
  | CallComplete "string option" "int option" "int option" int
  | CallFail string "int option" int
  | CallCancel "string option" int
  | CallTimeOut string int
  | CallFreeze string int
  | CallTrace string "string option"

fun apply_call :: "run \<Rightarrow> run_call \<Rightarrow> run_error + run" where
  "apply_call r (CallStart now) = run_start r now"
| "apply_call r (CallComplete s t e now) = run_complete r s t e now"
| "apply_call r (CallFail m e now) = run_fail r m e now"
| "apply_call r (CallCancel m now) = run_cancel r m now"
| "apply_call r (CallTimeOut m now) = run_time_out r m now"
| "apply_call r (CallFreeze m now) = run_freeze_result r m now"
| "apply_call r (CallTrace t p) = run_with_trace_context r t p"

lemma run_call_ok: "apply_call r c = Inr r' \<Longrightarrow> run_ok r' \<and> same_identity r r'"
  by (cases c) (auto simp: run_method_defs run_init_Inr run_ok_def same_identity_def Let_def split: if_splits)

fun next_statuses :: "run_status \<Rightarrow> run_status set" where
  "next_statuses Pending = {Pending, Running, Cancelled, TimedOut}"
| "next_statuses Running = {Completed, Failed, Cancelled, TimedOut}"
| "next_statuses Completed = {Completed}"
| "next_statuses Failed = {Failed}"
| "next_statuses Cancelled = {}"
| "next_statuses TimedOut = {}"

lemma run_call_status: "apply_call r c = Inr r' \<Longrightarrow> run_status r' \<in> next_statuses (run_status r)"
  by (cases c; cases "run_status r")
    (auto simp: run_method_defs run_init_Inr Let_def split: if_splits)

lemma run_call_frozen:
  "apply_call r c = Inr r' \<Longrightarrow> run_frozen_result_text r = Some t \<Longrightarrow>
   run_frozen_result_text r' = Some t \<and> run_frozen_at r' = run_frozen_at r"
  by (cases c) (auto simp: run_method_defs run_init_Inr Let_def split: if_splits)

lemma run_call_terminal:
  "apply_call r c = Inr r' \<Longrightarrow> \<not> run_active r \<Longrightarrow>
   (\<exists>t now. c = CallFreeze t now \<and> run_frozen_result_text r = None \<and>
      r' = r\<lparr>run_frozen_result_text := Some t, run_frozen_at := Some now\<rparr>)"
  by (cases c) (auto simp: run_method_defs run_init_Inr run_active_def Let_def split: if_splits)

text \<open>
  Every lifecycle method keeps the run's identity and moves its status along the lifecycle graph
  (pending to running, cancelled or timed out; running to one of the four terminal states); on a run
  in a terminal state every method raises, except a first \<open>freeze_result\<close> on a completed or failed
  run, which changes only the frozen fields; and frozen fields never change again.
\<close>

theorem run_lifecycle:
  "(apply_call r c = Inr r' \<longrightarrow>
      run_ok r' \<and> same_identity r r' \<and> run_status r' \<in> next_statuses (run_status r)) \<and>
   (\<not> run_active r \<longrightarrow>
      (\<exists>e. apply_call r c = Inl e) \<or>
      (\<exists>t now. c = CallFreeze t now \<and> run_frozen_result_text r = None \<and>
         apply_call r c = Inr (r\<lparr>run_frozen_result_text := Some t, run_frozen_at := Some now\<rparr>))) \<and>
   (apply_call r c = Inr r' \<and> run_frozen_result_text r = Some t0 \<longrightarrow>
      run_frozen_result_text r' = Some t0 \<and> run_frozen_at r' = run_frozen_at r)"
  using run_call_ok [of r c r'] run_call_status [of r c r'] run_call_frozen [of r c r' t0] run_call_terminal [of r c]
  by (cases "apply_call r c") auto

definition sample_run :: "string \<Rightarrow> run" where
  "sample_run i =
     \<lparr>run_id = i, run_conversation_id = ''conv'', run_subagent_name = ''coder'', run_task = ''task'',
      run_status = Pending, run_created_at = 10, run_started_at = None, run_ended_at = None,
      run_summary = None, run_error = None, run_execution_time_ms = None, run_tokens_used = None,
      run_metadata = [], run_frozen_result_text = None, run_frozen_at = None, run_trace_id = None,
      run_parent_span_id = None, run_announce_state = None\<rparr>"

theorem run_lifecycle_witness:
  "apply_call (sample_run ''r1'') (CallStart 11) =
      Inr ((sample_run ''r1'')\<lparr>run_status := Running, run_started_at := Some 11\<rparr>) \<and>
   run_ok ((sample_run ''r1'')\<lparr>run_status := Running, run_started_at := Some 11\<rparr>)"
proof -
  have "apply_call (sample_run ''r1'') (CallStart 11) =
      Inr ((sample_run ''r1'')\<lparr>run_status := Running, run_started_at := Some 11\<rparr>)"
    by (simp add: run_start_def run_init_def sample_run_def py_strip_def py_isspace_def Let_def)
  with run_lifecycle [of "sample_run ''r1''" "CallStart 11"] show ?thesis by blast
qed

section \<open>Persisting a run\<close>

lemma status_value_inverse: "status_of_value (status_value st) = Some st"
  by (cases st) (simp_all add: status_of_value_def)

lemma announce_value_inverse: "announce_of_value (announce_value st) = Some st"
  by (cases st) (simp_all add: announce_of_value_def)

lemma announce_value_nonempty: "announce_value st \<noteq> []"
  by (cases st) simp_all

text \<open>\<open>_optional_str\<close> drops empty strings, so a reloaded run has no empty text fields.\<close>

definition drop_empty :: "string option \<Rightarrow> string option" where
  "drop_empty x = (if x = Some [] then None else x)"

definition reloaded :: "run \<Rightarrow> run" where
  "reloaded r = r\<lparr>run_summary := drop_empty (run_summary r), run_error := drop_empty (run_error r),
     run_frozen_result_text := drop_empty (run_frozen_result_text r),
     run_trace_id := drop_empty (run_trace_id r), run_parent_span_id := drop_empty (run_parent_span_id r)\<rparr>"

lemma optional_str_j_str: "optional_str rt (j_str x) = drop_empty x"
  by (cases x) (auto simp: optional_str_def j_str_def drop_empty_def j_text_def)

lemma optional_int_j_int: "optional_int rt (j_int x) = x"
  by (cases x) (auto simp: optional_int_def j_int_def)

lemma parse_announce_j_str: "parse_announce_state rt (j_str (map_option announce_value a)) = a"
  by (cases a)
    (auto simp: parse_announce_state_def optional_str_j_str drop_empty_def announce_value_inverse announce_value_nonempty)

lemma parse_datetime_j_time:
  assumes "\<And>t. iso_parse rt (iso_format rt t) = Some t" and "\<And>t. py_strip (iso_format rt t) \<noteq> []"
  shows "parse_datetime rt (j_time rt x) = x" and "parse_datetime rt (JStr (iso_format rt t)) = Some t"
  using assms by (auto simp: parse_datetime_def j_time_def split: option.splits)

lemmas persist_simps = to_event_data_def payload_get_def dict_get_default_def optional_str_j_str
  optional_int_j_int parse_announce_j_str status_value_inverse

text \<open>The ISO-8601 functions of the runtime are inverse to each other and never give a blank text.\<close>

definition runtime_ok :: "runtime \<Rightarrow> bool" where
  "runtime_ok rt \<longleftrightarrow> (\<forall>t. iso_parse rt (iso_format rt t) = Some t) \<and> (\<forall>t. py_strip (iso_format rt t) \<noteq> [])"

lemma deserialize_to_event_data:
  assumes "run_ok r" and "runtime_ok rt"
  shows "deserialize_run rt now (PDict (to_event_data rt r)) = Some (reloaded r)"
proof -
  have iso: "\<And>t. iso_parse rt (iso_format rt t) = Some t" "\<And>t. py_strip (iso_format rt t) \<noteq> []"
    using assms(2) by (auto simp: runtime_ok_def)
  note times = parse_datetime_j_time [OF iso]
  have texts: "text_or_empty rt (JStr s) = s" for s
    by (auto simp: text_or_empty_def j_truthy_def j_text_def)
  have "run_init (reloaded r) = Inr (reloaded r)"
    using assms(1) by (simp add: run_init_Inr run_ok_def reloaded_def)
  then show ?thesis
    by (cases r) (simp add: deserialize_run_def persist_simps times texts reloaded_def j_text_def [of rt "JStr s" for s])
qed

text \<open>
  C14: a run written by \<open>to_event_data\<close> and read back by \<open>_deserialize_run\<close> is the same run, except
  that the optional text fields that held the empty string come back absent; and a result frozen as
  the empty string can be frozen again after such a reload.
\<close>

theorem run_roundtrip:
  assumes "run_ok r" and "runtime_ok rt"
  shows "deserialize_run rt now (PDict (to_event_data rt r)) = Some (reloaded r) \<and>
    (run_frozen_result_text r = Some [] \<and> run_status r = Completed \<longrightarrow> (\<exists>r'. run_freeze_result (reloaded r) t n = Inr r'))"
  using deserialize_to_event_data [OF assms] assms(1)
  by (auto simp: run_freeze_result_def reloaded_def drop_empty_def run_init_Inr run_ok_def split: if_splits)

definition sample_runtime :: runtime where
  "sample_runtime = \<lparr>iso_format = (\<lambda>t. CHR ''+'' # replicate (nat (if t < 0 then -2 * t - 1 else 2 * t)) CHR ''I''),
     iso_parse = (\<lambda>s. let n = int (length s) - 1 in Some (if n mod 2 = 1 then - ((n + 1) div 2) else n div 2)),
     int_of = (\<lambda>v. None), dict_text = (\<lambda>m. ''{}'')\<rparr>"

lemma sample_runtime_iso: "iso_parse sample_runtime (iso_format sample_runtime t) = Some t"
  by (auto simp: sample_runtime_def Let_def)

lemma sample_runtime_nonblank: "py_strip (iso_format sample_runtime t) \<noteq> []"
proof -
  have "\<exists>c \<in> set (iso_format sample_runtime t). \<not> py_isspace c"
    by (rule bexI [of _ "CHR ''+''"]) (auto simp: sample_runtime_def py_isspace_def)
  then have "dropWhile py_isspace (iso_format sample_runtime t) \<noteq> []" by (auto simp: dropWhile_eq_Nil_conv)
  then show ?thesis
    using hd_dropWhile [of py_isspace "iso_format sample_runtime t"] hd_in_set
    by (fastforce simp: py_strip_def dropWhile_eq_Nil_conv)
qed

lemma sample_runtime_ok: "runtime_ok sample_runtime"
  by (simp add: runtime_ok_def sample_runtime_iso sample_runtime_nonblank)

lemma sample_run_ok: "py_strip i \<noteq> [] \<Longrightarrow> run_ok (sample_run i)"
  by (simp add: run_ok_def sample_run_def py_strip_def py_isspace_def Let_def)

theorem run_roundtrip_witness:
  "deserialize_run sample_runtime 99 (PDict (to_event_data sample_runtime (sample_run ''r1''))) = Some (reloaded (sample_run ''r1''))
   \<and> (\<exists>r'. run_freeze_result (reloaded ((sample_run ''r1'')\<lparr>run_status := Completed, run_frozen_result_text := Some []\<rparr>)) ''late'' 5 = Inr r')"
proof
  have ok: "run_ok (sample_run ''r1'')" by (rule sample_run_ok) (simp add: py_strip_def py_isspace_def Let_def)
  show "deserialize_run sample_runtime 99 (PDict (to_event_data sample_runtime (sample_run ''r1''))) = Some (reloaded (sample_run ''r1''))"
    using run_roundtrip [OF ok sample_runtime_ok] by blast
  show "\<exists>r'. run_freeze_result (reloaded ((sample_run ''r1'')\<lparr>run_status := Completed, run_frozen_result_text := Some []\<rparr>)) ''late'' 5 = Inr r'"
    using ok run_roundtrip [of "(sample_run ''r1'')\<lparr>run_status := Completed, run_frozen_result_text := Some []\<rparr>" sample_runtime,
      OF _ sample_runtime_ok] by (simp add: run_ok_def)
qed

end
