(* ===== verification/Worklist.thy ===== *)
theory Worklist
  imports Prelude
begin

text \<open>
  The breadth-first work-list loop that several components share: pop the head of the queue, walk
  its successors, skip the ones whose key was visited, mark the others visited, and append the ones
  that still exist to the result and to the queue. It is the loop of
  \<open>SubAgentRunRegistry.list_descendant_runs\<close>, of its \<open>tree\<close> visibility and of
  \<open>SpawnManager.find_descendants\<close>. The theory shows that it ends on every input and that it returns
  exactly what the successor relation reaches.
\<close>

fun fresh_items :: "('a \<Rightarrow> 'k) \<Rightarrow> 'k set \<Rightarrow> 'a list \<Rightarrow> 'a list" where
  "fresh_items key visited [] = []"
| "fresh_items key visited (c # cs) =
     (if key c \<in> visited then fresh_items key visited cs
      else c # fresh_items key (insert (key c) visited) cs)"

definition succ_items :: "('k, 'a list) dict \<Rightarrow> 'k \<Rightarrow> 'a list" where
  "succ_items succs k = dict_get_default succs k []"

definition all_keys :: "('a \<Rightarrow> 'k) \<Rightarrow> ('k, 'a list) dict \<Rightarrow> 'k set" where
  "all_keys key succs = key ` (\<Union>cs \<in> set (dict_values succs). set cs)"

lemma finite_all_keys [simp]: "finite (all_keys key succs)"
  by (simp add: all_keys_def)

lemma succ_items_all:
  assumes "c \<in> set (succ_items succs k)"
  shows "key c \<in> all_keys key succs"
proof -
  obtain cs where "dict_get succs k = Some cs" "c \<in> set cs"
    using assms by (cases "dict_get succs k") (auto simp: succ_items_def dict_get_default_def)
  then have "cs \<in> set (dict_values succs)" by (metis dict_get_mem image_eqI list.set_map snd_conv)
  then show ?thesis using \<open>c \<in> set cs\<close> by (auto simp: all_keys_def)
qed

lemma fresh_items_props:
  "set (fresh_items key V cs) \<subseteq> set cs" "distinct (map key (fresh_items key V cs))"
  "key ` set (fresh_items key V cs) = key ` set cs - V"
proof -
  have "set (fresh_items key V cs) \<subseteq> set cs \<and> distinct (map key (fresh_items key V cs)) \<and>
    key ` set (fresh_items key V cs) = key ` set cs - V"
    by (induction key V cs rule: fresh_items.induct) auto
  then show "set (fresh_items key V cs) \<subseteq> set cs" "distinct (map key (fresh_items key V cs))"
    "key ` set (fresh_items key V cs) = key ` set cs - V" by auto
qed

lemma bfs_measure:
  "card (all_keys key succs - (V \<union> key ` set (fresh_items key V (succ_items succs k))))
     + length (filter P (fresh_items key V (succ_items succs k))) \<le> card (all_keys key succs - V)"
proof -
  define new where "new = fresh_items key V (succ_items succs k)"
  have sub: "key ` set new \<subseteq> all_keys key succs - V"
    using fresh_items_props(1,3) [of key V "succ_items succs k"] succ_items_all [of _ succs k key]
    unfolding new_def by blast
  have "all_keys key succs - (V \<union> key ` set new) = (all_keys key succs - V) - key ` set new"
    by blast
  then have "card (all_keys key succs - (V \<union> key ` set new)) = card (all_keys key succs - V) - card (key ` set new)"
    using card_Diff_subset [OF _ sub] by simp
  moreover have len: "card (key ` set new) = length new"
    using fresh_items_props(2) [of key V "succ_items succs k"] distinct_card [of "map key new"]
    unfolding new_def by simp
  moreover have "length new \<le> card (all_keys key succs - V)"
    using card_mono [OF _ sub] len by simp
  moreover have "length (filter P new) \<le> length new" by simp
  ultimately show ?thesis unfolding new_def by linarith
qed

function bfs :: "('a \<Rightarrow> 'k) \<Rightarrow> ('k \<Rightarrow> bool) \<Rightarrow> ('k, 'a list) dict \<Rightarrow> 'k set \<Rightarrow> 'k list \<Rightarrow> 'a list \<Rightarrow> 'a list" where
  "bfs key live succs visited queue out =
     (case queue of
        [] \<Rightarrow> out
      | current # rest \<Rightarrow>
          let new = fresh_items key visited (succ_items succs current);
              found = filter (\<lambda>c. live (key c)) new
          in bfs key live succs (visited \<union> key ` set new) (rest @ map key found) (out @ found))"
  by pat_completeness auto
termination
proof (relation "measure (\<lambda>(key, live, succs, visited, queue, out). card (all_keys key succs - visited) + length queue)", goal_cases)
  case 1
  show ?case by simp
next
  case (2 key live succs visited queue out current rest new found)
  then show ?case
    using bfs_measure [of key succs visited current "\<lambda>c. live (key c)"] by simp
qed

declare bfs.simps [simp del]

section \<open>What the loop returns\<close>

definition succ_rel :: "('a \<Rightarrow> 'k) \<Rightarrow> ('k \<Rightarrow> bool) \<Rightarrow> ('k, 'a list) dict \<Rightarrow> ('k \<times> 'k) set" where
  "succ_rel key live succs = {(k, key c) | k c. c \<in> set (succ_items succs k) \<and> live (key c)}"

text \<open>
  The loop invariant for a start with queue \<open>Q0\<close> and visited set \<open>V0 \<subseteq> Q0\<close>: \<open>done\<close> are the keys that
  were popped, every live successor of a popped key is visited, and all that was found is reachable.
\<close>

definition bfs_inv :: "('a \<Rightarrow> 'k) \<Rightarrow> ('k \<Rightarrow> bool) \<Rightarrow> ('k, 'a list) dict \<Rightarrow> 'k set \<Rightarrow> 'k set
    \<Rightarrow> 'k set \<Rightarrow> 'k set \<Rightarrow> 'k list \<Rightarrow> 'a list \<Rightarrow> bool" where
  "bfs_inv key live succs Q0 V0 done visited queue out \<longleftrightarrow>
     done \<union> set queue = Q0 \<union> key ` set out \<and>
     V0 \<union> key ` set out = V0 \<union> (visited \<inter> Collect live) \<and> V0 \<subseteq> visited \<and> key ` set out \<inter> V0 = {} \<and>
     (\<forall>k \<in> done. \<forall>j. (k, j) \<in> succ_rel key live succs \<longrightarrow> j \<in> visited) \<and>
     key ` set out \<subseteq> (succ_rel key live succs)\<^sup>+ `` Q0 \<and>
     distinct (map key out) \<and> (\<forall>c \<in> set out. live (key c) \<and> (\<exists>k. c \<in> set (succ_items succs k)))"

lemma bfs_inv_step:
  assumes inv: "bfs_inv key live succs Q0 V0 done visited (current # rest) out"
    and new_def: "new = fresh_items key visited (succ_items succs current)"
    and found_def: "found = filter (\<lambda>c. live (key c)) new"
  shows "bfs_inv key live succs Q0 V0 (insert current done) (visited \<union> key ` set new) (rest @ map key found) (out @ found)"
proof -
  let ?R = "succ_rel key live succs"
  have new: "set new \<subseteq> set (succ_items succs current)" "distinct (map key new)"
    "key ` set new = key ` set (succ_items succs current) - visited"
    unfolding new_def by (rule fresh_items_props)+
  have found: "key ` set found = key ` set new \<inter> Collect live" by (auto simp: found_def)
  have I: "done \<union> set (current # rest) = Q0 \<union> key ` set out" "V0 \<union> key ` set out = V0 \<union> (visited \<inter> Collect live)"
    "V0 \<subseteq> visited" "key ` set out \<inter> V0 = {}" "\<And>k j. k \<in> done \<Longrightarrow> (k, j) \<in> ?R \<Longrightarrow> j \<in> visited"
    "key ` set out \<subseteq> ?R\<^sup>+ `` Q0" "distinct (map key out)"
    "\<And>c. c \<in> set out \<Longrightarrow> live (key c) \<and> (\<exists>k. c \<in> set (succ_items succs k))"
    using inv [unfolded bfs_inv_def] by (simp_all only: simp_thms)
  have edge: "(current, key c) \<in> ?R" if "c \<in> set found" for c
    using that new(1) by (auto simp: succ_rel_def found_def)
  have cur: "current \<in> Q0 \<or> current \<in> ?R\<^sup>+ `` Q0"
  proof -
    have "current \<in> Q0 \<union> key ` set out" unfolding I(1) [symmetric] by simp
    then show ?thesis using I(6) by blast
  qed
  have reach: "key c \<in> ?R\<^sup>+ `` Q0" if "c \<in> set found" for c
    using cur edge [OF that] by (meson Image_iff r_into_trancl trancl_into_trancl)
  have closed: "j \<in> visited \<union> key ` set new" if "k \<in> insert current done" "(k, j) \<in> ?R" for k j
  proof (cases "k = current")
    case True
    with that(2) have "j \<in> key ` set (succ_items succs current)" by (auto simp: succ_rel_def)
    then show ?thesis using new(3) by blast
  next
    case False
    then show ?thesis using that I(5) by blast
  qed
  have dist: "distinct (map key found)"
    using new(2) unfolding found_def by (rule distinct_map_filter)
  have disj: "key ` set found \<inter> visited = {}"
    using new(3) found by blast
  have old: "key ` set out \<subseteq> visited" using I(2,3,8) by blast
  have c1: "insert current done \<union> set (rest @ map key found) = Q0 \<union> key ` set (out @ found)"
    using I(1) by auto
  have c2: "V0 \<union> key ` set (out @ found) = V0 \<union> ((visited \<union> key ` set new) \<inter> Collect live)"
    using I(2) found by (auto simp: image_Un)
  have c3: "key ` set (out @ found) \<inter> V0 = {}" using I(3,4) disj by auto
  have c4: "key ` set (out @ found) \<subseteq> ?R\<^sup>+ `` Q0" using I(6) reach by auto
  have c5: "distinct (map key (out @ found))" using I(7) dist disj old by auto
  have c6: "\<forall>c \<in> set (out @ found). live (key c) \<and> (\<exists>k. c \<in> set (succ_items succs k))"
    using I(8) new(1) by (auto simp: found_def)
  show ?thesis
    unfolding bfs_inv_def using c1 c2 c3 c4 c5 c6 closed I(3) by (intro conjI ballI allI impI) (auto simp only: Un_iff)
qed

lemma bfs_result_inv:
  "bfs_inv key live succs Q0 V0 D visited queue out \<Longrightarrow>
   \<exists>D' V'. bfs_inv key live succs Q0 V0 D' V' [] (bfs key live succs visited queue out)"
proof (induction key live succs visited queue out arbitrary: D rule: bfs.induct)
  case (1 key live succs visited queue out)
  show ?case
  proof (cases queue)
    case Nil
    with 1 show ?thesis by (subst bfs.simps) auto
  next
    case (Cons current rest)
    show ?thesis
      using "1.IH" [OF Cons refl refl bfs_inv_step [OF "1.prems" [unfolded Cons] refl refl]]
      by (subst bfs.simps) (simp add: Cons Let_def)
  qed
qed

text \<open>
  Started with a queue that covers the visited set, the loop returns, each once, exactly the items
  whose keys are reachable from the queue along live successors and not visited at the start.
\<close>

theorem bfs_exact:
  assumes "visited \<subseteq> set queue"
  shows "key ` set (bfs key live succs visited queue []) = (succ_rel key live succs)\<^sup>+ `` set queue - visited"
    and "distinct (map key (bfs key live succs visited queue []))"
    and "c \<in> set (bfs key live succs visited queue []) \<Longrightarrow> live (key c) \<and> (\<exists>k. c \<in> set (succ_items succs k))"
proof -
  let ?R = "succ_rel key live succs" and ?out = "bfs key live succs visited queue []"
  have "bfs_inv key live succs (set queue) visited {} visited queue []"
    by (auto simp: bfs_inv_def)
  then obtain D V where inv: "bfs_inv key live succs (set queue) visited D V [] ?out"
    using bfs_result_inv by blast
  then show "distinct (map key ?out)"
    and "c \<in> set ?out \<Longrightarrow> live (key c) \<and> (\<exists>k. c \<in> set (succ_items succs k))"
    by (auto simp: bfs_inv_def)
  have D: "D = set queue \<union> key ` set ?out" and V: "visited \<union> key ` set ?out = visited \<union> (V \<inter> Collect live)"
    and closed: "\<And>k j. k \<in> D \<Longrightarrow> (k, j) \<in> ?R \<Longrightarrow> j \<in> V"
    and sound: "key ` set ?out \<subseteq> ?R\<^sup>+ `` set queue - visited"
    using inv by (auto simp: bfs_inv_def)
  have step: "j \<in> visited \<union> key ` set ?out" if "k \<in> D" "(k, j) \<in> ?R" for k j
    using closed [OF that] that(2) V by (auto simp: succ_rel_def)
  have "j \<in> visited \<union> key ` set ?out" if "(q, j) \<in> ?R\<^sup>+" "q \<in> set queue" for q j
    using that
  proof (induction rule: trancl_induct)
    case (base y)
    then show ?case using step D by blast
  next
    case (step y z)
    then show ?case using \<open>\<And>k j. k \<in> D \<Longrightarrow> (k, j) \<in> ?R \<Longrightarrow> j \<in> visited \<union> key ` set ?out\<close> D assms by blast
  qed
  with sound show "key ` set ?out = ?R\<^sup>+ `` set queue - visited" by blast
qed

text \<open>
  Breadth first: every item was found from a start of the queue or from an item found before it.
\<close>

definition found_in_order :: "('a \<Rightarrow> 'k) \<Rightarrow> ('k, 'a list) dict \<Rightarrow> 'k set \<Rightarrow> 'a list \<Rightarrow> bool" where
  "found_in_order key succs starts out \<longleftrightarrow>
     (\<forall>xs c ys. out = xs @ c # ys \<longrightarrow> (\<exists>k \<in> starts \<union> key ` set xs. c \<in> set (succ_items succs k)))"

lemma found_in_order_append:
  assumes "found_in_order key succs starts out" and "k \<in> starts \<union> key ` set out" and "set new \<subseteq> set (succ_items succs k)"
  shows "found_in_order key succs starts (out @ new)"
  unfolding found_in_order_def
proof (intro allI impI)
  fix xs c ys assume "out @ new = xs @ c # ys"
  then consider us where "xs = out @ us" "new = us @ c # ys" | us where "out = xs @ c # us"
    by (auto simp: append_eq_append_conv2 append_eq_Cons_conv)
  then show "\<exists>k \<in> starts \<union> key ` set xs. c \<in> set (succ_items succs k)"
  proof cases
    case 1
    then have "c \<in> set (succ_items succs k)" using assms(3) by auto
    then show ?thesis using assms(2) 1 by auto
  next
    case 2
    then show ?thesis using assms(1) unfolding found_in_order_def by blast
  qed
qed

lemma bfs_in_order:
  "found_in_order key succs starts out \<Longrightarrow> set queue \<subseteq> starts \<union> key ` set out \<Longrightarrow>
   found_in_order key succs starts (bfs key live succs visited queue out)"
proof (induction key live succs visited queue out rule: bfs.induct)
  case (1 key live succs visited queue out)
  show ?case
  proof (cases queue)
    case Nil
    with 1 show ?thesis by (subst bfs.simps) auto
  next
    case (Cons current rest)
    let ?new = "fresh_items key visited (succ_items succs current)"
    let ?found = "filter (\<lambda>c. live (key c)) ?new"
    have "set ?found \<subseteq> set (succ_items succs current)"
      using fresh_items_props(1) [of key visited "succ_items succs current"] by auto
    then have "found_in_order key succs starts (out @ ?found)"
      using 1(2,3) Cons by (intro found_in_order_append [of _ _ _ _ current]) auto
    moreover have "set (rest @ map key ?found) \<subseteq> starts \<union> key ` set (out @ ?found)"
      using 1(3) Cons by auto
    ultimately have "found_in_order key succs starts
        (bfs key live succs (visited \<union> key ` set ?new) (rest @ map key ?found) (out @ ?found))"
      by (rule 1(1) [OF Cons refl refl])
    then show ?thesis by (subst bfs.simps) (simp add: Cons Let_def)
  qed
qed

end
