(* ===== verification/HeapQ.thy ===== *)
theory HeapQ
  imports Prelude "HOL-Library.Multiset"
begin

text \<open>
  The binary heaps of Python's \<open>heapq\<close> module, as the registry uses them to keep the best
  \<open>n\<close> items of a stream (\<open>heappush\<close> until the heap is full, then \<open>heapreplace\<close> when the new item
  beats the minimum). A heap is a list; \<open>siftdown\<close> moves an item towards the root and \<open>siftup\<close>
  walks the smaller children up to a leaf and sifts the item down from there, as the library does.
  The theory shows that the loop keeps exactly the \<open>n\<close> largest items.
\<close>

definition list_swap :: "'a list \<Rightarrow> nat \<Rightarrow> nat \<Rightarrow> 'a list" where
  "list_swap xs i j = xs[i := xs ! j, j := xs ! i]"

lemma length_list_swap [simp]: "length (list_swap xs i j) = length xs"
  by (simp add: list_swap_def)

lemma mset_list_swap: "i < length xs \<Longrightarrow> j < length xs \<Longrightarrow> mset (list_swap xs i j) = mset xs"
  by (simp add: list_swap_def mset_swap)

lemma nth_list_swap:
  "i < length xs \<Longrightarrow> j < length xs \<Longrightarrow> k < length xs \<Longrightarrow>
   list_swap xs i j ! k = (if k = i then xs ! j else if k = j then xs ! i else xs ! k)"
  by (auto simp: list_swap_def nth_list_update)

definition heap_parent :: "nat \<Rightarrow> nat" where
  "heap_parent i = (i - 1) div 2"

lemma heap_parent_less [simp]: "0 < i \<Longrightarrow> heap_parent i < i"
  by (simp add: heap_parent_def)

lemma heap_parent_child: "0 < i \<Longrightarrow> heap_parent i = p \<longleftrightarrow> i = 2 * p + 1 \<or> i = 2 * p + 2"
  by (auto simp: heap_parent_def)

function siftdown :: "('a \<Rightarrow> 'k::linorder) \<Rightarrow> 'a list \<Rightarrow> nat \<Rightarrow> 'a list" where
  "siftdown key heap pos =
     (if 0 < pos \<and> key (heap ! pos) < key (heap ! heap_parent pos)
      then siftdown key (list_swap heap pos (heap_parent pos)) (heap_parent pos)
      else heap)"
  by pat_completeness auto
termination by (relation "measure (\<lambda>(key, heap, pos). pos)") auto

declare siftdown.simps [simp del]

definition smaller_child :: "('a \<Rightarrow> 'k::linorder) \<Rightarrow> 'a list \<Rightarrow> nat \<Rightarrow> nat" where
  "smaller_child key heap pos =
     (let childpos = 2 * pos + 1; rightpos = childpos + 1
      in if rightpos < length heap \<and> \<not> key (heap ! childpos) < key (heap ! rightpos) then rightpos else childpos)"

function siftup :: "('a \<Rightarrow> 'k::linorder) \<Rightarrow> 'a list \<Rightarrow> nat \<Rightarrow> 'a list" where
  "siftup key heap pos =
     (if 2 * pos + 1 < length heap
      then siftup key (list_swap heap pos (smaller_child key heap pos)) (smaller_child key heap pos)
      else siftdown key heap pos)"
  by pat_completeness auto
termination
  by (relation "measure (\<lambda>(key, heap, pos). length heap - pos)") (auto simp: smaller_child_def Let_def)

declare siftup.simps [simp del]

definition heappush :: "('a \<Rightarrow> 'k::linorder) \<Rightarrow> 'a list \<Rightarrow> 'a \<Rightarrow> 'a list" where
  "heappush key heap item = siftdown key (heap @ [item]) (length heap)"

definition heapreplace :: "('a \<Rightarrow> 'k::linorder) \<Rightarrow> 'a list \<Rightarrow> 'a \<Rightarrow> 'a list" where
  "heapreplace key heap item = siftup key (heap[0 := item]) 0"

text \<open>One step of the bounded loop: push while there is room, else replace a smaller minimum.\<close>

definition keep_largest :: "('a \<Rightarrow> 'k::linorder) \<Rightarrow> nat \<Rightarrow> 'a list \<Rightarrow> 'a \<Rightarrow> 'a list" where
  "keep_largest key n heap item =
     (if length heap < n then heappush key heap item
      else if key (heap ! 0) < key item then heapreplace key heap item
      else heap)"

section \<open>The heap order\<close>

definition heap_ok :: "('a \<Rightarrow> 'k::linorder) \<Rightarrow> 'a list \<Rightarrow> bool" where
  "heap_ok key h \<longleftrightarrow> (\<forall>i. 0 < i \<and> i < length h \<longrightarrow> key (h ! heap_parent i) \<le> key (h ! i))"

lemma heap_ok_root:
  "heap_ok key h \<Longrightarrow> i < length h \<Longrightarrow> key (h ! 0) \<le> key (h ! i)"
proof (induction i rule: less_induct)
  case (less i)
  show ?case
  proof (cases "i = 0")
    case False
    then have "key (h ! 0) \<le> key (h ! heap_parent i)"
      using less by (meson heap_parent_less less_trans not_gr_zero)
    also have "\<dots> \<le> key (h ! i)" using less.prems False by (simp add: heap_ok_def)
    finally show ?thesis .
  qed simp
qed

text \<open>
  The order everywhere but at the edges of position \<open>pos\<close>: above it only (while sifting down), or
  above and below it (while walking children up); across \<open>pos\<close> it holds.
\<close>

definition across :: "('a \<Rightarrow> 'k::linorder) \<Rightarrow> 'a list \<Rightarrow> nat \<Rightarrow> bool" where
  "across key h pos \<longleftrightarrow>
     (\<forall>i. 0 < pos \<and> 0 < i \<and> i < length h \<and> heap_parent i = pos \<longrightarrow> key (h ! heap_parent pos) \<le> key (h ! i))"

definition hole_above :: "('a \<Rightarrow> 'k::linorder) \<Rightarrow> 'a list \<Rightarrow> nat \<Rightarrow> bool" where
  "hole_above key h pos \<longleftrightarrow> across key h pos \<and>
     (\<forall>i. 0 < i \<and> i < length h \<and> i \<noteq> pos \<longrightarrow> key (h ! heap_parent i) \<le> key (h ! i))"

definition hole_around :: "('a \<Rightarrow> 'k::linorder) \<Rightarrow> 'a list \<Rightarrow> nat \<Rightarrow> bool" where
  "hole_around key h pos \<longleftrightarrow> across key h pos \<and>
     (\<forall>i. 0 < i \<and> i < length h \<and> i \<noteq> pos \<and> heap_parent i \<noteq> pos \<longrightarrow> key (h ! heap_parent i) \<le> key (h ! i))"

lemma hole_above_step:
  assumes h: "hole_above key h pos" and pos: "0 < pos" "pos < length h"
    and less: "key (h ! pos) < key (h ! heap_parent pos)"
  shows "hole_above key (list_swap h pos (heap_parent pos)) (heap_parent pos)"
proof -
  let ?p = "heap_parent pos" and ?h = "list_swap h pos (heap_parent pos)"
  have pl: "?p < length h" "?p < pos" using pos heap_parent_less less_trans by blast+
  have ord: "key (h ! heap_parent i) \<le> key (h ! i)" if "0 < i" "i < length h" "i \<noteq> pos" for i
    using h that by (simp add: hole_above_def)
  have acr: "key (h ! ?p) \<le> key (h ! i)" if "0 < i" "i < length h" "heap_parent i = pos" for i
    using h pos that by (simp add: hole_above_def across_def)
  have nth: "?h ! k = (if k = pos then h ! ?p else if k = ?p then h ! pos else h ! k)" if "k < length h" for k
    using nth_list_swap [OF pos(2) pl(1) that] .
  have pari: "heap_parent i < length h" if "0 < i" "i < length h" for i
    using that heap_parent_less less_trans by blast
  have "key (?h ! heap_parent i) \<le> key (?h ! i)" if i: "0 < i" "i < length h" "i \<noteq> ?p" for i
  proof -
    consider "i = pos" | "i \<noteq> pos" "heap_parent i = pos" | "i \<noteq> pos" "heap_parent i = ?p"
      | "i \<noteq> pos" "heap_parent i \<noteq> pos" "heap_parent i \<noteq> ?p" by blast
    then show ?thesis
    proof cases
      case 1
      then show ?thesis using less_imp_le [OF less] pl by (simp add: nth pos)
    next
      case 2
      then show ?thesis using acr i pl(2) by (auto simp: nth pos)
    next
      case 3
      then have "key (h ! pos) \<le> key (h ! i)" using ord [of i] i less by simp
      then show ?thesis using 3 i pl by (simp add: nth)
    next
      case 4
      then show ?thesis using ord [of i] i pari [of i] by (simp add: nth)
    qed
  qed
  moreover have "key (?h ! heap_parent ?p) \<le> key (?h ! i)"
    if i: "0 < ?p" "0 < i" "i < length h" "heap_parent i = ?p" for i
  proof -
    have g: "heap_parent ?p < ?p" using i(1) by simp
    have pp: "key (h ! heap_parent ?p) \<le> key (h ! ?p)" using ord [of ?p] i(1) pl by simp
    moreover have "i \<noteq> pos \<Longrightarrow> key (h ! ?p) \<le> key (h ! i)" using ord [of i] i by simp
    ultimately show ?thesis using i g pl by (cases "i = pos") (auto simp: nth)
  qed
  ultimately show ?thesis by (simp add: hole_above_def across_def)
qed

lemma siftdown_ok:
  "hole_above key h pos \<Longrightarrow> pos < length h \<Longrightarrow>
   heap_ok key (siftdown key h pos) \<and> mset (siftdown key h pos) = mset h"
proof (induction key h pos rule: siftdown.induct)
  case (1 key h pos)
  show ?case
  proof (cases "0 < pos \<and> key (h ! pos) < key (h ! heap_parent pos)")
    case True
    then have "heap_parent pos < length h" using 1 heap_parent_less less_trans by blast
    moreover have "siftdown key h pos = siftdown key (list_swap h pos (heap_parent pos)) (heap_parent pos)"
      by (simp only: siftdown.simps [of key h pos] True if_True simp_thms)
    ultimately show ?thesis
      using 1 True hole_above_step [of key h pos] by (simp add: mset_list_swap)
  next
    case False
    have "heap_ok key h"
      unfolding heap_ok_def
    proof (intro allI impI)
      fix i assume "0 < i \<and> i < length h"
      then show "key (h ! heap_parent i) \<le> key (h ! i)"
        using 1 False by (cases "i = pos") (auto simp: hole_above_def)
    qed
    moreover have "siftdown key h pos = h" by (simp only: siftdown.simps [of key h pos] False if_False)
    ultimately show ?thesis by simp
  qed
qed

lemma hole_around_step:
  assumes h: "hole_around key h pos" and pos: "2 * pos + 1 < length h"
  shows "hole_around key (list_swap h pos (smaller_child key h pos)) (smaller_child key h pos)"
proof -
  let ?c = "smaller_child key h pos" and ?h = "list_swap h pos (smaller_child key h pos)"
  have c: "?c < length h" "pos < ?c" "heap_parent ?c = pos" "0 < ?c"
    using pos by (auto simp: smaller_child_def Let_def heap_parent_def)
  have pl: "pos < length h" using pos by simp
  have ord: "key (h ! heap_parent i) \<le> key (h ! i)"
    if "0 < i" "i < length h" "i \<noteq> pos" "heap_parent i \<noteq> pos" for i
    using h that by (simp add: hole_around_def)
  have acr: "key (h ! heap_parent pos) \<le> key (h ! i)" if "0 < pos" "0 < i" "i < length h" "heap_parent i = pos" for i
    using h that by (simp add: hole_around_def across_def)
  have small: "key (h ! ?c) \<le> key (h ! i)" if "0 < i" "i < length h" "heap_parent i = pos" for i
    using that by (auto simp: smaller_child_def Let_def heap_parent_child)
  have nth: "?h ! k = (if k = pos then h ! ?c else if k = ?c then h ! pos else h ! k)" if "k < length h" for k
    using nth_list_swap [OF pl c(1) that] .
  have pari: "heap_parent i < length h" if "0 < i" "i < length h" for i
    using that heap_parent_less less_trans by blast
  have "key (?h ! heap_parent i) \<le> key (?h ! i)"
    if i: "0 < i" "i < length h" "i \<noteq> ?c" "heap_parent i \<noteq> ?c" for i
  proof -
    consider "i = pos" | "i \<noteq> pos" "heap_parent i = pos" | "i \<noteq> pos" "heap_parent i \<noteq> pos" by blast
    then show ?thesis
    proof cases
      case 1
      then show ?thesis using acr [of ?c] c i heap_parent_less [of pos] pari [of i] by (auto simp: nth)
    next
      case 2
      then show ?thesis using small [of i] i pl by (simp add: nth)
    next
      case 3
      then show ?thesis using ord [of i] i pari [of i] by (simp add: nth)
    qed
  qed
  moreover have "key (?h ! heap_parent ?c) \<le> key (?h ! i)"
    if i: "0 < i" "i < length h" "heap_parent i = ?c" for i
  proof -
    have "i \<noteq> pos" "i \<noteq> ?c" using i c heap_parent_less [of i] by auto
    moreover have "key (h ! ?c) \<le> key (h ! i)" using ord [of i] i c \<open>i \<noteq> pos\<close> by simp
    ultimately show ?thesis using i c pl by (simp add: nth)
  qed
  ultimately show ?thesis by (simp add: hole_around_def across_def)
qed

lemma siftup_ok:
  "hole_around key h pos \<Longrightarrow> pos < length h \<Longrightarrow>
   heap_ok key (siftup key h pos) \<and> mset (siftup key h pos) = mset h"
proof (induction key h pos rule: siftup.induct)
  case (1 key h pos)
  show ?case
  proof (cases "2 * pos + 1 < length h")
    case True
    then have "smaller_child key h pos < length h" by (auto simp: smaller_child_def Let_def)
    moreover have "siftup key h pos = siftup key (list_swap h pos (smaller_child key h pos)) (smaller_child key h pos)"
      by (simp only: siftup.simps [of key h pos] True if_True)
    ultimately show ?thesis
      using 1 True hole_around_step [of key h pos] by (simp add: mset_list_swap)
  next
    case False
    have "hole_above key h pos"
      unfolding hole_above_def
    proof (intro conjI allI impI)
      show "across key h pos" using 1 by (simp add: hole_around_def)
      fix i assume i: "0 < i \<and> i < length h \<and> i \<noteq> pos"
      then have "heap_parent i \<noteq> pos" using False by (auto simp: heap_parent_child)
      then show "key (h ! heap_parent i) \<le> key (h ! i)" using 1 i by (simp add: hole_around_def)
    qed
    moreover have "siftup key h pos = siftdown key h pos"
      by (simp only: siftup.simps [of key h pos] False if_False)
    ultimately show ?thesis using siftdown_ok 1 by metis
  qed
qed

lemma heappush_ok:
  assumes "heap_ok key h"
  shows "heap_ok key (heappush key h x)" and "mset (heappush key h x) = add_mset x (mset h)"
proof -
  have "hole_above key (h @ [x]) (length h)"
    using assms by (auto simp: hole_above_def across_def heap_ok_def nth_append heap_parent_child)
      (metis heap_parent_less less_Suc_eq less_trans)
  then have "heap_ok key (heappush key h x) \<and> mset (heappush key h x) = mset (h @ [x])"
    unfolding heappush_def by (intro siftdown_ok) auto
  then show "heap_ok key (heappush key h x)" and "mset (heappush key h x) = add_mset x (mset h)" by auto
qed

lemma heapreplace_ok:
  assumes "heap_ok key h" and "h \<noteq> []"
  shows "heap_ok key (heapreplace key h x)" and "mset (heapreplace key h x) = add_mset x (mset h - {#h ! 0#})"
proof -
  have "hole_around key (h[0 := x]) 0"
    using assms(1) by (auto simp: hole_around_def across_def heap_ok_def nth_list_update)
  then have "heap_ok key (heapreplace key h x) \<and> mset (heapreplace key h x) = mset (h[0 := x])"
    unfolding heapreplace_def using assms(2) by (intro siftup_ok) auto
  then show "heap_ok key (heapreplace key h x)" and "mset (heapreplace key h x) = add_mset x (mset h - {#h ! 0#})"
    using assms(2) by (auto simp: mset_update)
qed

section \<open>The bounded loop keeps the largest items\<close>

text \<open>The heap holds \<open>min n (length xs)\<close> items of \<open>xs\<close>, and no item it dropped is larger than one it holds.\<close>

definition holds_largest :: "('a \<Rightarrow> 'k::linorder) \<Rightarrow> nat \<Rightarrow> 'a list \<Rightarrow> 'a list \<Rightarrow> bool" where
  "holds_largest key n xs h \<longleftrightarrow>
     heap_ok key h \<and> length h = min n (length xs) \<and> mset h \<subseteq># mset xs \<and>
     (\<forall>x \<in># mset xs - mset h. \<forall>y \<in> set h. key x \<le> key y)"

lemma holds_largestI:
  assumes "heap_ok key h" and "length h = min n (length xs)" and "mset xs = mset h + D"
    and "\<And>x y. x \<in># D \<Longrightarrow> y \<in> set h \<Longrightarrow> key x \<le> key y"
  shows "holds_largest key n xs h"
  using assms by (auto simp: holds_largest_def)

lemma holds_largest_step:
  assumes "0 < n" and inv: "holds_largest key n xs h"
  shows "holds_largest key n (xs @ [x]) (keep_largest key n h x)"
proof -
  define D where "D = mset xs - mset h"
  have ok: "heap_ok key h" and "length h = min n (length xs)" and split: "mset xs = mset h + D"
    and le: "\<And>x y. x \<in># D \<Longrightarrow> y \<in> set h \<Longrightarrow> key x \<le> key y"
    using inv by (auto simp: holds_largest_def D_def)
  have sz: "length xs = length h + size D" using arg_cong [OF split, of size] by simp
  have len: "length h \<le> n" "length h < n \<Longrightarrow> size D = 0"
    unfolding \<open>length h = min n (length xs)\<close> using sz \<open>length h = min n (length xs)\<close> by linarith+
  have root: "key (h ! 0) \<le> key y" if "y \<in> set h" for y
    using heap_ok_root [OF ok] that by (metis in_set_conv_nth)
  consider "length h < n" | "\<not> length h < n" "key (h ! 0) < key x" | "\<not> length h < n" "\<not> key (h ! 0) < key x"
    by blast
  then show ?thesis
  proof cases
    case 1
    then have "D = {#}" using len by simp
    moreover have "length (heappush key h x) = Suc (length h)"
      using mset_eq_length [of "heappush key h x" "x # h"] heappush_ok(2) [OF ok, of x] by simp
    ultimately show ?thesis
      using 1 heappush_ok [OF ok, of x] len sz split
      by (intro holds_largestI [of _ _ _ _ "{#}"]) (auto simp: keep_largest_def)
  next
    case 2
    then have ne: "h \<noteq> []" using assms(1) by auto
    then have r: "h ! 0 \<in># mset h" by (cases h) auto
    let ?h = "heapreplace key h x"
    have m: "add_mset (h ! 0) (mset ?h) = add_mset x (mset h)"
      by (subst heapreplace_ok(2) [OF ok ne], subst add_mset_commute, subst insert_DiffM [OF r]) (rule refl)
    have "mset (xs @ [x]) = add_mset x (mset h) + D" using split by simp
    then have "mset (xs @ [x]) = mset ?h + add_mset (h ! 0) D"
      unfolding m [symmetric] by (simp only: union_mset_add_mset_left union_mset_add_mset_right)
    moreover have "length ?h = length h" using arg_cong [OF m, of size] by simp
    moreover have "key z \<le> key y" if z: "z \<in># add_mset (h ! 0) D" and y: "y \<in> set ?h" for z y
    proof -
      have "y \<in># add_mset x (mset h)" unfolding m [symmetric] using y by simp
      then have "key (h ! 0) \<le> key y" using root 2(2) by auto
      moreover have "key z \<le> key (h ! 0)" using z le [of z "h ! 0"] r by auto
      ultimately show ?thesis by (rule order_trans [rotated])
    qed
    ultimately show ?thesis
      using 2 len sz heapreplace_ok(1) [OF ok ne, of x]
      by (intro holds_largestI [of _ _ _ _ "add_mset (h ! 0) D"]) (simp_all add: keep_largest_def)
  next
    case 3
    then have "key z \<le> key y" if "z \<in># add_mset x D" "y \<in> set h" for z y
      using that root [of y] le [of z y] by auto
    then show ?thesis
      using 3 ok len sz split
      by (intro holds_largestI [of _ _ _ _ "add_mset x D"]) (simp_all add: keep_largest_def)
  qed
qed

theorem keep_largest_correct:
  assumes "0 < n"
  shows "holds_largest key n xs (foldl (keep_largest key n) [] xs)"
proof (induction xs rule: rev_induct)
  case Nil
  show ?case by (simp add: holds_largest_def heap_ok_def)
next
  case (snoc x xs)
  then show ?case using holds_largest_step [OF assms] by simp
qed

end
