(* ===== verification/RunRegistry.thy ===== *)
theory RunRegistry
  imports SubAgentRun Worklist HeapQ "HOL-Library.List_Lexorder" "HOL-Library.Char_ord" "HOL-Library.Product_Lexorder"
begin

text \<open>
  The registry of delegated runs, \<open>SubAgentRunRegistry\<close> of
  \<open>src/infrastructure/agent/subagent/run_registry.py\<close>, with its JSON file. A registry object holds
  the buckets of runs per conversation; the file is shared by the registry objects of several
  processes. Every operation is one critical section of the registry lock: it takes the object and
  the file and returns its result with both updated. What an operation reads from outside (the
  clock at its three reading points, a fresh uuid, whether the write of the file succeeds) is a
  record \<open>env\<close>. Time is in microseconds. The SQL and Redis repositories are not modelled: the
  registries here have no repository, so \<open>persistence_path\<close> alone decides whether there is a file.
\<close>

section \<open>State\<close>

type_synonym bucket = "(string, run) dict"

record registry =
  reg_runs :: "(string, bucket) dict"
  reg_max_runs :: int
  reg_retention :: int
  reg_persistent :: bool
  reg_recover :: bool
  reg_sync :: bool

text \<open>
  The file: absent, unusable (unreadable, of another version, or with \<open>conversations\<close> that are no
  dictionary), or a dictionary of conversations.
\<close>

datatype conv_payload = CDict "(string, jpayload) dict" | CNotDict

datatype disk = NoFile | BadFile | RunFile "(string, conv_payload) dict"

record env =
  env_load :: int    \<comment> \<open>clock while a file is read\<close>
  env_now :: int     \<comment> \<open>clock of the operation itself\<close>
  env_evict :: int   \<comment> \<open>clock of the eviction pass\<close>
  env_uuid :: string
  env_write_ok :: bool

definition reg_bucket :: "registry \<Rightarrow> string \<Rightarrow> bucket" where
  "reg_bucket reg conv = dict_get_default (reg_runs reg) conv []"

section \<open>Metadata\<close>

definition m_truthy :: "mval \<Rightarrow> bool" where
  "m_truthy v = (case v of MNone \<Rightarrow> False | MBool b \<Rightarrow> b | MInt i \<Rightarrow> i \<noteq> 0 | MStr s \<Rightarrow> s \<noteq> [] | MObj b t \<Rightarrow> b)"

definition m_text :: "mval \<Rightarrow> string" where
  "m_text v = (case v of MNone \<Rightarrow> ''None'' | MBool b \<Rightarrow> if b then ''True'' else ''False''
     | MInt i \<Rightarrow> int_text i | MStr s \<Rightarrow> s | MObj b t \<Rightarrow> t)"

text \<open>\<open>str(run.metadata.get(k) or dflt).strip()\<close>\<close>

definition meta_text_or :: "run \<Rightarrow> string \<Rightarrow> string \<Rightarrow> string" where
  "meta_text_or r k dflt =
     (let v = dict_get_default (run_metadata r) k MNone
      in py_strip (if m_truthy v then m_text v else dflt))"

definition protected_keys :: "string list" where
  "protected_keys = [''lineage_root_run_id'', ''parent_run_id'', ''requester_session_key'']"

definition strip_protected_metadata :: "(string, mval) dict \<Rightarrow> (string, mval) dict" where
  "strip_protected_metadata m = filter (\<lambda>kv. fst kv \<notin> set protected_keys) m"

definition ensure_no_protected :: "(string, mval) dict \<Rightarrow> run_error option" where
  "ensure_no_protected m =
     (let ks = filter (\<lambda>k. k \<in> set (dict_keys m)) protected_keys
      in if ks = [] then None else Some (ProtectedMetadataKeys ks))"

definition run_parent_id :: "run \<Rightarrow> string" where
  "run_parent_id r = meta_text_or r ''parent_run_id'' []"

definition run_requester_key :: "run \<Rightarrow> string" where
  "run_requester_key r = meta_text_or r ''requester_session_key'' []"

definition run_lineage_id :: "run \<Rightarrow> string" where
  "run_lineage_id r = meta_text_or r ''lineage_root_run_id'' (run_id r)"

section \<open>The file\<close>

definition deserialize_bucket :: "runtime \<Rightarrow> int \<Rightarrow> (string, jpayload) dict \<Rightarrow> bucket" where
  "deserialize_bucket rt now ps =
     foldl (\<lambda>b kp. case deserialize_run rt now (snd kp) of None \<Rightarrow> b | Some r \<Rightarrow> dict_set (fst kp) r b) [] ps"

definition deserialize_conversations :: "runtime \<Rightarrow> int \<Rightarrow> (string, conv_payload) dict \<Rightarrow> (string, bucket) dict" where
  "deserialize_conversations rt now convs =
     foldl (\<lambda>loaded cp. case snd cp of
              CNotDict \<Rightarrow> loaded
            | CDict ps \<Rightarrow>
                let b = deserialize_bucket rt now ps
                in if b = [] then loaded else dict_set (fst cp) b loaded) [] convs"

definition load_from_json_file :: "runtime \<Rightarrow> int \<Rightarrow> registry \<Rightarrow> disk \<Rightarrow> registry" where
  "load_from_json_file rt now reg d =
     (if \<not> reg_persistent reg then reg
      else case d of
             NoFile \<Rightarrow> reg
           | BadFile \<Rightarrow> reg
           | RunFile convs \<Rightarrow> reg\<lparr>reg_runs := deserialize_conversations rt now convs\<rparr>)"

definition persist_locked :: "runtime \<Rightarrow> bool \<Rightarrow> registry \<Rightarrow> disk \<Rightarrow> disk" where
  "persist_locked rt write_ok reg d =
     (if \<not> reg_persistent reg then d
      else if write_ok
           then RunFile (map (\<lambda>cb. (fst cb, CDict (map (\<lambda>ir. (fst ir, PDict (to_event_data rt (snd ir)))) (snd cb))))
                           (reg_runs reg))
           else d)"

definition sync_from_disk_locked :: "runtime \<Rightarrow> env \<Rightarrow> registry \<Rightarrow> disk \<Rightarrow> registry" where
  "sync_from_disk_locked rt e reg d = load_from_json_file rt (env_load e) reg d"

definition sync_from_disk :: "runtime \<Rightarrow> env \<Rightarrow> registry \<Rightarrow> disk \<Rightarrow> registry" where
  "sync_from_disk rt e reg d = (if \<not> reg_sync reg then reg else sync_from_disk_locked rt e reg d)"

text \<open>Recovery at start-up: active runs time out; a raise of \<open>time_out\<close> ends the constructor.\<close>

fun recover_bucket :: "int \<Rightarrow> bucket \<Rightarrow> run_error + (bool \<times> bucket)" where
  "recover_bucket now [] = Inr (False, [])"
| "recover_bucket now ((i, r) # rest) =
     (if \<not> run_active r
      then (case recover_bucket now rest of Inl x \<Rightarrow> Inl x | Inr (u, b) \<Rightarrow> Inr (u, (i, r) # b))
      else case run_time_out r ''Recovered after process restart'' now of
             Inl x \<Rightarrow> Inl x
           | Inr t \<Rightarrow>
               (case run_init (t\<lparr>run_metadata := dict_set ''recovered_on_startup'' (MBool True) (run_metadata t)\<rparr>) of
                  Inl x \<Rightarrow> Inl x
                | Inr r' \<Rightarrow>
                    (case recover_bucket now rest of Inl x \<Rightarrow> Inl x | Inr (u, b) \<Rightarrow> Inr (True, (i, r') # b))))"

fun recover_buckets :: "int \<Rightarrow> (string, bucket) dict \<Rightarrow> run_error + (bool \<times> (string, bucket) dict)" where
  "recover_buckets now [] = Inr (False, [])"
| "recover_buckets now ((c, b) # rest) =
     (case recover_bucket now b of
        Inl x \<Rightarrow> Inl x
      | Inr (u, b') \<Rightarrow>
          (case recover_buckets now rest of Inl x \<Rightarrow> Inl x | Inr (u', bs) \<Rightarrow> Inr (u \<or> u', (c, b') # bs)))"

definition recover_inflight_runs :: "runtime \<Rightarrow> env \<Rightarrow> registry \<Rightarrow> disk \<Rightarrow> run_error + (registry \<times> disk)" where
  "recover_inflight_runs rt e reg d =
     (case recover_buckets (env_now e) (reg_runs reg) of
        Inl x \<Rightarrow> Inl x
      | Inr (updated, bs) \<Rightarrow>
          let reg' = reg\<lparr>reg_runs := bs\<rparr>
          in Inr (reg', if updated then persist_locked rt (env_write_ok e) reg' d else d))"

definition load_from_disk :: "runtime \<Rightarrow> env \<Rightarrow> registry \<Rightarrow> disk \<Rightarrow> run_error + (registry \<times> disk)" where
  "load_from_disk rt e reg d =
     (if \<not> reg_persistent reg then Inr (reg, d)
      else let reg' = load_from_json_file rt (env_load e) reg d
           in if reg_recover reg then recover_inflight_runs rt e reg' d else Inr (reg', d))"

definition registry_init ::
  "runtime \<Rightarrow> env \<Rightarrow> int \<Rightarrow> bool \<Rightarrow> int \<Rightarrow> bool \<Rightarrow> bool \<Rightarrow> disk \<Rightarrow> run_error + (registry \<times> disk)" where
  "registry_init rt e max_runs persistent retention recover sync d =
     load_from_disk rt e
       \<lparr>reg_runs = [], reg_max_runs = max 1 max_runs, reg_retention = max 0 retention,
        reg_persistent = persistent, reg_recover = recover, reg_sync = (sync \<and> persistent)\<rparr> d"

section \<open>Eviction\<close>

definition run_end :: "run \<Rightarrow> int" where
  "run_end r = (case run_ended_at r of Some t \<Rightarrow> t | None \<Rightarrow> run_created_at r)"

definition evict_expired_terminal_runs :: "int \<Rightarrow> int \<Rightarrow> bucket \<Rightarrow> bucket" where
  "evict_expired_terminal_runs retention now b =
     (if retention \<le> 0 then b
      else let threshold = now - retention * 1000000
           in foldl (\<lambda>b' r. if run_active r then b'
                            else if run_end r \<le> threshold then dict_pop (run_id r) b' else b')
                b (dict_values b))"

fun evict_oldest :: "int \<Rightarrow> run list \<Rightarrow> bucket \<Rightarrow> bucket" where
  "evict_oldest max_runs [] b = b"
| "evict_oldest max_runs (r # rs) b =
     (if int (length b) > max_runs then evict_oldest max_runs rs (dict_pop (run_id r) b) else b)"

definition evict_bucket :: "int \<Rightarrow> int \<Rightarrow> int \<Rightarrow> bucket \<Rightarrow> bucket" where
  "evict_bucket max_runs retention now b =
     (if b = [] then b
      else let b' = evict_expired_terminal_runs retention now b
           in if int (length b') \<le> max_runs then b'
              else evict_oldest max_runs
                     (sort_key run_end (filter (\<lambda>r. \<not> run_active r) (dict_values b'))) b')"

text \<open>The bucket is updated in place, so it stays in the registry even when it becomes empty.\<close>

definition evict_if_needed :: "env \<Rightarrow> string \<Rightarrow> registry \<Rightarrow> registry" where
  "evict_if_needed e conv reg =
     (case dict_get (reg_runs reg) conv of
        None \<Rightarrow> reg
      | Some b \<Rightarrow>
          reg\<lparr>reg_runs := dict_set conv (evict_bucket (reg_max_runs reg) (reg_retention reg) (env_evict e) b)
                           (reg_runs reg)\<rparr>)"

definition upsert_locked :: "runtime \<Rightarrow> env \<Rightarrow> run \<Rightarrow> registry \<Rightarrow> disk \<Rightarrow> registry \<times> disk" where
  "upsert_locked rt e r reg d =
     (let c = run_conversation_id r;
          b = dict_set (run_id r) r (reg_bucket reg c);
          reg' = evict_if_needed e c (reg\<lparr>reg_runs := dict_set c b (reg_runs reg)\<rparr>)
      in (reg', persist_locked rt (env_write_ok e) reg' d))"

section \<open>Operations\<close>

definition set_if_text :: "string \<Rightarrow> string option \<Rightarrow> (string, mval) dict \<Rightarrow> (string, mval) dict" where
  "set_if_text k v m = (case v of None \<Rightarrow> m | Some s \<Rightarrow> if s = [] then m else dict_set k (MStr s) m)"

text \<open>A run with the defaults of the dataclass.\<close>

definition new_run :: "string \<Rightarrow> string \<Rightarrow> string \<Rightarrow> string \<Rightarrow> (string, mval) dict \<Rightarrow> int \<Rightarrow> run" where
  "new_run rid conversation_id subagent_name task metadata now =
     \<lparr>run_id = rid, run_conversation_id = conversation_id, run_subagent_name = subagent_name,
      run_task = task, run_status = Pending, run_created_at = now, run_started_at = None,
      run_ended_at = None, run_summary = None, run_error = None, run_execution_time_ms = None,
      run_tokens_used = None, run_metadata = metadata, run_frozen_result_text = None, run_frozen_at = None,
      run_trace_id = None, run_parent_span_id = None, run_announce_state = None\<rparr>"

definition new_run_metadata ::
  "(string, mval) dict option \<Rightarrow> string option \<Rightarrow> string option \<Rightarrow> string option \<Rightarrow> (string, mval) dict" where
  "new_run_metadata metadata requester parent lineage =
     (let m0 = strip_protected_metadata (case metadata of None \<Rightarrow> [] | Some m \<Rightarrow> m);
          m1 = set_if_text ''requester_session_key'' requester m0;
          m2 = set_if_text ''parent_run_id'' parent m1
      in set_if_text ''lineage_root_run_id'' lineage m2)"

definition create_run ::
  "runtime \<Rightarrow> env \<Rightarrow> string \<Rightarrow> string \<Rightarrow> string \<Rightarrow> (string, mval) dict option \<Rightarrow> string option
    \<Rightarrow> string option \<Rightarrow> string option \<Rightarrow> string option \<Rightarrow> registry \<Rightarrow> disk
    \<Rightarrow> (run_error + run) \<times> registry \<times> disk" where
  "create_run rt e conversation_id subagent_name task metadata the_run_id requester parent lineage reg d =
     (let m3 = new_run_metadata metadata requester parent lineage;
          reg0 = sync_from_disk_locked rt e reg d;
          rid = (case the_run_id of Some s \<Rightarrow> if s = [] then env_uuid e else s | None \<Rightarrow> env_uuid e)
      in case run_init (new_run rid conversation_id subagent_name task m3 (env_now e)) of
           Inl x \<Rightarrow> (Inl x, reg0, d)
         | Inr r \<Rightarrow>
             (case (if \<not> m_truthy (dict_get_default (run_metadata r) ''lineage_root_run_id'' MNone)
                    then run_init (r\<lparr>run_metadata := dict_set ''lineage_root_run_id'' (MStr (run_id r)) (run_metadata r)\<rparr>)
                    else Inr r) of
                Inl x \<Rightarrow> (Inl x, reg0, d)
              | Inr r' \<Rightarrow> (Inr r', upsert_locked rt e r' reg0 d)))"

text \<open>An optional sequence of statuses: \<open>None\<close> and the empty sequence accept every status.\<close>

definition status_in :: "run_status list option \<Rightarrow> run \<Rightarrow> bool" where
  "status_in sts r \<longleftrightarrow> (case sts of None \<Rightarrow> True | Some ss \<Rightarrow> ss = [] \<or> run_status r \<in> set ss)"

definition mutate_run ::
  "runtime \<Rightarrow> env \<Rightarrow> string \<Rightarrow> string \<Rightarrow> (run \<Rightarrow> run_error + run) \<Rightarrow> run_status list option
    \<Rightarrow> registry \<Rightarrow> disk \<Rightarrow> run option \<times> registry \<times> disk" where
  "mutate_run rt e conv i mutator expected reg d =
     (let reg0 = sync_from_disk_locked rt e reg d
      in case dict_get (reg_bucket reg0 conv) i of
           None \<Rightarrow> (None, reg0, d)
         | Some r \<Rightarrow>
             if \<not> status_in expected r then (None, reg0, d)
             else (case mutator r of
                     Inl x \<Rightarrow> (None, reg0, d)
                   | Inr r' \<Rightarrow> (Some r', upsert_locked rt e r' reg0 d)))"

definition with_metadata :: "(string, mval) dict option \<Rightarrow> run_error + run \<Rightarrow> run_error + run" where
  "with_metadata metadata res =
     (case res of
        Inl x \<Rightarrow> Inl x
      | Inr r \<Rightarrow>
          (case metadata of
             None \<Rightarrow> Inr r
           | Some m \<Rightarrow> if m = [] then Inr r else run_init (r\<lparr>run_metadata := dict_merge (run_metadata r) m\<rparr>)))"

definition mark_running where
  "mark_running rt e conv i metadata expected =
     mutate_run rt e conv i (\<lambda>r. with_metadata metadata (run_start r (env_now e))) expected"

definition mark_completed where
  "mark_completed rt e conv i summary tokens_used execution_time_ms metadata expected =
     mutate_run rt e conv i
       (\<lambda>r. with_metadata metadata (run_complete r summary tokens_used execution_time_ms (env_now e))) expected"

definition mark_failed where
  "mark_failed rt e conv i error execution_time_ms metadata expected =
     mutate_run rt e conv i (\<lambda>r. with_metadata metadata (run_fail r error execution_time_ms (env_now e))) expected"

definition mark_cancelled where
  "mark_cancelled rt e conv i reason metadata expected =
     mutate_run rt e conv i (\<lambda>r. with_metadata metadata (run_cancel r reason (env_now e))) expected"

definition mark_timed_out where
  "mark_timed_out rt e conv i reason metadata expected =
     mutate_run rt e conv i (\<lambda>r. with_metadata metadata (run_time_out r reason (env_now e))) expected"

definition attach_metadata where
  "attach_metadata rt e conv i metadata expected reg d =
     (case ensure_no_protected metadata of
        Some x \<Rightarrow> (Inl x, reg, d)
      | None \<Rightarrow>
          let (r, reg', d') =
            mutate_run rt e conv i
              (\<lambda>r. run_init (r\<lparr>run_metadata := dict_merge (run_metadata r) metadata\<rparr>)) expected reg d
          in (Inr r, reg', d'))"

definition set_trace_context where
  "set_trace_context rt e conv i trace_id parent_span_id expected =
     mutate_run rt e conv i (\<lambda>r. run_with_trace_context r trace_id parent_span_id) expected"

section \<open>Queries\<close>

definition get_run :: "runtime \<Rightarrow> env \<Rightarrow> string \<Rightarrow> string \<Rightarrow> registry \<Rightarrow> disk \<Rightarrow> run option \<times> registry" where
  "get_run rt e conv i reg d =
     (let reg' = sync_from_disk rt e reg d in (dict_get (reg_bucket reg' conv) i, reg'))"

text \<open>
  \<open>_sorted_runs\<close>: \<open>nlargest\<close> and \<open>nsmallest\<close> return the first items of the stable sort, which the
  second sort leaves as they are.
\<close>

definition sorted_runs :: "bool \<Rightarrow> int option \<Rightarrow> run list \<Rightarrow> run list" where
  "sorted_runs reverse limit runs =
     (let items = sort_key (\<lambda>r. if reverse then - run_created_at r else run_created_at r) runs
      in case limit of None \<Rightarrow> items | Some n \<Rightarrow> take (nat (max n 0)) items)"

definition list_runs where
  "list_runs rt e conv statuses limit reg d =
     (let reg' = sync_from_disk rt e reg d
      in (sorted_runs True limit (filter (status_in statuses) (dict_values (reg_bucket reg' conv))), reg'))"

definition list_trace_runs where
  "list_trace_runs rt e conv trace_id statuses limit reverse reg d =
     (let reg' = sync_from_disk rt e reg d
      in (sorted_runs reverse limit
            (filter (\<lambda>r. run_trace_id r = Some (py_strip trace_id) \<and> status_in statuses r)
               (dict_values (reg_bucket reg' conv))), reg'))"

text \<open>\<open>dict.fromkeys\<close>: the first occurrence of each element, in order.\<close>

definition from_keys :: "'a list \<Rightarrow> 'a list" where
  "from_keys xs = dict_keys (foldl (\<lambda>d x. dict_set x () d) [] xs)"

definition list_runs_for_conversations where
  "list_runs_for_conversations rt e convs statuses limit reg d =
     (let reg' = sync_from_disk rt e reg d
      in (sorted_runs True limit
            (filter (status_in statuses)
               (concat (map (\<lambda>c. dict_values (reg_bucket reg' c)) (from_keys convs)))), reg'))"

text \<open>\<open>children_by_parent.setdefault(parent, []).append(x)\<close> over the bucket.\<close>

definition children_by_parent :: "(run \<Rightarrow> 'a) \<Rightarrow> run list \<Rightarrow> (string, 'a list) dict" where
  "children_by_parent item rs =
     foldl (\<lambda>d r. let p = run_parent_id r
                  in if p = [] then d else dict_set p (dict_get_default d p [] @ [item r]) d) [] rs"

definition visible_ids :: "bucket \<Rightarrow> string \<Rightarrow> string set" where
  "visible_ids b key =
     (let roots = map run_id (filter (\<lambda>r. run_requester_key r = key) (dict_values b))
      in set roots \<union>
         set (bfs (\<lambda>i. i) (\<lambda>i. True) (children_by_parent run_id (dict_values b)) (set roots) roots []))"

definition list_runs_for_requester where
  "list_runs_for_requester rt e conv requester_session_key visibility statuses reg d =
     (let (runs, reg') = list_runs rt e conv statuses None reg d; key = py_strip requester_session_key
      in if key = [] \<or> visibility = ''all'' then (runs, reg')
         else if visibility \<noteq> ''self'' \<and> visibility \<noteq> ''tree'' then ([], reg')
         else if visibility = ''self'' then (filter (\<lambda>r. run_requester_key r = key) runs, reg')
         else (filter (\<lambda>r. run_id r \<in> visible_ids (reg_bucket reg' conv) key) runs, reg'))"

definition descendant_key :: "run \<Rightarrow> int \<times> string" where
  "descendant_key r = (- run_created_at r, run_id r)"

definition list_descendant_runs where
  "list_descendant_runs rt e conv parent include_terminal limit reg d =
     (let reg' = sync_from_disk rt e reg d;
          rs = dict_values (reg_bucket reg' conv);
          kept = filter (\<lambda>r. include_terminal \<or> run_active r)
                   (bfs run_id (\<lambda>i. True) (children_by_parent (\<lambda>r. r) rs) {} [parent] [])
      in (case limit of
            None \<Rightarrow> sort_key run_created_at kept
          | Some n \<Rightarrow> if max n 0 = 0 then []
                      else sort_key run_created_at (foldl (keep_largest descendant_key (nat n)) [] kept), reg'))"

definition count_active_runs where
  "count_active_runs rt e conv reg d =
     (let reg' = sync_from_disk rt e reg d
      in (length (filter run_active (dict_values (reg_bucket reg' conv))), reg'))"

definition count_all_active_runs where
  "count_all_active_runs rt e reg d =
     (let reg' = sync_from_disk rt e reg d
      in (sum_list (map (\<lambda>b. length (filter run_active (dict_values b))) (dict_values (reg_runs reg'))), reg'))"

definition count_active_runs_for_conversations where
  "count_active_runs_for_conversations rt e convs reg d =
     (let reg' = sync_from_disk rt e reg d
      in (sum_list (map (\<lambda>c. length (filter run_active (dict_values (reg_bucket reg' c)))) (from_keys convs)), reg'))"

definition count_active_runs_for_lineage where
  "count_active_runs_for_lineage rt e conv lineage_root reg d =
     (let reg' = sync_from_disk rt e reg d
      in (if py_strip lineage_root = [] then 0
          else length (filter (\<lambda>r. run_active r \<and> run_lineage_id r = py_strip lineage_root)
                         (dict_values (reg_bucket reg' conv))), reg'))"

definition count_active_runs_for_requester where
  "count_active_runs_for_requester rt e conv requester reg d =
     (let reg' = sync_from_disk rt e reg d
      in if py_strip requester = [] then count_active_runs rt e conv reg' d
         else (length (filter (\<lambda>r. run_active r \<and> run_requester_key r = py_strip requester)
                         (dict_values (reg_bucket reg' conv))), reg'))"

end
