(* ===== verification/RunRegistryProps.thy ===== *)
theory RunRegistryProps
  imports RunRegistry
begin

text \<open>
  What the run registry promises: every operation keeps the keys of the buckets in step with the
  runs, eviction never drops an active run and drops terminal runs oldest first, what one process
  writes another one reads, start-up recovery leaves no active run, and the descendant queries
  return exactly the runs below their start.
\<close>

section \<open>Well-formed registries and files\<close>

definition bucket_ok :: "string \<Rightarrow> bucket \<Rightarrow> bool" where
  "bucket_ok c b \<longleftrightarrow> wf_dict b \<and>
     (\<forall>(i, r) \<in> set b. run_id r = i \<and> run_conversation_id r = c \<and> run_ok r)"

definition runs_ok :: "(string, bucket) dict \<Rightarrow> bool" where
  "runs_ok bs \<longleftrightarrow> wf_dict bs \<and> (\<forall>(c, b) \<in> set bs. bucket_ok c b)"

definition registry_ok :: "registry \<Rightarrow> bool" where
  "registry_ok reg \<longleftrightarrow> runs_ok (reg_runs reg) \<and> 1 \<le> reg_max_runs reg \<and> 0 \<le> reg_retention reg"

definition file_of :: "runtime \<Rightarrow> (string, bucket) dict \<Rightarrow> disk" where
  "file_of rt bs = RunFile (map (\<lambda>cb. (fst cb, CDict (map (\<lambda>ir. (fst ir, PDict (to_event_data rt (snd ir)))) (snd cb)))) bs)"

definition disk_ok :: "runtime \<Rightarrow> disk \<Rightarrow> bool" where
  "disk_ok rt d \<longleftrightarrow> d = NoFile \<or> d = BadFile \<or> (\<exists>bs. runs_ok bs \<and> d = file_of rt bs)"

lemma bucket_ok_Nil [simp]: "bucket_ok c []"
  by (simp add: bucket_ok_def)

lemma runs_ok_Nil [simp]: "runs_ok []"
  by (simp add: runs_ok_def)

lemma bucket_ok_set: "bucket_ok c b \<Longrightarrow> run_ok r \<Longrightarrow> run_conversation_id r = c \<Longrightarrow> bucket_ok c (dict_set (run_id r) r b)"
  by (auto simp: bucket_ok_def dest!: dict_set_mem)

lemma bucket_ok_pop: "bucket_ok c b \<Longrightarrow> bucket_ok c (dict_pop k b)"
  by (auto simp: bucket_ok_def dict_pop_mem_iff)

lemma runs_ok_set: "runs_ok bs \<Longrightarrow> bucket_ok c b \<Longrightarrow> runs_ok (dict_set c b bs)"
  by (auto simp: runs_ok_def dest!: dict_set_mem)

lemma runs_ok_get: "runs_ok bs \<Longrightarrow> dict_get bs c = Some b \<Longrightarrow> bucket_ok c b"
  by (auto simp: runs_ok_def dest!: dict_get_mem)

lemma reg_bucket_ok: "runs_ok (reg_runs reg) \<Longrightarrow> bucket_ok c (reg_bucket reg c)"
  by (cases "dict_get (reg_runs reg) c") (auto simp: reg_bucket_def dict_get_default_def dest: runs_ok_get)

lemma bucket_ok_get: "bucket_ok c b \<Longrightarrow> dict_get b i = Some r \<Longrightarrow> run_id r = i \<and> run_conversation_id r = c \<and> run_ok r"
  by (auto simp: bucket_ok_def dest!: dict_get_mem)

lemma bucket_ok_value: "bucket_ok c b \<Longrightarrow> r \<in> set (dict_values b) \<longleftrightarrow> dict_get b (run_id r) = Some r"
  by (auto simp: bucket_ok_def dict_get_iff_mem) (force simp: image_iff)+

lemma bucket_ok_ids: "bucket_ok c b \<Longrightarrow> map run_id (dict_values b) = dict_keys b"
  by (induction b) (auto simp: bucket_ok_def wf_dict_def)

lemma bucket_ok_distinct: "bucket_ok c b \<Longrightarrow> distinct (map run_id (dict_values b))"
  by (simp only: bucket_ok_ids) (simp add: bucket_ok_def wf_dict_def)

section \<open>Reading back what was written\<close>

lemma foldl_dict_set_fresh:
  "distinct (map fst acc @ map fst xs) \<Longrightarrow>
   foldl (\<lambda>d kv. dict_set (fst kv) (g (snd kv)) d) acc xs = acc @ map (\<lambda>kv. (fst kv, g (snd kv))) xs"
proof (induction xs arbitrary: acc)
  case (Cons x xs)
  then have "dict_set (fst x) (g (snd x)) acc = acc @ [(fst x, g (snd x))]"
    by (intro dict_set_fresh) auto
  with Cons show ?case by simp
qed simp

lemma reloaded_fields [simp]:
  "run_id (reloaded r) = run_id r" "run_conversation_id (reloaded r) = run_conversation_id r"
  "run_status (reloaded r) = run_status r" "run_active (reloaded r) = run_active r"
  "run_ok (reloaded r) = run_ok r" "run_metadata (reloaded r) = run_metadata r"
  "run_created_at (reloaded r) = run_created_at r" "run_ended_at (reloaded r) = run_ended_at r"
  by (simp_all add: reloaded_def run_active_def run_ok_def)

lemma deserialize_written:
  assumes rt: "runtime_ok rt" and b: "bucket_ok c b"
  shows "deserialize_bucket rt now (map (\<lambda>ir. (fst ir, PDict (to_event_data rt (snd ir)))) b)
    = map (\<lambda>ir. (fst ir, reloaded (snd ir))) b"
proof -
  have rd: "deserialize_run rt now (PDict (to_event_data rt r)) = Some (reloaded r)" if "run_ok r" for r
    using deserialize_to_event_data [OF that rt] .
  have "foldl (\<lambda>b kp. case deserialize_run rt now (snd kp) of None \<Rightarrow> b | Some r \<Rightarrow> dict_set (fst kp) r b) acc
          (map (\<lambda>ir. (fst ir, PDict (to_event_data rt (snd ir)))) b)
      = foldl (\<lambda>d ir. dict_set (fst ir) (reloaded (snd ir)) d) acc b" for acc
    using b by (induction b arbitrary: acc) (auto simp: rd bucket_ok_def wf_dict_def)
  then show ?thesis
    using foldl_dict_set_fresh [of "[]" b reloaded] b
    by (simp add: deserialize_bucket_def bucket_ok_def wf_dict_def)
qed

definition reload_runs :: "(string, bucket) dict \<Rightarrow> (string, bucket) dict" where
  "reload_runs bs = map (\<lambda>cb. (fst cb, map (\<lambda>ir. (fst ir, reloaded (snd ir))) (snd cb))) (filter (\<lambda>cb. snd cb \<noteq> []) bs)"

lemma deserialize_conversations_written:
  assumes rt: "runtime_ok rt" and bs: "runs_ok bs"
  shows "deserialize_conversations rt now
      (map (\<lambda>cb. (fst cb, CDict (map (\<lambda>ir. (fst ir, PDict (to_event_data rt (snd ir)))) (snd cb)))) bs) = reload_runs bs"
proof -
  let ?g = "map (\<lambda>ir. (fst ir, reloaded (snd ir)))"
  have "foldl (\<lambda>loaded cp. case snd cp of CNotDict \<Rightarrow> loaded
            | CDict ps \<Rightarrow> let b = deserialize_bucket rt now ps in if b = [] then loaded else dict_set (fst cp) b loaded) acc
          (map (\<lambda>cb. (fst cb, CDict (map (\<lambda>ir. (fst ir, PDict (to_event_data rt (snd ir)))) (snd cb)))) bs)
      = foldl (\<lambda>d cb. dict_set (fst cb) (?g (snd cb)) d) acc (filter (\<lambda>cb. snd cb \<noteq> []) bs)" for acc
    using bs
    by (induction bs arbitrary: acc)
      (auto simp: deserialize_written [OF rt] deserialize_bucket_def [of rt now "[]"] runs_ok_def wf_dict_def Let_def)
  moreover have "distinct (map fst (filter (\<lambda>cb. snd cb \<noteq> []) bs))"
    using bs by (simp add: runs_ok_def wf_dict_def distinct_map_filter)
  ultimately show ?thesis
    using foldl_dict_set_fresh [of "[]" "filter (\<lambda>cb. snd cb \<noteq> []) bs" ?g]
    by (simp add: deserialize_conversations_def reload_runs_def)
qed

lemma bucket_ok_reload: "bucket_ok c b \<Longrightarrow> bucket_ok c (map (\<lambda>ir. (fst ir, reloaded (snd ir))) b)"
  by (auto simp: bucket_ok_def wf_dict_def comp_def)

lemma runs_ok_reload: "runs_ok bs \<Longrightarrow> runs_ok (reload_runs bs)"
  by (auto simp: runs_ok_def reload_runs_def wf_dict_def comp_def distinct_map_filter intro!: bucket_ok_reload)

lemma load_file_of:
  assumes "runtime_ok rt" and "runs_ok bs" and "reg_persistent reg"
  shows "load_from_json_file rt now reg (file_of rt bs) = reg\<lparr>reg_runs := reload_runs bs\<rparr>"
  using assms by (simp add: load_from_json_file_def file_of_def deserialize_conversations_written)

lemma persist_locked_file: "persist_locked rt ok reg d = (if reg_persistent reg \<and> ok then file_of rt (reg_runs reg) else d)"
  by (simp add: persist_locked_def file_of_def)

definition lookup_run :: "(string, bucket) dict \<Rightarrow> string \<Rightarrow> string \<Rightarrow> run option" where
  "lookup_run bs c i = dict_get (dict_get_default bs c []) i"

lemma lookup_reload: "runs_ok bs \<Longrightarrow> lookup_run (reload_runs bs) c i = map_option reloaded (lookup_run bs c i)"
proof -
  assume ok: "runs_ok bs"
  have inner: "dict_get (map (\<lambda>ir. (fst ir, reloaded (snd ir))) b) i = map_option reloaded (dict_get b i)" for b :: bucket
    by (induction b) auto
  have "dict_get (reload_runs bs) c =
      (case dict_get bs c of None \<Rightarrow> None | Some b \<Rightarrow> if b = [] then None else Some (map (\<lambda>ir. (fst ir, reloaded (snd ir))) b))"
    using ok unfolding runs_ok_def wf_dict_def
  proof (induction bs)
    case (Cons cb bs)
    then show ?case
      by (cases "fst cb = c"; cases "snd cb = []")
        (auto simp: reload_runs_def dict_get_None_iff image_iff split: option.splits)
  qed (simp add: reload_runs_def)
  then show ?thesis
    by (cases "dict_get bs c") (auto simp: lookup_run_def dict_get_default_def inner)
qed

section \<open>Eviction\<close>

lemma filter_dict_pop: "dict_pop k b = filter (\<lambda>kv. fst kv \<noteq> k) b"
  by (induction b) auto

definition expired :: "int \<Rightarrow> int \<Rightarrow> run \<Rightarrow> bool" where
  "expired retention now r \<longleftrightarrow> 0 < retention \<and> \<not> run_active r \<and> run_end r \<le> now - retention * 1000000"

lemma evict_expired_filter:
  assumes "bucket_ok c b"
  shows "evict_expired_terminal_runs retention now b = filter (\<lambda>ir. \<not> expired retention now (snd ir)) b"
proof -
  have pops: "foldl (\<lambda>b' r. if run_active r then b'
       else if run_end r \<le> now - retention * 1000000 then dict_pop (run_id r) b' else b') b0 rs
     = filter (\<lambda>ir. fst ir \<notin> run_id ` {r \<in> set rs. \<not> run_active r \<and> run_end r \<le> now - retention * 1000000}) b0" for b0 :: bucket and rs
    by (induction rs arbitrary: b0) (auto simp: filter_dict_pop intro!: filter_cong)
  have "fst ir \<in> run_id ` {r \<in> set (dict_values b). \<not> run_active r \<and> run_end r \<le> now - retention * 1000000} \<longleftrightarrow>
      \<not> run_active (snd ir) \<and> run_end (snd ir) \<le> now - retention * 1000000" if "ir \<in> set b" for ir
  proof
    assume "fst ir \<in> run_id ` {r \<in> set (dict_values b). \<not> run_active r \<and> run_end r \<le> now - retention * 1000000}"
    then obtain r where r: "fst ir = run_id r" "r \<in> set (dict_values b)" "\<not> run_active r \<and> run_end r \<le> now - retention * 1000000"
      by blast
    then have "dict_get b (fst ir) = Some r" using bucket_ok_value [OF assms] by simp
    moreover have "dict_get b (fst ir) = Some (snd ir)"
      using that assms by (simp add: bucket_ok_def dict_get_iff_mem)
    ultimately show "\<not> run_active (snd ir) \<and> run_end (snd ir) \<le> now - retention * 1000000" using r(3) by simp
  next
    assume "\<not> run_active (snd ir) \<and> run_end (snd ir) \<le> now - retention * 1000000"
    moreover have "run_id (snd ir) = fst ir" using that assms by (auto simp: bucket_ok_def)
    ultimately show "fst ir \<in> run_id ` {r \<in> set (dict_values b). \<not> run_active r \<and> run_end r \<le> now - retention * 1000000}"
      using that by (force simp: image_iff)
  qed
  then show ?thesis
    unfolding evict_expired_terminal_runs_def Let_def pops expired_def
    by (auto intro!: filter_cong)
qed

lemma bucket_ok_filter: "bucket_ok c b \<Longrightarrow> bucket_ok c (filter P b)"
  by (auto simp: bucket_ok_def wf_dict_def distinct_map_filter)

text \<open>
  The second pass walks the terminal runs in the order of their end: it drops a prefix of that list,
  stopping as soon as the bucket fits.
\<close>

lemma evict_oldest_prefix:
  assumes "bucket_ok c b" and "distinct (map run_id rs)" and "set rs \<subseteq> set (dict_values b)"
  shows "\<exists>n. evict_oldest m rs b = filter (\<lambda>ir. snd ir \<notin> set (take n rs)) b \<and>
     (int (length (evict_oldest m rs b)) \<le> m \<or> set (take n rs) = set rs)"
  using assms
proof (induction m rs b rule: evict_oldest.induct)
  case (1 m b)
  then show ?case by auto
next
  case (2 m r rs b)
  show ?case
  proof (cases "int (length b) > m")
    case True
    have ok: "bucket_ok c b" using 2 by blast
    have pop: "dict_pop (run_id r) b = filter (\<lambda>ir. snd ir \<noteq> r) b"
    proof -
      have "fst ir \<noteq> run_id r \<longleftrightarrow> snd ir \<noteq> r" if "ir \<in> set b" for ir
      proof -
        have "dict_get b (fst ir) = Some (snd ir)" "run_id (snd ir) = fst ir"
          using that ok by (auto simp: bucket_ok_def dict_get_iff_mem)
        moreover have "dict_get b (run_id r) = Some r" using bucket_ok_value [OF ok] "2.prems"(3) by simp
        ultimately show ?thesis by auto
      qed
      then show ?thesis by (auto simp: filter_dict_pop intro!: filter_cong)
    qed
    have "r \<notin> set rs" using "2.prems"(2) by auto
    then have "set rs \<subseteq> set (dict_values (dict_pop (run_id r) b))"
      using "2.prems"(3) unfolding pop by (force simp: image_iff)
    then obtain n where n: "evict_oldest m rs (dict_pop (run_id r) b) =
        filter (\<lambda>ir. snd ir \<notin> set (take n rs)) (dict_pop (run_id r) b)"
      "int (length (evict_oldest m rs (dict_pop (run_id r) b))) \<le> m \<or> set (take n rs) = set rs"
      using "2.IH" [OF True bucket_ok_pop [OF ok]] "2.prems"(2) by auto
    then show ?thesis
      using True by (intro exI [of _ "Suc n"]) (auto simp: pop intro!: filter_cong)
  next
    case False
    then show ?thesis by (intro exI [of _ 0]) simp
  qed
qed

lemma sorted_take_drop:
  assumes "sorted (map f xs)" and "x \<in> set (take n xs)" and "y \<in> set xs" and "y \<notin> set (take n xs)"
  shows "f x \<le> f y"
proof -
  have "y \<in> set (drop n xs)" using assms(3,4) by (metis Un_iff append_take_drop_id set_append)
  moreover have "sorted (map f (take n xs) @ map f (drop n xs))"
    using assms(1) by (metis append_take_drop_id map_append)
  ultimately show ?thesis using assms(2) by (auto simp: sorted_append)
qed

lemma evict_bucket_split:
  assumes ok: "bucket_ok c b"
  obtains D where "evict_bucket m ret now b = filter (\<lambda>ir. \<not> expired ret now (snd ir) \<and> snd ir \<notin> D) b"
    and "\<And>r. r \<in> D \<Longrightarrow> \<not> run_active r"
    and "\<And>r q. r \<in> D \<Longrightarrow> q \<in> set (dict_values b) \<Longrightarrow> \<not> run_active q \<Longrightarrow> \<not> expired ret now q \<Longrightarrow> q \<notin> D \<Longrightarrow> run_end r \<le> run_end q"
    and "int (length (evict_bucket m ret now b)) \<le> m \<or>
         (\<forall>q \<in> set (dict_values b). \<not> run_active q \<longrightarrow> expired ret now q \<or> q \<in> D)"
    and "int (length (filter (\<lambda>ir. \<not> expired ret now (snd ir)) b)) \<le> m \<Longrightarrow> D = {}"
proof -
  define b1 where "b1 = filter (\<lambda>ir. \<not> expired ret now (snd ir)) b"
  define ts where "ts = sort_key run_end (filter (\<lambda>r. \<not> run_active r) (dict_values b1))"
  have ok1: "bucket_ok c b1" unfolding b1_def by (rule bucket_ok_filter [OF ok])
  have ev: "evict_bucket m ret now b = (if int (length b1) \<le> m then b1 else evict_oldest m ts b1)"
    using evict_expired_filter [OF ok, of ret now]
    by (cases "b = []") (auto simp: evict_bucket_def b1_def ts_def Let_def)
  have sts: "set ts = {r \<in> set (dict_values b1). \<not> run_active r}" by (auto simp: ts_def)
  show thesis
  proof (cases "int (length b1) \<le> m")
    case True
    then show thesis by (intro that [of "{}"]) (auto simp: ev b1_def)
  next
    case False
    have "mset (map run_id ts) = mset (map run_id (filter (\<lambda>r. \<not> run_active r) (dict_values b1)))" by (simp add: ts_def)
    then have "distinct (map run_id ts)"
      using bucket_ok_distinct [OF ok1] by (metis distinct_map_filter mset_eq_imp_distinct_iff)
    then obtain n where n: "evict_oldest m ts b1 = filter (\<lambda>ir. snd ir \<notin> set (take n ts)) b1"
      "int (length (evict_oldest m ts b1)) \<le> m \<or> set (take n ts) = set ts"
      using evict_oldest_prefix [OF ok1, of ts m] sts by blast
    have vals: "set (dict_values b1) = {q \<in> set (dict_values b). \<not> expired ret now q}" by (auto simp: b1_def)
    have sub: "set (take n ts) \<subseteq> set ts" by (rule set_take_subset)
    show thesis
    proof (rule that [of "set (take n ts)"])
      show "evict_bucket m ret now b = filter (\<lambda>ir. \<not> expired ret now (snd ir) \<and> snd ir \<notin> set (take n ts)) b"
        using False n(1) by (simp add: ev b1_def conj_commute)
      show "\<And>r. r \<in> set (take n ts) \<Longrightarrow> \<not> run_active r" using sub sts by blast
      show "run_end r \<le> run_end q" if "r \<in> set (take n ts)" "q \<in> set (dict_values b)" "\<not> run_active q"
        "\<not> expired ret now q" "q \<notin> set (take n ts)" for r q
        by (rule sorted_take_drop [of run_end ts r n q]) (use that sts vals in \<open>auto simp: ts_def\<close>)
      show "int (length (evict_bucket m ret now b)) \<le> m \<or>
          (\<forall>q \<in> set (dict_values b). \<not> run_active q \<longrightarrow> expired ret now q \<or> q \<in> set (take n ts))"
        using n(2) False sts vals by (auto simp: ev)
      show "int (length (filter (\<lambda>ir. \<not> expired ret now (snd ir)) b)) \<le> m \<Longrightarrow> set (take n ts) = {}"
        using False by (simp add: b1_def)
    qed
  qed
qed

text \<open>What an eviction pass that turns \<open>b\<close> into \<open>b'\<close> guarantees.\<close>

definition eviction_ok :: "int \<Rightarrow> int \<Rightarrow> int \<Rightarrow> bucket \<Rightarrow> bucket \<Rightarrow> bool" where
  "eviction_ok m ret now b b' \<longleftrightarrow>
     (\<exists>keep. b' = filter keep b) \<and>
     filter (\<lambda>ir. run_active (snd ir)) b' = filter (\<lambda>ir. run_active (snd ir)) b \<and>
     int (length b') \<le> max m (int (length (filter (\<lambda>ir. run_active (snd ir)) b))) \<and>
     (\<forall>ir \<in> set b'. \<not> expired ret now (snd ir)) \<and>
     (\<forall>ir \<in> set b. ir \<notin> set b' \<longrightarrow> expired ret now (snd ir) \<or>
        m < int (length (filter (\<lambda>ir. \<not> expired ret now (snd ir)) b)) \<and>
        (\<forall>jq \<in> set b'. run_active (snd jq) \<or> run_end (snd ir) \<le> run_end (snd jq)))"

lemma evict_bucket_ok:
  assumes ok: "bucket_ok c b"
  shows "eviction_ok m ret now b (evict_bucket m ret now b)"
proof -
  obtain D where D: "evict_bucket m ret now b = filter (\<lambda>ir. \<not> expired ret now (snd ir) \<and> snd ir \<notin> D) b"
    "\<And>r. r \<in> D \<Longrightarrow> \<not> run_active r"
    "\<And>r q. r \<in> D \<Longrightarrow> q \<in> set (dict_values b) \<Longrightarrow> \<not> run_active q \<Longrightarrow> \<not> expired ret now q \<Longrightarrow> q \<notin> D \<Longrightarrow> run_end r \<le> run_end q"
    "int (length (evict_bucket m ret now b)) \<le> m \<or>
         (\<forall>q \<in> set (dict_values b). \<not> run_active q \<longrightarrow> expired ret now q \<or> q \<in> D)"
    "int (length (filter (\<lambda>ir. \<not> expired ret now (snd ir)) b)) \<le> m \<Longrightarrow> D = {}"
    by (rule evict_bucket_split [OF ok, of m ret now], rule that; assumption)
  let ?b = "evict_bucket m ret now b"
  have act: "filter (\<lambda>ir. run_active (snd ir)) ?b = filter (\<lambda>ir. run_active (snd ir)) b"
    unfolding D(1) by (auto simp: expired_def dest: D(2) intro!: filter_cong)
  have bound: "int (length ?b) \<le> max m (int (length (filter (\<lambda>ir. run_active (snd ir)) b)))"
  proof (cases "int (length ?b) \<le> m")
    case False
    then have "\<forall>ir \<in> set ?b. run_active (snd ir)" using D(4) unfolding D(1) by auto
    then have "filter (\<lambda>ir. run_active (snd ir)) ?b = ?b" by (simp add: filter_id_conv)
    then show ?thesis using act by simp
  qed simp
  have older: "expired ret now (snd ir) \<or> m < int (length (filter (\<lambda>ir. \<not> expired ret now (snd ir)) b)) \<and>
        (\<forall>jq \<in> set ?b. run_active (snd jq) \<or> run_end (snd ir) \<le> run_end (snd jq))" if "ir \<in> set b" "ir \<notin> set ?b" for ir
  proof (cases "expired ret now (snd ir)")
    case False
    then have inD: "snd ir \<in> D" using that unfolding D(1) by auto
    then have "m < int (length (filter (\<lambda>ir. \<not> expired ret now (snd ir)) b))" using D(5) by fastforce
    moreover have "run_active (snd jq) \<or> run_end (snd ir) \<le> run_end (snd jq)" if "jq \<in> set ?b" for jq
      using that inD D(3) [OF inD, of "snd jq"] unfolding D(1) by auto
    ultimately show ?thesis by blast
  qed simp
  show ?thesis
    unfolding eviction_ok_def using D(1) act bound older by (intro conjI) (blast, blast, blast, auto)
qed

lemma reg_bucket_update [simp]:
  "reg_bucket (reg\<lparr>reg_runs := dict_set c b (reg_runs reg)\<rparr>) c' = (if c' = c then b else reg_bucket reg c')"
  by (simp add: reg_bucket_def dict_get_default_def dict_get_set)

lemma upsert_bucket:
  "upsert_locked rt e r reg d = (reg', d') \<Longrightarrow>
   reg_bucket reg' c' = (if c' = run_conversation_id r
     then evict_bucket (reg_max_runs reg) (reg_retention reg) (env_evict e) (dict_set (run_id r) r (reg_bucket reg c'))
     else reg_bucket reg c')"
  by (auto simp: upsert_locked_def evict_if_needed_def Let_def dict_get_set reg_bucket_def dict_get_default_def)

text \<open>
  C9: storing a run in a well-formed registry leaves every other conversation alone and keeps all
  active runs of its own; terminal runs past the retention time are gone; the bucket is at most as
  large as the limit or the number of active runs; and a terminal run that is not expired is evicted
  only when the bucket is too large, and only if no terminal run that ended earlier stays.
\<close>

theorem upsert_evicts_safely:
  assumes "registry_ok reg" and "run_ok r" and "upsert_locked rt e r reg d = (reg', d')"
  shows "(\<forall>c'. c' \<noteq> run_conversation_id r \<longrightarrow> reg_bucket reg' c' = reg_bucket reg c') \<and>
    eviction_ok (reg_max_runs reg) (reg_retention reg) (env_evict e)
      (dict_set (run_id r) r (reg_bucket reg (run_conversation_id r))) (reg_bucket reg' (run_conversation_id r))"
proof -
  have "bucket_ok (run_conversation_id r) (dict_set (run_id r) r (reg_bucket reg (run_conversation_id r)))"
    using assms(1,2) by (auto simp: registry_ok_def intro!: bucket_ok_set reg_bucket_ok)
  then show ?thesis
    using upsert_bucket [OF assms(3)] evict_bucket_ok by auto
qed

definition sample_registry :: registry where
  "sample_registry = \<lparr>reg_runs = [], reg_max_runs = 1, reg_retention = 5, reg_persistent = True,
     reg_recover = True, reg_sync = True\<rparr>"

definition sample_env :: env where
  "sample_env = \<lparr>env_load = 20, env_now = 20, env_evict = 20, env_uuid = ''uuid'', env_write_ok = True\<rparr>"

lemma sample_registry_ok: "registry_ok sample_registry"
  by (simp add: registry_ok_def sample_registry_def)

theorem upsert_evicts_safely_witness:
  "\<exists>reg' d'. upsert_locked sample_runtime sample_env (sample_run ''r1'') sample_registry NoFile = (reg', d') \<and>
     registry_ok sample_registry \<and> run_ok (sample_run ''r1'') \<and>
     eviction_ok 1 5 20 [(''r1'', sample_run ''r1'')] (reg_bucket reg' ''conv'')"
proof -
  obtain reg' d' where u: "upsert_locked sample_runtime sample_env (sample_run ''r1'') sample_registry NoFile = (reg', d')"
    by fastforce
  have ok: "run_ok (sample_run ''r1'')" by (rule sample_run_ok) (simp add: py_strip_def py_isspace_def Let_def)
  have "dict_set (run_id (sample_run ''r1'')) (sample_run ''r1'') (reg_bucket sample_registry (run_conversation_id (sample_run ''r1'')))
      = [(''r1'', sample_run ''r1'')]"
    by (simp add: sample_run_def sample_registry_def reg_bucket_def dict_get_default_def)
  then have "eviction_ok 1 5 20 [(''r1'', sample_run ''r1'')] (reg_bucket reg' ''conv'')"
    using upsert_evicts_safely [OF sample_registry_ok ok u]
    by (simp add: sample_registry_def sample_env_def sample_run_def)
  then show ?thesis using u ok sample_registry_ok by blast
qed

section \<open>Every operation keeps registries and file well-formed\<close>

lemma load_ok:
  assumes "runtime_ok rt" and "disk_ok rt d" and "registry_ok reg"
  shows "registry_ok (load_from_json_file rt now reg d)"
proof (cases "reg_persistent reg")
  case True
  consider "d = NoFile" | "d = BadFile" | bs where "runs_ok bs" "d = file_of rt bs" using assms(2) by (auto simp: disk_ok_def)
  then show ?thesis
  proof cases
    case 3
    then show ?thesis using load_file_of [OF assms(1) 3(1) True] assms(3) by (simp add: registry_ok_def runs_ok_reload)
  qed (use assms(3) in \<open>auto simp: load_from_json_file_def\<close>)
qed (use assms(3) in \<open>simp add: load_from_json_file_def\<close>)

lemma sync_locked_ok:
  "runtime_ok rt \<Longrightarrow> disk_ok rt d \<Longrightarrow> registry_ok reg \<Longrightarrow> registry_ok (sync_from_disk_locked rt e reg d)"
  by (simp add: sync_from_disk_locked_def load_ok)

lemma sync_ok: "runtime_ok rt \<Longrightarrow> disk_ok rt d \<Longrightarrow> registry_ok reg \<Longrightarrow> registry_ok (sync_from_disk rt e reg d)"
  by (simp add: sync_from_disk_def sync_locked_ok)

lemma sync_locked_fields [simp]:
  "reg_persistent (sync_from_disk_locked rt e reg d) = reg_persistent reg"
  "reg_max_runs (sync_from_disk_locked rt e reg d) = reg_max_runs reg"
  "reg_retention (sync_from_disk_locked rt e reg d) = reg_retention reg"
  "reg_sync (sync_from_disk_locked rt e reg d) = reg_sync reg"
  by (auto simp: sync_from_disk_locked_def load_from_json_file_def split: disk.splits)

lemma eviction_ok_bucket: "bucket_ok c b \<Longrightarrow> eviction_ok m ret now b b' \<Longrightarrow> bucket_ok c b'"
  by (auto simp: eviction_ok_def bucket_ok_filter)

lemma evict_if_needed_ok: "registry_ok reg \<Longrightarrow> registry_ok (evict_if_needed e c reg)"
  by (auto simp: registry_ok_def evict_if_needed_def split: option.splits
      intro!: runs_ok_set intro: eviction_ok_bucket [OF _ evict_bucket_ok] dest: runs_ok_get)

lemma upsert_ok:
  assumes "registry_ok reg" and "disk_ok rt d" and "run_ok r" and "upsert_locked rt e r reg d = (reg', d')"
  shows "registry_ok reg' \<and> disk_ok rt d'"
proof -
  have "registry_ok (reg\<lparr>reg_runs := dict_set (run_conversation_id r) (dict_set (run_id r) r (reg_bucket reg (run_conversation_id r))) (reg_runs reg)\<rparr>)"
    using assms(1,3) by (auto simp: registry_ok_def intro!: runs_ok_set bucket_ok_set reg_bucket_ok)
  then have "registry_ok reg'"
    using assms(4) by (auto simp: upsert_locked_def Let_def evict_if_needed_ok)
  moreover have "d' = persist_locked rt (env_write_ok e) reg' d"
    using assms(4) by (auto simp: upsert_locked_def Let_def)
  ultimately show ?thesis
    using assms(2) by (auto simp: persist_locked_file disk_ok_def registry_ok_def)
qed

lemma mutate_run_cases:
  assumes "mutate_run rt e conv i f ex reg d = (res, reg', d')"
  shows "(res = None \<and> reg' = sync_from_disk_locked rt e reg d \<and> d' = d) \<or>
    (\<exists>r r'. dict_get (reg_bucket (sync_from_disk_locked rt e reg d) conv) i = Some r \<and> status_in ex r \<and> f r = Inr r' \<and>
       res = Some r' \<and> upsert_locked rt e r' (sync_from_disk_locked rt e reg d) d = (reg', d'))"
  using assms by (auto simp: mutate_run_def Let_def split: option.splits if_splits sum.splits)

lemma mutate_run_ok:
  assumes "runtime_ok rt" and "registry_ok reg" and "disk_ok rt d"
    and "\<And>r r'. f r = Inr r' \<Longrightarrow> run_ok r'" and "mutate_run rt e conv i f ex reg d = (res, reg', d')"
  shows "registry_ok reg' \<and> disk_ok rt d'"
  using mutate_run_cases [OF assms(5)] upsert_ok [OF sync_locked_ok [OF assms(1,3,2)] assms(3)] assms(4)
    sync_locked_ok [OF assms(1,3,2)] assms(3) by blast

text \<open>The operations of one registry object as a step function.\<close>

datatype registry_call =
    CreateRun string string string "(string, mval) dict option" "string option" "string option" "string option" "string option"
  | MarkRunning string string "(string, mval) dict option" "run_status list option"
  | MarkCompleted string string "string option" "int option" "int option" "(string, mval) dict option" "run_status list option"
  | MarkFailed string string string "int option" "(string, mval) dict option" "run_status list option"
  | MarkCancelled string string "string option" "(string, mval) dict option" "run_status list option"
  | MarkTimedOut string string string "(string, mval) dict option" "run_status list option"
  | AttachMetadata string string "(string, mval) dict" "run_status list option"
  | SetTraceContext string string string "string option" "run_status list option"
  | Query

fun apply_registry_call :: "runtime \<Rightarrow> env \<Rightarrow> registry_call \<Rightarrow> registry \<Rightarrow> disk \<Rightarrow> registry \<times> disk" where
  "apply_registry_call rt e (CreateRun c n t m i q p l) reg d = snd (create_run rt e c n t m i q p l reg d)"
| "apply_registry_call rt e (MarkRunning c i m ex) reg d = snd (mark_running rt e c i m ex reg d)"
| "apply_registry_call rt e (MarkCompleted c i s tk ms m ex) reg d = snd (mark_completed rt e c i s tk ms m ex reg d)"
| "apply_registry_call rt e (MarkFailed c i err ms m ex) reg d = snd (mark_failed rt e c i err ms m ex reg d)"
| "apply_registry_call rt e (MarkCancelled c i rs m ex) reg d = snd (mark_cancelled rt e c i rs m ex reg d)"
| "apply_registry_call rt e (MarkTimedOut c i rs m ex) reg d = snd (mark_timed_out rt e c i rs m ex reg d)"
| "apply_registry_call rt e (AttachMetadata c i m ex) reg d = snd (attach_metadata rt e c i m ex reg d)"
| "apply_registry_call rt e (SetTraceContext c i t p ex) reg d = snd (set_trace_context rt e c i t p ex reg d)"
| "apply_registry_call rt e Query reg d = (sync_from_disk rt e reg d, d)"

lemma with_metadata_run_ok: "(\<And>r'. res = Inr r' \<Longrightarrow> run_ok r') \<Longrightarrow> with_metadata m res = Inr r \<Longrightarrow> run_ok r"
  by (auto simp: with_metadata_def run_init_Inr split: sum.splits option.splits if_splits)

lemma new_run_fields [simp]:
  "run_id (new_run i c n t m now) = i" "run_conversation_id (new_run i c n t m now) = c"
  "run_subagent_name (new_run i c n t m now) = n" "run_task (new_run i c n t m now) = t"
  "run_status (new_run i c n t m now) = Pending" "run_created_at (new_run i c n t m now) = now"
  "run_metadata (new_run i c n t m now) = m"
  "reloaded (new_run i c n t m now) = new_run i c n t m now"
  "(new_run i c n t m now)\<lparr>run_metadata := m'\<rparr> = new_run i c n t m' now"
  by (simp_all add: new_run_def reloaded_def drop_empty_def)

definition lineage_metadata :: "string \<Rightarrow> (string, mval) dict \<Rightarrow> (string, mval) dict" where
  "lineage_metadata i m =
     (if m_truthy (dict_get_default m ''lineage_root_run_id'' MNone) then m else dict_set ''lineage_root_run_id'' (MStr i) m)"

definition chosen_id :: "env \<Rightarrow> string option \<Rightarrow> string" where
  "chosen_id e i = (case i of Some s \<Rightarrow> if s = [] then env_uuid e else s | None \<Rightarrow> env_uuid e)"

lemma create_run_cases:
  fixes e i c n t m q p l
  defines "r \<equiv> new_run (chosen_id e i) c n t (lineage_metadata (chosen_id e i) (new_run_metadata m q p l)) (env_now e)"
  assumes "create_run rt e c n t m i q p l reg d = (res, reg', d')"
  shows "(\<not> run_ok r \<and> (\<exists>x. res = Inl x) \<and> reg' = sync_from_disk_locked rt e reg d \<and> d' = d) \<or>
    (run_ok r \<and> res = Inr r \<and> upsert_locked rt e r (sync_from_disk_locked rt e reg d) d = (reg', d'))"
proof -
  let ?i = "chosen_id e i" and ?m = "new_run_metadata m q p l" and ?reg = "sync_from_disk_locked rt e reg d"
  have ok: "run_ok (new_run ?i c n t m' now) = run_ok r" for m' now by (simp add: run_ok_def r_def)
  have init: "run_init (new_run ?i c n t m' (env_now e)) = Inr (new_run ?i c n t m' (env_now e))" if "run_ok r" for m'
    using that ok by (simp add: run_init_Inr)
  show ?thesis
  proof (cases "run_ok r")
    case True
    then have "create_run rt e c n t m i q p l reg d = (Inr r, upsert_locked rt e r ?reg d)"
      using init [OF True]
      by (cases "m_truthy (dict_get_default ?m ''lineage_root_run_id'' MNone)")
        (simp_all add: create_run_def Let_def r_def lineage_metadata_def flip: chosen_id_def)
    then show ?thesis using True assms(2) by simp
  next
    case False
    then obtain x where "run_init (new_run ?i c n t ?m (env_now e)) = Inl x"
      using ok by (metis run_init_Inr sum.exhaust)
    then have "create_run rt e c n t m i q p l reg d = (Inl x, ?reg, d)"
      by (simp add: create_run_def Let_def flip: chosen_id_def)
    then show ?thesis using False assms(2) by simp
  qed
qed

lemma run_call_results:
  "run_start r now = Inr r' \<Longrightarrow> run_ok r'" "run_complete r s tk ms now = Inr r' \<Longrightarrow> run_ok r'"
  "run_fail r err ms now = Inr r' \<Longrightarrow> run_ok r'" "run_cancel r rs now = Inr r' \<Longrightarrow> run_ok r'"
  "run_time_out r rsn now = Inr r' \<Longrightarrow> run_ok r'" "run_with_trace_context r tr ps = Inr r' \<Longrightarrow> run_ok r'"
  "run_init x = Inr r' \<Longrightarrow> run_ok r'"
  by (auto simp: run_method_defs run_init_Inr run_ok_def Let_def split: if_splits)

lemmas with_metadata_results =
  with_metadata_run_ok [OF run_call_results(1)] with_metadata_run_ok [OF run_call_results(2)]
  with_metadata_run_ok [OF run_call_results(3)] with_metadata_run_ok [OF run_call_results(4)]
  with_metadata_run_ok [OF run_call_results(5)]

lemma apply_registry_call_ok:
  assumes "runtime_ok rt" and "registry_ok reg" and "disk_ok rt d"
    and "apply_registry_call rt e call reg d = (reg', d')"
  shows "registry_ok reg' \<and> disk_ok rt d'"
proof -
  have mut: "registry_ok (fst (snd (mutate_run rt e c i f ex reg d))) \<and> disk_ok rt (snd (snd (mutate_run rt e c i f ex reg d)))"
    if "\<And>r r'. f r = Inr r' \<Longrightarrow> run_ok r'" for c i f ex
  proof -
    obtain res reg1 d1 where "mutate_run rt e c i f ex reg d = (res, reg1, d1)" by (metis prod.collapse)
    then show ?thesis using mutate_run_ok [OF assms(1-3), of f] that by auto
  qed
  have cr: "registry_ok (fst (snd (create_run rt e c n t m i q p l reg d))) \<and> disk_ok rt (snd (snd (create_run rt e c n t m i q p l reg d)))"
    for c n t m i q p l
  proof -
    obtain res reg1 d1 where c: "create_run rt e c n t m i q p l reg d = (res, reg1, d1)" by (metis prod.collapse)
    then have "registry_ok reg1 \<and> disk_ok rt d1"
      using create_run_cases [OF c] upsert_ok [OF sync_locked_ok [OF assms(1,3,2)] assms(3)]
        sync_locked_ok [OF assms(1,3,2)] assms(3) by blast
    then show ?thesis using c by simp
  qed
  note marks = mark_running_def mark_completed_def mark_failed_def mark_cancelled_def mark_timed_out_def set_trace_context_def
  have "registry_ok (fst (apply_registry_call rt e call reg d)) \<and> disk_ok rt (snd (apply_registry_call rt e call reg d))"
  proof (cases call)
    case (AttachMetadata c i m ex)
    then show ?thesis
      using mut [of "\<lambda>r. run_init (r\<lparr>run_metadata := dict_merge (run_metadata r) m\<rparr>)" c i ex] run_call_results(7) assms
      by (auto simp: attach_metadata_def split: option.splits prod.splits)
  next
    case Query
    then show ?thesis using assms by (simp add: sync_ok)
  next
    case SetTraceContext
    then show ?thesis by (simp add: marks mut run_call_results)
  next
    case CreateRun
    then show ?thesis using cr by simp
  qed (simp_all add: marks mut with_metadata_results)
  then show ?thesis using assms(4) by simp
qed

text \<open>
  Several processes, each with its own registry object, on one file: a step is one operation of one
  of them.
\<close>

type_synonym registries = "registry list \<times> disk"

fun registries_step :: "runtime \<Rightarrow> registries \<Rightarrow> nat \<times> env \<times> registry_call \<Rightarrow> registries" where
  "registries_step rt (regs, d) (n, e, call) =
     (if n < length regs
      then let (reg', d') = apply_registry_call rt e call (regs ! n) d in (regs[n := reg'], d')
      else (regs, d))"

definition registries_ok :: "runtime \<Rightarrow> registries \<Rightarrow> bool" where
  "registries_ok rt s \<longleftrightarrow> (\<forall>reg \<in> set (fst s). registry_ok reg) \<and> disk_ok rt (snd s)"

lemma registries_step_ok:
  assumes "runtime_ok rt" and "registries_ok rt s"
  shows "registries_ok rt (registries_step rt s ev)"
proof -
  obtain regs d n e call where [simp]: "s = (regs, d)" "ev = (n, e, call)" by (metis prod.collapse)
  obtain reg' d' where step: "apply_registry_call rt e call (regs ! n) d = (reg', d')" by fastforce
  show ?thesis
  proof (cases "n < length regs")
    case True
    then have "registry_ok reg' \<and> disk_ok rt d'"
      using assms step by (intro apply_registry_call_ok [of rt "regs ! n" d e call]) (auto simp: registries_ok_def)
    then show ?thesis
      using True step assms(2) set_update_subset_insert [of regs n reg'] by (auto simp: registries_ok_def)
  qed (use assms in simp)
qed

interpretation registries: invariant_machine "registries_step rt" "\<lambda>s. runtime_ok rt \<longrightarrow> registries_ok rt s" for rt
  by unfold_locales (simp add: registries_step_ok)

text \<open>
  C10: whatever operations any number of processes interleave on one shared file, every bucket of
  every process and of the file keeps its runs under their own ids, in their own conversation, with
  distinct keys and valid fields.
\<close>

theorem registries_stay_well_formed:
  assumes "runtime_ok rt" and "registries_ok rt s"
  shows "registries_ok rt (foldl (registries_step rt) s evs)"
  using registries.run_inv [of rt s evs] assms by blast

theorem registries_stay_well_formed_witness:
  "registries_ok sample_runtime (foldl (registries_step sample_runtime) ([sample_registry, sample_registry], NoFile)
     [(0, sample_env, CreateRun ''conv'' ''coder'' ''task'' None (Some ''r1'') None None None),
      (1, sample_env, MarkRunning ''conv'' ''r1'' None None)])"
  by (rule registries_stay_well_formed [OF sample_runtime_ok])
    (simp add: registries_ok_def sample_registry_ok disk_ok_def)

end
