(* ===== verification/RunRegistryQueries.thy ===== *)
theory RunRegistryQueries
  imports RunRegistryProps
begin

text \<open>
  The cross-process and query side of the run registry: what a peer process reads, what start-up
  recovery leaves, who may set the protected metadata, what the descendant and visibility queries
  return, and how the counters relate.
\<close>

section \<open>What a peer process reads\<close>

lemma evict_keeps_active:
  assumes "bucket_ok c b" and "dict_get b i = Some q" and "run_active q"
  shows "dict_get (evict_bucket m ret now b) i = Some q"
proof -
  have ev: "eviction_ok m ret now b (evict_bucket m ret now b)" by (rule evict_bucket_ok [OF assms(1)])
  have "(i, q) \<in> set (filter (\<lambda>ir. run_active (snd ir)) b)" using assms by (auto dest: dict_get_mem)
  then have "(i, q) \<in> set (evict_bucket m ret now b)" using ev unfolding eviction_ok_def by (metis filter_is_subset subsetD)
  moreover have "wf_dict (evict_bucket m ret now b)"
    using eviction_ok_bucket [OF assms(1) ev] by (simp add: bucket_ok_def)
  ultimately show ?thesis by (simp add: dict_get_iff_mem)
qed

lemma upsert_lookup:
  assumes "registry_ok reg" and "run_ok r" and "upsert_locked rt e r reg d = (reg', d')"
  shows "run_active r \<Longrightarrow> dict_get (reg_bucket reg' (run_conversation_id r)) (run_id r) = Some r"
    and "(c, i) \<noteq> (run_conversation_id r, run_id r) \<Longrightarrow> dict_get (reg_bucket reg c) i = Some q \<Longrightarrow> run_active q \<Longrightarrow>
         dict_get (reg_bucket reg' c) i = Some q"
proof -
  have ok: "bucket_ok (run_conversation_id r) (dict_set (run_id r) r (reg_bucket reg (run_conversation_id r)))"
    using assms(1,2) by (auto simp: registry_ok_def intro!: bucket_ok_set reg_bucket_ok)
  note b = upsert_bucket [OF assms(3)]
  show "run_active r \<Longrightarrow> dict_get (reg_bucket reg' (run_conversation_id r)) (run_id r) = Some r"
    using evict_keeps_active [OF ok] by (simp add: b dict_get_set)
  show "dict_get (reg_bucket reg' c) i = Some q"
    if "(c, i) \<noteq> (run_conversation_id r, run_id r)" "dict_get (reg_bucket reg c) i = Some q" "run_active q"
    using that evict_keeps_active [OF ok, of i q] by (cases "c = run_conversation_id r") (auto simp: b dict_get_set)
qed

lemma peer_reads:
  assumes "runtime_ok rt" and "registry_ok reg" and "reg_persistent peer" and "reg_sync peer"
  shows "fst (get_run rt e c i peer (file_of rt (reg_runs reg))) = map_option reloaded (dict_get (reg_bucket reg c) i)"
proof -
  have "runs_ok (reg_runs reg)" using assms(2) by (simp add: registry_ok_def)
  then show ?thesis
    using load_file_of [OF assms(1) _ assms(3), of "reg_runs reg"] lookup_reload [of "reg_runs reg" c i] assms(4)
    by (simp add: get_run_def sync_from_disk_def sync_from_disk_locked_def Let_def reg_bucket_def lookup_run_def)
qed

lemma upsert_disk:
  assumes "upsert_locked rt e r reg d = (reg', d')" and "reg_persistent reg" and "env_write_ok e"
  shows "d' = file_of rt (reg_runs reg')"
  using assms by (auto simp: upsert_locked_def Let_def persist_locked_file evict_if_needed_def split: option.splits)

text \<open>
  A run that one process creates is what every other process then reads from the shared file,
  and creating it loses no active run that was there before: the other processes still read each
  one, as reloaded from the file.
\<close>

theorem create_run_visible_to_peers:
  assumes "runtime_ok rt" and "registry_ok reg" and "disk_ok rt d"
    and "reg_persistent reg" and "env_write_ok e" and "reg_persistent peer" and "reg_sync peer"
    and "create_run rt e c n t m i q p l reg d = (Inr r, reg', d')"
  shows "fst (get_run rt e' c (run_id r) peer d') = Some r \<and>
    (\<forall>c' j x. (c', j) \<noteq> (c, run_id r) \<and> run_active x \<and>
       dict_get (reg_bucket (sync_from_disk_locked rt e reg d) c') j = Some x \<longrightarrow>
       fst (get_run rt e' c' j peer d') = Some (reloaded x))"
proof -
  let ?reg = "sync_from_disk_locked rt e reg d"
  have ok: "registry_ok ?reg" by (rule sync_locked_ok [OF assms(1,3,2)])
  have r: "run_ok r" "run_conversation_id r = c" "reloaded r = r" "run_active r"
    and up: "upsert_locked rt e r ?reg d = (reg', d')"
    using create_run_cases [OF assms(8)] by (auto simp: run_active_def)
  have "d' = file_of rt (reg_runs reg')" by (rule upsert_disk [OF up]) (simp_all add: assms)
  then have peer: "fst (get_run rt e' c' j peer d') = map_option reloaded (dict_get (reg_bucket reg' c') j)" for c' j
    using peer_reads [OF assms(1) _ assms(6,7)] upsert_ok [OF ok assms(3) r(1) up] by simp
  show ?thesis
    using upsert_lookup [OF ok r(1) up] r by (auto simp: peer)
qed

theorem create_run_visible_to_peers_witness:
  "\<exists>r reg' d'. create_run sample_runtime sample_env ''conv'' ''coder'' ''task'' None (Some ''r1'') None None None
       sample_registry NoFile = (Inr r, reg', d') \<and> fst (get_run sample_runtime sample_env ''conv'' ''r1'' sample_registry d') = Some r"
proof -
  have "case fst (create_run sample_runtime sample_env ''conv'' ''coder'' ''task'' None (Some ''r1'') None None None
       sample_registry NoFile) of Inl _ \<Rightarrow> False | Inr r \<Rightarrow> run_id r = ''r1''"
    by code_simp
  then obtain r reg' d' where c: "create_run sample_runtime sample_env ''conv'' ''coder'' ''task'' None (Some ''r1'') None None None
       sample_registry NoFile = (Inr r, reg', d')" "run_id r = ''r1''"
    by (auto split: sum.splits simp: prod_eq_iff)
  have "fst (get_run sample_runtime sample_env ''conv'' (run_id r) sample_registry d') = Some r"
    using create_run_visible_to_peers [OF sample_runtime_ok sample_registry_ok _ _ _ _ _ c(1), of sample_registry sample_env]
    by (simp add: disk_ok_def sample_registry_def sample_env_def)
  then show ?thesis using c by auto
qed

section \<open>Recovery at start-up\<close>

definition recovered :: "int \<Rightarrow> run \<Rightarrow> run" where
  "recovered now r =
     (if run_active r
      then r\<lparr>run_status := TimedOut, run_ended_at := Some now, run_error := Some ''Recovered after process restart'',
             run_metadata := dict_set ''recovered_on_startup'' (MBool True) (run_metadata r)\<rparr>
      else r)"

lemma recovered_props [simp]:
  "run_id (recovered now r) = run_id r" "run_conversation_id (recovered now r) = run_conversation_id r"
  "run_ok (recovered now r) = run_ok r" "\<not> run_active (recovered now r)" "run_status (recovered now r) \<noteq> Pending"
  by (auto simp: recovered_def run_ok_def run_active_def)

lemma recover_bucket_eq:
  assumes "\<forall>ir \<in> set b. run_ok (snd ir)"
  shows "recover_bucket now b =
    Inr (\<exists>ir \<in> set b. run_active (snd ir), map (\<lambda>ir. (fst ir, recovered now (snd ir))) b)"
  using assms
proof (induction b)
  case (Cons ir b)
  obtain i r where ir: "ir = (i, r)" by fastforce
  show ?case
  proof (cases "run_active r")
    case True
    then have "run_time_out r ''Recovered after process restart'' now =
        Inr (r\<lparr>run_status := TimedOut, run_ended_at := Some now, run_error := Some ''Recovered after process restart''\<rparr>)"
      using Cons.prems ir by (auto simp: run_time_out_def run_active_def run_init_def run_ok_def)
    then show ?thesis
      using Cons True ir by (auto simp: recovered_def run_init_def run_ok_def)
  next
    case False
    then show ?thesis using Cons ir by (auto simp: recovered_def)
  qed
qed simp

lemma recover_buckets_eq:
  assumes "runs_ok bs"
  shows "recover_buckets now bs =
    Inr (\<exists>cb \<in> set bs. \<exists>ir \<in> set (snd cb). run_active (snd ir),
         map (\<lambda>cb. (fst cb, map (\<lambda>ir. (fst ir, recovered now (snd ir))) (snd cb))) bs)"
  using assms
proof (induction bs)
  case (Cons cb bs)
  obtain c b where cb: "cb = (c, b)" by fastforce
  have "\<forall>ir \<in> set b. run_ok (snd ir)" and "runs_ok bs"
    using Cons.prems cb by (auto simp: runs_ok_def bucket_ok_def wf_dict_def)
  then show ?case using Cons.IH cb by (simp add: recover_bucket_eq)
qed simp

lemma bucket_ok_recovered: "bucket_ok c b \<Longrightarrow> bucket_ok c (map (\<lambda>ir. (fst ir, recovered now (snd ir))) b)"
  by (auto simp: bucket_ok_def wf_dict_def comp_def)

lemma runs_ok_recovered:
  "runs_ok bs \<Longrightarrow> runs_ok (map (\<lambda>cb. (fst cb, map (\<lambda>ir. (fst ir, recovered now (snd ir))) (snd cb))) bs)"
  by (auto simp: runs_ok_def wf_dict_def comp_def intro!: bucket_ok_recovered)

definition has_active :: "(string, bucket) dict \<Rightarrow> bool" where
  "has_active bs \<longleftrightarrow> (\<exists>cb \<in> set bs. \<exists>ir \<in> set (snd cb). run_active (snd ir))"

lemma has_active_reload: "has_active (reload_runs bs) \<longleftrightarrow> has_active bs"
  by (induction bs) (auto simp: has_active_def reload_runs_def)

lemma dict_get_map_values: "dict_get (map (\<lambda>kv. (fst kv, f (snd kv))) d) k = map_option f (dict_get d k)"
  by (induction d) auto

lemma lookup_recovered:
  "lookup_run (map (\<lambda>cb. (fst cb, map (\<lambda>ir. (fst ir, recovered now (snd ir))) (snd cb))) bs) c i =
     map_option (recovered now) (lookup_run bs c i)"
  by (cases "dict_get bs c") (simp_all add: lookup_run_def dict_get_default_def dict_get_map_values)

text \<open>
  C11: a registry that starts on a file with recovery switched on never fails to start, holds the
  runs of the file, with every pending or running one timed out and flagged and every terminal one as
  it was reloaded, has no active run left, and (when the write succeeds) neither has the file.
\<close>

theorem recovery_leaves_no_active_run:
  assumes "runtime_ok rt" and "runs_ok bs"
  shows "\<exists>reg d. registry_init rt e mx True ret True sync (file_of rt bs) = Inr (reg, d) \<and> registry_ok reg \<and> disk_ok rt d \<and>
     \<not> has_active (reg_runs reg) \<and>
     (\<forall>c i. lookup_run (reg_runs reg) c i = map_option (\<lambda>r. recovered (env_now e) (reloaded r)) (lookup_run bs c i)) \<and>
     (env_write_ok e \<longrightarrow> (\<exists>bs'. d = file_of rt bs' \<and> \<not> has_active bs'))"
proof -
  let ?bs = "reload_runs bs"
  define rec where "rec = map (\<lambda>cb. (fst cb, map (\<lambda>ir. (fst ir, recovered (env_now e) (snd ir))) (snd cb))) ?bs"
  define reg where "reg = \<lparr>reg_runs = rec, reg_max_runs = max 1 mx, reg_retention = max 0 ret,
        reg_persistent = True, reg_recover = True, reg_sync = sync\<rparr>"
  have okr: "runs_ok rec" unfolding rec_def by (rule runs_ok_recovered [OF runs_ok_reload [OF assms(2)]])
  define d where "d = (if has_active ?bs then persist_locked rt (env_write_ok e) reg (file_of rt bs) else file_of rt bs)"
  have init: "registry_init rt e mx True ret True sync (file_of rt bs) = Inr (reg, d)"
    using load_file_of [OF assms, of "\<lparr>reg_runs = [], reg_max_runs = max 1 mx, reg_retention = max 0 ret,
        reg_persistent = True, reg_recover = True, reg_sync = sync\<rparr>"] recover_buckets_eq [OF runs_ok_reload [OF assms(2)]]
    by (auto simp: registry_init_def load_from_disk_def recover_inflight_runs_def Let_def reg_def rec_def d_def has_active_def)
  have "d = file_of rt rec \<or> d = file_of rt bs" by (auto simp: d_def persist_locked_file reg_def)
  then have disk: "disk_ok rt d" using assms(2) okr by (auto simp: disk_ok_def)
  have none: "\<not> has_active rec" by (auto simp: has_active_def rec_def)
  have "env_write_ok e \<longrightarrow> (\<exists>bs'. d = file_of rt bs' \<and> \<not> has_active bs')"
    using none by (cases "has_active ?bs") (auto simp: d_def persist_locked_file reg_def has_active_reload)
  moreover have "\<forall>c i. lookup_run rec c i = map_option (\<lambda>r. recovered (env_now e) (reloaded r)) (lookup_run bs c i)"
    unfolding rec_def lookup_recovered by (simp add: lookup_reload [OF assms(2)] option.map_comp comp_def)
  moreover have "registry_ok reg" using okr by (simp add: registry_ok_def reg_def)
  ultimately show ?thesis using init disk none by (auto simp: reg_def)
qed

lemma sample_runs_ok: "runs_ok [(''conv'', [(''r1'', sample_run ''r1'')])]"
proof -
  have "run_ok (sample_run ''r1'')" by (rule sample_run_ok) (simp add: py_strip_def py_isspace_def Let_def)
  then show ?thesis by (simp add: runs_ok_def bucket_ok_def wf_dict_def sample_run_def)
qed

theorem recovery_leaves_no_active_run_witness:
  "has_active [(''conv'', [(''r1'', sample_run ''r1'')])] \<and>
   (\<exists>reg d. registry_init sample_runtime sample_env 200 True 60 True True
      (file_of sample_runtime [(''conv'', [(''r1'', sample_run ''r1'')])]) = Inr (reg, d) \<and> \<not> has_active (reg_runs reg))"
  using recovery_leaves_no_active_run [OF sample_runtime_ok sample_runs_ok, of sample_env 200 60 True]
  by (auto simp: has_active_def run_active_def sample_run_def)

section \<open>Protected metadata\<close>

lemma dict_get_strip: "dict_get (strip_protected_metadata m) k = (if k \<in> set protected_keys then None else dict_get m k)"
  by (induction m) (auto simp: strip_protected_metadata_def)

definition text_value :: "string option \<Rightarrow> mval option" where
  "text_value x = (case x of None \<Rightarrow> None | Some s \<Rightarrow> if s = [] then None else Some (MStr s))"

lemma dict_get_set_if_text:
  "dict_get (set_if_text k x m) k' = (if k' = k \<and> text_value x \<noteq> None then text_value x else dict_get m k')"
  by (auto simp: set_if_text_def text_value_def dict_get_set split: option.splits)

lemma new_run_metadata_get:
  "dict_get (new_run_metadata m q p l) k =
     (if k = ''lineage_root_run_id'' then text_value l
      else if k = ''parent_run_id'' then text_value p
      else if k = ''requester_session_key'' then text_value q
      else case m of None \<Rightarrow> None | Some m' \<Rightarrow> dict_get m' k)"
  by (auto simp: new_run_metadata_def Let_def dict_get_set_if_text dict_get_strip protected_keys_def
      split: option.splits if_splits)

text \<open>
  The lineage fields of a created run come from the arguments alone, never from the metadata a
  caller passes, with the run itself as the root of a lineage that is not given; and
  \<open>attach_metadata\<close> raises rather than touch them, so a run it returns still has them as stored.
\<close>

theorem lineage_metadata_protected:
  "(create_run rt e c n t m i q p l reg d = (Inr r, reg', d') \<longrightarrow>
      dict_get (run_metadata r) ''requester_session_key'' = text_value q \<and>
      dict_get (run_metadata r) ''parent_run_id'' = text_value p \<and>
      dict_get (run_metadata r) ''lineage_root_run_id'' =
        (case text_value l of None \<Rightarrow> Some (MStr (run_id r)) | Some v \<Rightarrow> Some v)) \<and>
   (set (dict_keys m') \<inter> set protected_keys \<noteq> {} \<longrightarrow>
      (\<exists>ks. attach_metadata rt e c j m' ex reg d = (Inl (ProtectedMetadataKeys ks), reg, d))) \<and>
   (attach_metadata rt e c j m' ex reg d = (Inr (Some r'), reg'', d'') \<longrightarrow>
      (\<exists>r0. dict_get (reg_bucket (sync_from_disk_locked rt e reg d) c) j = Some r0 \<and>
         (\<forall>k \<in> set protected_keys. dict_get (run_metadata r') k = dict_get (run_metadata r0) k)))"
proof (intro conjI impI)
  assume "create_run rt e c n t m i q p l reg d = (Inr r, reg', d')"
  then have r: "r = new_run (chosen_id e i) c n t (lineage_metadata (chosen_id e i) (new_run_metadata m q p l)) (env_now e)"
    using create_run_cases by blast
  have "m_truthy (dict_get_default (new_run_metadata m q p l) ''lineage_root_run_id'' MNone) \<longleftrightarrow> text_value l \<noteq> None"
    by (auto simp: dict_get_default_def new_run_metadata_get text_value_def m_truthy_def split: option.splits if_splits)
  then show "dict_get (run_metadata r) ''requester_session_key'' = text_value q"
    "dict_get (run_metadata r) ''parent_run_id'' = text_value p"
    "dict_get (run_metadata r) ''lineage_root_run_id'' =
        (case text_value l of None \<Rightarrow> Some (MStr (run_id r)) | Some v \<Rightarrow> Some v)"
    by (auto simp: r lineage_metadata_def dict_get_set new_run_metadata_get)
next
  assume "set (dict_keys m') \<inter> set protected_keys \<noteq> {}"
  then show "\<exists>ks. attach_metadata rt e c j m' ex reg d = (Inl (ProtectedMetadataKeys ks), reg, d)"
    by (auto simp: attach_metadata_def ensure_no_protected_def Let_def filter_empty_conv)
next
  assume a: "attach_metadata rt e c j m' ex reg d = (Inr (Some r'), reg'', d'')"
  then have no: "ensure_no_protected m' = None" by (auto simp: attach_metadata_def split: option.splits prod.splits)
  with a have "mutate_run rt e c j (\<lambda>r. run_init (r\<lparr>run_metadata := dict_merge (run_metadata r) m'\<rparr>)) ex reg d = (Some r', reg'', d'')"
    by (auto simp: attach_metadata_def split: prod.splits)
  from mutate_run_cases [OF this] obtain r0
    where r0: "dict_get (reg_bucket (sync_from_disk_locked rt e reg d) c) j = Some r0"
      "r' = r0\<lparr>run_metadata := dict_merge (run_metadata r0) m'\<rparr>" by (auto simp: run_init_Inr)
  have "dict_get (dict_merge md m') k = dict_get md k" if "k \<notin> set (dict_keys m')" for k md
    using that unfolding dict_merge_def by (induction m' arbitrary: md) (auto simp: dict_get_set)
  moreover have "k \<notin> set (dict_keys m')" if "k \<in> set protected_keys" for k
    using no that by (auto simp: ensure_no_protected_def Let_def filter_empty_conv split: if_splits)
  ultimately show "\<exists>r0. dict_get (reg_bucket (sync_from_disk_locked rt e reg d) c) j = Some r0 \<and>
         (\<forall>k \<in> set protected_keys. dict_get (run_metadata r') k = dict_get (run_metadata r0) k)"
    using r0 by simp
qed

theorem lineage_metadata_protected_witness:
  "\<exists>r reg' d'. create_run sample_runtime sample_env ''conv'' ''coder'' ''task'' (Some [(''parent_run_id'', MStr ''forged'')])
       (Some ''r1'') None (Some ''p1'') None sample_registry NoFile = (Inr r, reg', d') \<and>
     dict_get (run_metadata r) ''parent_run_id'' = Some (MStr ''p1'') \<and>
     dict_get (run_metadata r) ''lineage_root_run_id'' = Some (MStr ''r1'')"
proof -
  have "case fst (create_run sample_runtime sample_env ''conv'' ''coder'' ''task'' (Some [(''parent_run_id'', MStr ''forged'')])
       (Some ''r1'') None (Some ''p1'') None sample_registry NoFile) of Inl _ \<Rightarrow> False | Inr r \<Rightarrow> run_id r = ''r1''"
    by code_simp
  then obtain r reg' d' where c: "create_run sample_runtime sample_env ''conv'' ''coder'' ''task'' (Some [(''parent_run_id'', MStr ''forged'')])
       (Some ''r1'') None (Some ''p1'') None sample_registry NoFile = (Inr r, reg', d')" "run_id r = ''r1''"
    by (auto split: sum.splits simp: prod_eq_iff)
  then show ?thesis
    using lineage_metadata_protected [of sample_runtime sample_env "''conv''" "''coder''" "''task''" "Some [(''parent_run_id'', MStr ''forged'')]"
       "Some ''r1''" None "Some ''p1''" None sample_registry NoFile r reg' d']
    by (auto simp: text_value_def)
qed

text \<open>
  The status updates have no such guard: \<open>mark_running\<close> with metadata from its caller replaces
  the parent of a stored run, which neither \<open>create_run\<close> nor \<open>attach_metadata\<close> would let it do.
\<close>

theorem mark_running_overrides_lineage:
  "let reg = sample_registry\<lparr>reg_runs := [(''conv'', [(''r1'', (sample_run ''r1'')\<lparr>run_metadata := [(''parent_run_id'', MStr ''p1'')]\<rparr>)])]\<rparr>;
       forged = [(''parent_run_id'', MStr ''forged'')]
   in map_option run_parent_id (fst (mark_running sample_runtime sample_env ''conv'' ''r1'' (Some forged) None reg NoFile)) = Some ''forged'' \<and>
      fst (attach_metadata sample_runtime sample_env ''conv'' ''r1'' forged None reg NoFile) = Inl (ProtectedMetadataKeys [''parent_run_id''])"
  by code_simp

section \<open>Descendants and visibility\<close>

definition run_edges :: "run list \<Rightarrow> (string \<times> string) set" where
  "run_edges rs = {(run_parent_id r, run_id r) | r. r \<in> set rs \<and> run_parent_id r \<noteq> []}"

lemma succ_children:
  "succ_items (children_by_parent item rs) p = (if p = [] then [] else map item (filter (\<lambda>r. run_parent_id r = p) rs))"
proof (induction rs rule: rev_induct)
  case (snoc r rs)
  then show ?case
    by (auto simp: children_by_parent_def succ_items_def dict_get_default_def dict_get_set Let_def)
qed (simp add: children_by_parent_def succ_items_def dict_get_default_def)

lemma succ_rel_children:
  "succ_rel run_id (\<lambda>i. True) (children_by_parent (\<lambda>r. r) rs) = run_edges rs"
  "succ_rel (\<lambda>i. i) (\<lambda>i. True) (children_by_parent run_id rs) = run_edges rs"
  by (auto simp: succ_rel_def succ_children run_edges_def split: if_splits)

lemma descendants_exact:
  fixes parent :: string
  assumes "distinct (map run_id rs)"
  defines "ds \<equiv> bfs run_id (\<lambda>i. True) (children_by_parent (\<lambda>r. r) rs) {} [parent] []"
  shows "set ds = {r \<in> set rs. (parent, run_id r) \<in> (run_edges rs)\<^sup>+}" and "distinct (map run_id ds)"
proof -
  note ex = bfs_exact [where visited = "{}" and queue = "[parent]" and key = run_id and live = "\<lambda>i. True"
    and succs = "children_by_parent (\<lambda>r. r) rs", folded ds_def, unfolded succ_rel_children]
  show "distinct (map run_id ds)" using ex(2) by simp
  have sub: "set ds \<subseteq> set rs"
  proof
    fix r assume "r \<in> set ds"
    then obtain k where "r \<in> set (succ_items (children_by_parent (\<lambda>r. r) rs) k)" using ex(3) by auto
    then show "r \<in> set rs" by (auto simp: succ_children split: if_splits)
  qed
  have ids: "run_id ` set ds = (run_edges rs)\<^sup>+ `` {parent}" using ex(1) by simp
  show "set ds = {r \<in> set rs. (parent, run_id r) \<in> (run_edges rs)\<^sup>+}"
  proof (intro subset_antisym subsetI CollectI conjI)
    fix r assume "r \<in> set ds"
    then show "r \<in> set rs" "(parent, run_id r) \<in> (run_edges rs)\<^sup>+" using sub ids by blast+
  next
    fix r assume r: "r \<in> {r \<in> set rs. (parent, run_id r) \<in> (run_edges rs)\<^sup>+}"
    then have "run_id r \<in> run_id ` set ds" using ids by blast
    then obtain r' where "r' \<in> set ds" "run_id r' = run_id r" by auto
    then show "r \<in> set ds" using r sub assms(1) by (metis (no_types, lifting) distinct_map inj_onD mem_Collect_eq subsetD)
  qed
qed

text \<open>The runs of a conversation that a query sees: those of the registry after its synchronisation.\<close>

definition seen_runs :: "runtime \<Rightarrow> env \<Rightarrow> registry \<Rightarrow> disk \<Rightarrow> string \<Rightarrow> run list" where
  "seen_runs rt e reg d conv = dict_values (reg_bucket (sync_from_disk rt e reg d) conv)"

lemma seen_runs_distinct:
  "runtime_ok rt \<Longrightarrow> registry_ok reg \<Longrightarrow> disk_ok rt d \<Longrightarrow> distinct (map run_id (seen_runs rt e reg d conv))"
  using reg_bucket_ok [THEN bucket_ok_distinct, of "sync_from_disk rt e reg d" conv] sync_ok [of rt d reg e]
  by (simp add: seen_runs_def registry_ok_def)

lemma list_descendant_runs_result:
  "fst (list_descendant_runs rt e conv parent all limit reg d) =
     (let kept = filter (\<lambda>r. all \<or> run_active r)
                   (bfs run_id (\<lambda>i. True) (children_by_parent (\<lambda>r. r) (seen_runs rt e reg d conv)) {} [parent] [])
      in case limit of
           None \<Rightarrow> sort_key run_created_at kept
         | Some n \<Rightarrow> if n \<le> 0 then [] else sort_key run_created_at (foldl (keep_largest descendant_key (nat n)) [] kept))"
  by (auto simp: list_descendant_runs_def Let_def seen_runs_def split: option.splits)

text \<open>
  C12: \<open>list_descendant_runs\<close> returns, each once and in order of creation, exactly the runs of the
  conversation (only the active ones if so asked) that a chain of \<open>parent_run_id\<close> links joins to the
  given run; with a positive limit \<open>n\<close>, the heap keeps the \<open>n\<close> oldest of them, and all if there are
  fewer. The loop ends on cyclic links too.
\<close>

theorem list_descendant_runs_exact:
  assumes "runtime_ok rt" and "registry_ok reg" and "disk_ok rt d"
  shows "let full = fst (list_descendant_runs rt e conv parent all None reg d);
             few = fst (list_descendant_runs rt e conv parent all (Some n) reg d)
    in set full = {r \<in> set (seen_runs rt e reg d conv). (all \<or> run_active r) \<and>
           (parent, run_id r) \<in> (run_edges (seen_runs rt e reg d conv))\<^sup>+} \<and>
       distinct full \<and> sorted (map run_created_at full) \<and>
       set few \<subseteq> set full \<and> distinct few \<and> sorted (map run_created_at few) \<and>
       length few = min (nat n) (length full) \<and>
       (\<forall>r \<in> set few. \<forall>q \<in> set full - set few. run_created_at r \<le> run_created_at q)"
proof -
  define kept where "kept = filter (\<lambda>r. all \<or> run_active r)
     (bfs run_id (\<lambda>i. True) (children_by_parent (\<lambda>r. r) (seen_runs rt e reg d conv)) {} [parent] [])"
  define heap where "heap = foldl (keep_largest descendant_key (nat n)) [] kept"
  note ds = descendants_exact [OF seen_runs_distinct [OF assms], where parent = parent]
  have full: "fst (list_descendant_runs rt e conv parent all None reg d) = sort_key run_created_at kept"
    by (simp add: list_descendant_runs_result kept_def)
  have few: "fst (list_descendant_runs rt e conv parent all (Some n) reg d) = (if n \<le> 0 then [] else sort_key run_created_at heap)"
    by (simp add: list_descendant_runs_result kept_def heap_def)
  have setk: "set kept = {r \<in> set (seen_runs rt e reg d conv). (all \<or> run_active r) \<and>
      (parent, run_id r) \<in> (run_edges (seen_runs rt e reg d conv))\<^sup>+}"
    using ds(1) by (auto simp: kept_def)
  have dist: "distinct kept" using ds(2) by (auto simp: kept_def distinct_map)
  show ?thesis
  proof (cases "n \<le> 0")
    case True
    then show ?thesis by (simp add: full few setk dist)
  next
    case False
    then have "holds_largest descendant_key (nat n) kept heap"
      unfolding heap_def by (intro keep_largest_correct) simp
    then have sub: "mset heap \<subseteq># mset kept" and len: "length heap = min (nat n) (length kept)"
      and le: "\<forall>x \<in># mset kept - mset heap. \<forall>y \<in> set heap. descendant_key x \<le> descendant_key y"
      by (auto simp: holds_largest_def)
    have dh: "distinct heap" using sub dist by (metis distinct_append mset_append mset_eq_imp_distinct_iff mset_subset_eq_exists_conv ex_mset)
    have subset: "set heap \<subseteq> set kept" using sub by (metis set_mset_mono set_mset_mset)
    have "run_created_at r \<le> run_created_at q" if "r \<in> set heap" "q \<in> set kept - set heap" for r q
    proof -
      have "q \<in># mset kept - mset heap" using that(2) count_greater_zero_iff [of "mset kept" q]
        by (simp add: in_diff_count count_eq_zero_iff [THEN iffD2])
      then have "descendant_key q \<le> descendant_key r" using le that(1) by blast
      then show ?thesis by (auto simp: descendant_key_def less_eq_prod_def)
    qed
    then show ?thesis
      using False dist dh subset by (simp add: full few setk [symmetric] len)
  qed
qed

definition sample_tree :: registry where
  "sample_tree = sample_registry\<lparr>reg_persistent := False, reg_sync := False, reg_runs :=
     [(''conv'', [(''a'', (sample_run ''a'')\<lparr>run_metadata := [(''requester_session_key'', MStr ''k'')]\<rparr>),
                 (''b'', (sample_run ''b'')\<lparr>run_metadata := [(''parent_run_id'', MStr ''a'')], run_created_at := 12\<rparr>),
                 (''c'', (sample_run ''c'')\<lparr>run_metadata := [(''parent_run_id'', MStr ''b'')], run_created_at := 11\<rparr>)])]\<rparr>"

lemma sample_tree_ok: "registry_ok sample_tree"
  by (simp add: registry_ok_def sample_tree_def sample_registry_def runs_ok_def bucket_ok_def wf_dict_def sample_run_def
      run_ok_def py_strip_def py_isspace_def Let_def)

theorem list_descendant_runs_exact_witness:
  "map run_id (fst (list_descendant_runs sample_runtime sample_env ''conv'' ''a'' True None sample_tree NoFile)) = [''c'', ''b''] \<and>
   length (fst (list_descendant_runs sample_runtime sample_env ''conv'' ''a'' True (Some 1) sample_tree NoFile)) = 1"
proof -
  have "map run_id (fst (list_descendant_runs sample_runtime sample_env ''conv'' ''a'' True None sample_tree NoFile)) = [''c'', ''b'']"
    by code_simp
  moreover from arg_cong [OF this, of length]
  have "length (fst (list_descendant_runs sample_runtime sample_env ''conv'' ''a'' True None sample_tree NoFile)) = 2"
    by simp
  ultimately show ?thesis
    using list_descendant_runs_exact [OF sample_runtime_ok sample_tree_ok, of NoFile sample_env "''conv''" "''a''" True 1]
    by (simp add: disk_ok_def Let_def)
qed

lemma rtrancl_Image: "R\<^sup>* `` S = S \<union> R\<^sup>+ `` S"
  by (auto simp: rtrancl_eq_or_trancl)

lemma sorted_runs_set:
  "set (sorted_runs b None rs) = set rs" "set (sorted_runs b n rs) \<subseteq> set rs"
  by (auto simp: sorted_runs_def Let_def dest: in_set_takeD split: option.splits)

text \<open>
  C13: the visibility boundary of \<open>list_runs_for_requester\<close>: in \<open>self\<close> mode exactly the requester's own
  runs, in \<open>tree\<close> mode exactly these and the runs below them, in any unknown mode none, and all runs
  of the conversation for a blank key or mode \<open>all\<close> (each among the runs with an accepted status).
\<close>

theorem requester_visibility:
  "let rs = filter (status_in statuses) (seen_runs rt e reg d conv);
       out = (\<lambda>vis. set (fst (list_runs_for_requester rt e conv key vis statuses reg d)))
   in if py_strip key = [] then out vis = set rs
      else out ''all'' = set rs \<and>
           out ''self'' = {r \<in> set rs. run_requester_key r = py_strip key} \<and>
           out ''tree'' = {r \<in> set rs. \<exists>q \<in> set (seen_runs rt e reg d conv). run_requester_key q = py_strip key \<and>
                            (run_id q, run_id r) \<in> (run_edges (seen_runs rt e reg d conv))\<^sup>*} \<and>
           (vis \<notin> {''all'', ''self'', ''tree''} \<longrightarrow> out vis = {})"
proof -
  let ?rs = "seen_runs rt e reg d conv"
  let ?roots = "map run_id (filter (\<lambda>r. run_requester_key r = py_strip key) ?rs)"
  have vis: "visible_ids (reg_bucket (sync_from_disk rt e reg d) conv) (py_strip key) = (run_edges ?rs)\<^sup>* `` set ?roots"
  proof -
    have "set (bfs (\<lambda>i. i) (\<lambda>i. True) (children_by_parent run_id ?rs) (set ?roots) ?roots []) =
        (run_edges ?rs)\<^sup>+ `` set ?roots - set ?roots"
      using bfs_exact(1) [of "set ?roots" ?roots "\<lambda>i. i" "\<lambda>i. True" "children_by_parent run_id ?rs"]
      by (simp add: succ_rel_children)
    moreover have "(run_edges ?rs)\<^sup>* `` set ?roots = set ?roots \<union> (run_edges ?rs)\<^sup>+ `` set ?roots"
      by (rule rtrancl_Image)
    ultimately show ?thesis by (auto simp: visible_ids_def Let_def seen_runs_def)
  qed
  have lr: "list_runs rt e conv statuses None reg d = (sorted_runs True None (filter (status_in statuses) ?rs), sync_from_disk rt e reg d)"
    by (simp add: list_runs_def Let_def seen_runs_def)
  show ?thesis
    unfolding Let_def list_runs_for_requester_def lr prod.case vis
    by (auto simp: sorted_runs_set)
qed

theorem requester_visibility_witness:
  "map run_id (fst (list_runs_for_requester sample_runtime sample_env ''conv'' ''k'' ''tree'' None sample_tree NoFile)) = [''b'', ''c'', ''a''] \<and>
   fst (list_runs_for_requester sample_runtime sample_env ''conv'' ''k'' ''team'' None sample_tree NoFile) = []"
proof -
  have "map run_id (fst (list_runs_for_requester sample_runtime sample_env ''conv'' ''k'' ''tree'' None sample_tree NoFile)) = [''b'', ''c'', ''a'']"
    by code_simp
  moreover have "py_strip ''k'' \<noteq> []" by (simp add: py_strip_def py_isspace_def Let_def)
  ultimately show ?thesis
    using requester_visibility [of None sample_runtime sample_env sample_tree NoFile "''conv''" "''k''" "''team''"]
    by (simp add: Let_def)
qed

section \<open>Counters\<close>

lemma from_keys_props: "set (from_keys xs) = set xs" "distinct (from_keys xs)"
proof -
  have "set (dict_keys (foldl (\<lambda>d x. dict_set x () d) acc xs)) = set (dict_keys acc) \<union> set xs \<and>
      (wf_dict acc \<longrightarrow> wf_dict (foldl (\<lambda>d x. dict_set x () d) acc xs))" for acc
  proof (induction xs arbitrary: acc)
    case (Cons x xs)
    show ?case using Cons [of "dict_set x () acc"] dict_keys_set [of x "()" acc] by auto
  qed simp
  from this [of "[]"] show "set (from_keys xs) = set xs" "distinct (from_keys xs)"
    by (auto simp: from_keys_def wf_dict_def)
qed

text \<open>
  The counters agree: over several conversations the count is the sum over the distinct ones, no
  conversation is counted twice however often it is listed, over all of them it is the sum over the
  stored ones, and a count restricted to a lineage or a requester never exceeds the conversation's.
\<close>

theorem active_counts_agree:
  "fst (count_active_runs_for_conversations rt e convs reg d) = (\<Sum>c \<in> set convs. fst (count_active_runs rt e c reg d)) \<and>
   (wf_dict (reg_runs (sync_from_disk rt e reg d)) \<longrightarrow>
      fst (count_all_active_runs rt e reg d) =
        (\<Sum>c \<in> set (dict_keys (reg_runs (sync_from_disk rt e reg d))). fst (count_active_runs rt e c reg d))) \<and>
   fst (count_active_runs_for_lineage rt e c lin reg d) \<le> fst (count_active_runs rt e c reg d) \<and>
   (py_strip key \<noteq> [] \<longrightarrow> fst (count_active_runs_for_requester rt e c key reg d) \<le> fst (count_active_runs rt e c reg d))"
proof (intro conjI impI)
  let ?reg = "sync_from_disk rt e reg d"
  let ?n = "\<lambda>c. length (filter run_active (dict_values (reg_bucket ?reg c)))"
  have cnt: "fst (count_active_runs rt e c reg d) = ?n c" for c by (simp add: count_active_runs_def Let_def)
  show "fst (count_active_runs_for_conversations rt e convs reg d) = (\<Sum>c \<in> set convs. fst (count_active_runs rt e c reg d))"
    using sum_list_distinct_conv_sum_set [OF from_keys_props(2) [of convs], of ?n]
    by (simp add: count_active_runs_for_conversations_def Let_def cnt from_keys_props)
  have le: "length (filter ((\<lambda>r. run_active r \<and> P r) \<circ> snd) b) \<le> length (filter (run_active \<circ> snd) b)" for P and b :: bucket
    by (induction b) auto
  show "fst (count_active_runs_for_lineage rt e c lin reg d) \<le> fst (count_active_runs rt e c reg d)"
    by (simp add: count_active_runs_for_lineage_def Let_def cnt le)
  show "fst (count_active_runs_for_requester rt e c key reg d) \<le> fst (count_active_runs rt e c reg d)" if "py_strip key \<noteq> []"
    using that by (simp add: count_active_runs_for_requester_def Let_def cnt le)
  assume wf: "wf_dict (reg_runs ?reg)"
  have "map (\<lambda>b. length (filter run_active (dict_values b))) (dict_values (reg_runs ?reg)) = map ?n (dict_keys (reg_runs ?reg))"
    using wf by (auto simp: reg_bucket_def dict_get_default_def wf_dict_def)
  then show "fst (count_all_active_runs rt e reg d) = (\<Sum>c \<in> set (dict_keys (reg_runs ?reg)). fst (count_active_runs rt e c reg d))"
    using sum_list_distinct_conv_sum_set [of "dict_keys (reg_runs ?reg)" ?n] wf
    by (simp only: count_all_active_runs_def Let_def cnt wf_dict_def fst_conv)
qed

theorem active_counts_agree_witness:
  "fst (count_active_runs_for_conversations sample_runtime sample_env [''conv'', ''conv''] sample_tree NoFile) = 3 \<and>
   wf_dict (reg_runs (sync_from_disk sample_runtime sample_env sample_tree NoFile)) \<and>
   fst (count_active_runs_for_requester sample_runtime sample_env ''conv'' ''k'' sample_tree NoFile) \<le> 3"
proof -
  have "fst (count_active_runs sample_runtime sample_env ''conv'' sample_tree NoFile) = 3" by code_simp
  moreover have "wf_dict (reg_runs (sync_from_disk sample_runtime sample_env sample_tree NoFile))" by code_simp
  moreover have "py_strip ''k'' \<noteq> []" by (simp add: py_strip_def py_isspace_def Let_def)
  ultimately show ?thesis
    using active_counts_agree [of sample_runtime sample_env "[''conv'', ''conv'']" sample_tree NoFile "''conv''" "[]" "''k''"]
    by simp
qed

end
