(* ===== verification/SessionRegistry.thy ===== *)
theory SessionRegistry
  imports Prelude
begin

text \<open>
  The in-memory map from conversations to the agent that owns them, \<open>AgentSessionRegistry\<close> of
  \<open>src/infrastructure/agent/orchestration/session_registry.py\<close>. Each operation holds the lock for
  all of its work, so it is one atomic function on the dictionary.
\<close>

record agent_session =
  as_agent_id :: string
  as_conversation_id :: string
  as_project_id :: string
  as_registered_at :: int

type_synonym sessions = "(string \<times> string, agent_session) dict"

definition register_session :: "string \<Rightarrow> string \<Rightarrow> string \<Rightarrow> int \<Rightarrow> sessions \<Rightarrow> agent_session \<times> sessions" where
  "register_session agent_id conversation_id project_id now ss =
     (let s = \<lparr>as_agent_id = agent_id, as_conversation_id = conversation_id, as_project_id = project_id,
               as_registered_at = now\<rparr>
      in (s, dict_set (project_id, conversation_id) s ss))"

definition unregister_session :: "string \<Rightarrow> string \<Rightarrow> sessions \<Rightarrow> agent_session option \<times> sessions" where
  "unregister_session conversation_id project_id ss =
     (dict_get ss (project_id, conversation_id), dict_pop (project_id, conversation_id) ss)"

definition get_session_for_conversation :: "string \<Rightarrow> string \<Rightarrow> sessions \<Rightarrow> agent_session option" where
  "get_session_for_conversation conversation_id project_id ss = dict_get ss (project_id, conversation_id)"

definition get_sessions :: "string \<Rightarrow> sessions \<Rightarrow> agent_session list" where
  "get_sessions project_id ss = map snd (filter (\<lambda>ks. fst (fst ks) = project_id) ss)"

definition get_active_agent_ids :: "string \<Rightarrow> sessions \<Rightarrow> string set" where
  "get_active_agent_ids project_id ss = set (map (\<lambda>ks. as_agent_id (snd ks)) (filter (\<lambda>ks. fst (fst ks) = project_id) ss))"

definition clear_project_sessions :: "string \<Rightarrow> sessions \<Rightarrow> nat \<times> sessions" where
  "clear_project_sessions project_id ss =
     (let keys_to_remove = filter (\<lambda>k. fst k = project_id) (dict_keys ss)
      in (length keys_to_remove, foldl (\<lambda>d k. dict_pop k d) ss keys_to_remove))"

lemma get_foldl_pop: "dict_get (foldl (\<lambda>d k. dict_pop k d) ss ks) k = (if k \<in> set ks then None else dict_get ss k)"
  by (induction ks arbitrary: ss) (auto simp: dict_get_pop)

lemma foldl_pop_filter: "foldl (\<lambda>d k. dict_pop k d) ss ks = filter (\<lambda>kv. fst kv \<notin> set ks) ss"
proof (induction ks arbitrary: ss)
  case (Cons k ks)
  have "dict_pop k ss = filter (\<lambda>kv. fst kv \<noteq> k) ss" by (induction ss) auto
  with Cons show ?case by (auto intro!: filter_cong)
qed simp

lemma clear_project_sessions_get:
  "dict_get (snd (clear_project_sessions project ss)) (p, c) = (if p = project then None else dict_get ss (p, c))"
  by (auto simp: clear_project_sessions_def Let_def get_foldl_pop image_iff dict_get_None_iff)

end
