(* ===== verification/SpawnManager.thy ===== *)
theory SpawnManager
  imports SessionRegistry RunRegistryQueries
begin

text \<open>
  Parent-child tracking of spawned agents: \<open>SpawnManager\<close> of
  \<open>src/infrastructure/agent/orchestration/spawn_manager.py\<close> with \<open>SpawnRecord\<close>
  (\<open>src/domain/model/agent/spawn_record.py\<close>). The state holds the primary index by child session, the
  secondary index by parent session (a Python set of children is a list in its iteration order), the
  session registry and, where there is one, the run registry with its file. The clock, uuid and write
  outcome of the run-registry calls come in as \<open>env\<close> values; the \<open>on_stop\<close> callback is outside code,
  of which the model records the calls. Each coroutine runs without another one in between.
\<close>

section \<open>State\<close>

datatype spawn_mode = RunMode | SessionMode

record spawn_record =
  sr_id :: string
  sr_parent_agent_id :: string
  sr_child_agent_id :: string
  sr_child_session_id :: string
  sr_project_id :: string
  sr_mode :: spawn_mode
  sr_task_summary :: string
  sr_status :: string
  sr_trace_id :: string
  sr_span_id :: string
  sr_created_at :: int

record spawn_state =
  sp_records :: "(string, spawn_record) dict"
  sp_children :: "(string, string list) dict"
  sp_max_depth :: int
  sp_sessions :: sessions
  sp_run_registry :: "(registry \<times> disk) option"

datatype spawn_error = SpawnDepthExceeded int int | RunRegistryError run_error

fun mode_value :: "spawn_mode \<Rightarrow> string" where
  "mode_value RunMode = ''run''"
| "mode_value SessionMode = ''session''"

definition spawn_manager_init :: "sessions \<Rightarrow> (registry \<times> disk) option \<Rightarrow> int \<Rightarrow> spawn_state" where
  "spawn_manager_init sessions run_registry max_depth =
     \<lparr>sp_records = [], sp_children = [], sp_max_depth = max 1 max_depth, sp_sessions = sessions,
      sp_run_registry = run_registry\<rparr>"

section \<open>Depth\<close>

definition find_parent_session :: "(string, string list) dict \<Rightarrow> string \<Rightarrow> string option" where
  "find_parent_session children child =
     map_option fst (find (\<lambda>pc. child \<in> set (snd pc)) children)"

function depth_loop :: "(string, spawn_record) dict \<Rightarrow> (string, string list) dict \<Rightarrow> string set \<Rightarrow> string option \<Rightarrow> int \<Rightarrow> int" where
  "depth_loop records children visited current depth =
     (case current of
        None \<Rightarrow> depth
      | Some c \<Rightarrow>
          if c = [] \<or> c \<in> visited then depth
          else (case dict_get records c of
                  None \<Rightarrow> depth
                | Some rec \<Rightarrow> depth_loop records children (insert c visited) (find_parent_session children c) (depth + 1)))"
  by pat_completeness auto
termination
proof (relation "measure (\<lambda>(records, children, visited, current, depth). card (set (dict_keys records) - visited))", goal_cases)
  case (2 records children visited current depth c rec)
  then have c: "c \<in> set (dict_keys records) - visited" by (auto dest: dict_get_Some_key)
  have "set (dict_keys records) - insert c visited \<subset> set (dict_keys records) - visited" using c by blast
  then have "card (set (dict_keys records) - insert c visited) < card (set (dict_keys records) - visited)"
    by (rule psubset_card_mono [rotated]) simp
  then show ?case by (simp only: in_measure prod.case)
qed simp

declare depth_loop.simps [simp del]

definition compute_depth :: "spawn_state \<Rightarrow> string option \<Rightarrow> int" where
  "compute_depth st session =
     (case session of
        None \<Rightarrow> 0
      | Some s \<Rightarrow> if s = [] then 0 else depth_loop (sp_records st) (sp_children st) {} (Some s) 0)"

section \<open>Registration\<close>

record spawn_request =
  rq_parent_agent_id :: string
  rq_child_agent_id :: string
  rq_child_session_id :: string
  rq_project_id :: string
  rq_mode :: spawn_mode
  rq_task_summary :: string
  rq_parent_session_id :: "string option"
  rq_conversation_id :: "string option"
  rq_metadata :: "(string, mval) dict option"
  rq_trace_id :: string
  rq_span_id :: string
  rq_requester_session_key :: "string option"
  rq_parent_run_id :: "string option"
  rq_lineage_root_run_id :: "string option"

definition text_or :: "string option \<Rightarrow> string option \<Rightarrow> string option" where
  "text_or x y = (case x of Some s \<Rightarrow> if s \<noteq> [] then Some s else y | None \<Rightarrow> y)"

definition new_spawn_record :: "spawn_request \<Rightarrow> string \<Rightarrow> int \<Rightarrow> spawn_record" where
  "new_spawn_record rq rid now =
     \<lparr>sr_id = rid, sr_parent_agent_id = rq_parent_agent_id rq, sr_child_agent_id = rq_child_agent_id rq,
      sr_child_session_id = rq_child_session_id rq, sr_project_id = rq_project_id rq, sr_mode = rq_mode rq,
      sr_task_summary = rq_task_summary rq, sr_status = ''running'', sr_trace_id = rq_trace_id rq,
      sr_span_id = rq_span_id rq, sr_created_at = now\<rparr>"

text \<open>\<open>setdefault(parent, set()).add(child)\<close>\<close>

definition add_child :: "string \<Rightarrow> string \<Rightarrow> (string, string list) dict \<Rightarrow> (string, string list) dict" where
  "add_child parent child children =
     (let cs = dict_get_default children parent []
      in dict_set parent (if child \<in> set cs then cs else cs @ [child]) children)"

definition register_in_run_registry ::
  "runtime \<Rightarrow> (nat \<Rightarrow> env) \<Rightarrow> spawn_request \<Rightarrow> spawn_record \<Rightarrow> registry \<times> disk \<Rightarrow> run_error option \<times> registry \<times> disk" where
  "register_in_run_registry rt es rq rec rd =
     (case rq_conversation_id rq of
        None \<Rightarrow> (None, rd)
      | Some conv \<Rightarrow>
          if conv = [] then (None, rd)
          else let m0 = [(''spawn_record_id'', MStr (sr_id rec)), (''parent_agent_id'', MStr (rq_parent_agent_id rq)),
                         (''child_agent_id'', MStr (rq_child_agent_id rq)), (''spawn_mode'', MStr (mode_value (rq_mode rq)))];
                   m = (case rq_metadata rq of None \<Rightarrow> m0 | Some md \<Rightarrow> if md = [] then m0 else dict_merge m0 md)
               in case create_run rt (es 0) conv (rq_child_agent_id rq) (rq_task_summary rq) (Some m) (Some (sr_id rec))
                         (text_or (rq_requester_session_key rq) (rq_parent_session_id rq)) (rq_parent_run_id rq)
                         (rq_lineage_root_run_id rq) (fst rd) (snd rd) of
                    (Inl x, rd') \<Rightarrow> (Some x, rd')
                  | (Inr r, rd') \<Rightarrow>
                      if rq_trace_id rq \<noteq> []
                      then (None, snd (set_trace_context rt (es 1) conv (sr_id rec) (rq_trace_id rq)
                                         (if rq_span_id rq \<noteq> [] then Some (rq_span_id rq) else None) None (fst rd') (snd rd')))
                      else (None, rd'))"

definition register_spawn ::
  "runtime \<Rightarrow> (nat \<Rightarrow> env) \<Rightarrow> string \<Rightarrow> int \<Rightarrow> spawn_request \<Rightarrow> spawn_state \<Rightarrow> (spawn_error + spawn_record) \<times> spawn_state" where
  "register_spawn rt es rid now rq st =
     (let depth = compute_depth st (rq_parent_session_id rq)
      in if depth \<ge> sp_max_depth st then (Inl (SpawnDepthExceeded depth (sp_max_depth st)), st)
         else let rec = new_spawn_record rq rid now;
                  st1 = st\<lparr>sp_records := dict_set (rq_child_session_id rq) rec (sp_records st),
                           sp_children := (case rq_parent_session_id rq of
                              None \<Rightarrow> sp_children st
                            | Some p \<Rightarrow> if p = [] then sp_children st
                                        else add_child p (rq_child_session_id rq) (sp_children st))\<rparr>
              in case sp_run_registry st of
                   None \<Rightarrow> (Inr rec, st1)
                 | Some rd \<Rightarrow>
                     (case register_in_run_registry rt es rq rec rd of
                        (Some x, rd') \<Rightarrow> (Inl (RunRegistryError x), st1\<lparr>sp_run_registry := Some rd'\<rparr>)
                      | (None, rd') \<Rightarrow> (Inr rec, st1\<lparr>sp_run_registry := Some rd'\<rparr>)))"

section \<open>Queries\<close>

definition find_children :: "string \<Rightarrow> string option \<Rightarrow> spawn_state \<Rightarrow> spawn_record list" where
  "find_children parent status st =
     (let child_ids = dict_get_default (sp_children st) parent [];
          children = List.map_filter (dict_get (sp_records st)) child_ids;
          kept = (case status of None \<Rightarrow> children
                    | Some s \<Rightarrow> if s = [] then children else filter (\<lambda>r. sr_status r = s) children)
      in sort_key sr_created_at kept)"

definition find_descendants :: "string \<Rightarrow> bool \<Rightarrow> spawn_state \<Rightarrow> spawn_record list" where
  "find_descendants session include_self st =
     (let own = (if include_self then (case dict_get (sp_records st) session of None \<Rightarrow> [] | Some r \<Rightarrow> [r]) else []);
          ids = bfs (\<lambda>c. c) (\<lambda>c. dict_get (sp_records st) c \<noteq> None)
                  (map (\<lambda>pc. (fst pc, sort (snd pc))) (sp_children st)) {session} [session] []
      in own @ List.map_filter (dict_get (sp_records st)) ids)"

definition get_record :: "string \<Rightarrow> spawn_state \<Rightarrow> spawn_record option" where
  "get_record child st = dict_get (sp_records st) child"

definition get_spawn_depth :: "string option \<Rightarrow> spawn_state \<Rightarrow> int" where
  "get_spawn_depth session st = compute_depth st session"

definition has_active_children :: "string \<Rightarrow> spawn_state \<Rightarrow> bool" where
  "has_active_children parent st \<longleftrightarrow> length (find_children parent (Some ''running'') st) > 0"

definition count_spawned_children :: "string \<Rightarrow> string option \<Rightarrow> spawn_state \<Rightarrow> nat" where
  "count_spawned_children parent status st = length (find_children parent status st)"

section \<open>Status updates\<close>

definition sync_run_registry_status ::
  "runtime \<Rightarrow> (nat \<Rightarrow> env) \<Rightarrow> string \<Rightarrow> string \<Rightarrow> string \<Rightarrow> registry \<times> disk \<Rightarrow> registry \<times> disk" where
  "sync_run_registry_status rt es conv rid status rd =
     (if status = ''running'' then snd (mark_running rt (es 0) conv rid None None (fst rd) (snd rd))
      else if status = ''completed'' then
        (case mark_completed rt (es 0) conv rid None None None None None (fst rd) (snd rd) of
           (Some r, rd1) \<Rightarrow> rd1
         | (None, rd1) \<Rightarrow>
             (case mark_running rt (es 1) conv rid None None (fst rd1) (snd rd1) of
                (None, rd2) \<Rightarrow> rd2
              | (Some r, rd2) \<Rightarrow> snd (mark_completed rt (es 2) conv rid None None None None None (fst rd2) (snd rd2))))
      else if status = ''failed'' then
        (case mark_failed rt (es 0) conv rid ''Spawn failed'' None None None (fst rd) (snd rd) of
           (Some r, rd1) \<Rightarrow> rd1
         | (None, rd1) \<Rightarrow>
             (case mark_running rt (es 1) conv rid None None (fst rd1) (snd rd1) of
                (None, rd2) \<Rightarrow> rd2
              | (Some r, rd2) \<Rightarrow> snd (mark_failed rt (es 2) conv rid ''Spawn failed'' None None None (fst rd2) (snd rd2))))
      else if status = ''stopped'' \<or> status = ''cancelled'' then
        snd (mark_cancelled rt (es 0) conv rid (Some (''Spawn '' @ status)) None None (fst rd) (snd rd))
      else rd)"

definition update_status ::
  "runtime \<Rightarrow> (nat \<Rightarrow> env) \<Rightarrow> string \<Rightarrow> string \<Rightarrow> string option \<Rightarrow> spawn_state \<Rightarrow> spawn_record option \<times> spawn_state" where
  "update_status rt es child new_status conversation_id st =
     (case dict_get (sp_records st) child of
        None \<Rightarrow> (None, st)
      | Some old \<Rightarrow>
          let updated = old\<lparr>sr_status := new_status\<rparr>;
              st1 = st\<lparr>sp_records := dict_set child updated (sp_records st)\<rparr>
          in (Some updated,
              case (sp_run_registry st, conversation_id) of
                (Some rd, Some conv) \<Rightarrow>
                  if conv = [] then st1
                  else st1\<lparr>sp_run_registry := Some (sync_run_registry_status rt es conv (sr_id old) new_status rd)\<rparr>
              | _ \<Rightarrow> st1))"

section \<open>Cascade stop\<close>

definition stop_single ::
  "runtime \<Rightarrow> (nat \<Rightarrow> env) \<Rightarrow> spawn_record \<Rightarrow> string \<Rightarrow> string option \<Rightarrow> spawn_state \<Rightarrow> spawn_state" where
  "stop_single rt es rec project conversation_id st =
     (let st1 = snd (update_status rt es (sr_child_session_id rec) ''stopped'' conversation_id st)
      in st1\<lparr>sp_sessions := snd (unregister_session (sr_child_session_id rec) project (sp_sessions st1))\<rparr>)"

text \<open>
  The loop over the reversed descendants, with the sessions stopped so far and the calls of the
  callback. Every stop has environments of its own, indexed by its session.
\<close>

fun stop_all ::
  "runtime \<Rightarrow> (string \<Rightarrow> nat \<Rightarrow> env) \<Rightarrow> string \<Rightarrow> string option \<Rightarrow> spawn_record list \<Rightarrow> string list \<times> (string \<times> string) list \<times> spawn_state
    \<Rightarrow> string list \<times> (string \<times> string) list \<times> spawn_state" where
  "stop_all rt es project conversation_id [] acc = acc"
| "stop_all rt es project conversation_id (rec # recs) (stopped, calls, st) =
     (if sr_status rec \<noteq> ''running'' then stop_all rt es project conversation_id recs (stopped, calls, st)
      else stop_all rt es project conversation_id recs
             (stopped @ [sr_child_session_id rec], calls @ [(sr_child_session_id rec, sr_child_agent_id rec)],
              stop_single rt (es (sr_child_session_id rec)) rec project conversation_id st))"

definition cascade_stop ::
  "runtime \<Rightarrow> (string \<Rightarrow> nat \<Rightarrow> env) \<Rightarrow> string \<Rightarrow> string \<Rightarrow> string option \<Rightarrow> spawn_state
    \<Rightarrow> string list \<times> (string \<times> string) list \<times> spawn_state" where
  "cascade_stop rt es session project conversation_id st =
     (let (stopped, calls, st1) = stop_all rt es project conversation_id (rev (find_descendants session False st)) ([], [], st)
      in case get_record session st1 of
           None \<Rightarrow> (stopped, calls, st1)
         | Some root_rec \<Rightarrow>
             if sr_status root_rec = ''running''
             then (stopped @ [session], calls @ [(sr_child_session_id root_rec, sr_child_agent_id root_rec)],
                   stop_single rt (es session) root_rec project conversation_id st1)
             else (stopped, calls, st1))"

section \<open>Cleanup\<close>

definition cleanup_session :: "string \<Rightarrow> spawn_state \<Rightarrow> spawn_state" where
  "cleanup_session child st =
     (if dict_get (sp_records st) child = None then st
      else let records = dict_pop child (sp_records st);
               discarded = map (\<lambda>pc. (fst pc, removeAll child (snd pc))) (sp_children st);
               children = filter (\<lambda>pc. snd pc \<noteq> []) discarded;
               orphans = dict_get_default children child []
           in st\<lparr>sp_records := foldl (\<lambda>d i. dict_pop i d) records orphans, sp_children := dict_pop child children\<rparr>)"

definition rebuild_secondary_index :: "spawn_state \<Rightarrow> spawn_state" where
  "rebuild_secondary_index st =
     st\<lparr>sp_children := filter (\<lambda>pc. snd pc \<noteq> [])
        (map (\<lambda>pc. (fst pc, filter (\<lambda>c. c \<in> set (dict_keys (sp_records st))) (snd pc))) (sp_children st))\<rparr>"

definition cleanup_project :: "string \<Rightarrow> spawn_state \<Rightarrow> nat \<times> spawn_state" where
  "cleanup_project project st =
     (let to_remove = map fst (filter (\<lambda>sr. sr_project_id (snd sr) = project) (sp_records st))
      in (length to_remove,
          rebuild_secondary_index (st\<lparr>sp_records := foldl (\<lambda>d s. dict_pop s d) (sp_records st) to_remove\<rparr>)))"

record spawn_stats =
  stat_total_records :: nat
  stat_parent_count :: nat
  stat_by_status :: "(string, nat) dict"
  stat_by_mode :: "(string, nat) dict"
  stat_max_spawn_depth :: int

definition get_stats :: "spawn_state \<Rightarrow> spawn_stats" where
  "get_stats st =
     (let tally = (\<lambda>key. foldl (\<lambda>d r. dict_set (key r) (dict_get_default d (key r) 0 + 1) d) [] (dict_values (sp_records st)))
      in \<lparr>stat_total_records = length (sp_records st), stat_parent_count = length (sp_children st),
          stat_by_status = tally sr_status, stat_by_mode = tally (\<lambda>r. mode_value (sr_mode r)),
          stat_max_spawn_depth = sp_max_depth st\<rparr>)"

end
