(* ===== verification/SpawnProps.thy ===== *)
theory SpawnProps
  imports SpawnManager
begin

text \<open>
  What the spawn manager promises: the nesting depth of every fresh session stays within the limit,
  a cascade stop leaves nothing running below its root and stops children before their parents, and
  the clean-up of a project touches no other project. It also shows what the clean-up of one session
  leaves behind.
\<close>

section \<open>Well-formed indices\<close>

definition spawn_ok :: "spawn_state \<Rightarrow> bool" where
  "spawn_ok st \<longleftrightarrow> wf_dict (sp_records st) \<and> wf_dict (sp_children st) \<and>
     (\<forall>(s, r) \<in> set (sp_records st). sr_child_session_id r = s)"

definition child_edge :: "spawn_state \<Rightarrow> (string \<times> string) set" where
  "child_edge st = {(p, c). c \<in> set (dict_get_default (sp_children st) p []) \<and> dict_get (sp_records st) c \<noteq> None}"

definition single_parent :: "spawn_state \<Rightarrow> bool" where
  "single_parent st \<longleftrightarrow>
     (\<forall>p q c. c \<in> set (dict_get_default (sp_children st) p []) \<and> c \<in> set (dict_get_default (sp_children st) q []) \<longrightarrow> p = q)"

lemma spawn_ok_get: "spawn_ok st \<Longrightarrow> dict_get (sp_records st) s = Some r \<Longrightarrow> sr_child_session_id r = s"
  by (auto simp: spawn_ok_def dest!: dict_get_mem)

lemma succ_sorted_children:
  "succ_items (map (\<lambda>pc. (fst pc, sort (snd pc))) children) k = sort (dict_get_default children k [])"
  by (cases "dict_get children k") (simp_all add: succ_items_def dict_get_default_def dict_get_map_values)

definition descendant_ids :: "string \<Rightarrow> spawn_state \<Rightarrow> string list" where
  "descendant_ids session st =
     bfs (\<lambda>c. c) (\<lambda>c. dict_get (sp_records st) c \<noteq> None)
       (map (\<lambda>pc. (fst pc, sort (snd pc))) (sp_children st)) {session} [session] []"

lemma succ_rel_child_edge:
  "succ_rel (\<lambda>c. c) (\<lambda>c. dict_get (sp_records st) c \<noteq> None) (map (\<lambda>pc. (fst pc, sort (snd pc))) (sp_children st)) = child_edge st"
  by (auto simp: succ_rel_def child_edge_def succ_sorted_children)

lemma descendant_ids_props:
  shows "set (descendant_ids session st) = (child_edge st)\<^sup>+ `` {session} - {session}"
    and "distinct (descendant_ids session st)"
    and "c \<in> set (descendant_ids session st) \<Longrightarrow> dict_get (sp_records st) c \<noteq> None"
proof -
  note ex = bfs_exact [where visited = "{session}" and queue = "[session]" and key = "\<lambda>c. c"
      and live = "\<lambda>c. dict_get (sp_records st) c \<noteq> None"
      and succs = "map (\<lambda>pc. (fst pc, sort (snd pc))) (sp_children st)",
      folded descendant_ids_def, unfolded succ_rel_child_edge]
  show "set (descendant_ids session st) = (child_edge st)\<^sup>+ `` {session} - {session}"
    using ex(1) by (simp only: image_ident list.set)
  show "distinct (descendant_ids session st)" using ex(2) by (simp only: map_ident list.set)
  show "c \<in> set (descendant_ids session st) \<Longrightarrow> dict_get (sp_records st) c \<noteq> None"
    using ex(3) [of c] by simp
qed

lemma map_filter_all: "\<forall>x \<in> set xs. f x \<noteq> None \<Longrightarrow> List.map_filter f xs = map (\<lambda>x. the (f x)) xs"
  by (induction xs) (auto simp: List.map_filter_simps)

lemma find_descendants_ids:
  "find_descendants session False st = map (\<lambda>c. the (dict_get (sp_records st) c)) (descendant_ids session st)"
  using map_filter_all [of "descendant_ids session st" "dict_get (sp_records st)"] descendant_ids_props(3)
  by (simp add: find_descendants_def descendant_ids_def Let_def)

lemma descendants_session_ids:
  assumes "spawn_ok st"
  shows "map sr_child_session_id (find_descendants session False st) = descendant_ids session st"
proof -
  have "sr_child_session_id (the (dict_get (sp_records st) c)) = c" if "c \<in> set (descendant_ids session st)" for c
    using descendant_ids_props(3) [OF that] spawn_ok_get [OF assms] by auto
  then show ?thesis by (simp add: find_descendants_ids comp_def map_idI)
qed

section \<open>Cascade stop\<close>

definition stopped_record :: "spawn_record \<Rightarrow> spawn_record" where
  "stopped_record r = r\<lparr>sr_status := ''stopped''\<rparr>"

definition is_running :: "spawn_state \<Rightarrow> string \<Rightarrow> bool" where
  "is_running st s \<longleftrightarrow> (\<exists>r. dict_get (sp_records st) s = Some r \<and> sr_status r = ''running'')"

text \<open>The state after stopping the sessions of the list \<open>R\<close>, up to the run registry.\<close>

definition stopped_from :: "string \<Rightarrow> string set \<Rightarrow> spawn_state \<Rightarrow> spawn_state \<Rightarrow> bool" where
  "stopped_from project R st st' \<longleftrightarrow>
     (\<forall>s. dict_get (sp_records st') s =
        (if s \<in> R then map_option stopped_record (dict_get (sp_records st) s) else dict_get (sp_records st) s)) \<and>
     (\<forall>p c. dict_get (sp_sessions st') (p, c) = (if p = project \<and> c \<in> R then None else dict_get (sp_sessions st) (p, c))) \<and>
     sp_children st' = sp_children st \<and> sp_max_depth st' = sp_max_depth st"

lemma stop_single_from:
  assumes "stopped_from project R st st1"
  shows "stopped_from project (insert (sr_child_session_id rec) R) st (stop_single rt es rec project conv st1)"
proof -
  let ?s = "sr_child_session_id rec"
  have idem: "stopped_record (stopped_record r) = stopped_record r" for r by (simp add: stopped_record_def)
  have up: "sp_records (snd (update_status rt es ?s ''stopped'' conv st1)) =
      (case dict_get (sp_records st1) ?s of None \<Rightarrow> sp_records st1 | Some r \<Rightarrow> dict_set ?s (stopped_record r) (sp_records st1))"
    "sp_sessions (snd (update_status rt es ?s ''stopped'' conv st1)) = sp_sessions st1"
    "sp_children (snd (update_status rt es ?s ''stopped'' conv st1)) = sp_children st1"
    "sp_max_depth (snd (update_status rt es ?s ''stopped'' conv st1)) = sp_max_depth st1"
    by (auto simp: update_status_def stopped_record_def Let_def split: option.splits prod.splits)
  show ?thesis
    using assms unfolding stopped_from_def stop_single_def
    by (auto simp: Let_def up unregister_session_def dict_get_pop dict_get_set idem option.map_comp comp_def
        split: option.splits)
qed

lemma stop_all_result:
  assumes "stop_all rt es project conv recs (stopped, calls, st1) = (stopped', calls', st')"
    and "stopped_from project R st st1"
  shows "stopped' = stopped @ map sr_child_session_id (filter (\<lambda>r. sr_status r = ''running'') recs) \<and>
    calls' = calls @ map (\<lambda>r. (sr_child_session_id r, sr_child_agent_id r)) (filter (\<lambda>r. sr_status r = ''running'') recs) \<and>
    stopped_from project (R \<union> sr_child_session_id ` {r \<in> set recs. sr_status r = ''running''}) st st'"
  using assms
proof (induction recs arbitrary: stopped calls st1 R)
  case (Cons r recs)
  show ?case
  proof (cases "sr_status r = ''running''")
    case True
    have eq: "insert (sr_child_session_id r) R \<union> sr_child_session_id ` {r \<in> set recs. sr_status r = ''running''} =
        R \<union> sr_child_session_id ` {q \<in> set (r # recs). sr_status q = ''running''}" using True by auto
    have "stop_all rt es project conv recs
        (stopped @ [sr_child_session_id r], calls @ [(sr_child_session_id r, sr_child_agent_id r)],
         stop_single rt (es (sr_child_session_id r)) r project conv st1) = (stopped', calls', st')"
      using Cons.prems(1) True by simp
    note ih = Cons.IH [OF this stop_single_from [OF Cons.prems(2)]]
    then show ?thesis unfolding eq [symmetric] using True by simp
  next
    case False
    then have eq: "{q \<in> set (r # recs). sr_status q = ''running''} = {q \<in> set recs. sr_status q = ''running''}" by auto
    have "stop_all rt es project conv recs (stopped, calls, st1) = (stopped', calls', st')" using Cons.prems(1) False by simp
    from Cons.IH [OF this Cons.prems(2)] show ?thesis unfolding eq using False by simp
  qed
qed auto

lemma stopped_from_refl: "stopped_from project {} st st"
  by (simp add: stopped_from_def)

text \<open>The sessions a cascade stops, in the order it stops them.\<close>

definition to_stop :: "string \<Rightarrow> spawn_state \<Rightarrow> string list" where
  "to_stop session st = filter (is_running st) (rev (descendant_ids session st)) @ (if is_running st session then [session] else [])"

lemma running_descendants:
  assumes "spawn_ok st"
  shows "map sr_child_session_id (filter (\<lambda>r. sr_status r = ''running'') (rev (find_descendants session False st))) =
    filter (is_running st) (rev (descendant_ids session st))"
proof -
  let ?rec = "\<lambda>c. the (dict_get (sp_records st) c)"
  have "sr_child_session_id (?rec c) = c \<and> (sr_status (?rec c) = ''running'') = is_running st c" if "c \<in> set ids" "set ids \<subseteq> set (descendant_ids session st)" for c ids
    using descendant_ids_props(3) [of c session st] spawn_ok_get [OF assms, of c] that
    by (cases "dict_get (sp_records st) c") (auto simp: is_running_def)
  then have "map sr_child_session_id (filter (\<lambda>r. sr_status r = ''running'') (map ?rec ids)) = filter (is_running st) ids"
    if "set ids \<subseteq> set (descendant_ids session st)" for ids
    using that by (induction ids) auto
  from this [of "rev (descendant_ids session st)"] show ?thesis by (simp add: find_descendants_ids rev_map)
qed

lemma cascade_stop_result:
  assumes ok: "spawn_ok st" and res: "cascade_stop rt es session project conv st = (stopped, calls, st')"
  shows "stopped = to_stop session st \<and> map fst calls = stopped \<and> stopped_from project (set stopped) st st'"
proof -
  let ?ds = "rev (find_descendants session False st)"
  let ?R = "filter (is_running st) (rev (descendant_ids session st))"
  obtain stopped1 calls1 st1 where loop: "stop_all rt es project conv ?ds ([], [], st) = (stopped1, calls1, st1)"
    by (metis prod.collapse)
  note r = stop_all_result [OF loop stopped_from_refl]
  have s1: "stopped1 = ?R" "map fst calls1 = ?R" using r running_descendants [OF ok] by (auto simp: comp_def)
  have "sr_child_session_id ` {r \<in> set ?ds. sr_status r = ''running''} = set ?R"
    using arg_cong [OF running_descendants [OF ok, of session], of set] by simp
  then have from1: "stopped_from project (set ?R) st st1" using r by simp
  have "session \<notin> set (descendant_ids session st)" using descendant_ids_props(1) by simp
  then have root_eq: "get_record session st1 = dict_get (sp_records st) session"
    using from1 by (simp add: stopped_from_def get_record_def)
  show ?thesis
  proof (cases "is_running st session")
    case True
    then obtain rec where rec: "dict_get (sp_records st) session = Some rec" "sr_status rec = ''running''"
      by (auto simp: is_running_def)
    then have id: "sr_child_session_id rec = session" using spawn_ok_get [OF ok] by blast
    have "stopped = ?R @ [session]" "map fst calls = ?R @ [session]" "st' = stop_single rt (es session) rec project conv st1"
      using res rec root_eq loop s1 id by (auto simp: cascade_stop_def)
    then show ?thesis using True stop_single_from [OF from1, of rec] id by (simp add: to_stop_def)
  next
    case False
    then have "\<not> (\<exists>rec. get_record session st1 = Some rec \<and> sr_status rec = ''running'')"
      using root_eq by (auto simp: is_running_def)
    then have "stopped = ?R" "calls = calls1" "st' = st1"
      using res loop s1 by (auto simp: cascade_stop_def split: option.splits if_splits)
    then show ?thesis using False from1 s1 by (simp add: to_stop_def)
  qed
qed

lemma to_stop_set: "set (to_stop session st) = {s \<in> insert session ((child_edge st)\<^sup>+ `` {session}). is_running st s}"
  using descendant_ids_props(1) [of session st] by (auto simp: to_stop_def)

lemma to_stop_distinct: "distinct (to_stop session st)"
  using descendant_ids_props(1,2) [of session st] by (auto simp: to_stop_def)

text \<open>In the breadth-first order a session with one parent comes after it.\<close>

lemma descendants_parent_first:
  assumes "single_parent st" and "descendant_ids session st = xs @ b # ys" and "(a, b) \<in> child_edge st"
  shows "a = session \<or> a \<in> set xs"
proof -
  let ?succs = "map (\<lambda>pc. (fst pc, sort (snd pc))) (sp_children st)"
  have "found_in_order (\<lambda>c. c) ?succs {session} (descendant_ids session st)"
    unfolding descendant_ids_def by (rule bfs_in_order) (auto simp: found_in_order_def)
  then obtain k where k: "k \<in> {session} \<union> set xs" "b \<in> set (succ_items ?succs k)"
    using assms(2) by (auto simp: found_in_order_def)
  then have "k = a"
    using assms(1,3) by (auto simp: succ_sorted_children single_parent_def child_edge_def)
  then show ?thesis using k(1) by auto
qed

lemma to_stop_order:
  assumes "single_parent st" and split: "to_stop session st = us @ a # vs" and edge: "(a, b) \<in> child_edge st" and "b \<noteq> session"
  shows "b \<notin> set vs"
proof
  assume b: "b \<in> set vs"
  let ?L = "descendant_ids session st"
  define last where "last = (if is_running st session then [session] else [])"
  have sess: "session \<notin> set ?L" using descendant_ids_props(1) by simp
  have eq: "us @ a # vs = filter (is_running st) (rev ?L) @ last" using split by (simp add: to_stop_def last_def)
  have b_in: "b \<in> set (filter (is_running st) (rev ?L))"
  proof -
    have "b \<in> set (us @ a # vs)" using b by simp
    then show ?thesis unfolding eq using \<open>b \<noteq> session\<close> by (auto simp: last_def split: if_splits)
  qed
  have dist: "a \<notin> set us" "a \<notin> set vs" using to_stop_distinct [of session st] split by auto
  from b_in have "b \<in> set ?L" by simp
  then obtain xs ys where L: "?L = xs @ b # ys" by (auto simp: in_set_conv_decomp)
  have rest: "a \<noteq> session"
  proof
    assume a: "a = session"
    let ?F = "filter (is_running st) (rev ?L)"
    have F: "session \<notin> set ?F" using sess by simp
    have "session \<in> set (?F @ last)" unfolding eq [symmetric] using a by simp
    then have "last = [session]" using F by (auto simp: last_def)
    then have "us @ session # vs = ?F @ session # []" using eq a by simp
    then have "vs = []" using append_Cons_eq_iff [of session us vs ?F "[]"] dist a by simp
    with b show False by simp
  qed
  have "a \<in> set xs" using descendants_parent_first [OF assms(1) L edge] rest by blast
  then obtain x1 x2 where "xs = x1 @ a # x2" by (auto simp: in_set_conv_decomp)
  then have "rev ?L = rev ys @ [b] @ rev x2 @ [a] @ rev x1" using L by simp
  then have "us @ a # vs = filter (is_running st) (rev ys @ [b] @ rev x2) @ filter (is_running st) [a] @ filter (is_running st) (rev x1) @ last"
    using eq by simp
  moreover have "is_running st a" 
  proof -
    have "a \<in> set (to_stop session st)" unfolding split by simp
    then show ?thesis by (simp add: to_stop_set)
  qed
  ultimately have "us @ a # vs = filter (is_running st) (rev ys @ [b] @ rev x2) @ a # filter (is_running st) (rev x1) @ last" by simp
  then have "vs = filter (is_running st) (rev x1) @ last"
    using append_Cons_eq_iff [of a us vs] dist by blast
  then have "b \<in> set x1 \<or> b = session" using b by (auto simp: last_def split: if_splits)
  then show False using descendant_ids_props(2) [of session st] L \<open>xs = x1 @ a # x2\<close> \<open>b \<noteq> session\<close> by auto
qed


definition sample_request :: "string \<Rightarrow> string \<Rightarrow> spawn_request" where
  "sample_request parent child =
     \<lparr>rq_parent_agent_id = ''agent'', rq_child_agent_id = ''helper'', rq_child_session_id = child, rq_project_id = ''proj'',
      rq_mode = RunMode, rq_task_summary = ''task'', rq_parent_session_id = Some parent, rq_conversation_id = None,
      rq_metadata = None, rq_trace_id = [], rq_span_id = [], rq_requester_session_key = None,
      rq_parent_run_id = None, rq_lineage_root_run_id = None\<rparr>"

definition spawn_step :: "spawn_state \<Rightarrow> string \<times> string \<Rightarrow> spawn_state" where
  "spawn_step st pc = snd (register_spawn sample_runtime (\<lambda>n. sample_env) (snd pc) 10 (sample_request (fst pc) (snd pc)) st)"

definition sample_spawns :: spawn_state where
  "sample_spawns = foldl spawn_step (spawn_manager_init [] None 5) [(''root'', ''a''), (''a'', ''b''), (''b'', ''c'')]"

lemma sample_spawns_ok: "spawn_ok sample_spawns"
  by code_simp


section \<open>Nesting depth\<close>

lemma find_parent_key: "find_parent_session children x = Some p \<Longrightarrow> p \<in> set (dict_keys children)"
  by (induction children) (auto simp: find_parent_session_def split: if_splits)

lemma find_parent_add_child:
  assumes "\<forall>pc \<in> set children. child \<notin> set (snd pc)"
  shows "find_parent_session (add_child p child children) x =
    (if x = child then Some p else find_parent_session children x)"
  using assms
proof (induction children)
  case Nil
  then show ?case by (auto simp: find_parent_session_def add_child_def dict_get_default_def)
next
  case (Cons pc children)
  show ?case
  proof (cases "fst pc = p")
    case True
    then have "add_child p child (pc # children) = (p, snd pc @ [child]) # children"
      using Cons.prems by (cases pc) (simp add: add_child_def dict_get_default_def)
    then show ?thesis using True Cons.prems by (auto simp: find_parent_session_def find_None_iff)
  next
    case False
    then have "add_child p child (pc # children) = pc # add_child p child children"
      by (cases pc) (simp add: add_child_def dict_get_default_def Let_def)
    then show ?thesis using Cons by (auto simp: find_parent_session_def)
  qed
qed

lemma depth_loop_fresh:
  assumes "\<And>x. x \<noteq> c \<Longrightarrow> find_parent_session children' x = find_parent_session children x"
    and "\<And>x. x \<noteq> c \<Longrightarrow> dict_get records' x = dict_get records x" and "c \<notin> set (dict_keys children)"
  shows "current \<noteq> Some c \<Longrightarrow> visited' - {c} = visited - {c} \<Longrightarrow>
    depth_loop records' children' visited' current (depth + k) = depth_loop records children visited current depth + k"
  using assms
proof (induction records children visited current depth arbitrary: visited' rule: depth_loop.induct)
  case (1 records children visited current depth)
  show ?case
  proof (cases current)
    case None
    then show ?thesis by (subst (1 2) depth_loop.simps) simp
  next
    case (Some x)
    then have xc: "x \<noteq> c" using "1.prems"(1) by auto
    have vis: "x \<in> visited' \<longleftrightarrow> x \<in> visited" using "1.prems"(2) xc by blast
    show ?thesis
    proof (cases "x = [] \<or> x \<in> visited \<or> dict_get records x = None")
      case True
      then show ?thesis
        using Some xc vis "1.prems"(4) by (subst (1 2) depth_loop.simps) auto
    next
      case False
      then obtain rec where rec: "dict_get records x = Some rec" by auto
      have "find_parent_session children x \<noteq> Some c" using find_parent_key "1.prems"(5) by blast
      moreover have "insert x visited' - {c} = insert x visited - {c}" using "1.prems"(2) by blast
      ultimately have "depth_loop records' children' (insert x visited') (find_parent_session children x) (depth + 1 + k) =
          depth_loop records children (insert x visited) (find_parent_session children x) (depth + 1) + k"
        using "1.IH" [OF Some _ rec] False "1.prems"(3-5) by blast
      then show ?thesis
        using Some False xc vis rec "1.prems"(3,4) by (subst (1 2) depth_loop.simps) (simp add: algebra_simps)
    qed
  qed
qed

text \<open>A child session that no index knows yet.\<close>

definition fresh_session :: "spawn_state \<Rightarrow> string \<Rightarrow> bool" where
  "fresh_session st c \<longleftrightarrow> c \<noteq> [] \<and> c \<notin> set (dict_keys (sp_records st)) \<and> c \<notin> set (dict_keys (sp_children st)) \<and>
     (\<forall>pc \<in> set (sp_children st). c \<notin> set (snd pc))"

lemma register_spawn_indices:
  assumes "register_spawn rt es rid now rq st = (res, st')" and "compute_depth st (rq_parent_session_id rq) < sp_max_depth st"
  shows "sp_records st' = dict_set (rq_child_session_id rq) (new_spawn_record rq rid now) (sp_records st) \<and>
    sp_children st' = (case rq_parent_session_id rq of None \<Rightarrow> sp_children st
       | Some p \<Rightarrow> if p = [] then sp_children st else add_child p (rq_child_session_id rq) (sp_children st)) \<and>
    sp_max_depth st' = sp_max_depth st \<and> sp_sessions st' = sp_sessions st"
  using assms by (auto simp: register_spawn_def Let_def split: option.splits prod.splits if_splits)

text \<open>
  C16: \<open>register_spawn\<close> raises and changes nothing when the parent already is as deep as allowed;
  otherwise a fresh child session gets the depth of its parent plus one, which is within the limit, and
  the depth of every other session stays as it was.
\<close>

theorem spawn_depth_bounded:
  assumes "register_spawn rt es rid now rq st = (res, st')"
  shows "(compute_depth st (rq_parent_session_id rq) \<ge> sp_max_depth st \<longrightarrow>
      res = Inl (SpawnDepthExceeded (compute_depth st (rq_parent_session_id rq)) (sp_max_depth st)) \<and> st' = st) \<and>
    (compute_depth st (rq_parent_session_id rq) < sp_max_depth st \<and> fresh_session st (rq_child_session_id rq) \<and>
     rq_parent_session_id rq \<noteq> Some (rq_child_session_id rq) \<longrightarrow>
      compute_depth st' (Some (rq_child_session_id rq)) = compute_depth st (rq_parent_session_id rq) + 1 \<and>
      compute_depth st' (Some (rq_child_session_id rq)) \<le> sp_max_depth st' \<and>
      (\<forall>s. s \<noteq> rq_child_session_id rq \<longrightarrow> compute_depth st' (Some s) = compute_depth st (Some s)))"
proof (intro conjI impI)
  let ?c = "rq_child_session_id rq" and ?d = "compute_depth st (rq_parent_session_id rq)"
  show "res = Inl (SpawnDepthExceeded ?d (sp_max_depth st))" "st' = st" if "?d \<ge> sp_max_depth st"
    using assms that by (auto simp: register_spawn_def Let_def)
  assume "?d < sp_max_depth st \<and> fresh_session st ?c \<and> rq_parent_session_id rq \<noteq> Some ?c"
  then have less: "?d < sp_max_depth st" and fresh: "fresh_session st ?c" and np: "rq_parent_session_id rq \<noteq> Some ?c" by auto
  note ix = register_spawn_indices [OF assms less]
  have parent: "find_parent_session (sp_children st') x =
      (if x = ?c then (case rq_parent_session_id rq of None \<Rightarrow> None | Some p \<Rightarrow> if p = [] then None else Some p)
       else find_parent_session (sp_children st) x)" for x
    using ix fresh find_parent_add_child [of "sp_children st" ?c _ x]
    by (auto simp: fresh_session_def find_parent_session_def find_None_iff split: option.splits)
  have recs: "dict_get (sp_records st') x = (if x = ?c then Some (new_spawn_record rq rid now) else dict_get (sp_records st) x)" for x
    using ix by (simp add: dict_get_set)
  have loop: "depth_loop (sp_records st') (sp_children st') V' cur (d + k) = depth_loop (sp_records st) (sp_children st) V cur d + k"
    if "cur \<noteq> Some ?c" "V' - {?c} = V - {?c}" for V V' cur d k
    using depth_loop_fresh [of ?c "sp_children st'" "sp_children st" "sp_records st'" "sp_records st" cur V' V d k]
      that parent recs fresh by (simp add: fresh_session_def)
  show others: "\<forall>s. s \<noteq> ?c \<longrightarrow> compute_depth st' (Some s) = compute_depth st (Some s)"
    using loop [of "Some s" "{}" "{}" 0 0 for s] by (auto simp: compute_depth_def)
  have "compute_depth st' (Some ?c) =
      depth_loop (sp_records st') (sp_children st') {?c} (find_parent_session (sp_children st') ?c) 1"
    using fresh recs by (simp add: compute_depth_def fresh_session_def) (subst depth_loop.simps, simp)
  also have "\<dots> = ?d + 1"
  proof (cases "find_parent_session (sp_children st') ?c")
    case None
    then show ?thesis
      using parent [of ?c] by (subst depth_loop.simps) (auto simp: compute_depth_def split: option.splits if_splits)
  next
    case (Some p)
    then have p: "rq_parent_session_id rq = Some p" "p \<noteq> []" using parent [of ?c] by (auto split: option.splits if_splits)
    then show ?thesis
      using loop [of "Some p" "{?c}" "{}" 0 1] np Some by (simp add: compute_depth_def)
  qed
  finally show depth: "compute_depth st' (Some ?c) = ?d + 1" .
  show "compute_depth st' (Some ?c) \<le> sp_max_depth st'" using depth less ix by simp
qed

theorem spawn_depth_bounded_witness:
  "\<exists>res st'. register_spawn sample_runtime (\<lambda>n. sample_env) ''d'' 10 (sample_request ''c'' ''d'') sample_spawns = (res, st') \<and>
     compute_depth sample_spawns (Some ''c'') = 3 \<and> compute_depth st' (Some ''d'') = 4 \<and> compute_depth st' (Some ''d'') \<le> sp_max_depth st'"
proof -
  obtain res st' where r: "register_spawn sample_runtime (\<lambda>n. sample_env) ''d'' 10 (sample_request ''c'' ''d'') sample_spawns = (res, st')"
    by fastforce
  have "compute_depth sample_spawns (Some ''c'') = 3" "sp_max_depth sample_spawns = 5" "fresh_session sample_spawns ''d''"
    by code_simp+
  then show ?thesis
    using spawn_depth_bounded [OF r] r by (auto simp: sample_request_def)
qed

section \<open>Clean-up\<close>

lemma rebuilt_children:
  "(p, cs) \<in> set (sp_children (rebuild_secondary_index st)) \<longleftrightarrow>
     (\<exists>cs0. (p, cs0) \<in> set (sp_children st) \<and> cs = filter (\<lambda>c. c \<in> set (dict_keys (sp_records st))) cs0 \<and> cs \<noteq> [])"
  by (force simp: rebuild_secondary_index_def image_iff)

text \<open>
  Cleaning up a project removes exactly its spawn records and reports how many, drops the removed
  sessions (and nothing else) from the parent index, leaves no empty entry there, and clearing the
  project's agent sessions leaves those of other projects alone.
\<close>

theorem project_cleanup_isolated:
  assumes "wf_dict (sp_records st)" and "cleanup_project project st = (n, st')"
  shows "(\<forall>s. dict_get (sp_records st') s =
        (case dict_get (sp_records st) s of None \<Rightarrow> None | Some r \<Rightarrow> if sr_project_id r = project then None else Some r)) \<and>
    n = length (sp_records st) - length (sp_records st') \<and>
    (\<forall>p cs. (p, cs) \<in> set (sp_children st') \<longleftrightarrow>
       (\<exists>cs0. (p, cs0) \<in> set (sp_children st) \<and> cs = filter (\<lambda>c. dict_get (sp_records st') c \<noteq> None) cs0 \<and> cs \<noteq> [])) \<and>
    (\<forall>p c. dict_get (snd (clear_project_sessions project ss)) (p, c) = (if p = project then None else dict_get ss (p, c)))"
proof -
  let ?rm = "map fst (filter (\<lambda>sr. sr_project_id (snd sr) = project) (sp_records st))"
  have mem: "fst sr \<in> set ?rm \<longleftrightarrow> sr_project_id (snd sr) = project" if "sr \<in> set (sp_records st)" for sr
  proof -
    have "r = snd sr" if "(fst sr, r) \<in> set (sp_records st)" for r
      using that \<open>sr \<in> set (sp_records st)\<close> assms(1) by (metis eq_key_imp_eq_value prod.collapse wf_dict_def)
    then show ?thesis using that by force
  qed
  have recs: "sp_records st' = filter (\<lambda>sr. sr_project_id (snd sr) \<noteq> project) (sp_records st)"
  proof -
    have "sp_records st' = filter (\<lambda>sr. fst sr \<notin> set ?rm) (sp_records st)"
      using assms(2) unfolding cleanup_project_def Let_def rebuild_secondary_index_def foldl_pop_filter by auto
    also have "\<dots> = filter (\<lambda>sr. sr_project_id (snd sr) \<noteq> project) (sp_records st)"
      by (rule filter_cong [OF refl]) (simp only: mem)
    finally show ?thesis .
  qed
  have n: "n = length (filter (\<lambda>sr. sr_project_id (snd sr) = project) (sp_records st))"
    using assms(2) by (auto simp: cleanup_project_def Let_def)
  have get: "dict_get (sp_records st') s =
        (case dict_get (sp_records st) s of None \<Rightarrow> None | Some r \<Rightarrow> if sr_project_id r = project then None else Some r)" for s
    using dict_get_filter_values [OF assms(1), of "\<lambda>r. sr_project_id r \<noteq> project" s] unfolding recs
    by (auto split: option.splits)
  moreover have "n = length (sp_records st) - length (sp_records st')"
    using sum_length_filter_compl [of "\<lambda>sr. sr_project_id (snd sr) = project" "sp_records st"] by (simp add: n recs)
  moreover have "sp_children st' = sp_children (rebuild_secondary_index (st\<lparr>sp_records := sp_records st'\<rparr>))"
    using assms(2) by (auto simp: cleanup_project_def Let_def rebuild_secondary_index_def)
  then have "(p, cs) \<in> set (sp_children st') \<longleftrightarrow>
       (\<exists>cs0. (p, cs0) \<in> set (sp_children st) \<and> cs = filter (\<lambda>c. dict_get (sp_records st') c \<noteq> None) cs0 \<and> cs \<noteq> [])" for p cs
    by (simp add: rebuilt_children dict_get_None_iff)
  ultimately show ?thesis by (simp add: clear_project_sessions_get)
qed

theorem project_cleanup_isolated_witness:
  "fst (cleanup_project ''proj'' sample_spawns) = 3 \<and> dict_get (sp_records (snd (cleanup_project ''proj'' sample_spawns))) ''b'' = None"
proof -
  obtain n st' where c: "cleanup_project ''proj'' sample_spawns = (n, st')" by fastforce
  have "fst (cleanup_project ''proj'' sample_spawns) = 3" by code_simp
  moreover have "(case dict_get (sp_records sample_spawns) ''b'' of None \<Rightarrow> True | Some r \<Rightarrow> sr_project_id r = ''proj'')" by code_simp
  moreover have "wf_dict (sp_records sample_spawns)" by code_simp
  ultimately show ?thesis
    using project_cleanup_isolated [OF _ c, of "[]"] c by (auto split: option.splits)
qed

text \<open>
  Cleaning up one session in the middle of a chain removes it and its direct children only: a
  grandchild stays registered and running, with its index entry, but is no longer below the root, so
  that a cascade stop from the root does not reach it.
\<close>

theorem cleanup_session_leaks_grandchildren:
  "let st = cleanup_session ''a'' sample_spawns;
       st' = snd (snd (cascade_stop sample_runtime (\<lambda>s n. sample_env) ''root'' ''proj'' None st))
   in map sr_child_session_id (find_descendants ''root'' False sample_spawns) = [''a'', ''b'', ''c''] \<and>
      dict_keys (sp_records st) = [''c''] \<and> sp_children st = [(''b'', [''c''])] \<and>
      find_descendants ''root'' False st = [] \<and> is_running st' ''c''"
proof -
  define st where "st = cleanup_session ''a'' sample_spawns"
  define st' where "st' = snd (snd (cascade_stop sample_runtime (\<lambda>s n. sample_env) ''root'' ''proj'' None st))"
  have "map_option sr_status (dict_get (sp_records st') ''c'') = Some ''running''" unfolding st'_def st_def by code_simp
  then have "is_running st' ''c''" by (auto simp: is_running_def)
  moreover have "map sr_child_session_id (find_descendants ''root'' False sample_spawns) = [''a'', ''b'', ''c'']" by code_simp
  moreover have "dict_keys (sp_records st) = [''c'']" "sp_children st = [(''b'', [''c''])]" "find_descendants ''root'' False st = []"
    unfolding st_def by code_simp+
  ultimately show ?thesis unfolding Let_def st_def st'_def by blast
qed

text \<open>
  With a run registry and a conversation, a spawn with the default empty task summary raises only
  after its record is stored: the caller gets the error of the run registry, and the session stays
  registered as running.
\<close>

theorem register_spawn_error_keeps_record:
  "let st = spawn_manager_init [] (Some (sample_registry, NoFile)) 5;
       (res, st') = register_spawn sample_runtime (\<lambda>n. sample_env) ''rec'' 10
          ((sample_request ''root'' ''a'')\<lparr>rq_task_summary := [], rq_conversation_id := Some ''conv''\<rparr>) st
   in res = Inl (RunRegistryError EmptyTask) \<and> is_running st' ''a''"
proof -
  define r where "r = register_spawn sample_runtime (\<lambda>n. sample_env) ''rec'' 10
          ((sample_request ''root'' ''a'')\<lparr>rq_task_summary := [], rq_conversation_id := Some ''conv''\<rparr>)
          (spawn_manager_init [] (Some (sample_registry, NoFile)) 5)"
  have "map_option sr_status (dict_get (sp_records (snd r)) ''a'') = Some ''running''" unfolding r_def by code_simp
  moreover have "fst r = Inl (RunRegistryError EmptyTask)" unfolding r_def by code_simp
  ultimately show ?thesis unfolding Let_def r_def [symmetric] by (auto simp: is_running_def split: prod.splits)
qed

end
