(* ===== verification/SpawnPolicy.thy ===== *)
theory SpawnPolicy
  imports RunRegistryQueries
begin

text \<open>
  The admission check for delegated runs: \<open>SpawnPolicy\<close>
  (\<open>src/domain/model/agent/spawn_policy.py\<close>) and the four-step \<open>SpawnValidator.validate\<close>
  (\<open>src/infrastructure/agent/subagent/spawn_validator.py\<close>), which reads the counters of the run
  registry. A rejection carries its code and the numbers of its context.
\<close>

record spawn_policy =
  pol_max_depth :: int
  pol_max_active_runs :: int
  pol_max_children :: int
  pol_allowed :: "string list option"

datatype policy_error = MaxDepthNegative int | MaxActiveRunsTooSmall int | MaxChildrenTooSmall int

definition spawn_policy_init :: "spawn_policy \<Rightarrow> policy_error + spawn_policy" where
  "spawn_policy_init p =
     (if pol_max_depth p < 0 then Inl (MaxDepthNegative (pol_max_depth p))
      else if pol_max_active_runs p < 1 then Inl (MaxActiveRunsTooSmall (pol_max_active_runs p))
      else if pol_max_children p < 1 then Inl (MaxChildrenTooSmall (pol_max_children p))
      else Inr p)"

text \<open>The settings object, with the attributes it may lack.\<close>

record spawn_settings =
  set_max_delegation_depth :: "int option"
  set_max_active_runs :: "int option"
  set_max_children_per_requester :: "int option"
  set_allowed_subagents :: "string list option"

definition attr_or :: "'a option \<Rightarrow> 'a \<Rightarrow> 'a" where
  "attr_or x dflt = (case x of None \<Rightarrow> dflt | Some v \<Rightarrow> v)"

definition spawn_policy_from_settings :: "spawn_settings \<Rightarrow> policy_error + spawn_policy" where
  "spawn_policy_from_settings s =
     spawn_policy_init \<lparr>pol_max_depth = attr_or (set_max_delegation_depth s) 2,
       pol_max_active_runs = attr_or (set_max_active_runs s) 16,
       pol_max_children = attr_or (set_max_children_per_requester s) 8, pol_allowed = set_allowed_subagents s\<rparr>"

datatype spawn_validation =
    SpawnOk
  | DepthExceeded int int
  | SubagentNotAllowed string "string list"
  | ChildrenExceeded int int
  | ConcurrencyExceeded int int

definition validate_spawn ::
  "runtime \<Rightarrow> env \<Rightarrow> env \<Rightarrow> spawn_policy \<Rightarrow> string \<Rightarrow> int \<Rightarrow> string \<Rightarrow> string option \<Rightarrow> registry \<Rightarrow> disk
    \<Rightarrow> spawn_validation \<times> registry" where
  "validate_spawn rt e1 e2 pol subagent_name current_depth conversation_id requester reg d =
     (if current_depth \<ge> pol_max_depth pol then (DepthExceeded current_depth (pol_max_depth pol), reg)
      else case (case pol_allowed pol of Some names \<Rightarrow> if subagent_name \<notin> set names then Some names else None | None \<Rightarrow> None) of
             Some names \<Rightarrow> (SubagentNotAllowed subagent_name (sort (remdups names)), reg)
           | None \<Rightarrow>
               let (active_children, reg1) = count_active_runs rt e1 conversation_id reg d
               in if int active_children \<ge> pol_max_children pol
                  then (ChildrenExceeded (int active_children) (pol_max_children pol), reg1)
                  else let (total_active, reg2) = count_all_active_runs rt e2 reg1 d
                       in if int total_active \<ge> pol_max_active_runs pol
                          then (ConcurrencyExceeded (int total_active) (pol_max_active_runs pol), reg2)
                          else (SpawnOk, reg2))"

section \<open>Counting active runs\<close>

definition bucket_active :: "bucket \<Rightarrow> nat" where
  "bucket_active b = length (filter run_active (dict_values b))"

definition total_active :: "(string, bucket) dict \<Rightarrow> nat" where
  "total_active bs = sum_list (map bucket_active (dict_values bs))"

lemma bucket_active_Nil [simp]: "bucket_active [] = 0"
  by (simp add: bucket_active_def)

lemma bucket_active_set: "bucket_active (dict_set i r b) \<le> Suc (bucket_active b)"
  by (induction b) (auto simp: bucket_active_def)

lemma bucket_active_evict:
  assumes "bucket_ok c b"
  shows "bucket_active (evict_bucket m ret now b) = bucket_active b"
proof -
  have len: "bucket_active b' = length (filter (\<lambda>ir. run_active (snd ir)) b')" for b' :: bucket
    by (induction b') (auto simp: bucket_active_def)
  then show ?thesis using evict_bucket_ok [OF assms, of m ret now] by (simp add: eviction_ok_def)
qed

lemma total_active_set:
  "wf_dict bs \<Longrightarrow> total_active (dict_set c b bs) + bucket_active (dict_get_default bs c []) = total_active bs + bucket_active b"
proof (induction bs)
  case (Cons cb bs)
  then have "wf_dict bs" by (simp add: wf_dict_def)
  with Cons.IH show ?case by (cases cb) (auto simp: total_active_def dict_get_default_def)
qed (simp add: total_active_def dict_get_default_def)

lemma total_active_upsert:
  assumes "registry_ok reg" and "run_ok r" and "upsert_locked rt e r reg d = (reg', d')"
  shows "total_active (reg_runs reg') \<le> Suc (total_active (reg_runs reg))"
    and "bucket_active (reg_bucket reg' (run_conversation_id r)) \<le> Suc (bucket_active (reg_bucket reg (run_conversation_id r)))"
proof -
  let ?c = "run_conversation_id r"
  define b where "b = dict_set (run_id r) r (reg_bucket reg ?c)"
  define b' where "b' = evict_bucket (reg_max_runs reg) (reg_retention reg) (env_evict e) b"
  have wf: "wf_dict (reg_runs reg)" using assms(1) by (simp add: registry_ok_def runs_ok_def)
  have ok: "bucket_ok ?c b" using assms(1,2) by (auto simp: b_def registry_ok_def intro!: bucket_ok_set reg_bucket_ok)
  have act: "bucket_active b' \<le> Suc (bucket_active (reg_bucket reg ?c))"
    using bucket_active_evict [OF ok] bucket_active_set [of "run_id r" r "reg_bucket reg ?c"] by (simp add: b'_def b_def)
  have runs: "reg_runs reg' = dict_set ?c b' (dict_set ?c b (reg_runs reg))"
    using assms(3) by (auto simp: upsert_locked_def evict_if_needed_def Let_def dict_get_set b_def b'_def)
  then have "total_active (reg_runs reg') + bucket_active b = total_active (dict_set ?c b (reg_runs reg)) + bucket_active b'"
    using total_active_set [of "dict_set ?c b (reg_runs reg)" ?c b'] wf by (simp add: dict_get_default_def dict_get_set)
  moreover have "total_active (dict_set ?c b (reg_runs reg)) + bucket_active (reg_bucket reg ?c) = total_active (reg_runs reg) + bucket_active b"
    using total_active_set [OF wf, of ?c b] by (simp add: reg_bucket_def)
  ultimately show "total_active (reg_runs reg') \<le> Suc (total_active (reg_runs reg))" using act by linarith
  show "bucket_active (reg_bucket reg' ?c) \<le> Suc (bucket_active (reg_bucket reg ?c))"
    using act upsert_bucket [OF assms(3), of ?c] by (simp add: b_def b'_def)
qed

text \<open>Reading an unchanged file again changes nothing.\<close>

lemma sync_again:
  assumes "runtime_ok rt" and "disk_ok rt d" and "reg_persistent reg \<longrightarrow> reg_sync reg"
  shows "sync_from_disk_locked rt e (sync_from_disk rt e' reg d) d = sync_from_disk rt e' reg d"
    and "sync_from_disk rt e (sync_from_disk rt e' reg d) d = sync_from_disk rt e' reg d"
proof -
  have "load_from_json_file rt n (load_from_json_file rt m reg d) d = load_from_json_file rt m reg d" for n m
  proof (cases "reg_persistent reg")
    case True
    consider "d = NoFile" | "d = BadFile" | bs where "runs_ok bs" "d = file_of rt bs" using assms(2) by (auto simp: disk_ok_def)
    then show ?thesis
      by cases (use True in \<open>auto simp: load_from_json_file_def [of rt _ _ NoFile] load_from_json_file_def [of rt _ _ BadFile] load_file_of [OF assms(1)]\<close>)
  qed (simp add: load_from_json_file_def)
  then show "sync_from_disk_locked rt e (sync_from_disk rt e' reg d) d = sync_from_disk rt e' reg d"
    and "sync_from_disk rt e (sync_from_disk rt e' reg d) d = sync_from_disk rt e' reg d"
    using assms(3) by (auto simp: sync_from_disk_def sync_from_disk_locked_def load_from_json_file_def split: disk.splits)
qed

text \<open>
  C17: a run created right after the validator accepted it keeps the policy: the active runs of all
  conversations are then at most \<open>max_active_runs\<close>, and those of its conversation at most
  \<open>max_children_per_requester\<close>; and its depth was below \<open>max_depth\<close> and its name on the allow-list.
\<close>

theorem validated_spawn_within_limits:
  assumes "runtime_ok rt" and "registry_ok reg" and "disk_ok rt d" and "reg_persistent reg \<longrightarrow> reg_sync reg"
    and "validate_spawn rt e1 e2 pol n depth c req reg d = (SpawnOk, reg1)"
    and "create_run rt e c n t m i q p l reg1 d = (Inr r, reg', d')"
  shows "int (total_active (reg_runs reg')) \<le> pol_max_active_runs pol \<and>
    int (bucket_active (reg_bucket reg' c)) \<le> pol_max_children pol \<and> depth < pol_max_depth pol \<and>
    (case pol_allowed pol of None \<Rightarrow> True | Some names \<Rightarrow> n \<in> set names)"
proof -
  let ?reg = "sync_from_disk rt e1 reg d"
  have counts: "count_active_runs rt e1 c reg d = (bucket_active (reg_bucket ?reg c), ?reg)"
    "count_all_active_runs rt e2 ?reg d = (total_active (reg_runs ?reg), ?reg)"
    by (simp_all only: count_active_runs_def count_all_active_runs_def Let_def bucket_active_def [abs_def] total_active_def
        sync_again(2) [OF assms(1,3,4)])
  have val: "int (bucket_active (reg_bucket ?reg c)) < pol_max_children pol" "int (total_active (reg_runs ?reg)) < pol_max_active_runs pol"
    "depth < pol_max_depth pol" "case pol_allowed pol of None \<Rightarrow> True | Some names \<Rightarrow> n \<in> set names" "reg1 = ?reg"
    using assms(5) counts by (auto simp: validate_spawn_def split: if_splits option.splits)
  have up: "run_ok r" "run_conversation_id r = c" "upsert_locked rt e r ?reg d = (reg', d')"
    using create_run_cases [OF assms(6)] val(5) sync_again(1) [OF assms(1,3,4)] by auto
  have "registry_ok ?reg" by (rule sync_ok [OF assms(1,3,2)])
  from total_active_upsert [OF this up(1,3)] show ?thesis using val up(2) by auto
qed

definition sample_policy :: spawn_policy where
  "sample_policy = \<lparr>pol_max_depth = 2, pol_max_active_runs = 4, pol_max_children = 3, pol_allowed = Some [''coder'']\<rparr>"

theorem validated_spawn_within_limits_witness:
  "\<exists>reg1 r reg' d'. validate_spawn sample_runtime sample_env sample_env sample_policy ''coder'' 1 ''conv2'' None sample_tree NoFile = (SpawnOk, reg1) \<and>
     create_run sample_runtime sample_env ''conv2'' ''coder'' ''task'' None (Some ''z'') None None None reg1 NoFile = (Inr r, reg', d') \<and>
     int (total_active (reg_runs reg')) \<le> 4"
proof -
  obtain v reg1 where v: "validate_spawn sample_runtime sample_env sample_env sample_policy ''coder'' 1 ''conv2'' None sample_tree NoFile = (v, reg1)"
    by fastforce
  obtain x reg' d' where c: "create_run sample_runtime sample_env ''conv2'' ''coder'' ''task'' None (Some ''z'') None None None reg1 NoFile = (x, reg', d')"
    by (metis prod.collapse)
  have "fst (validate_spawn sample_runtime sample_env sample_env sample_policy ''coder'' 1 ''conv2'' None sample_tree NoFile) = SpawnOk"
    "case fst (create_run sample_runtime sample_env ''conv2'' ''coder'' ''task'' None (Some ''z'') None None None
       (snd (validate_spawn sample_runtime sample_env sample_env sample_policy ''coder'' 1 ''conv2'' None sample_tree NoFile)) NoFile) of Inl _ \<Rightarrow> False | Inr _ \<Rightarrow> True"
    by code_simp+
  then obtain r where vc: "v = SpawnOk" "x = Inr r" using v c by (auto split: sum.splits)
  have "reg_persistent sample_tree \<longrightarrow> reg_sync sample_tree" "disk_ok sample_runtime NoFile" by (simp_all add: sample_tree_def disk_ok_def)
  then show ?thesis
    using validated_spawn_within_limits [OF sample_runtime_ok sample_tree_ok _ _ v [unfolded vc(1)] c [unfolded vc(2)]] v c vc
    by (auto simp: sample_policy_def)
qed

text \<open>
  The children limit counts the runs of the whole conversation and ignores the requester: with
  the limit reached by the runs of one requester, another requester without a single run is rejected.
\<close>

theorem children_limit_ignores_requester:
  "fst (count_active_runs_for_requester sample_runtime sample_env ''conv'' ''other'' sample_tree NoFile) = 0 \<and>
   fst (validate_spawn sample_runtime sample_env sample_env sample_policy ''coder'' 1 ''conv'' (Some ''other'') sample_tree NoFile) = ChildrenExceeded 3 3"
  by code_simp

end
