(* ===== verification/CircuitGate.thy ===== *)
theory CircuitGate
  imports Prelude
begin

text \<open>
  The contract shared by the two circuit breakers of the program (the one of the agent pool and the
  one of the LLM providers): a gate that admits or rejects calls, is closed, open or half open, and
  rejects every call for a recovery time after it opened. The facts proved here once hold for both.
\<close>

datatype circuit_state = Closed | HalfOpen | Open

text \<open>A series of admission attempts at the given times: the answers and the last state.\<close>

fun attempts :: "('t \<Rightarrow> 's \<Rightarrow> bool \<times> 's) \<Rightarrow> 't list \<Rightarrow> 's \<Rightarrow> bool list \<times> 's" where
  "attempts admit [] s = ([], s)"
| "attempts admit (t # ts) s =
     (let (ok, s1) = admit t s; (oks, s2) = attempts admit ts s1 in (ok # oks, s2))"

locale breaker_gate =
  fixes cstate :: "'s \<Rightarrow> circuit_state"
    and since :: "'s \<Rightarrow> 't::linordered_idom option"
    and timeout :: 't
    and admit :: "'t \<Rightarrow> 's \<Rightarrow> bool \<times> 's"
    and failure :: "'t \<Rightarrow> 's \<Rightarrow> 's"
  assumes admit_open: "cstate s = Open \<Longrightarrow> since s = Some t0 \<Longrightarrow> now - t0 < timeout \<Longrightarrow>
      \<not> fst (admit now s) \<and> cstate (snd (admit now s)) = Open \<and> since (snd (admit now s)) = Some t0"
    and admit_closed: "cstate s = Closed \<Longrightarrow> fst (admit now s) \<and> cstate (snd (admit now s)) = Closed"
    and admitted: "fst (admit now s) \<Longrightarrow> cstate (snd (admit now s)) \<noteq> Open"
    and probe_failure: "cstate s = HalfOpen \<Longrightarrow> cstate (failure now s) = Open \<and> since (failure now s) = Some now"
begin

lemma open_rejects:
  "cstate s = Open \<Longrightarrow> since s = Some t0 \<Longrightarrow> \<forall>t \<in> set ts. t - t0 < timeout \<Longrightarrow>
   True \<notin> set (fst (attempts admit ts s)) \<and> cstate (snd (attempts admit ts s)) = Open"
proof (induction ts arbitrary: s)
  case (Cons t ts)
  obtain ok s1 where a: "admit t s = (ok, s1)" by fastforce
  then have "\<not> ok" "cstate s1 = Open" "since s1 = Some t0" using admit_open [of s t0 t] Cons.prems by auto
  with Cons.IH [of s1] Cons.prems a show ?case by (auto split: prod.splits)
qed simp

lemma probe_failure_rejects:
  "cstate s = HalfOpen \<Longrightarrow> \<forall>t \<in> set ts. t - now < timeout \<Longrightarrow>
   True \<notin> set (fst (attempts admit ts (failure now s)))"
  using open_rejects [of "failure now s" now ts] probe_failure [of s now] by blast

lemma closed_admits: "cstate s = Closed \<Longrightarrow> False \<notin> set (fst (attempts admit ts s))"
proof (induction ts arbitrary: s)
  case (Cons t ts)
  obtain ok s1 where a: "admit t s = (ok, s1)" by fastforce
  then have "ok" "cstate s1 = Closed" using admit_closed [of s t] Cons.prems by auto
  with Cons.IH [of s1] a show ?case by (auto split: prod.splits)
qed simp

end

end
