(* ===== verification/PoolBreaker.thy ===== *)
theory PoolBreaker
  imports CircuitGate
begin

text \<open>
  The circuit breaker of the agent pool,
  \<open>src/infrastructure/agent/pool/circuit_breaker/breaker.py\<close>. A protected call is two steps, since
  the lock is free while the function runs: its admission and its end, so that a sequence of steps is
  an interleaving of concurrent calls. A call ends well, with an excluded exception, with another
  exception, or with one that is no \<open>Exception\<close> (a cancelled task), which no handler of \<open>call\<close>
  catches. One clock reading stands for those of one step; times are in seconds. The state-change
  callback is outside code and its errors are swallowed; the recorded changes show when it runs.
\<close>

section \<open>State\<close>

record pb_config =
  pc_failure_threshold :: int
  pc_recovery :: real
  pc_half_open_requests :: int
  pc_success_threshold :: int
  pc_window :: real

record pool_breaker =
  pb_state :: circuit_state
  pb_failure_count :: int
  pb_success_count :: int
  pb_half_open_calls :: int
  pb_last_failure_time :: "real option"
  pb_last_state_change_time :: real
  pb_opened_at :: "real option"
  pb_total_calls :: int
  pb_successful_calls :: int
  pb_failed_calls :: int
  pb_rejected_calls :: int
  pb_state_changes :: "(circuit_state \<times> circuit_state \<times> real) list"
  pb_failure_timestamps :: "real list"

definition default_pb_config :: pb_config where
  "default_pb_config = \<lparr>pc_failure_threshold = 5, pc_recovery = 60, pc_half_open_requests = 3,
     pc_success_threshold = 2, pc_window = 60\<rparr>"

definition pb_init :: "real \<Rightarrow> pool_breaker" where
  "pb_init now =
     \<lparr>pb_state = Closed, pb_failure_count = 0, pb_success_count = 0, pb_half_open_calls = 0,
      pb_last_failure_time = None, pb_last_state_change_time = now, pb_opened_at = None,
      pb_total_calls = 0, pb_successful_calls = 0, pb_failed_calls = 0, pb_rejected_calls = 0,
      pb_state_changes = [], pb_failure_timestamps = []\<rparr>"

section \<open>Operations\<close>

definition pb_transition_to :: "circuit_state \<Rightarrow> real \<Rightarrow> pool_breaker \<Rightarrow> pool_breaker" where
  "pb_transition_to new now br =
     (let br1 = br\<lparr>pb_state := new, pb_last_state_change_time := now\<rparr>;
          br2 = (case new of
                   Closed \<Rightarrow> br1\<lparr>pb_failure_count := 0, pb_success_count := 0, pb_half_open_calls := 0, pb_opened_at := None\<rparr>
                 | Open \<Rightarrow> br1\<lparr>pb_opened_at := Some now, pb_success_count := 0\<rparr>
                 | HalfOpen \<Rightarrow> br1\<lparr>pb_half_open_calls := 0, pb_success_count := 0\<rparr>);
          changes = pb_state_changes br2 @ [(pb_state br, new, now)]
      in br2\<lparr>pb_state_changes := (if length changes > 100 then py_last_n 100 changes else changes)\<rparr>)"

definition pb_should_try_reset :: "pb_config \<Rightarrow> real \<Rightarrow> pool_breaker \<Rightarrow> bool" where
  "pb_should_try_reset cfg now br =
     (case pb_opened_at br of None \<Rightarrow> True | Some t \<Rightarrow> now - t \<ge> pc_recovery cfg)"

definition pb_count_recent_failures :: "pb_config \<Rightarrow> real \<Rightarrow> pool_breaker \<Rightarrow> nat" where
  "pb_count_recent_failures cfg now br = length (filter (\<lambda>ts. ts > now - pc_window cfg) (pb_failure_timestamps br))"

definition pb_cleanup_old_failures :: "pb_config \<Rightarrow> real \<Rightarrow> pool_breaker \<Rightarrow> pool_breaker" where
  "pb_cleanup_old_failures cfg now br =
     br\<lparr>pb_failure_timestamps := filter (\<lambda>ts. ts > now - pc_window cfg) (pb_failure_timestamps br)\<rparr>"

definition pb_on_success :: "pb_config \<Rightarrow> real \<Rightarrow> pool_breaker \<Rightarrow> pool_breaker" where
  "pb_on_success cfg now br =
     (let br1 = br\<lparr>pb_successful_calls := pb_successful_calls br + 1, pb_success_count := pb_success_count br + 1\<rparr>
      in case pb_state br1 of
           HalfOpen \<Rightarrow> if pb_success_count br1 \<ge> pc_success_threshold cfg then pb_transition_to Closed now br1 else br1
         | Closed \<Rightarrow> br1\<lparr>pb_failure_count := 0\<rparr>
         | Open \<Rightarrow> br1)"

definition pb_on_failure :: "pb_config \<Rightarrow> real \<Rightarrow> pool_breaker \<Rightarrow> pool_breaker" where
  "pb_on_failure cfg now br =
     (let br1 = br\<lparr>pb_failed_calls := pb_failed_calls br + 1, pb_failure_count := pb_failure_count br + 1,
                   pb_last_failure_time := Some now, pb_failure_timestamps := pb_failure_timestamps br @ [now]\<rparr>;
          br2 = pb_cleanup_old_failures cfg now br1
      in case pb_state br2 of
           HalfOpen \<Rightarrow> pb_transition_to Open now br2
         | Closed \<Rightarrow> if int (pb_count_recent_failures cfg now br2) \<ge> pc_failure_threshold cfg
                     then pb_transition_to Open now br2 else br2
         | Open \<Rightarrow> br2)"

text \<open>The part of \<open>call\<close> before the function runs; the answer \<open>False\<close> is a \<open>CircuitOpenError\<close>.\<close>

definition pb_admit :: "pb_config \<Rightarrow> real \<Rightarrow> pool_breaker \<Rightarrow> bool \<times> pool_breaker" where
  "pb_admit cfg now br =
     (if pb_state br = Open \<and> \<not> pb_should_try_reset cfg now br
      then (False, br\<lparr>pb_rejected_calls := pb_rejected_calls br + 1\<rparr>)
      else let br1 = (if pb_state br = Open then pb_transition_to HalfOpen now br else br)
           in if pb_state br1 = HalfOpen
              then if pb_half_open_calls br1 \<ge> pc_half_open_requests cfg
                   then (False, br1\<lparr>pb_rejected_calls := pb_rejected_calls br1 + 1\<rparr>)
                   else (True, br1\<lparr>pb_half_open_calls := pb_half_open_calls br1 + 1, pb_total_calls := pb_total_calls br1 + 1\<rparr>)
              else (True, br1\<lparr>pb_total_calls := pb_total_calls br1 + 1\<rparr>))"

datatype call_outcome = Returned | ExcludedException | OtherException | CancelledTask

fun pb_finish :: "pb_config \<Rightarrow> call_outcome \<Rightarrow> real \<Rightarrow> pool_breaker \<Rightarrow> pool_breaker" where
  "pb_finish cfg Returned now br = pb_on_success cfg now br"
| "pb_finish cfg ExcludedException now br = pb_on_success cfg now br"
| "pb_finish cfg OtherException now br = pb_on_failure cfg now br"
| "pb_finish cfg CancelledTask now br = br"

text \<open>A whole call with nothing in between.\<close>

definition pb_call :: "pb_config \<Rightarrow> call_outcome \<Rightarrow> real \<Rightarrow> real \<Rightarrow> pool_breaker \<Rightarrow> bool \<times> pool_breaker" where
  "pb_call cfg out now later br =
     (let (ok, br1) = pb_admit cfg now br in (ok, if ok then pb_finish cfg out later br1 else br1))"

definition pb_reset :: "real \<Rightarrow> pool_breaker \<Rightarrow> pool_breaker" where
  "pb_reset now br = (pb_transition_to Closed now br)\<lparr>pb_failure_timestamps := []\<rparr>"

definition pb_trip :: "real \<Rightarrow> pool_breaker \<Rightarrow> pool_breaker" where
  "pb_trip now br = (if pb_state br \<noteq> Open then pb_transition_to Open now br else br)"

definition pb_time_until_reset :: "pb_config \<Rightarrow> real \<Rightarrow> pool_breaker \<Rightarrow> real option" where
  "pb_time_until_reset cfg now br =
     (if pb_state br \<noteq> Open then None
      else case pb_opened_at br of None \<Rightarrow> None | Some t \<Rightarrow> Some (max 0 (pc_recovery cfg - (now - t))))"

section \<open>The registry of breakers\<close>

record pb_registry =
  pr_default :: pb_config
  pr_breakers :: "(string, pb_config \<times> pool_breaker) dict"

definition pbr_get_or_create :: "real \<Rightarrow> string \<Rightarrow> pb_config option \<Rightarrow> pb_registry \<Rightarrow> (pb_config \<times> pool_breaker) \<times> pb_registry" where
  "pbr_get_or_create now name cfg reg =
     (case dict_get (pr_breakers reg) name of
        Some b \<Rightarrow> (b, reg)
      | None \<Rightarrow>
          let b = ((case cfg of None \<Rightarrow> pr_default reg | Some c \<Rightarrow> c), pb_init now)
          in (b, reg\<lparr>pr_breakers := dict_set name b (pr_breakers reg)\<rparr>))"

definition pbr_get :: "string \<Rightarrow> pb_registry \<Rightarrow> (pb_config \<times> pool_breaker) option" where
  "pbr_get name reg = dict_get (pr_breakers reg) name"

definition pbr_remove :: "string \<Rightarrow> pb_registry \<Rightarrow> bool \<times> pb_registry" where
  "pbr_remove name reg =
     (dict_get (pr_breakers reg) name \<noteq> None, reg\<lparr>pr_breakers := dict_pop name (pr_breakers reg)\<rparr>)"

definition pbr_reset_all :: "real \<Rightarrow> pb_registry \<Rightarrow> pb_registry" where
  "pbr_reset_all now reg =
     reg\<lparr>pr_breakers := map (\<lambda>nb. (fst nb, fst (snd nb), pb_reset now (snd (snd nb)))) (pr_breakers reg)\<rparr>"

section \<open>Steps and invariant\<close>

datatype pb_event = AdmitCall real | FinishCall call_outcome real | ResetBreaker real | TripBreaker real

fun pb_step :: "pb_config \<Rightarrow> pool_breaker \<Rightarrow> pb_event \<Rightarrow> pool_breaker" where
  "pb_step cfg br (AdmitCall now) = snd (pb_admit cfg now br)"
| "pb_step cfg br (FinishCall out now) = pb_finish cfg out now br"
| "pb_step cfg br (ResetBreaker now) = pb_reset now br"
| "pb_step cfg br (TripBreaker now) = pb_trip now br"

definition pb_ok :: "pb_config \<Rightarrow> pool_breaker \<Rightarrow> bool" where
  "pb_ok cfg br \<longleftrightarrow>
     (pb_state br = Closed \<longleftrightarrow> pb_opened_at br = None) \<and>
     (pb_state br = HalfOpen \<longrightarrow> pb_half_open_calls br \<le> max 0 (pc_half_open_requests cfg) \<and>
        pb_success_count br < max 1 (pc_success_threshold cfg)) \<and>
     0 \<le> pb_half_open_calls br \<and> 0 \<le> pb_success_count br \<and> length (pb_state_changes br) \<le> 100"

lemma pb_transition_fields [simp]:
  "pb_state (pb_transition_to new now br) = new"
  "pb_opened_at (pb_transition_to new now br) = (case new of Closed \<Rightarrow> None | Open \<Rightarrow> Some now | HalfOpen \<Rightarrow> pb_opened_at br)"
  "pb_half_open_calls (pb_transition_to new now br) = (if new = Open then pb_half_open_calls br else 0)"
  "pb_success_count (pb_transition_to new now br) = 0"
  "pb_failure_timestamps (pb_transition_to new now br) = pb_failure_timestamps br"
  by (simp_all add: pb_transition_to_def Let_def split: circuit_state.splits)

lemma length_py_last_n: "0 < n \<Longrightarrow> length (py_last_n n xs) = min (nat n) (length xs)"
  by (auto simp: py_last_n_def)

lemma pb_transition_changes: "length (pb_state_changes (pb_transition_to new now br)) \<le> 100"
  by (simp add: pb_transition_to_def Let_def length_py_last_n)

lemma pb_transition_ok:
  "pb_ok cfg br \<Longrightarrow> pb_state br \<noteq> Closed \<or> new \<noteq> HalfOpen \<Longrightarrow> pb_ok cfg (pb_transition_to new now br)"
  by (cases new) (auto simp: pb_ok_def pb_transition_changes)

lemma pb_admit_ok: "pb_ok cfg br \<Longrightarrow> pb_ok cfg (snd (pb_admit cfg now br))"
  using pb_transition_ok [of cfg br HalfOpen now]
  by (auto simp: pb_admit_def Let_def pb_ok_def)

lemma pb_on_success_ok: "pb_ok cfg br \<Longrightarrow> pb_ok cfg (pb_on_success cfg now br)"
  by (cases "pb_state br")
    (auto simp: pb_on_success_def Let_def pb_ok_def pb_transition_changes)

lemma pb_on_failure_ok: "pb_ok cfg br \<Longrightarrow> pb_ok cfg (pb_on_failure cfg now br)"
  by (cases "pb_state br")
    (auto simp: pb_on_failure_def pb_cleanup_old_failures_def Let_def pb_ok_def pb_transition_changes)

lemma pb_finish_ok: "pb_ok cfg br \<Longrightarrow> pb_ok cfg (pb_finish cfg out now br)"
  by (cases out) (auto simp: pb_on_success_ok pb_on_failure_ok)

lemma pb_step_ok: "pb_ok cfg br \<Longrightarrow> pb_ok cfg (pb_step cfg br ev)"
proof (cases ev)
  case (ResetBreaker now)
  assume "pb_ok cfg br"
  then have "pb_ok cfg (pb_transition_to Closed now br)" by (rule pb_transition_ok) simp
  then show ?thesis by (simp add: ResetBreaker pb_reset_def pb_ok_def)
qed (auto simp: pb_admit_ok pb_finish_ok pb_trip_def intro: pb_transition_ok)

interpretation pool_breaker: invariant_machine "pb_step cfg" "pb_ok cfg" for cfg
  by unfold_locales (rule pb_step_ok)

lemma pb_init_ok: "pb_ok cfg (pb_init now)"
  by (simp add: pb_ok_def pb_init_def)

interpretation pool_gate: breaker_gate pb_state pb_opened_at "pc_recovery cfg" "pb_admit cfg" "pb_on_failure cfg" for cfg
  by unfold_locales
    (auto simp: pb_admit_def pb_should_try_reset_def pb_on_failure_def pb_cleanup_old_failures_def Let_def split: if_splits)

section \<open>Properties\<close>


text \<open>
  An open breaker rejects every call until the recovery time has passed since it opened, and so
  does a half-open one after a failed test call; a closed one admits every call.
\<close>

theorem pool_breaker_gate:
  "(pb_state br = Open \<and> pb_opened_at br = Some t0 \<and> (\<forall>t \<in> set ts. t - t0 < pc_recovery cfg) \<longrightarrow>
      True \<notin> set (fst (attempts (pb_admit cfg) ts br)) \<and> pb_state (snd (attempts (pb_admit cfg) ts br)) = Open) \<and>
   (pb_state br = HalfOpen \<and> (\<forall>t \<in> set ts. t - now < pc_recovery cfg) \<longrightarrow>
      True \<notin> set (fst (attempts (pb_admit cfg) ts (pb_on_failure cfg now br)))) \<and>
   (pb_state br = Closed \<longrightarrow> False \<notin> set (fst (attempts (pb_admit cfg) ts br)))"
  using pool_gate.open_rejects [of br t0 ts cfg] pool_gate.probe_failure_rejects [of br ts now cfg]
    pool_gate.closed_admits [of br cfg ts]
  by blast

theorem pool_breaker_gate_witness:
  "pb_state (pb_trip 10 (pb_init 0)) = Open \<and>
   True \<notin> set (fst (attempts (pb_admit default_pb_config) [20, 69] (pb_trip 10 (pb_init 0)))) \<and>
   fst (pb_admit default_pb_config 70 (pb_trip 10 (pb_init 0)))"
proof -
  have "pb_state (pb_trip 10 (pb_init 0)) = Open" "pb_opened_at (pb_trip 10 (pb_init 0)) = Some 10"
    by (simp_all add: pb_trip_def pb_init_def)
  moreover have "fst (pb_admit default_pb_config 70 (pb_trip 10 (pb_init 0)))"
    by (simp add: pb_admit_def pb_trip_def pb_init_def pb_should_try_reset_def default_pb_config_def Let_def)
  ultimately show ?thesis
    using pool_breaker_gate [of "pb_trip 10 (pb_init 0)" 10 "[20, 69]" default_pb_config 0]
    by (simp add: default_pb_config_def)
qed

text \<open>
  A failure opens a closed breaker exactly when, this one included, at least \<open>failure_threshold\<close>
  failures happened within the last \<open>window_seconds\<close>; a failure always reopens a half-open one.
\<close>

theorem pool_breaker_trips:
  "pb_state (pb_on_failure cfg now br) = Open \<longleftrightarrow>
     pb_state br \<in> {Open, HalfOpen} \<or>
     int (length (filter (\<lambda>ts. ts > now - pc_window cfg) (pb_failure_timestamps br @ [now]))) \<ge> pc_failure_threshold cfg"
  by (cases "pb_state br")
    (simp_all add: pb_on_failure_def pb_cleanup_old_failures_def pb_count_recent_failures_def Let_def)

text \<open>One call after the other, all of them returning.\<close>

fun good_calls :: "pb_config \<Rightarrow> (real \<times> real) list \<Rightarrow> pool_breaker \<Rightarrow> bool list \<times> pool_breaker" where
  "good_calls cfg [] br = ([], br)"
| "good_calls cfg ((t, t') # ts) br =
     (let (ok, br1) = pb_call cfg Returned t t' br; (oks, br2) = good_calls cfg ts br1 in (ok # oks, br2))"

lemma good_calls_half_open:
  assumes "pb_state br = HalfOpen" and "pb_half_open_calls br = j" and "pb_success_count br = j" and "0 \<le> j"
    and "j + int (length ts) = pc_success_threshold cfg" and "pc_success_threshold cfg \<le> pc_half_open_requests cfg" and "ts \<noteq> []"
  shows "False \<notin> set (fst (good_calls cfg ts br)) \<and> pb_state (snd (good_calls cfg ts br)) = Closed"
  using assms
proof (induction ts arbitrary: br j)
  case (Cons tt ts)
  obtain t t' where tt: "tt = (t, t')" by fastforce
  define br1 where "br1 = snd (pb_call cfg Returned t t' br)"
  have call: "pb_call cfg Returned t t' br = (True, br1)"
    using Cons.prems by (auto simp: br1_def pb_call_def pb_admit_def Let_def)
  show ?case
  proof (cases ts)
    case Nil
    then have "pb_state br1 = Closed"
      using Cons.prems by (simp add: br1_def pb_call_def pb_admit_def Let_def pb_on_success_def)
    then show ?thesis using Nil tt call by simp
  next
    case (Cons u us)
    have "pb_state br1 = HalfOpen" "pb_half_open_calls br1 = j + 1" "pb_success_count br1 = j + 1"
      using Cons.prems Cons by (simp_all add: br1_def pb_call_def pb_admit_def Let_def pb_on_success_def)
    then show ?thesis
      using Cons.IH [of br1 "j + 1"] Cons.prems Cons tt call by (auto split: prod.splits)
  qed
qed simp

text \<open>
  Recovery: with a success threshold of at least one and no more than the half-open requests,
  that many calls one after the other, the first of them after the recovery time, are all admitted and
  close an open breaker.
\<close>

theorem pool_breaker_recovers:
  assumes "pb_state br = Open" and "pb_opened_at br = Some t0" and "ts \<noteq> []" and "fst (hd ts) - t0 \<ge> pc_recovery cfg"
    and "int (length ts) = pc_success_threshold cfg" and "pc_success_threshold cfg \<le> pc_half_open_requests cfg"
  shows "False \<notin> set (fst (good_calls cfg ts br)) \<and> pb_state (snd (good_calls cfg ts br)) = Closed"
proof -
  obtain t t' rest where ts: "ts = (t, t') # rest" using assms(3) by (cases ts) auto
  let ?br = "pb_transition_to HalfOpen t br"
  have "pb_admit cfg t br = pb_admit cfg t ?br"
    using assms(1,2,4) ts by (simp add: pb_admit_def pb_should_try_reset_def Let_def)
  then have "good_calls cfg ts br = good_calls cfg ts ?br" by (simp add: ts pb_call_def)
  then show ?thesis using good_calls_half_open [of ?br 0 ts cfg] assms by simp
qed

theorem pool_breaker_recovers_witness:
  "pb_state (snd (good_calls default_pb_config [(70, 71), (72, 73)] (pb_trip 10 (pb_init 0)))) = Closed"
  using pool_breaker_recovers [of "pb_trip 10 (pb_init 0)" 10 "[(70, 71), (72, 73)]" default_pb_config]
  by (simp add: pb_trip_def pb_init_def default_pb_config_def)

lemma half_open_full_rejects:
  "pb_state br = HalfOpen \<Longrightarrow> pc_half_open_requests cfg \<le> pb_half_open_calls br \<Longrightarrow>
   True \<notin> set (fst (attempts (pb_admit cfg) ts br)) \<and> pb_state (snd (attempts (pb_admit cfg) ts br)) = HalfOpen"
proof (induction ts arbitrary: br)
  case (Cons t ts)
  let ?br = "br\<lparr>pb_rejected_calls := pb_rejected_calls br + 1\<rparr>"
  have "pb_admit cfg t br = (False, ?br)" using Cons.prems by (simp add: pb_admit_def)
  then show ?case using Cons.IH [of ?br] Cons.prems by (auto split: prod.splits)
qed simp

text \<open>
  A half-open breaker whose test slots are used up rejects every later call at any time, however
  late, and stays half open; test calls that end by cancellation use up the slots without ever ending
  the state, so three cancelled calls wedge a breaker with the default configuration, and so do
  successful ones when \<open>half_open_requests\<close> is below \<open>success_threshold\<close>.
\<close>

theorem half_open_breaker_wedges:
  "(pb_state br = HalfOpen \<and> pc_half_open_requests cfg \<le> pb_half_open_calls br \<longrightarrow>
      True \<notin> set (fst (attempts (pb_admit cfg) ts br)) \<and> pb_state (snd (attempts (pb_admit cfg) ts br)) = HalfOpen) \<and>
   True \<notin> set (fst (attempts (pb_admit default_pb_config) ts
      (foldl (pb_step default_pb_config) (pb_trip 10 (pb_init 0))
         [AdmitCall 80, FinishCall CancelledTask 81, AdmitCall 82, FinishCall CancelledTask 83, AdmitCall 84, FinishCall CancelledTask 85]))) \<and>
   True \<notin> set (fst (attempts (pb_admit (default_pb_config\<lparr>pc_half_open_requests := 1\<rparr>)) ts
      (snd (pb_call (default_pb_config\<lparr>pc_half_open_requests := 1\<rparr>) Returned 80 81 (pb_trip 10 (pb_init 0))))))"
proof -
  define br1 where "br1 = foldl (pb_step default_pb_config) (pb_trip 10 (pb_init 0))
         [AdmitCall 80, FinishCall CancelledTask 81, AdmitCall 82, FinishCall CancelledTask 83, AdmitCall 84, FinishCall CancelledTask 85]"
  define br2 where "br2 = snd (pb_call (default_pb_config\<lparr>pc_half_open_requests := 1\<rparr>) Returned 80 81 (pb_trip 10 (pb_init 0)))"
  have "pb_state br1 = HalfOpen" "pb_half_open_calls br1 = 3" unfolding br1_def by code_simp+
  moreover have "pb_state br2 = HalfOpen" "pb_half_open_calls br2 = 1" unfolding br2_def by code_simp+
  ultimately show ?thesis
    unfolding br1_def [symmetric] br2_def [symmetric]
    using half_open_full_rejects [of br cfg ts] half_open_full_rejects [of br1 default_pb_config ts]
      half_open_full_rejects [of br2 "default_pb_config\<lparr>pc_half_open_requests := 1\<rparr>" ts]
    by (simp add: default_pb_config_def)
qed

theorem half_open_breaker_wedges_witness:
  "fst (pb_admit default_pb_config 100000
     (foldl (pb_step default_pb_config) (pb_trip 10 (pb_init 0))
        [AdmitCall 80, FinishCall CancelledTask 81, AdmitCall 82, FinishCall CancelledTask 83, AdmitCall 84, FinishCall CancelledTask 85])) = False"
  using half_open_breaker_wedges [of "pb_init 0" default_pb_config "[100000]"] by (auto split: prod.splits)

text \<open>
  The threshold counts failures in the window, not consecutive ones: four failures, a success and
  a fifth failure open a breaker with the default configuration; and the automatic way back to closed
  keeps the old failure times, so with a window longer than the recovery time a single failure right
  after the recovery opens it again, while a manual reset forgets them.
\<close>

theorem pool_breaker_failures_not_consecutive:
  "let run = foldl (pb_step default_pb_config) (pb_init 0);
       slow = default_pb_config\<lparr>pc_window := 600\<rparr>;
       fails = map (\<lambda>t. FinishCall OtherException t);
       recovered = foldl (pb_step slow) (pb_init 0)
         (fails [1, 2, 3, 4, 5] @ [AdmitCall 70, FinishCall Returned 71, AdmitCall 72, FinishCall Returned 73])
   in pb_state (run (fails [1, 2, 3, 4] @ [FinishCall Returned 5, FinishCall OtherException 6])) = Open \<and>
      pb_failure_count (run (fails [1, 2, 3, 4] @ [FinishCall Returned 5, FinishCall OtherException 6])) = 1 \<and>
      pb_state recovered = Closed \<and> pb_state (pb_on_failure slow 74 recovered) = Open \<and>
      pb_state (pb_on_failure slow 74 (pb_reset 73 recovered)) = Closed"
  by code_simp

end
