(* ===== verification/LlmBreaker.thy ===== *)
theory LlmBreaker
  imports CircuitGate SubAgentRun
begin

text \<open>
  The circuit breaker of an LLM provider, \<open>src/infrastructure/llm/resilience/circuit_breaker.py\<close>, and
  the stores that keep its state across processes,
  \<open>src/infrastructure/llm/resilience/redis_store.py\<close>. Times are microseconds; one clock reading
  stands for those of one method. The state-change callback is outside code and its errors are
  swallowed. Of Redis the model has the answers: an error or the hash under the key.
\<close>

section \<open>State\<close>

record lb_config =
  lc_failure_threshold :: int
  lc_success_threshold :: int
  lc_recovery_timeout :: int
  lc_half_open_max_requests :: int

record lb_stats =
  ls_total_requests :: int
  ls_successful_requests :: int
  ls_failed_requests :: int
  ls_rejected_requests :: int
  ls_state_changes :: int
  ls_last_failure_time :: "int option"
  ls_last_success_time :: "int option"
  ls_last_state_change :: "int option"

record llm_breaker =
  lb_state :: circuit_state
  lb_failure_count :: int
  lb_success_count :: int
  lb_half_open_requests :: int
  lb_last_failure_time :: "int option"
  lb_last_state_change :: int
  lb_stats :: lb_stats

definition default_lb_config :: lb_config where
  "default_lb_config = \<lparr>lc_failure_threshold = 5, lc_success_threshold = 2, lc_recovery_timeout = 60000000,
     lc_half_open_max_requests = 3\<rparr>"

definition lb_init :: "int \<Rightarrow> llm_breaker" where
  "lb_init now =
     \<lparr>lb_state = Closed, lb_failure_count = 0, lb_success_count = 0, lb_half_open_requests = 0,
      lb_last_failure_time = None, lb_last_state_change = now,
      lb_stats = \<lparr>ls_total_requests = 0, ls_successful_requests = 0, ls_failed_requests = 0, ls_rejected_requests = 0,
        ls_state_changes = 0, ls_last_failure_time = None, ls_last_success_time = None, ls_last_state_change = None\<rparr>\<rparr>"

section \<open>Operations\<close>

definition lb_transition_to :: "circuit_state \<Rightarrow> int \<Rightarrow> llm_breaker \<Rightarrow> llm_breaker" where
  "lb_transition_to new now br =
     (if lb_state br = new then br
      else let br1 = br\<lparr>lb_state := new, lb_last_state_change := now,
                        lb_stats := (lb_stats br)\<lparr>ls_state_changes := ls_state_changes (lb_stats br) + 1,
                                                  ls_last_state_change := Some now\<rparr>\<rparr>
           in case new of
                Closed \<Rightarrow> br1\<lparr>lb_failure_count := 0, lb_success_count := 0, lb_half_open_requests := 0\<rparr>
              | HalfOpen \<Rightarrow> br1\<lparr>lb_success_count := 0, lb_half_open_requests := 0\<rparr>
              | Open \<Rightarrow> br1\<lparr>lb_success_count := 0\<rparr>)"

definition lb_check_state_transition :: "lb_config \<Rightarrow> int \<Rightarrow> llm_breaker \<Rightarrow> llm_breaker" where
  "lb_check_state_transition cfg now br =
     (if lb_state br = Open
      then (case lb_last_failure_time br of
              None \<Rightarrow> br
            | Some t \<Rightarrow> if now - t \<ge> lc_recovery_timeout cfg then lb_transition_to HalfOpen now br else br)
      else br)"

definition lb_reject :: "llm_breaker \<Rightarrow> llm_breaker" where
  "lb_reject br = br\<lparr>lb_stats := (lb_stats br)\<lparr>ls_rejected_requests := ls_rejected_requests (lb_stats br) + 1\<rparr>\<rparr>"

definition lb_can_execute :: "lb_config \<Rightarrow> int \<Rightarrow> llm_breaker \<Rightarrow> bool \<times> llm_breaker" where
  "lb_can_execute cfg now br =
     (let br1 = lb_check_state_transition cfg now br
      in case lb_state br1 of
           Closed \<Rightarrow> (True, br1)
         | HalfOpen \<Rightarrow> if lb_half_open_requests br1 < lc_half_open_max_requests cfg then (True, br1) else (False, lb_reject br1)
         | Open \<Rightarrow> (False, lb_reject br1))"

definition lb_record_success :: "lb_config \<Rightarrow> int \<Rightarrow> llm_breaker \<Rightarrow> llm_breaker" where
  "lb_record_success cfg now br =
     (let st = lb_stats br;
          br1 = br\<lparr>lb_stats := st\<lparr>ls_total_requests := ls_total_requests st + 1,
                     ls_successful_requests := ls_successful_requests st + 1, ls_last_success_time := Some now\<rparr>\<rparr>
      in case lb_state br1 of
           HalfOpen \<Rightarrow>
             (let br2 = br1\<lparr>lb_success_count := lb_success_count br1 + 1\<rparr>
              in if lb_success_count br2 \<ge> lc_success_threshold cfg then lb_transition_to Closed now br2 else br2)
         | Closed \<Rightarrow> br1\<lparr>lb_failure_count := 0\<rparr>
         | Open \<Rightarrow> br1)"

definition lb_record_failure :: "lb_config \<Rightarrow> int \<Rightarrow> llm_breaker \<Rightarrow> llm_breaker" where
  "lb_record_failure cfg now br =
     (let st = lb_stats br;
          br1 = br\<lparr>lb_stats := st\<lparr>ls_total_requests := ls_total_requests st + 1,
                     ls_failed_requests := ls_failed_requests st + 1, ls_last_failure_time := Some now\<rparr>,
                   lb_last_failure_time := Some now\<rparr>
      in case lb_state br1 of
           HalfOpen \<Rightarrow> lb_transition_to Open now br1
         | Closed \<Rightarrow>
             (let br2 = br1\<lparr>lb_failure_count := lb_failure_count br1 + 1\<rparr>
              in if lb_failure_count br2 \<ge> lc_failure_threshold cfg then lb_transition_to Open now br2 else br2)
         | Open \<Rightarrow> br1)"

definition lb_reset :: "int \<Rightarrow> llm_breaker \<Rightarrow> llm_breaker" where
  "lb_reset now br = (lb_transition_to Closed now br)\<lparr>lb_failure_count := 0, lb_success_count := 0, lb_half_open_requests := 0\<rparr>"

section \<open>Persisted state\<close>

record cb_state =
  cs_state :: circuit_state
  cs_failure_count :: int
  cs_success_count :: int
  cs_half_open_requests :: int
  cs_last_failure_time :: "int option"
  cs_last_state_change :: int

definition lb_snapshot :: "llm_breaker \<Rightarrow> cb_state" where
  "lb_snapshot br = \<lparr>cs_state = lb_state br, cs_failure_count = lb_failure_count br, cs_success_count = lb_success_count br,
     cs_half_open_requests = lb_half_open_requests br, cs_last_failure_time = lb_last_failure_time br,
     cs_last_state_change = lb_last_state_change br\<rparr>"

definition lb_sync_from_store :: "cb_state option \<Rightarrow> llm_breaker \<Rightarrow> llm_breaker" where
  "lb_sync_from_store loaded br =
     (case loaded of
        None \<Rightarrow> br
      | Some s \<Rightarrow> br\<lparr>lb_state := cs_state s, lb_failure_count := cs_failure_count s, lb_success_count := cs_success_count s,
                     lb_half_open_requests := cs_half_open_requests s, lb_last_failure_time := cs_last_failure_time s,
                     lb_last_state_change := cs_last_state_change s\<rparr>)"

fun circuit_value :: "circuit_state \<Rightarrow> string" where
  "circuit_value Closed = ''closed''"
| "circuit_value Open = ''open''"
| "circuit_value HalfOpen = ''half_open''"

definition circuit_of_value :: "string \<Rightarrow> circuit_state option" where
  "circuit_of_value s = find (\<lambda>c. circuit_value c = s) [Closed, Open, HalfOpen]"

definition serialize_state :: "runtime \<Rightarrow> cb_state \<Rightarrow> (string, string) dict" where
  "serialize_state rt s =
     [(''state'', circuit_value (cs_state s)), (''failure_count'', int_text (cs_failure_count s)),
      (''success_count'', int_text (cs_success_count s)), (''half_open_requests'', int_text (cs_half_open_requests s)),
      (''last_failure_time'', case cs_last_failure_time s of None \<Rightarrow> [] | Some t \<Rightarrow> iso_format rt t),
      (''last_state_change'', iso_format rt (cs_last_state_change s))]"

text \<open>\<open>int()\<close> of a text of decimal digits with an optional sign.\<close>

definition digit_value :: "char \<Rightarrow> nat" where
  "digit_value c = of_char c - 48"

definition is_digit :: "char \<Rightarrow> bool" where
  "is_digit c \<longleftrightarrow> 48 \<le> (of_char c :: nat) \<and> (of_char c :: nat) \<le> 57"

definition parse_digits :: "string \<Rightarrow> nat option" where
  "parse_digits s = (if s \<noteq> [] \<and> list_all is_digit s then Some (foldl (\<lambda>n c. n * 10 + digit_value c) 0 s) else None)"

definition py_int :: "string \<Rightarrow> int option" where
  "py_int s =
     (let t = py_strip s
      in case t of
           [] \<Rightarrow> None
         | c # cs \<Rightarrow> if c = CHR ''-'' then map_option (\<lambda>n. - int n) (parse_digits cs)
                     else if c = CHR ''+'' then map_option int (parse_digits cs)
                     else map_option int (parse_digits t))"

text \<open>The result \<open>None\<close> is an exception of one of the conversions.\<close>

definition deserialize_state :: "runtime \<Rightarrow> int \<Rightarrow> (string, string) dict \<Rightarrow> cb_state option" where
  "deserialize_state rt now data =
     (let fraw = dict_get_default data ''last_failure_time'' [];
          sraw = dict_get_default data ''last_state_change'' [];
          ftime = (if fraw = [] then Some None else map_option Some (iso_parse rt fraw));
          stime = (if sraw = [] then Some now else iso_parse rt sraw)
      in case (ftime, stime, circuit_of_value (dict_get_default data ''state'' ''closed''),
               py_int (dict_get_default data ''failure_count'' ''0''),
               py_int (dict_get_default data ''success_count'' ''0''),
               py_int (dict_get_default data ''half_open_requests'' ''0'')) of
           (Some ft, Some st, Some c, Some f, Some s, Some h) \<Rightarrow>
             Some \<lparr>cs_state = c, cs_failure_count = f, cs_success_count = s, cs_half_open_requests = h,
                   cs_last_failure_time = ft, cs_last_state_change = st\<rparr>
         | _ \<Rightarrow> None)"

datatype redis_answer = RedisError | RedisHash "(string, string) dict"

type_synonym memory_store = "(string, cb_state) dict"

definition store_load :: "runtime \<Rightarrow> int \<Rightarrow> redis_answer option \<Rightarrow> string \<Rightarrow> memory_store \<Rightarrow> cb_state option" where
  "store_load rt now redis breaker_id fallback =
     (case redis of
        None \<Rightarrow> dict_get fallback breaker_id
      | Some RedisError \<Rightarrow> dict_get fallback breaker_id
      | Some (RedisHash data) \<Rightarrow>
          if data = [] then dict_get fallback breaker_id
          else (case deserialize_state rt now data of None \<Rightarrow> dict_get fallback breaker_id | Some s \<Rightarrow> Some s))"

text \<open>Saving returns the fallback and what is written to Redis, if there is one.\<close>

definition store_save :: "runtime \<Rightarrow> bool \<Rightarrow> string \<Rightarrow> cb_state \<Rightarrow> memory_store \<Rightarrow> memory_store \<times> (string \<times> (string, string) dict) option" where
  "store_save rt has_redis breaker_id s fallback =
     (dict_set breaker_id s fallback, if has_redis then Some (''cb:'' @ breaker_id, serialize_state rt s) else None)"

definition store_delete :: "string \<Rightarrow> memory_store \<Rightarrow> memory_store" where
  "store_delete breaker_id fallback = dict_pop breaker_id fallback"

section \<open>The registry of breakers\<close>

record lb_registry =
  lr_default :: lb_config
  lr_breakers :: "(string, lb_config \<times> llm_breaker) dict"

definition lbr_get_breaker :: "int \<Rightarrow> string \<Rightarrow> lb_config option \<Rightarrow> lb_registry \<Rightarrow> (lb_config \<times> llm_breaker) \<times> lb_registry" where
  "lbr_get_breaker now provider cfg reg =
     (case dict_get (lr_breakers reg) provider of
        Some b \<Rightarrow> (b, reg)
      | None \<Rightarrow>
          let b = ((case cfg of None \<Rightarrow> lr_default reg | Some c \<Rightarrow> c), lb_init now)
          in (b, reg\<lparr>lr_breakers := dict_set provider b (lr_breakers reg)\<rparr>))"

definition lbr_reset_all :: "int \<Rightarrow> lb_registry \<Rightarrow> lb_registry" where
  "lbr_reset_all now reg =
     reg\<lparr>lr_breakers := map (\<lambda>nb. (fst nb, fst (snd nb), lb_reset now (snd (snd nb)))) (lr_breakers reg)\<rparr>"

section \<open>Gate and steps\<close>

lemma lb_transition_fields [simp]:
  "lb_state (lb_transition_to new now br) = new"
  "lb_last_failure_time (lb_transition_to new now br) = lb_last_failure_time br"
  by (auto simp: lb_transition_to_def Let_def split: circuit_state.splits)

interpretation llm_gate: breaker_gate lb_state lb_last_failure_time "lc_recovery_timeout cfg" "lb_can_execute cfg" "lb_record_failure cfg" for cfg
  by unfold_locales
    (auto simp: lb_can_execute_def lb_check_state_transition_def lb_reject_def lb_record_failure_def Let_def
      split: circuit_state.splits if_splits option.splits)

datatype lb_event = CanExecute int | RecordSuccess int | RecordFailure int | ResetLlm int

fun lb_step :: "lb_config \<Rightarrow> llm_breaker \<Rightarrow> lb_event \<Rightarrow> llm_breaker" where
  "lb_step cfg br (CanExecute now) = snd (lb_can_execute cfg now br)"
| "lb_step cfg br (RecordSuccess now) = lb_record_success cfg now br"
| "lb_step cfg br (RecordFailure now) = lb_record_failure cfg now br"
| "lb_step cfg br (ResetLlm now) = lb_reset now br"

text \<open>No operation ever counts a half-open request.\<close>

definition lb_no_probe_count :: "llm_breaker \<Rightarrow> bool" where
  "lb_no_probe_count br \<longleftrightarrow> lb_half_open_requests br = 0"

lemma lb_transition_probe: "lb_no_probe_count br \<Longrightarrow> lb_no_probe_count (lb_transition_to new now br)"
  by (auto simp: lb_no_probe_count_def lb_transition_to_def Let_def split: circuit_state.splits)

lemma lb_check_probe: "lb_no_probe_count br \<Longrightarrow> lb_no_probe_count (lb_check_state_transition cfg now br)"
  by (auto simp: lb_check_state_transition_def lb_transition_probe split: option.splits)

lemma lb_step_probe: "lb_no_probe_count br \<Longrightarrow> lb_no_probe_count (lb_step cfg br ev)"
proof (cases ev)
  case (CanExecute now)
  assume "lb_no_probe_count br"
  then show ?thesis
    using lb_check_probe [of br cfg now]
    by (auto simp: CanExecute lb_can_execute_def lb_reject_def lb_no_probe_count_def Let_def split: circuit_state.splits)
next
  case (RecordSuccess now)
  assume "lb_no_probe_count br"
  then show ?thesis
    using lb_transition_probe
    by (auto simp: RecordSuccess lb_record_success_def lb_no_probe_count_def Let_def split: circuit_state.splits)
next
  case (RecordFailure now)
  assume "lb_no_probe_count br"
  then show ?thesis
    using lb_transition_probe
    by (auto simp: RecordFailure lb_record_failure_def lb_no_probe_count_def Let_def split: circuit_state.splits)
next
  case (ResetLlm now)
  then show ?thesis by (simp add: lb_reset_def lb_no_probe_count_def)
qed

interpretation llm_breaker: invariant_machine "lb_step cfg" lb_no_probe_count for cfg
  by unfold_locales (rule lb_step_probe)

section \<open>Opening\<close>

text \<open>A series of call results, \<open>True\<close> a success.\<close>

definition lb_results :: "lb_config \<Rightarrow> (bool \<times> int) list \<Rightarrow> llm_breaker \<Rightarrow> llm_breaker" where
  "lb_results cfg os br = foldl (\<lambda>b (ok, t). if ok then lb_record_success cfg t b else lb_record_failure cfg t b) br os"

definition trailing_failures :: "(bool \<times> int) list \<Rightarrow> nat" where
  "trailing_failures os = length (takeWhile (\<lambda>ot. \<not> fst ot) (rev os))"

definition failure_block :: "nat \<Rightarrow> (bool \<times> int) list \<Rightarrow> bool" where
  "failure_block n os \<longleftrightarrow> (\<exists>xs ys zs. os = xs @ ys @ zs \<and> length ys = n \<and> (\<forall>ot \<in> set ys. \<not> fst ot))"

lemma failure_block_snoc:
  assumes "0 < n"
  shows "failure_block n (os @ [x]) \<longleftrightarrow> failure_block n os \<or> n \<le> trailing_failures (os @ [x])"
proof
  assume "failure_block n (os @ [x])"
  then obtain xs ys zs where d: "os @ [x] = xs @ ys @ zs" "length ys = n" "\<forall>ot \<in> set ys. \<not> fst ot"
    by (auto simp: failure_block_def)
  show "failure_block n os \<or> n \<le> trailing_failures (os @ [x])"
  proof (cases zs rule: rev_cases)
    case Nil
    then have "rev (os @ [x]) = rev ys @ rev xs" using d by simp
    moreover have "takeWhile (\<lambda>ot. \<not> fst ot) (rev ys @ rev xs) = rev ys @ takeWhile (\<lambda>ot. \<not> fst ot) (rev xs)"
      using d(3) by (intro takeWhile_append2) auto
    ultimately have "takeWhile (\<lambda>ot. \<not> fst ot) (rev (os @ [x])) = rev ys @ takeWhile (\<lambda>ot. \<not> fst ot) (rev xs)"
      by simp
    then show ?thesis using d(2) by (simp add: trailing_failures_def)
  next
    case (snoc zs' z)
    then have "os = xs @ ys @ zs'" using d(1) by simp
    then show ?thesis using d by (auto simp: failure_block_def)
  qed
next
  assume "failure_block n os \<or> n \<le> trailing_failures (os @ [x])"
  then show "failure_block n (os @ [x])"
  proof
    assume "failure_block n os"
    then show ?thesis unfolding failure_block_def by (metis append.assoc)
  next
    assume n: "n \<le> trailing_failures (os @ [x])"
    let ?t = "takeWhile (\<lambda>ot. \<not> fst ot) (rev (os @ [x]))"
    have "rev (os @ [x]) = take n ?t @ drop n ?t @ dropWhile (\<lambda>ot. \<not> fst ot) (rev (os @ [x]))"
      by (metis append.assoc append_take_drop_id takeWhile_dropWhile_id)
    then have "os @ [x] = rev (dropWhile (\<lambda>ot. \<not> fst ot) (rev (os @ [x]))) @ rev (drop n ?t) @ rev (take n ?t)"
      by (metis append.assoc rev_append rev_rev_ident)
    moreover have "length (rev (take n ?t)) = n" using n by (simp add: trailing_failures_def)
    moreover have "\<forall>ot \<in> set (rev (take n ?t)). \<not> fst ot"
      by (metis (no_types, lifting) in_set_takeD set_rev set_takeWhileD)
    ultimately show ?thesis unfolding failure_block_def by (metis append.assoc append_Nil2)
  qed
qed

lemma trailing_snoc: "trailing_failures (os @ [(ok, t)]) = (if ok then 0 else Suc (trailing_failures os))"
  by (simp add: trailing_failures_def)

lemma lb_results_snoc:
  "lb_results cfg (os @ [(ok, t)]) br =
     (if ok then lb_record_success cfg t (lb_results cfg os br) else lb_record_failure cfg t (lb_results cfg os br))"
  by (simp add: lb_results_def)

lemma lb_results_state:
  assumes "lb_state br = Closed" and "lb_failure_count br = 0" and "1 \<le> lc_failure_threshold cfg"
  shows "if failure_block (nat (lc_failure_threshold cfg)) os then lb_state (lb_results cfg os br) = Open
    else lb_state (lb_results cfg os br) = Closed \<and> lb_failure_count (lb_results cfg os br) = int (trailing_failures os)"
proof (induction os rule: rev_induct)
  case Nil
  show ?case using assms by (simp add: failure_block_def lb_results_def trailing_failures_def)
next
  case (snoc x os)
  obtain ok t where x: "x = (ok, t)" by fastforce
  have pos: "0 < nat (lc_failure_threshold cfg)" using assms(3) by simp
  note block = failure_block_snoc [OF pos, of os x]
  show ?case
  proof (cases "failure_block (nat (lc_failure_threshold cfg)) os")
    case True
    then have "lb_state (lb_results cfg os br) = Open" using snoc.IH by simp
    then have "lb_state (lb_results cfg (os @ [x]) br) = Open"
      by (simp add: x lb_results_snoc lb_record_success_def lb_record_failure_def Let_def)
    then show ?thesis using True block by simp
  next
    case False
    then have st: "lb_state (lb_results cfg os br) = Closed" "lb_failure_count (lb_results cfg os br) = int (trailing_failures os)"
      using snoc.IH by simp_all
    have "failure_block (nat (lc_failure_threshold cfg)) (os @ [x]) \<longleftrightarrow> \<not> ok \<and> lc_failure_threshold cfg \<le> int (trailing_failures os) + 1"
      using False block assms(3) by (auto simp: x trailing_snoc)
    then show ?thesis
      using st by (auto simp: x lb_results_snoc trailing_snoc lb_record_success_def lb_record_failure_def Let_def)
  qed
qed



text \<open>
  An open breaker rejects every request until the recovery time has passed since its last failure,
  and a half-open one that fails its test does so again; a closed one admits every request.
\<close>

theorem llm_breaker_gate:
  "(lb_state br = Open \<and> lb_last_failure_time br = Some t0 \<and> (\<forall>t \<in> set ts. t - t0 < lc_recovery_timeout cfg) \<longrightarrow>
      True \<notin> set (fst (attempts (lb_can_execute cfg) ts br)) \<and> lb_state (snd (attempts (lb_can_execute cfg) ts br)) = Open) \<and>
   (lb_state br = HalfOpen \<and> (\<forall>t \<in> set ts. t - now < lc_recovery_timeout cfg) \<longrightarrow>
      True \<notin> set (fst (attempts (lb_can_execute cfg) ts (lb_record_failure cfg now br)))) \<and>
   (lb_state br = Closed \<longrightarrow> False \<notin> set (fst (attempts (lb_can_execute cfg) ts br)))"
  using llm_gate.open_rejects [of br t0 ts cfg] llm_gate.probe_failure_rejects [of br ts now cfg]
    llm_gate.closed_admits [of br cfg ts]
  by blast

theorem llm_breaker_gate_witness:
  "False \<notin> set (fst (attempts (lb_can_execute default_lb_config) [1, 2, 3] (lb_init 0)))"
  using llm_breaker_gate [of "lb_init 0" 0 "[1, 2, 3]" default_lb_config 0] by (simp add: lb_init_def)

lemma half_open_admits:
  "lb_state br = HalfOpen \<Longrightarrow> lb_no_probe_count br \<Longrightarrow> 0 < lc_half_open_max_requests cfg \<Longrightarrow>
   attempts (lb_can_execute cfg) ts br = (replicate (length ts) True, br)"
  by (induction ts) (simp_all add: lb_can_execute_def lb_check_state_transition_def lb_no_probe_count_def)

text \<open>
  The limit on half-open test requests is never enforced: no sequence of operations of a breaker
  counts a test request, so a half-open breaker admits any number of requests, whatever positive limit
  is configured.
\<close>

theorem half_open_limit_not_enforced:
  assumes "br = foldl (lb_step cfg) (lb_init now) evs" and "lb_state br = HalfOpen" and "0 < lc_half_open_max_requests cfg"
  shows "fst (attempts (lb_can_execute cfg) ts br) = replicate (length ts) True"
  using half_open_admits [OF assms(2) _ assms(3)] llm_breaker.run_inv [of "lb_init now" cfg evs] assms(1)
  by (simp add: lb_no_probe_count_def lb_init_def)

theorem half_open_limit_not_enforced_witness:
  "fst (attempts (lb_can_execute default_lb_config) [1, 2, 3, 4, 5]
     (foldl (lb_step default_lb_config) (lb_init 0) (replicate 5 (RecordFailure 0) @ [CanExecute 60000000]))) = replicate 5 True"
proof -
  define br where "br = foldl (lb_step default_lb_config) (lb_init 0) (replicate 5 (RecordFailure 0) @ [CanExecute 60000000])"
  have "lb_state br = HalfOpen" unfolding br_def by code_simp
  moreover have "0 < lc_half_open_max_requests default_lb_config" by (simp add: default_lb_config_def)
  ultimately have "fst (attempts (lb_can_execute default_lb_config) [1, 2, 3, 4, 5] br) = replicate (length [1, 2, 3, 4, 5 :: int]) True"
    by (rule half_open_limit_not_enforced [OF br_def])
  also have "length [1, 2, 3, 4, 5 :: int] = 5" by simp
  finally show ?thesis unfolding br_def .
qed

section \<open>The store\<close>

lemma nat_text_digits: "nat_text n \<noteq> [] \<and> list_all is_digit (nat_text n) \<and> foldl (\<lambda>n c. n * 10 + digit_value c) 0 (nat_text n) = n"
proof (induction n rule: nat_text.induct)
  case (1 n)
  have dig: "is_digit (char_of (48 + d))" "digit_value (char_of (48 + d)) = d" if "d < 10" for d :: nat
    using that by (simp_all add: is_digit_def digit_value_def)
  show ?case
  proof (cases "n < 10")
    case True
    then show ?thesis using dig [of n] by (subst (1 2 3) nat_text.simps) simp
  next
    case False
    then show ?thesis
      using 1 dig [of "n mod 10"] by (subst (1 2 3) nat_text.simps) (simp add: mult.commute)
  qed
qed

lemma strip_solid:
  assumes "xs \<noteq> []" and "\<not> py_isspace (hd xs)" and "\<not> py_isspace (last xs)"
  shows "py_strip xs = xs"
proof -
  obtain c cs where "xs = c # cs" using assms(1) by (cases xs) auto
  then have "dropWhile py_isspace xs = xs" using assms(2) by simp
  moreover have "dropWhile py_isspace (rev xs) = rev xs"
    using assms(1,3) by (cases "rev xs") (auto simp: hd_rev [symmetric])
  ultimately show ?thesis by (simp add: py_strip_def)
qed

lemma digit_not_space: "is_digit c \<Longrightarrow> \<not> py_isspace c"
  by (auto simp: is_digit_def py_isspace_def Let_def)

lemma py_int_text: "py_int (int_text i) = Some i"
proof -
  let ?d = "nat_text (nat \<bar>i\<bar>)"
  have d: "?d \<noteq> []" "list_all is_digit ?d" "parse_digits ?d = Some (nat \<bar>i\<bar>)"
    using nat_text_digits [of "nat \<bar>i\<bar>"] by (simp_all add: parse_digits_def)
  have ends: "is_digit (hd ?d)" "is_digit (last ?d)" using d(1,2) by (simp_all add: list_all_iff)
  show ?thesis
  proof (cases "i < 0")
    case True
    then have t: "int_text i = CHR ''-'' # ?d" by (simp add: int_text_def)
    have "py_strip (CHR ''-'' # ?d) = CHR ''-'' # ?d"
      using d(1) digit_not_space [OF ends(2)] by (intro strip_solid) (simp_all add: py_isspace_def [of "CHR ''-''"])
    then show ?thesis using True d(3) by (simp add: t py_int_def)
  next
    case False
    then have t: "int_text i = ?d" by (simp add: int_text_def)
    have "py_strip ?d = ?d" using d(1) ends by (intro strip_solid) (auto simp: digit_not_space)
    moreover have "hd ?d \<noteq> CHR ''-''" "hd ?d \<noteq> CHR ''+''" using ends(1) by (auto simp: is_digit_def)
    ultimately show ?thesis
      using False d by (cases ?d) (auto simp: t py_int_def)
  qed
qed

lemma circuit_value_inverse: "circuit_of_value (circuit_value c) = Some c"
  by (cases c) (simp_all add: circuit_of_value_def)

lemma deserialize_serialize:
  assumes "runtime_ok rt"
  shows "deserialize_state rt now (serialize_state rt s) = Some s"
proof -
  have iso: "iso_parse rt (iso_format rt t) = Some t" "iso_format rt t \<noteq> []" for t
    using assms by (auto simp: runtime_ok_def) (metis py_strip_Nil)
  show ?thesis
    by (cases "cs_last_failure_time s")
      (simp_all add: deserialize_state_def serialize_state_def dict_get_default_def iso circuit_value_inverse py_int_text)
qed

text \<open>
  What a breaker saved is what a new breaker of the same provider restores, whether Redis is not
  configured, fails, has lost the key, or still holds the hash that was written: the restored breaker
  has the saved circuit state, counters and times.
\<close>

theorem breaker_state_survives_restart:
  assumes "runtime_ok rt" and "store_save rt has_redis i (lb_snapshot br) fallback = (fallback', written)"
    and "redis = None \<or> redis = Some RedisError \<or> redis = Some (RedisHash []) \<or>
         (\<exists>key data. written = Some (key, data) \<and> redis = Some (RedisHash data))"
  shows "lb_snapshot (lb_sync_from_store (store_load rt now redis i fallback') fresh) = lb_snapshot br"
proof -
  have "store_load rt now redis i fallback' = Some (lb_snapshot br)"
    using assms deserialize_serialize [OF assms(1), of now "lb_snapshot br"]
    by (auto simp: store_load_def store_save_def dict_get_set serialize_state_def split: if_splits)
  then show ?thesis by (simp add: lb_sync_from_store_def lb_snapshot_def)
qed

theorem breaker_state_survives_restart_witness:
  "lb_snapshot (lb_sync_from_store (store_load sample_runtime 9 (Some RedisError) ''openai''
     (fst (store_save sample_runtime True ''openai'' (lb_snapshot (lb_record_failure default_lb_config 7 (lb_init 0))) []))) (lb_init 8)) =
   lb_snapshot (lb_record_failure default_lb_config 7 (lb_init 0))"
proof -
  obtain fb w where s: "store_save sample_runtime True ''openai'' (lb_snapshot (lb_record_failure default_lb_config 7 (lb_init 0))) [] = (fb, w)"
    by fastforce
  show ?thesis
    using breaker_state_survives_restart [OF sample_runtime_ok s, of "Some RedisError" 9 "lb_init 8"] s by simp
qed

end
