(* ===== verification/RateLimiter.thy ===== *)
theory RateLimiter
  imports Prelude
begin

text \<open>
  The per-provider rate limiter, \<open>ProviderRateLimiter\<close> and \<open>RateLimitContext\<close> of
  \<open>src/infrastructure/llm/resilience/rate_limiter.py\<close>. Semaphores are objects of their own, since a
  configuration change replaces the one of a provider while contexts still hold the old one; each
  keeps its initial value beside its current one. \<open>acquire\<close> suspends only while it waits for the
  semaphore or sleeps, so it is two kinds of step: its start, and an attempt that takes a slot, checks
  the requests per minute and either admits the task or gives the slot back; a sequence of steps is
  an interleaving of tasks. Providers are their string values. The Redis limiter is not modelled.
\<close>

section \<open>State\<close>

record rl_config =
  rc_max_concurrent :: int
  rc_rpm :: int
  rc_tpm :: int
  rc_burst_allowance :: int
  rc_window_seconds :: real

record rl_stats =
  rs_total_requests :: int
  rs_waiting_requests :: int
  rs_rejected_requests :: int
  rs_total_wait_time_ms :: real

record semaphore =
  sem_initial :: int
  sem_value :: int

record rl_task =
  tk_provider :: string
  tk_semaphore :: nat
  tk_start :: real

record rl_context =
  cx_provider :: string
  cx_semaphore :: nat
  cx_released :: bool

record limiter =
  rl_configs :: "(string, rl_config) dict"
  rl_semaphores :: "(string, nat) dict"
  rl_heap :: "semaphore list"
  rl_stats :: "(string, rl_stats) dict"
  rl_request_times :: "(string, real list) dict"
  rl_waiting :: "rl_task list"
  rl_contexts :: "rl_context list"

definition rl_conf :: "int \<Rightarrow> int \<Rightarrow> int \<Rightarrow> rl_config" where
  "rl_conf max_concurrent rpm tpm =
     \<lparr>rc_max_concurrent = max_concurrent, rc_rpm = rpm, rc_tpm = tpm, rc_burst_allowance = 5, rc_window_seconds = 60\<rparr>"

definition default_rate_limits :: "(string, rl_config) dict" where
  "default_rate_limits =
     [(''openai'', rl_conf 50 10000 2000000),
      (''openrouter'', rl_conf 50 10000 2000000),
      (''gemini'', rl_conf 100 60000 4000000),
      (''dashscope'', rl_conf 30 6000 300000),
      (''deepseek'', rl_conf 20 2000 100000),
      (''zai'', rl_conf 30 5000 200000),
      (''anthropic'', rl_conf 40 4000 400000),
      (''kimi'', rl_conf 20 3000 100000),
      (''groq'', rl_conf 30 30000 500000),
      (''mistral'', rl_conf 30 5000 200000),
      (''cohere'', rl_conf 20 10000 200000),
      (''ollama'', rl_conf 10 0 0),
      (''lmstudio'', rl_conf 10 0 0)]"

definition fallback_config :: rl_config where
  "fallback_config = rl_conf 10 1000 50000"

definition new_rl_stats :: rl_stats where
  "new_rl_stats = \<lparr>rs_total_requests = 0, rs_waiting_requests = 0, rs_rejected_requests = 0, rs_total_wait_time_ms = 0\<rparr>"

definition limiter_init :: "(string, rl_config) dict option \<Rightarrow> limiter" where
  "limiter_init configs =
     \<lparr>rl_configs = (case configs of None \<Rightarrow> default_rate_limits | Some c \<Rightarrow> c), rl_semaphores = [], rl_heap = [],
      rl_stats = [], rl_request_times = [], rl_waiting = [], rl_contexts = []\<rparr>"

section \<open>Operations\<close>

definition rl_get_config :: "string \<Rightarrow> limiter \<Rightarrow> rl_config" where
  "rl_get_config p l = dict_get_default (rl_configs l) p fallback_config"

text \<open>\<open>asyncio.Semaphore\<close> raises for a negative value: the result \<open>None\<close>.\<close>

definition rl_get_semaphore :: "string \<Rightarrow> limiter \<Rightarrow> (nat \<times> limiter) option" where
  "rl_get_semaphore p l =
     (case dict_get (rl_semaphores l) p of
        Some s \<Rightarrow> Some (s, l)
      | None \<Rightarrow>
          let n = rc_max_concurrent (rl_get_config p l)
          in if n < 0 then None
             else Some (length (rl_heap l),
               l\<lparr>rl_heap := rl_heap l @ [\<lparr>sem_initial = n, sem_value = n\<rparr>],
                 rl_semaphores := dict_set p (length (rl_heap l)) (rl_semaphores l),
                 rl_stats := dict_set p new_rl_stats (rl_stats l),
                 rl_request_times := dict_set p [] (rl_request_times l)\<rparr>))"

definition rl_check_rpm_limit :: "real \<Rightarrow> string \<Rightarrow> limiter \<Rightarrow> bool \<times> limiter" where
  "rl_check_rpm_limit now p l =
     (let config = rl_get_config p l
      in if rc_rpm config \<le> 0 then (True, l)
         else let times = filter (\<lambda>t. t > now - rc_window_seconds config) (dict_get_default (rl_request_times l) p [])
              in (int (length times) < rc_rpm config + rc_burst_allowance config,
                  l\<lparr>rl_request_times := dict_set p times (rl_request_times l)\<rparr>))"

definition rl_record_request :: "real \<Rightarrow> string \<Rightarrow> limiter \<Rightarrow> limiter" where
  "rl_record_request now p l =
     l\<lparr>rl_request_times := dict_set p (dict_get_default (rl_request_times l) p [] @ [now]) (rl_request_times l)\<rparr>"

definition rl_update_stats :: "string \<Rightarrow> (rl_stats \<Rightarrow> rl_stats) \<Rightarrow> limiter \<Rightarrow> limiter" where
  "rl_update_stats p f l = l\<lparr>rl_stats := dict_set p (f (dict_get_default (rl_stats l) p new_rl_stats)) (rl_stats l)\<rparr>"

text \<open>The part of \<open>acquire\<close> before it waits: the task is then suspended on the semaphore it got.\<close>

definition rl_start_acquire :: "real \<Rightarrow> string \<Rightarrow> limiter \<Rightarrow> limiter option" where
  "rl_start_acquire now p l =
     (case rl_get_semaphore p l of
        None \<Rightarrow> None
      | Some (s, l1) \<Rightarrow>
          let l2 = rl_update_stats p (\<lambda>st. st\<lparr>rs_total_requests := rs_total_requests st + 1,
                                              rs_waiting_requests := rs_waiting_requests st + 1\<rparr>) l1
          in Some (l2\<lparr>rl_waiting := rl_waiting l2 @ [\<lparr>tk_provider = p, tk_semaphore = s, tk_start = now\<rparr>]\<rparr>))"

definition sem_add :: "nat \<Rightarrow> int \<Rightarrow> limiter \<Rightarrow> limiter" where
  "sem_add s d l = l\<lparr>rl_heap := (rl_heap l)[s := (rl_heap l ! s)\<lparr>sem_value := sem_value (rl_heap l ! s) + d\<rparr>]\<rparr>"

text \<open>
  One round of the wait loop of the \<open>i\<close>-th waiting task: without a free slot it stays suspended; with
  one it is admitted if the rate allows, and otherwise gives the slot back and sleeps.
\<close>

definition rl_try_admit :: "real \<Rightarrow> nat \<Rightarrow> limiter \<Rightarrow> bool \<times> limiter" where
  "rl_try_admit now i l =
     (if i \<ge> length (rl_waiting l) then (False, l)
      else let tk = rl_waiting l ! i; s = tk_semaphore tk; p = tk_provider tk
           in if s \<ge> length (rl_heap l) \<or> sem_value (rl_heap l ! s) \<le> 0 then (False, l)
              else let l1 = sem_add s (- 1) l; (ok, l2) = rl_check_rpm_limit now p l1
                   in if \<not> ok then (False, sem_add s 1 l2)
                      else let l3 = rl_update_stats p (\<lambda>st. st\<lparr>rs_waiting_requests := rs_waiting_requests st - 1,
                                     rs_total_wait_time_ms := rs_total_wait_time_ms st + (now - tk_start tk) * 1000\<rparr>) l2;
                               l4 = rl_record_request now p l3
                           in (True, l4\<lparr>rl_waiting := take i (rl_waiting l4) @ drop (Suc i) (rl_waiting l4),
                                        rl_contexts := rl_contexts l4 @ [\<lparr>cx_provider = p, cx_semaphore = s, cx_released = False\<rparr>]\<rparr>))"

text \<open>Leaving the context, or \<open>release\<close>: once only.\<close>

definition rl_release :: "nat \<Rightarrow> limiter \<Rightarrow> limiter" where
  "rl_release i l =
     (if i \<ge> length (rl_contexts l) \<or> cx_released (rl_contexts l ! i) then l
      else let cx = rl_contexts l ! i; l1 = sem_add (cx_semaphore cx) 1 l
           in l1\<lparr>rl_contexts := (rl_contexts l1)[i := cx\<lparr>cx_released := True\<rparr>]\<rparr>)"

text \<open>The new configuration is stored even when the replacement of the semaphore raises (answer \<open>False\<close>).\<close>

definition rl_update_config :: "string \<Rightarrow> rl_config \<Rightarrow> limiter \<Rightarrow> bool \<times> limiter" where
  "rl_update_config p config l =
     (let l1 = l\<lparr>rl_configs := dict_set p config (rl_configs l)\<rparr>
      in case dict_get (rl_configs l) p of
           None \<Rightarrow> (True, l1)
         | Some old \<Rightarrow>
             if rc_max_concurrent old \<noteq> rc_max_concurrent config \<and> dict_get (rl_semaphores l) p \<noteq> None
             then let n = rc_max_concurrent config
                  in if n < 0 then (False, l1)
                     else (True, l1\<lparr>rl_heap := rl_heap l1 @ [\<lparr>sem_initial = n, sem_value = n\<rparr>],
                                    rl_semaphores := dict_set p (length (rl_heap l1)) (rl_semaphores l1)\<rparr>)
             else (True, l1))"

definition rl_current_rpm :: "real \<Rightarrow> string \<Rightarrow> limiter \<Rightarrow> nat" where
  "rl_current_rpm now p l =
     length (filter (\<lambda>t. t > now - rc_window_seconds (rl_get_config p l)) (dict_get_default (rl_request_times l) p []))"

section \<open>Slots are conserved\<close>

datatype rl_event = StartAcquire real string | TryAdmit real nat | Release nat | UpdateConfig string rl_config

fun rl_step :: "limiter \<Rightarrow> rl_event \<Rightarrow> limiter" where
  "rl_step l (StartAcquire now p) = (case rl_start_acquire now p l of None \<Rightarrow> l | Some l' \<Rightarrow> l')"
| "rl_step l (TryAdmit now i) = snd (rl_try_admit now i l)"
| "rl_step l (Release i) = rl_release i l"
| "rl_step l (UpdateConfig p config) = snd (rl_update_config p config l)"

definition holders :: "limiter \<Rightarrow> nat \<Rightarrow> nat" where
  "holders l s = length (filter (\<lambda>cx. cx_semaphore cx = s \<and> \<not> cx_released cx) (rl_contexts l))"

definition limiter_ok :: "limiter \<Rightarrow> bool" where
  "limiter_ok l \<longleftrightarrow>
     (\<forall>s < length (rl_heap l). 0 \<le> sem_value (rl_heap l ! s) \<and>
        sem_value (rl_heap l ! s) + int (holders l s) = sem_initial (rl_heap l ! s)) \<and>
     (\<forall>cx \<in> set (rl_contexts l). cx_semaphore cx < length (rl_heap l))"

lemma length_filter_update:
  "i < length xs \<Longrightarrow>
   length (filter P (xs[i := y])) + (if P (xs ! i) then 1 else 0) = length (filter P xs) + (if P y then 1 else 0)"
proof (induction xs arbitrary: i)
  case (Cons x xs)
  then show ?case by (cases i) auto
qed simp

lemma limiter_ok_new_semaphore:
  assumes "limiter_ok l" and "rl_contexts l' = rl_contexts l" and "rl_heap l' = rl_heap l @ [\<lparr>sem_initial = n, sem_value = n\<rparr>]" and "0 \<le> n"
  shows "limiter_ok l'"
proof -
  have "holders l' s = holders l s" for s using assms(2) by (simp add: holders_def)
  moreover have "holders l (length (rl_heap l)) = 0"
    using assms(1) by (auto simp: limiter_ok_def holders_def filter_empty_conv)
  ultimately show ?thesis
    using assms by (auto simp: limiter_ok_def nth_append less_Suc_eq)
qed

lemma limiter_ok_same:
  "limiter_ok l \<Longrightarrow> rl_contexts l' = rl_contexts l \<Longrightarrow> rl_heap l' = rl_heap l \<Longrightarrow> limiter_ok l'"
  by (simp add: limiter_ok_def holders_def)

lemma get_semaphore_ok: "limiter_ok l \<Longrightarrow> rl_get_semaphore p l = Some (s, l') \<Longrightarrow> limiter_ok l'"
  by (auto simp: rl_get_semaphore_def Let_def split: option.splits if_splits
      intro: limiter_ok_new_semaphore [of l _ "rc_max_concurrent (rl_get_config p l)"])

lemma start_acquire_ok:
  assumes "limiter_ok l" and "rl_start_acquire now p l = Some l'"
  shows "limiter_ok l'"
proof -
  obtain s m where m: "rl_get_semaphore p l = Some (s, m)"
    using assms(2) by (auto simp: rl_start_acquire_def split: option.splits)
  have "rl_contexts l' = rl_contexts m" "rl_heap l' = rl_heap m"
    using assms(2) unfolding rl_start_acquire_def by (auto simp: m Let_def rl_update_stats_def)
  then show ?thesis using limiter_ok_same get_semaphore_ok [OF assms(1) m] by blast
qed

lemma check_rpm_fields [simp]:
  "rl_heap (snd (rl_check_rpm_limit now p l)) = rl_heap l" "rl_contexts (snd (rl_check_rpm_limit now p l)) = rl_contexts l"
  "rl_waiting (snd (rl_check_rpm_limit now p l)) = rl_waiting l" "rl_configs (snd (rl_check_rpm_limit now p l)) = rl_configs l"
  "rl_semaphores (snd (rl_check_rpm_limit now p l)) = rl_semaphores l" "rl_stats (snd (rl_check_rpm_limit now p l)) = rl_stats l"
  by (simp_all add: rl_check_rpm_limit_def Let_def)

lemma sem_add_back: "s < length (rl_heap l) \<Longrightarrow> rl_heap (sem_add s 1 (l'\<lparr>rl_heap := rl_heap (sem_add s (- 1) l)\<rparr>)) = rl_heap l"
  by (simp add: sem_add_def)

text \<open>What an attempt does: nothing but pruning, or an admission.\<close>

lemma try_admit_cases:
  obtains (refused) "\<not> fst (rl_try_admit now i l)" "rl_heap (snd (rl_try_admit now i l)) = rl_heap l"
      "rl_contexts (snd (rl_try_admit now i l)) = rl_contexts l"
  | (granted) tk where "fst (rl_try_admit now i l)" "i < length (rl_waiting l)" "tk = rl_waiting l ! i"
      "tk_semaphore tk < length (rl_heap l)" "0 < sem_value (rl_heap l ! tk_semaphore tk)"
      "rl_heap (snd (rl_try_admit now i l)) = rl_heap (sem_add (tk_semaphore tk) (- 1) l)"
      "rl_contexts (snd (rl_try_admit now i l)) =
         rl_contexts l @ [\<lparr>cx_provider = tk_provider tk, cx_semaphore = tk_semaphore tk, cx_released = False\<rparr>]"
proof -
  define tk where "tk = rl_waiting l ! i"
  let ?s = "tk_semaphore tk"
  obtain ok l2 where c: "rl_check_rpm_limit now (tk_provider tk) (sem_add ?s (- 1) l) = (ok, l2)" by fastforce
  have l2: "rl_heap l2 = rl_heap (sem_add ?s (- 1) l)" "rl_contexts l2 = rl_contexts l"
    using check_rpm_fields(1,2) [of now "tk_provider tk" "sem_add ?s (- 1) l"] unfolding c
    by (simp_all, simp add: sem_add_def)
  show thesis
  proof (cases "i < length (rl_waiting l) \<and> ?s < length (rl_heap l) \<and> 0 < sem_value (rl_heap l ! ?s) \<and> ok")
    case True
    then show thesis
      using c l2 by (intro granted [of tk])
        (simp_all add: rl_try_admit_def Let_def tk_def [symmetric] rl_update_stats_def rl_record_request_def)
  next
    case False
    then show thesis
      using c l2 by (intro refused)
        (auto simp: rl_try_admit_def Let_def tk_def [symmetric] sem_add_def)
  qed
qed

lemma sem_add_nth:
  "s < length (rl_heap l) \<Longrightarrow> s' < length (rl_heap l) \<Longrightarrow>
   rl_heap (sem_add s d l) ! s' = (if s' = s then (rl_heap l ! s)\<lparr>sem_value := sem_value (rl_heap l ! s) + d\<rparr> else rl_heap l ! s')"
  by (auto simp: sem_add_def nth_list_update)

lemma length_sem_add [simp]: "length (rl_heap (sem_add s d l)) = length (rl_heap l)"
  by (simp add: sem_add_def)

lemma try_admit_ok:
  assumes "limiter_ok l"
  shows "limiter_ok (snd (rl_try_admit now i l))"
proof (cases rule: try_admit_cases [of now i l])
  case refused
  then show ?thesis using limiter_ok_same [OF assms] by blast
next
  case (granted tk)
  let ?l = "snd (rl_try_admit now i l)"
  have h: "holders ?l s = holders l s + (if s = tk_semaphore tk then 1 else 0)" for s
    by (simp add: holders_def granted(7))
  show ?thesis
    using assms granted(4,5) unfolding limiter_ok_def
    by (auto simp: granted(6,7) h sem_add_nth)
qed

lemma release_ok:
  assumes "limiter_ok l"
  shows "limiter_ok (rl_release i l)"
proof (cases "i < length (rl_contexts l) \<and> \<not> cx_released (rl_contexts l ! i)")
  case True
  let ?cx = "rl_contexts l ! i" and ?l = "rl_release i l"
  have s: "cx_semaphore ?cx < length (rl_heap l)" using assms True by (simp add: limiter_ok_def)
  have heap: "rl_heap ?l = rl_heap (sem_add (cx_semaphore ?cx) 1 l)"
    and ctx: "rl_contexts ?l = (rl_contexts l)[i := ?cx\<lparr>cx_released := True\<rparr>]"
    using True by (simp_all add: rl_release_def Let_def sem_add_def)
  have h: "holders ?l s' + (if s' = cx_semaphore ?cx then 1 else 0) = holders l s'" for s'
    using length_filter_update [of i "rl_contexts l" "\<lambda>cx. cx_semaphore cx = s' \<and> \<not> cx_released cx" "?cx\<lparr>cx_released := True\<rparr>"] True
    by (simp add: holders_def ctx split: if_splits)
  have "sem_value (rl_heap ?l ! s') + int (holders ?l s') = sem_initial (rl_heap ?l ! s') \<and> 0 \<le> sem_value (rl_heap ?l ! s')"
    if "s' < length (rl_heap l)" for s'
    using assms that s h [of s'] unfolding limiter_ok_def by (auto simp: heap sem_add_nth split: if_splits)
  moreover have "\<forall>cx \<in> set (rl_contexts ?l). cx_semaphore cx < length (rl_heap ?l)"
    using assms s set_update_subset_insert [of "rl_contexts l" i "?cx\<lparr>cx_released := True\<rparr>"]
    unfolding ctx heap limiter_ok_def by auto
  ultimately show ?thesis unfolding limiter_ok_def heap by simp
next
  case False
  then show ?thesis using assms by (auto simp: rl_release_def)
qed

lemma update_config_ok: "limiter_ok l \<Longrightarrow> limiter_ok (snd (rl_update_config p config l))"
  by (auto simp: rl_update_config_def Let_def split: option.splits
      intro: limiter_ok_same limiter_ok_new_semaphore [of l _ "rc_max_concurrent config"])

lemma rl_step_ok: "limiter_ok l \<Longrightarrow> limiter_ok (rl_step l ev)"
  by (cases ev) (auto simp: start_acquire_ok try_admit_ok release_ok update_config_ok split: option.splits)

interpretation limiter: invariant_machine rl_step limiter_ok
  by unfold_locales (rule rl_step_ok)

text \<open>
  C20: whatever tasks acquire and release, in any interleaving and with configuration changes in
  between, no semaphore ever has more unreleased contexts than the concurrency it was created with,
  and its free slots and its holders always add up to that number; a context frees its slot once.
\<close>

theorem concurrency_bounded:
  assumes "l = foldl rl_step (limiter_init configs) evs" and "s < length (rl_heap l)"
  shows "int (holders l s) \<le> sem_initial (rl_heap l ! s) \<and>
    sem_value (rl_heap l ! s) + int (holders l s) = sem_initial (rl_heap l ! s) \<and>
    rl_release i (rl_release i l) = rl_release i l"
proof -
  have "limiter_ok (limiter_init configs)" by (simp add: limiter_ok_def limiter_init_def)
  then have "limiter_ok l" unfolding assms(1) by (rule limiter.run_inv)
  moreover have "rl_release i (rl_release i l) = rl_release i l"
    by (simp add: rl_release_def Let_def sem_add_def)
  ultimately show ?thesis using assms(2) by (auto simp: limiter_ok_def)
qed

definition sample_limiter_events :: "rl_event list" where
  "sample_limiter_events = [StartAcquire 0 ''p'', StartAcquire 0 ''p'', TryAdmit 1 0, TryAdmit 1 0, Release 0]"

theorem concurrency_bounded_witness:
  "let l = foldl rl_step (limiter_init (Some [(''p'', rl_conf 2 10 0)])) sample_limiter_events
   in length (rl_heap l) = 1 \<and> holders l 0 = 1 \<and> int (holders l 0) \<le> sem_initial (rl_heap l ! 0)"
proof -
  define l where "l = foldl rl_step (limiter_init (Some [(''p'', rl_conf 2 10 0)])) sample_limiter_events"
  have "length (rl_heap l) = 1" "holders l 0 = 1" unfolding l_def by code_simp+
  then show ?thesis using concurrency_bounded [OF l_def, of 0] unfolding l_def by (simp add: Let_def)
qed

section \<open>Requests per minute\<close>

text \<open>
  A task is admitted only while its provider is below its rate: with a positive \<open>rpm\<close>, right after
  an admission the provider has at most \<open>rpm + burst_allowance\<close> recorded requests in the window; and
  the recorded requests, the semaphore and the configuration of every other provider are untouched.
\<close>

theorem rpm_respected:
  assumes "rl_try_admit now i l = (True, l')"
  shows "let p = tk_provider (rl_waiting l ! i)
    in (0 < rc_rpm (rl_get_config p l) \<longrightarrow>
          int (rl_current_rpm now p l') \<le> rc_rpm (rl_get_config p l) + rc_burst_allowance (rl_get_config p l)) \<and>
       rl_configs l' = rl_configs l \<and> rl_semaphores l' = rl_semaphores l \<and>
       (\<forall>q. q \<noteq> p \<longrightarrow> dict_get (rl_request_times l') q = dict_get (rl_request_times l) q \<and>
          dict_get (rl_stats l') q = dict_get (rl_stats l) q)"
proof -
  define tk where "tk = rl_waiting l ! i"
  let ?p = "tk_provider tk" and ?s = "tk_semaphore tk"
  obtain ok l2 where c: "rl_check_rpm_limit now ?p (sem_add ?s (- 1) l) = (ok, l2)" by fastforce
  have ok: "ok" and l': "rl_request_times l' = dict_set ?p (dict_get_default (rl_request_times l2) ?p [] @ [now]) (rl_request_times l2)"
    "rl_configs l' = rl_configs l2" "rl_semaphores l' = rl_semaphores l2"
    "\<And>q. q \<noteq> ?p \<Longrightarrow> dict_get (rl_stats l') q = dict_get (rl_stats l2) q"
    using assms c by (auto simp: rl_try_admit_def Let_def tk_def [symmetric] rl_update_stats_def rl_record_request_def dict_get_set split: if_splits)
  have l2: "rl_configs l2 = rl_configs l" "rl_semaphores l2 = rl_semaphores l" "rl_stats l2 = rl_stats l"
    "\<And>q. q \<noteq> ?p \<Longrightarrow> dict_get (rl_request_times l2) q = dict_get (rl_request_times l) q"
    using c by (auto simp: rl_check_rpm_limit_def Let_def sem_add_def dict_get_set split: if_splits)
  have conf: "rl_get_config ?p l' = rl_get_config ?p l" by (simp add: rl_get_config_def l'(2) l2(1))
  have "int (rl_current_rpm now ?p l') \<le> rc_rpm (rl_get_config ?p l) + rc_burst_allowance (rl_get_config ?p l)"
    if "0 < rc_rpm (rl_get_config ?p l)"
  proof -
    have same: "rl_get_config ?p (sem_add ?s (- 1) l) = rl_get_config ?p l" by (simp add: rl_get_config_def sem_add_def)
    define w where "w = now - rc_window_seconds (rl_get_config ?p l)"
    define ts where "ts = dict_get_default (rl_request_times l2) ?p []"
    have "int (length ts) < rc_rpm (rl_get_config ?p l) + rc_burst_allowance (rl_get_config ?p l)"
      using c ok that same by (auto simp: rl_check_rpm_limit_def Let_def ts_def dict_get_default_def dict_get_set split: if_splits)
    moreover have "rl_current_rpm now ?p l' = length (filter (\<lambda>t. t > w) (ts @ [now]))"
      by (simp add: rl_current_rpm_def conf l'(1) w_def ts_def dict_get_default_def dict_get_set)
    moreover have "length (filter (\<lambda>t. t > w) (ts @ [now])) \<le> length ts + 1"
      using length_filter_le [of "\<lambda>t. t > w" "ts @ [now]"] by simp
    ultimately show ?thesis by linarith
  qed
  then show ?thesis
    using l' l2 by (auto simp: Let_def tk_def dict_get_set)
qed

theorem rpm_respected_witness:
  "let l = foldl rl_step (limiter_init (Some [(''p'', rl_conf 2 10 0)])) [StartAcquire 0 ''p'']
   in fst (rl_try_admit 1 0 l) \<and> int (rl_current_rpm 1 ''p'' (snd (rl_try_admit 1 0 l))) \<le> 15"
proof -
  define l where "l = foldl rl_step (limiter_init (Some [(''p'', rl_conf 2 10 0)])) [StartAcquire 0 ''p'']"
  have a: "fst (rl_try_admit 1 0 l)" "tk_provider (rl_waiting l ! 0) = ''p''" "rl_get_config ''p'' l = rl_conf 2 10 0"
    unfolding l_def by code_simp+
  then have "rl_try_admit 1 0 l = (True, snd (rl_try_admit 1 0 l))" by (simp add: prod_eq_iff)
  from rpm_respected [OF this] show ?thesis
    using a unfolding l_def by (simp add: Let_def rl_conf_def)
qed

text \<open>
  A changed concurrency limit is not applied to a provider that was used with the fallback
  configuration: the first explicit configuration of such a provider leaves its semaphore at the
  fallback's ten slots, while for a provider that had a configuration the semaphore is replaced.
\<close>

theorem fallback_semaphore_not_recreated:
  "let l0 = foldl rl_step (limiter_init None) [StartAcquire 0 ''azure_openai'', StartAcquire 0 ''openai''];
       l = foldl rl_step l0 [UpdateConfig ''azure_openai'' (rl_conf 1 10 0), UpdateConfig ''openai'' (rl_conf 1 10 0)];
       slots = (\<lambda>p. map_option (\<lambda>s. sem_initial (rl_heap l ! s)) (dict_get (rl_semaphores l) p))
   in rc_max_concurrent (rl_get_config ''azure_openai'' l) = 1 \<and> slots ''azure_openai'' = Some 10 \<and> slots ''openai'' = Some 1"
  by code_simp

end
