(* ===== verification/PoolLifecycle.thy ===== *)
theory PoolLifecycle
  imports Prelude
begin

text \<open>
  The lifecycle state machine of a pooled agent instance:
  \<open>src/infrastructure/agent/pool/lifecycle/state_machine.py\<close> with the statuses and the event record of
  \<open>pool/types.py\<close>. The table of transitions is the list of the source, in its order, and the machine
  works on the nested dictionary that \<open>_build_transition_map\<close> makes of it. Guards are kept (all
  entries of the table have none); transition actions are \<open>None\<close> throughout the table and left out.
  Listeners are named; \<open>lc_delivered\<close> logs which listener was called with which event, since what a
  listener does is the caller's business and an exception in it is suppressed.
\<close>

section \<open>Statuses, events and the table\<close>

datatype agent_status =
    CREATED | INITIALIZING | INITIALIZATION_FAILED | READY | EXECUTING | PAUSED
  | UNHEALTHY | DEGRADED | TERMINATING | TERMINATED

record lifecycle_event =
  ev_instance_id :: string
  ev_type :: string
  ev_from :: "agent_status option"
  ev_to :: agent_status
  ev_time :: int
  ev_details :: "(string, string) dict"
  ev_error :: "string option"

record state_transition =
  tr_from :: agent_status
  tr_to :: agent_status
  tr_trigger :: string
  tr_guard :: "(unit \<Rightarrow> bool) option"

definition st_transition :: "agent_status \<Rightarrow> agent_status \<Rightarrow> string \<Rightarrow> state_transition" where
  "st_transition s s' trigger = \<lparr>tr_from = s, tr_to = s', tr_trigger = trigger, tr_guard = None\<rparr>"

definition valid_transitions :: "state_transition list" where
  "valid_transitions =
    [st_transition CREATED INITIALIZING ''initialize'',
     st_transition INITIALIZING READY ''initialization_complete'',
     st_transition INITIALIZING INITIALIZATION_FAILED ''initialization_failed'',
     st_transition INITIALIZATION_FAILED INITIALIZING ''retry'',
     st_transition READY EXECUTING ''execute'',
     st_transition EXECUTING READY ''complete'',
     st_transition READY PAUSED ''pause'',
     st_transition PAUSED READY ''resume'',
     st_transition EXECUTING PAUSED ''pause'',
     st_transition READY UNHEALTHY ''health_check_failed'',
     st_transition EXECUTING UNHEALTHY ''health_check_failed'',
     st_transition PAUSED UNHEALTHY ''health_check_failed'',
     st_transition UNHEALTHY READY ''recover'',
     st_transition UNHEALTHY DEGRADED ''degrade'',
     st_transition DEGRADED READY ''recover'',
     st_transition DEGRADED UNHEALTHY ''health_check_failed'',
     st_transition READY TERMINATING ''terminate'',
     st_transition PAUSED TERMINATING ''terminate'',
     st_transition UNHEALTHY TERMINATING ''terminate'',
     st_transition DEGRADED TERMINATING ''terminate'',
     st_transition INITIALIZATION_FAILED TERMINATING ''terminate'',
     st_transition TERMINATING TERMINATED ''terminated'',
     st_transition EXECUTING TERMINATING ''force_terminate'',
     st_transition CREATED TERMINATED ''force_terminate'',
     st_transition INITIALIZING TERMINATED ''force_terminate'']"

type_synonym transition_map = "(agent_status, (string, state_transition) dict) dict"

definition build_transition_map :: "state_transition list \<Rightarrow> transition_map" where
  "build_transition_map trs =
     foldl (\<lambda>m tr. dict_set (tr_from tr)
         (dict_set (tr_trigger tr) tr (dict_get_default m (tr_from tr) [])) m) [] trs"

section \<open>The machine\<close>

record lifecycle =
  lc_instance_id :: string
  lc_status :: agent_status
  lc_history :: "lifecycle_event list"
  lc_transition_map :: transition_map
  lc_listeners :: "string list"
  lc_delivered :: "(string \<times> lifecycle_event) list"

datatype lifecycle_error = InvalidStateTransition agent_status agent_status string

definition lc_record_event ::
  "int \<Rightarrow> string \<Rightarrow> agent_status option \<Rightarrow> agent_status \<Rightarrow> (string, string) dict option \<Rightarrow> string option \<Rightarrow>
   lifecycle \<Rightarrow> lifecycle" where
  "lc_record_event now event_type from_status to_status details error lc =
     (let ev = \<lparr>ev_instance_id = lc_instance_id lc, ev_type = event_type, ev_from = from_status, ev_to = to_status,
                ev_time = now, ev_details = (case details of None \<Rightarrow> [] | Some d \<Rightarrow> d), ev_error = error\<rparr>
      in lc\<lparr>lc_history := lc_history lc @ [ev],
            lc_delivered := lc_delivered lc @ map (\<lambda>l. (l, ev)) (lc_listeners lc)\<rparr>)"

definition lifecycle_init :: "int \<Rightarrow> string \<Rightarrow> agent_status \<Rightarrow> lifecycle" where
  "lifecycle_init now iid initial =
     lc_record_event now ''created'' None initial None None
       \<lparr>lc_instance_id = iid, lc_status = initial, lc_history = [],
        lc_transition_map = build_transition_map valid_transitions, lc_listeners = [], lc_delivered = []\<rparr>"

definition lc_find :: "string \<Rightarrow> lifecycle \<Rightarrow> state_transition option" where
  "lc_find trigger lc = dict_get (dict_get_default (lc_transition_map lc) (lc_status lc) []) trigger"

definition guard_fails :: "state_transition \<Rightarrow> bool" where
  "guard_fails tr = (case tr_guard tr of None \<Rightarrow> False | Some g \<Rightarrow> \<not> g ())"

definition lc_can_transition :: "string \<Rightarrow> lifecycle \<Rightarrow> bool" where
  "lc_can_transition trigger lc = (case lc_find trigger lc of None \<Rightarrow> False | Some tr \<Rightarrow> \<not> guard_fails tr)"

definition lc_allowed_triggers :: "lifecycle \<Rightarrow> string set" where
  "lc_allowed_triggers lc = set (dict_keys (dict_get_default (lc_transition_map lc) (lc_status lc) []))"

definition lc_transition ::
  "int \<Rightarrow> string \<Rightarrow> (string, string) dict option \<Rightarrow> string option \<Rightarrow> lifecycle \<Rightarrow> (lifecycle_error + agent_status) \<times> lifecycle" where
  "lc_transition now trigger details error lc =
     (case lc_find trigger lc of
        None \<Rightarrow> (Inl (InvalidStateTransition (lc_status lc) TERMINATED trigger), lc)
      | Some tr \<Rightarrow>
          if guard_fails tr then (Inl (InvalidStateTransition (lc_status lc) (tr_to tr) trigger), lc)
          else let old = lc_status lc; lc1 = lc\<lparr>lc_status := tr_to tr\<rparr>
               in (Inr (tr_to tr), lc_record_event now trigger (Some old) (tr_to tr) details error lc1))"

definition lc_add_listener :: "string \<Rightarrow> lifecycle \<Rightarrow> lifecycle" where
  "lc_add_listener l lc = lc\<lparr>lc_listeners := lc_listeners lc @ [l]\<rparr>"

definition lc_remove_listener :: "string \<Rightarrow> lifecycle \<Rightarrow> lifecycle" where
  "lc_remove_listener l lc = lc\<lparr>lc_listeners := remove1 l (lc_listeners lc)\<rparr>"

fun status_active :: "agent_status \<Rightarrow> bool" where
  "status_active s = (s \<in> {READY, EXECUTING, DEGRADED})"

fun status_terminal :: "agent_status \<Rightarrow> bool" where
  "status_terminal s = (s \<in> {TERMINATED, INITIALIZATION_FAILED})"

fun status_healthy :: "agent_status \<Rightarrow> bool" where
  "status_healthy s = (s \<notin> {UNHEALTHY, DEGRADED, INITIALIZATION_FAILED})"

definition lc_is_active :: "lifecycle \<Rightarrow> bool" where
  "lc_is_active lc = status_active (lc_status lc)"

definition lc_is_terminal :: "lifecycle \<Rightarrow> bool" where
  "lc_is_terminal lc = status_terminal (lc_status lc)"

definition lc_is_healthy :: "lifecycle \<Rightarrow> bool" where
  "lc_is_healthy lc = status_healthy (lc_status lc)"

definition lc_uptime_seconds :: "int \<Rightarrow> lifecycle \<Rightarrow> real" where
  "lc_uptime_seconds now lc =
     (case lc_history lc of [] \<Rightarrow> 0 | ev # _ \<Rightarrow> real_of_int (now - ev_time ev) / 1000000)"

definition lc_last_event :: "lifecycle \<Rightarrow> lifecycle_event option" where
  "lc_last_event lc = (if lc_history lc = [] then None else Some (last (lc_history lc)))"

section \<open>What the table allows\<close>

text \<open>The table as a function: the target of a trigger, read off the list of the source.\<close>

definition next_status :: "agent_status \<Rightarrow> string \<Rightarrow> agent_status option" where
  "next_status s trigger =
     map_option tr_to (find (\<lambda>tr. tr_from tr = s \<and> tr_trigger tr = trigger) valid_transitions)"

definition built_map :: transition_map where
  "built_map = build_transition_map valid_transitions"

text \<open>The nested dictionary answers as a search of the list does, the last entry winning.\<close>

lemma build_transition_map_get:
  "dict_get (dict_get_default (build_transition_map trs) s []) g =
     find (\<lambda>tr. tr_from tr = s \<and> tr_trigger tr = g) (rev trs)"
proof (induction trs rule: rev_induct)
  case (snoc tr trs)
  then show ?case
    by (auto simp: build_transition_map_def dict_get_default_def dict_get_set split: option.splits)
qed (simp add: build_transition_map_def dict_get_default_def)

lemma find_rev_distinct:
  assumes "distinct (map key xs)"
  shows "find (\<lambda>x. key x = k) (rev xs) = find (\<lambda>x. key x = k) xs"
  using assms
proof (induction xs)
  case (Cons x xs)
  have "find (\<lambda>x. key x = key y) xs = None" if "key y \<notin> key ` set xs" for y
    using that by (force simp: find_None_iff image_iff)
  with Cons show ?case by (auto simp: find_append split: option.splits)
qed simp

lemma transitions_distinct: "distinct (map (\<lambda>tr. (tr_from tr, tr_trigger tr)) valid_transitions)"
  by code_simp

lemma built_map_get:
  "dict_get (dict_get_default built_map s []) g = find (\<lambda>tr. tr_from tr = s \<and> tr_trigger tr = g) valid_transitions"
  using find_rev_distinct [OF transitions_distinct, of "(s, g)"]
  by (simp add: built_map_def build_transition_map_get)

lemma table_unguarded: "tr \<in> set valid_transitions \<Longrightarrow> \<not> guard_fails tr"
  by (auto simp: valid_transitions_def st_transition_def guard_fails_def)

lemma find_unguarded: "find P valid_transitions = Some tr \<Longrightarrow> \<not> guard_fails tr"
  by (metis find_Some_iff nth_mem table_unguarded)

lemma transition_result:
  assumes "lc_transition_map lc = built_map"
  shows "lc_transition now g details err lc =
    (case next_status (lc_status lc) g of
       None \<Rightarrow> (Inl (InvalidStateTransition (lc_status lc) TERMINATED g), lc)
     | Some s \<Rightarrow> (Inr s, lc_record_event now g (Some (lc_status lc)) s details err (lc\<lparr>lc_status := s\<rparr>)))"
  using assms find_unguarded
  by (auto simp: lc_transition_def lc_find_def built_map_get next_status_def Let_def split: option.splits)

lemma can_transition_iff:
  "lc_transition_map lc = built_map \<Longrightarrow> lc_can_transition g lc \<longleftrightarrow> next_status (lc_status lc) g \<noteq> None"
  using find_unguarded
  by (auto simp: lc_can_transition_def lc_find_def built_map_get next_status_def split: option.splits)

lemma allowed_triggers_iff:
  "lc_transition_map lc = built_map \<Longrightarrow> g \<in> lc_allowed_triggers lc \<longleftrightarrow> next_status (lc_status lc) g \<noteq> None"
  using dict_get_None_iff [of "dict_get_default built_map (lc_status lc) []" g]
  by (auto simp: lc_allowed_triggers_def built_map_get next_status_def)

text \<open>The table, trigger by trigger.\<close>

definition all_statuses :: "agent_status list" where
  "all_statuses = [CREATED, INITIALIZING, INITIALIZATION_FAILED, READY, EXECUTING, PAUSED, UNHEALTHY, DEGRADED, TERMINATING, TERMINATED]"

lemma all_statuses_complete: "s \<in> set all_statuses"
  by (cases s) (simp_all add: all_statuses_def)

lemma table_computed:
  "list_all (\<lambda>s. map (next_status s)
     [''initialize'',
      ''initialization_complete'',
      ''initialization_failed'',
      ''retry'',
      ''execute'',
      ''complete'',
      ''pause'',
      ''resume'',
      ''health_check_failed'',
      ''recover'',
      ''degrade'',
      ''terminate'',
      ''terminated'',
      ''force_terminate''] =
     [if s = CREATED then Some INITIALIZING else None,
      if s = INITIALIZING then Some READY else None,
      if s = INITIALIZING then Some INITIALIZATION_FAILED else None,
      if s = INITIALIZATION_FAILED then Some INITIALIZING else None,
      if s = READY then Some EXECUTING else None,
      if s = EXECUTING then Some READY else None,
      if s \<in> {READY, EXECUTING} then Some PAUSED else None,
      if s = PAUSED then Some READY else None,
      if s \<in> {READY, EXECUTING, PAUSED, DEGRADED} then Some UNHEALTHY else None,
      if s \<in> {UNHEALTHY, DEGRADED} then Some READY else None,
      if s = UNHEALTHY then Some DEGRADED else None,
      if s \<in> {READY, PAUSED, UNHEALTHY, DEGRADED, INITIALIZATION_FAILED} then Some TERMINATING else None,
      if s = TERMINATING then Some TERMINATED else None,
      if s = EXECUTING then Some TERMINATING else if s \<in> {CREATED, INITIALIZING} then Some TERMINATED else None]) all_statuses"
  by code_simp

lemma next_status_table [simp]:
  "next_status s ''initialize'' = (if s = CREATED then Some INITIALIZING else None)"
  "next_status s ''initialization_complete'' = (if s = INITIALIZING then Some READY else None)"
  "next_status s ''initialization_failed'' = (if s = INITIALIZING then Some INITIALIZATION_FAILED else None)"
  "next_status s ''retry'' = (if s = INITIALIZATION_FAILED then Some INITIALIZING else None)"
  "next_status s ''execute'' = (if s = READY then Some EXECUTING else None)"
  "next_status s ''complete'' = (if s = EXECUTING then Some READY else None)"
  "next_status s ''pause'' = (if s \<in> {READY, EXECUTING} then Some PAUSED else None)"
  "next_status s ''resume'' = (if s = PAUSED then Some READY else None)"
  "next_status s ''health_check_failed'' = (if s \<in> {READY, EXECUTING, PAUSED, DEGRADED} then Some UNHEALTHY else None)"
  "next_status s ''recover'' = (if s \<in> {UNHEALTHY, DEGRADED} then Some READY else None)"
  "next_status s ''degrade'' = (if s = UNHEALTHY then Some DEGRADED else None)"
  "next_status s ''terminate'' = (if s \<in> {READY, PAUSED, UNHEALTHY, DEGRADED, INITIALIZATION_FAILED} then Some TERMINATING else None)"
  "next_status s ''terminated'' = (if s = TERMINATING then Some TERMINATED else None)"
  "next_status s ''force_terminate'' = (if s = EXECUTING then Some TERMINATING else if s \<in> {CREATED, INITIALIZING} then Some TERMINATED else None)"
  using bspec [OF table_computed [unfolded list_all_iff] all_statuses_complete [of s]]
  by (simp_all only: list.map list.inject)

section \<open>Histories\<close>

fun chained :: "lifecycle_event list \<Rightarrow> bool" where
  "chained (e # f # es) \<longleftrightarrow>
     ev_from f = Some (ev_to e) \<and> next_status (ev_to e) (ev_type f) = Some (ev_to f) \<and> chained (f # es)"
| "chained es \<longleftrightarrow> True"

definition lifecycle_ok :: "lifecycle \<Rightarrow> bool" where
  "lifecycle_ok lc \<longleftrightarrow>
     lc_transition_map lc = built_map \<and> lc_history lc \<noteq> [] \<and> ev_type (hd (lc_history lc)) = ''created'' \<and>
     ev_from (hd (lc_history lc)) = None \<and> ev_to (last (lc_history lc)) = lc_status lc \<and> chained (lc_history lc) \<and>
     (\<forall>ev \<in> set (lc_history lc). ev_instance_id ev = lc_instance_id lc) \<and> snd ` set (lc_delivered lc) \<subseteq> set (lc_history lc)"

lemma chained_snoc:
  "es \<noteq> [] \<Longrightarrow> chained (es @ [f]) \<longleftrightarrow>
     chained es \<and> ev_from f = Some (ev_to (last es)) \<and> next_status (ev_to (last es)) (ev_type f) = Some (ev_to f)"
  by (induction es rule: chained.induct) auto

lemma lifecycle_init_ok: "lifecycle_ok (lifecycle_init now iid s)"
  by (simp add: lifecycle_ok_def lifecycle_init_def lc_record_event_def Let_def built_map_def)

lemma transition_ok: "lifecycle_ok lc \<Longrightarrow> lifecycle_ok (snd (lc_transition now g details err lc))"
proof (cases "next_status (lc_status lc) g")
  case (Some s)
  assume ok: "lifecycle_ok lc"
  let ?lc = "snd (lc_transition now g details err lc)"
  obtain ev where ev: "lc_history ?lc = lc_history lc @ [ev]" "ev_from ev = Some (lc_status lc)" "ev_to ev = s" "ev_type ev = g"
    "ev_instance_id ev = lc_instance_id lc" "lc_status ?lc = s" "lc_transition_map ?lc = lc_transition_map lc"
    "lc_instance_id ?lc = lc_instance_id lc" "lc_delivered ?lc = lc_delivered lc @ map (\<lambda>l. (l, ev)) (lc_listeners lc)"
    using ok Some by (simp add: lifecycle_ok_def transition_result lc_record_event_def Let_def)
  show ?thesis using ok Some unfolding lifecycle_ok_def by (auto simp: ev chained_snoc)
qed (simp add: lifecycle_ok_def transition_result)

datatype lifecycle_call =
    Trigger int string "(string, string) dict option" "string option"
  | AddListener string
  | RemoveListener string

fun lifecycle_step :: "lifecycle \<Rightarrow> lifecycle_call \<Rightarrow> lifecycle" where
  "lifecycle_step lc (Trigger now g details err) = snd (lc_transition now g details err lc)"
| "lifecycle_step lc (AddListener l) = lc_add_listener l lc"
| "lifecycle_step lc (RemoveListener l) = lc_remove_listener l lc"

interpretation lifecycle: invariant_machine lifecycle_step lifecycle_ok
proof unfold_locales
  show "lifecycle_ok (lifecycle_step lc call)" if "lifecycle_ok lc" for lc call
    using that transition_ok
    by (cases call) (auto simp: lifecycle_ok_def lc_add_listener_def lc_remove_listener_def)
qed

lemma terminated_absorbs:
  "lc_transition_map lc = built_map \<Longrightarrow> lc_status lc = TERMINATED \<Longrightarrow>
   lc_status (foldl lifecycle_step lc calls) = TERMINATED \<and> lc_history (foldl lifecycle_step lc calls) = lc_history lc"
proof (induction calls arbitrary: lc)
  case (Cons call calls)
  have "next_status TERMINATED g = None" for g
    by (simp add: next_status_def valid_transitions_def st_transition_def)
  then have "lc_transition_map (lifecycle_step lc call) = built_map \<and> lc_status (lifecycle_step lc call) = TERMINATED \<and>
      lc_history (lifecycle_step lc call) = lc_history lc"
    using Cons.prems by (cases call) (auto simp: transition_result lc_add_listener_def lc_remove_listener_def)
  with Cons.IH [of "lifecycle_step lc call"] show ?case by simp
qed simp



text \<open>
  The comment above the last three entries of the table promises a forced termination from any
  status; only three statuses have one. And a status that \<open>is_terminal\<close> reports as terminal can be left.
\<close>

lemma force_terminate_scope:
  "next_status s ''force_terminate'' \<noteq> None \<longleftrightarrow> s \<in> {CREATED, INITIALIZING, EXECUTING}"
  "status_terminal INITIALIZATION_FAILED \<and> next_status INITIALIZATION_FAILED ''retry'' = Some INITIALIZING"
  by (cases s; simp)+

end
