(* ===== verification/PoolConfig.thy ===== *)
theory PoolConfig
  imports Prelude
begin

text \<open>
  Configuration of the agent pool: \<open>src/infrastructure/agent/pool/config.py\<close>. Fields that no modelled
  operation reads (LLM settings, feature switches, retry and pre-warming settings) are left out.
  Numbers with a fraction are reals.
\<close>

datatype project_tier = HOT | WARM | COLD

record resource_quota =
  q_memory_limit_mb :: int
  q_memory_request_mb :: int
  q_cpu_limit_cores :: real
  q_cpu_request_cores :: real
  q_max_instances :: int
  q_max_concurrent_requests :: int

definition default_quota :: resource_quota where
  "default_quota = \<lparr>q_memory_limit_mb = 512, q_memory_request_mb = 256, q_cpu_limit_cores = 1, q_cpu_request_cores = 1 / 4,
     q_max_instances = 1, q_max_concurrent_requests = 10\<rparr>"

datatype quota_problem = MemoryLimitBelowRequest | CpuLimitBelowRequest | ConcurrencyBelowOne

definition quota_validate :: "resource_quota \<Rightarrow> quota_problem list" where
  "quota_validate q =
     (if q_memory_limit_mb q < q_memory_request_mb q then [MemoryLimitBelowRequest] else []) @
     (if q_cpu_limit_cores q < q_cpu_request_cores q then [CpuLimitBelowRequest] else []) @
     (if q_max_concurrent_requests q < 1 then [ConcurrencyBelowOne] else [])"

record instance_config =
  ic_project_id :: string
  ic_tenant_id :: string
  ic_agent_mode :: string
  ic_tier :: project_tier
  ic_tier_override :: bool
  ic_quota :: resource_quota
  ic_idle_timeout_seconds :: int
  ic_health_check_interval_seconds :: int

definition new_instance_config :: "string \<Rightarrow> string \<Rightarrow> string \<Rightarrow> project_tier \<Rightarrow> resource_quota \<Rightarrow> instance_config" where
  "new_instance_config project tenant mode tier quota =
     \<lparr>ic_project_id = project, ic_tenant_id = tenant, ic_agent_mode = mode, ic_tier = tier, ic_tier_override = False,
      ic_quota = quota, ic_idle_timeout_seconds = 3600, ic_health_check_interval_seconds = 30\<rparr>"

definition key_of :: "string \<Rightarrow> string \<Rightarrow> string \<Rightarrow> string" where
  "key_of tenant project mode = tenant @ '':'' @ project @ '':'' @ mode"

definition instance_key :: "instance_config \<Rightarrow> string" where
  "instance_key c = key_of (ic_tenant_id c) (ic_project_id c) (ic_agent_mode c)"

definition with_tier :: "project_tier \<Rightarrow> instance_config \<Rightarrow> instance_config" where
  "with_tier tier c = c\<lparr>ic_tier := tier\<rparr>"

definition with_quota :: "resource_quota \<Rightarrow> instance_config \<Rightarrow> instance_config" where
  "with_quota quota c = c\<lparr>ic_quota := quota\<rparr>"

record tier_config =
  tc_tier :: project_tier
  tc_default_quota :: resource_quota
  tc_min_instances :: int
  tc_max_instances :: int
  tc_eviction_idle_seconds :: int

definition tier_quota :: "int \<Rightarrow> int \<Rightarrow> real \<Rightarrow> real \<Rightarrow> int \<Rightarrow> int \<Rightarrow> resource_quota" where
  "tier_quota limit request cpu_limit cpu_request instances concurrent =
     \<lparr>q_memory_limit_mb = limit, q_memory_request_mb = request, q_cpu_limit_cores = cpu_limit,
      q_cpu_request_cores = cpu_request, q_max_instances = instances, q_max_concurrent_requests = concurrent\<rparr>"

definition hot_tier_config :: tier_config where
  "hot_tier_config = \<lparr>tc_tier = HOT, tc_default_quota = tier_quota 2048 1024 2 1 4 50,
     tc_min_instances = 1, tc_max_instances = 4, tc_eviction_idle_seconds = 7200\<rparr>"

definition warm_tier_config :: tier_config where
  "warm_tier_config = \<lparr>tc_tier = WARM, tc_default_quota = tier_quota 512 256 (1 / 2) (1 / 4) 2 10,
     tc_min_instances = 0, tc_max_instances = 2, tc_eviction_idle_seconds = 1800\<rparr>"

definition cold_tier_config :: tier_config where
  "cold_tier_config = \<lparr>tc_tier = COLD, tc_default_quota = tier_quota 256 128 (1 / 4) (1 / 10) 1 3,
     tc_min_instances = 0, tc_max_instances = 1, tc_eviction_idle_seconds = 300\<rparr>"

definition default_tier_configs :: "(project_tier, tier_config) dict" where
  "default_tier_configs = [(HOT, hot_tier_config), (WARM, warm_tier_config), (COLD, cold_tier_config)]"

record pool_config =
  plc_tier_configs :: "(project_tier, tier_config) dict"
  plc_max_total_instances :: int
  plc_max_total_memory_mb :: int
  plc_max_total_cpu_cores :: real
  plc_unhealthy_threshold :: int
  plc_healthy_threshold :: int

definition default_pool_config :: pool_config where
  "default_pool_config = \<lparr>plc_tier_configs = default_tier_configs, plc_max_total_instances = 100,
     plc_max_total_memory_mb = 32768, plc_max_total_cpu_cores = 16, plc_unhealthy_threshold = 3, plc_healthy_threshold = 2\<rparr>"

definition get_tier_config :: "pool_config \<Rightarrow> project_tier \<Rightarrow> tier_config" where
  "get_tier_config cfg tier = dict_get_default (plc_tier_configs cfg) tier warm_tier_config"

text \<open>The quotas of the three tiers are valid and grow with the tier.\<close>

lemma tier_quotas_valid: "\<forall>tier. quota_validate (tc_default_quota (get_tier_config default_pool_config tier)) = []"
proof
  show "quota_validate (tc_default_quota (get_tier_config default_pool_config tier)) = []" for tier
    by (cases tier)
      (simp_all add: get_tier_config_def default_pool_config_def default_tier_configs_def dict_get_default_def
        hot_tier_config_def warm_tier_config_def cold_tier_config_def tier_quota_def quota_validate_def)
qed

end
