(* ===== verification/PoolInstance.thy ===== *)
theory PoolInstance
  imports PoolLifecycle PoolConfig
begin

text \<open>
  A pooled agent instance: \<open>src/infrastructure/agent/pool/instance.py\<close>. The agent itself is only present
  or absent here; whether constructing it succeeds, and how a request ends, are inputs. \<open>execute\<close> is
  split where it suspends: the checks at its start, the section after a semaphore slot was obtained,
  and the section after the stream ended. The checks come before the wait for the slot, so a request
  may enter in any status. \<open>stop\<close> is split at its wait for the requests in progress.
\<close>

section \<open>Data\<close>

record instance_metrics =
  im_total_requests :: int
  im_successful_requests :: int
  im_failed_requests :: int
  im_avg_latency_ms :: real
  im_p50_latency_ms :: real
  im_p95_latency_ms :: real
  im_p99_latency_ms :: real
  im_max_latency_ms :: real
  im_last_request_at :: "int option"
  im_last_error_at :: "int option"

datatype health_status = HEALTHY | HEALTH_DEGRADED | HEALTH_UNHEALTHY | UNKNOWN

record health_result =
  hr_status :: health_status
  hr_error_rate :: real
  hr_memory_usage_pct :: real
  hr_active_requests :: int
  hr_last_check_at :: int
  hr_error_message :: "string option"

record agent_instance =
  ai_id :: string
  ai_config :: instance_config
  ai_has_agent :: bool
  ai_lifecycle :: lifecycle
  ai_slots :: int
  ai_active_requests :: int
  ai_metrics :: instance_metrics
  ai_latencies :: "real list"
  ai_last_activity_at :: int
  ai_initialized_at :: "int option"
  ai_consecutive_failures :: int
  ai_last_health_check :: "health_result option"

abbreviation ai_status :: "agent_instance \<Rightarrow> agent_status" where
  "ai_status inst \<equiv> lc_status (ai_lifecycle inst)"

definition new_metrics :: instance_metrics where
  "new_metrics = \<lparr>im_total_requests = 0, im_successful_requests = 0, im_failed_requests = 0, im_avg_latency_ms = 0,
     im_p50_latency_ms = 0, im_p95_latency_ms = 0, im_p99_latency_ms = 0, im_max_latency_ms = 0,
     im_last_request_at = None, im_last_error_at = None\<rparr>"

text \<open>The constructor raises when the semaphore gets a negative number of slots.\<close>

definition instance_init :: "int \<Rightarrow> string \<Rightarrow> instance_config \<Rightarrow> bool \<Rightarrow> agent_instance option" where
  "instance_init now iid cfg has_agent =
     (let n = q_max_concurrent_requests (ic_quota cfg)
      in if n < 0 then None
         else Some \<lparr>ai_id = iid, ai_config = cfg, ai_has_agent = has_agent, ai_lifecycle = lifecycle_init now iid CREATED,
                    ai_slots = n, ai_active_requests = 0, ai_metrics = new_metrics, ai_latencies = [],
                    ai_last_activity_at = now, ai_initialized_at = None, ai_consecutive_failures = 0,
                    ai_last_health_check = None\<rparr>)"

section \<open>Operations\<close>

definition fire :: "int \<Rightarrow> string \<Rightarrow> string option \<Rightarrow> agent_instance \<Rightarrow> (lifecycle_error + agent_status) \<times> agent_instance" where
  "fire now trigger err inst =
     (let (r, lc) = lc_transition now trigger None err (ai_lifecycle inst) in (r, inst\<lparr>ai_lifecycle := lc\<rparr>))"

text \<open>\<open>if can_transition(t): transition(t)\<close>\<close>

definition fire_if_possible :: "int \<Rightarrow> string \<Rightarrow> string option \<Rightarrow> agent_instance \<Rightarrow> agent_instance" where
  "fire_if_possible now trigger err inst =
     (if lc_can_transition trigger (ai_lifecycle inst) then snd (fire now trigger err inst) else inst)"

text \<open>\<open>created\<close> says whether \<open>_create_agent\<close> returns. Any exception leads to \<open>initialization_failed\<close>, which may itself raise.\<close>

definition ai_init_failed :: "int \<Rightarrow> agent_instance \<Rightarrow> (lifecycle_error + bool) \<times> agent_instance" where
  "ai_init_failed now inst =
     (case fire now ''initialization_failed'' (Some ''error'') inst of
        (Inl e, inst') \<Rightarrow> (Inl e, inst')
      | (Inr _, inst') \<Rightarrow> (Inr False, inst'))"

definition ai_initialize :: "int \<Rightarrow> bool \<Rightarrow> agent_instance \<Rightarrow> (lifecycle_error + bool) \<times> agent_instance" where
  "ai_initialize now created inst =
     (case fire now ''initialize'' None inst of
        (Inl _, inst1) \<Rightarrow> ai_init_failed now inst1
      | (Inr _, inst1) \<Rightarrow>
          if \<not> ai_has_agent inst1 \<and> \<not> created then ai_init_failed now inst1
          else (case fire now ''initialization_complete'' None (inst1\<lparr>ai_has_agent := True\<rparr>) of
                  (Inl _, inst2) \<Rightarrow> ai_init_failed now inst2
                | (Inr _, inst2) \<Rightarrow> (Inr True, inst2\<lparr>ai_initialized_at := Some now\<rparr>)))"

datatype execute_error = InstanceNotActive agent_status | AgentNotInitialized

definition ai_execute_check :: "agent_instance \<Rightarrow> execute_error option" where
  "ai_execute_check inst =
     (if \<not> lc_is_active (ai_lifecycle inst) then Some (InstanceNotActive (ai_status inst))
      else if \<not> ai_has_agent inst then Some AgentNotInitialized else None)"

text \<open>With a slot; without one the request keeps waiting.\<close>

definition ai_execute_enter :: "int \<Rightarrow> agent_instance \<Rightarrow> agent_instance" where
  "ai_execute_enter now inst =
     (if ai_slots inst \<le> 0 then inst
      else let inst1 = inst\<lparr>ai_slots := ai_slots inst - 1, ai_active_requests := ai_active_requests inst + 1\<rparr>;
               inst2 = (if ai_active_requests inst1 = 1 \<and> ai_status inst1 = READY then snd (fire now ''execute'' None inst1) else inst1)
           in inst2\<lparr>ai_last_activity_at := now\<rparr>)"

definition py_index :: "'a list \<Rightarrow> nat \<Rightarrow> nat \<Rightarrow> 'a" where
  "py_index xs num den = xs ! (length xs * num div den)"

definition ai_update_metrics :: "int \<Rightarrow> bool \<Rightarrow> real \<Rightarrow> agent_instance \<Rightarrow> agent_instance" where
  "ai_update_metrics now success latency inst =
     (let m = ai_metrics inst; ls = ai_latencies inst @ [latency];
          ls' = (if length ls > 100 then py_last_n 100 ls else ls);
          s = sort ls'
      in inst\<lparr>ai_latencies := ls',
              ai_metrics := m\<lparr>im_total_requests := im_total_requests m + 1,
                im_successful_requests := im_successful_requests m + (if success then 1 else 0),
                im_failed_requests := im_failed_requests m + (if success then 0 else 1),
                im_last_error_at := (if success then im_last_error_at m else Some now),
                im_last_request_at := Some now,
                im_avg_latency_ms := sum_list ls' / real (length ls'),
                im_p50_latency_ms := py_index s 1 2,
                im_p95_latency_ms := py_index s 95 100,
                im_p99_latency_ms := py_index s 99 100,
                im_max_latency_ms := fold max (tl s) (hd s)\<rparr>\<rparr>)"

text \<open>A request ends normally, by an exception, or by cancellation (which skips the metrics).\<close>

datatype request_outcome = Streamed | StreamFailed | StreamCancelled

definition ai_execute_leave :: "int \<Rightarrow> request_outcome \<Rightarrow> real \<Rightarrow> agent_instance \<Rightarrow> agent_instance" where
  "ai_execute_leave now outcome latency inst =
     (if ai_active_requests inst \<le> 0 then inst
      else let inst1 = (case outcome of
               Streamed \<Rightarrow> (ai_update_metrics now True latency inst)\<lparr>ai_consecutive_failures := 0\<rparr>
             | StreamFailed \<Rightarrow> (ai_update_metrics now False latency inst)\<lparr>ai_consecutive_failures := ai_consecutive_failures inst + 1\<rparr>
             | StreamCancelled \<Rightarrow> inst);
             inst2 = inst1\<lparr>ai_active_requests := ai_active_requests inst1 - 1\<rparr>;
             inst3 = (if ai_active_requests inst2 = 0 \<and> ai_status inst2 = EXECUTING then snd (fire now ''complete'' None inst2) else inst2)
           in inst3\<lparr>ai_slots := ai_slots inst3 + 1\<rparr>)"

definition error_rate :: "instance_metrics \<Rightarrow> real" where
  "error_rate m = (if im_total_requests m = 0 then 0 else of_int (im_failed_requests m) / of_int (im_total_requests m))"

definition unhealthy_result :: "int \<Rightarrow> string \<Rightarrow> health_result" where
  "unhealthy_result now msg = \<lparr>hr_status = HEALTH_UNHEALTHY, hr_error_rate = 0, hr_memory_usage_pct = 0,
     hr_active_requests = 0, hr_last_check_at = now, hr_error_message = Some msg\<rparr>"

definition ai_health_check :: "int \<Rightarrow> agent_instance \<Rightarrow> health_result \<times> agent_instance" where
  "ai_health_check now inst =
     (if lc_is_terminal (ai_lifecycle inst) then (unhealthy_result now ''Instance is terminated'', inst)
      else if \<not> ai_has_agent inst then (unhealthy_result now ''Agent not initialized'', inst)
      else let rate = error_rate (ai_metrics inst);
               status = (if rate > 1 / 2 then HEALTH_UNHEALTHY else if rate > 1 / 10 then HEALTH_DEGRADED else HEALTHY);
               result = \<lparr>hr_status = status, hr_error_rate = rate, hr_memory_usage_pct = 0,
                         hr_active_requests = ai_active_requests inst, hr_last_check_at = now, hr_error_message = None\<rparr>
           in (result, inst\<lparr>ai_last_health_check := Some result\<rparr>))"

definition ai_pause :: "int \<Rightarrow> agent_instance \<Rightarrow> agent_instance" where
  "ai_pause now inst = fire_if_possible now ''pause'' None inst"

definition ai_resume :: "int \<Rightarrow> agent_instance \<Rightarrow> agent_instance" where
  "ai_resume now inst = fire_if_possible now ''resume'' None inst"

definition ai_stop_begin :: "int \<Rightarrow> bool \<Rightarrow> agent_instance \<Rightarrow> agent_instance" where
  "ai_stop_begin now graceful inst = (if graceful then fire_if_possible now ''pause'' None inst else inst)"

text \<open>The condition of the wait loop: requests are left and the timeout has not passed.\<close>

definition ai_stop_waits :: "real \<Rightarrow> real \<Rightarrow> agent_instance \<Rightarrow> bool" where
  "ai_stop_waits elapsed timeout inst \<longleftrightarrow> ai_active_requests inst > 0 \<and> \<not> elapsed > timeout"

definition ai_stop_finish :: "int \<Rightarrow> agent_instance \<Rightarrow> agent_instance" where
  "ai_stop_finish now inst =
     (let inst1 = (if lc_can_transition ''terminate'' (ai_lifecycle inst) then snd (fire now ''terminate'' None inst)
                   else fire_if_possible now ''force_terminate'' None inst);
          inst2 = inst1\<lparr>ai_has_agent := False\<rparr>
      in fire_if_possible now ''terminated'' None inst2)"

text \<open>\<open>stop(graceful=False)\<close>, or a graceful stop with nothing to wait for.\<close>

definition ai_stop :: "int \<Rightarrow> bool \<Rightarrow> agent_instance \<Rightarrow> agent_instance" where
  "ai_stop now graceful inst = ai_stop_finish now (ai_stop_begin now graceful inst)"

definition ai_mark_unhealthy :: "int \<Rightarrow> string option \<Rightarrow> agent_instance \<Rightarrow> agent_instance" where
  "ai_mark_unhealthy now err inst = fire_if_possible now ''health_check_failed'' err inst"

definition ai_mark_recovered :: "int \<Rightarrow> agent_instance \<Rightarrow> agent_instance" where
  "ai_mark_recovered now inst = fire_if_possible now ''recover'' None inst"

definition ai_idle_seconds :: "int \<Rightarrow> agent_instance \<Rightarrow> real" where
  "ai_idle_seconds now inst = real_of_int (now - ai_last_activity_at inst) / 1000000"

definition ai_is_idle_expired :: "int \<Rightarrow> agent_instance \<Rightarrow> bool" where
  "ai_is_idle_expired now inst \<longleftrightarrow> ai_idle_seconds now inst > of_int (ic_idle_timeout_seconds (ai_config inst))"

section \<open>Invariant\<close>

datatype instance_event =
    Initialize int bool
  | Enter int
  | Leave int request_outcome real
  | CheckHealth int
  | Pause int
  | Resume int
  | StopBegin int bool
  | StopFinish int
  | MarkUnhealthy int "string option"
  | MarkRecovered int

fun instance_step :: "agent_instance \<Rightarrow> instance_event \<Rightarrow> agent_instance" where
  "instance_step inst (Initialize now created) = snd (ai_initialize now created inst)"
| "instance_step inst (Enter now) = ai_execute_enter now inst"
| "instance_step inst (Leave now outcome latency) = ai_execute_leave now outcome latency inst"
| "instance_step inst (CheckHealth now) = snd (ai_health_check now inst)"
| "instance_step inst (Pause now) = ai_pause now inst"
| "instance_step inst (Resume now) = ai_resume now inst"
| "instance_step inst (StopBegin now graceful) = ai_stop_begin now graceful inst"
| "instance_step inst (StopFinish now) = ai_stop_finish now inst"
| "instance_step inst (MarkUnhealthy now err) = ai_mark_unhealthy now err inst"
| "instance_step inst (MarkRecovered now) = ai_mark_recovered now inst"

definition metrics_ok :: "instance_metrics \<Rightarrow> bool" where
  "metrics_ok m \<longleftrightarrow> im_total_requests m = im_successful_requests m + im_failed_requests m \<and>
     0 \<le> im_successful_requests m \<and> 0 \<le> im_failed_requests m \<and>
     im_p50_latency_ms m \<le> im_p95_latency_ms m \<and> im_p95_latency_ms m \<le> im_p99_latency_ms m \<and>
     im_p99_latency_ms m \<le> im_max_latency_ms m \<and> im_avg_latency_ms m \<le> im_max_latency_ms m"

definition instance_ok :: "agent_instance \<Rightarrow> bool" where
  "instance_ok inst \<longleftrightarrow>
     lifecycle_ok (ai_lifecycle inst) \<and> 0 \<le> ai_slots inst \<and> 0 \<le> ai_active_requests inst \<and>
     ai_slots inst + ai_active_requests inst = q_max_concurrent_requests (ic_quota (ai_config inst)) \<and>
     (ai_status inst = EXECUTING \<longrightarrow> 0 < ai_active_requests inst) \<and>
     (ai_status inst \<in> {READY, EXECUTING, PAUSED, UNHEALTHY, DEGRADED} \<longrightarrow> ai_has_agent inst) \<and>
     metrics_ok (ai_metrics inst) \<and> length (ai_latencies inst) \<le> 100"

text \<open>What firing a trigger does to an instance.\<close>

lemma fire_fields [simp]:
  "ai_id (snd (fire now g err inst)) = ai_id inst" "ai_config (snd (fire now g err inst)) = ai_config inst"
  "ai_has_agent (snd (fire now g err inst)) = ai_has_agent inst" "ai_slots (snd (fire now g err inst)) = ai_slots inst"
  "ai_active_requests (snd (fire now g err inst)) = ai_active_requests inst" "ai_metrics (snd (fire now g err inst)) = ai_metrics inst"
  "ai_latencies (snd (fire now g err inst)) = ai_latencies inst"
  by (simp_all add: fire_def split: prod.splits)

lemma fire_status:
  assumes "lifecycle_ok (ai_lifecycle inst)"
  shows "ai_status (snd (fire now g err inst)) = (case next_status (ai_status inst) g of None \<Rightarrow> ai_status inst | Some s \<Rightarrow> s)"
    and "fst (fire now g err inst) = (case next_status (ai_status inst) g of
           None \<Rightarrow> Inl (InvalidStateTransition (ai_status inst) TERMINATED g) | Some s \<Rightarrow> Inr s)"
    and "lifecycle_ok (ai_lifecycle (snd (fire now g err inst)))"
  using assms transition_ok [OF assms, of now g None err]
  by (auto simp: fire_def lifecycle_ok_def transition_result lc_record_event_def Let_def split: prod.splits option.splits)

lemma fire_if_possible_fields [simp]:
  "ai_id (fire_if_possible now g err inst) = ai_id inst" "ai_config (fire_if_possible now g err inst) = ai_config inst"
  "ai_has_agent (fire_if_possible now g err inst) = ai_has_agent inst" "ai_slots (fire_if_possible now g err inst) = ai_slots inst"
  "ai_active_requests (fire_if_possible now g err inst) = ai_active_requests inst"
  "ai_metrics (fire_if_possible now g err inst) = ai_metrics inst" "ai_latencies (fire_if_possible now g err inst) = ai_latencies inst"
  by (simp_all add: fire_if_possible_def)

lemma fire_if_possible_status:
  assumes "lifecycle_ok (ai_lifecycle inst)"
  shows "ai_status (fire_if_possible now g err inst) = (case next_status (ai_status inst) g of None \<Rightarrow> ai_status inst | Some s \<Rightarrow> s)"
    and "lifecycle_ok (ai_lifecycle (fire_if_possible now g err inst))"
  using fire_status [OF assms, of now g err] assms can_transition_iff [of "ai_lifecycle inst" g]
  by (auto simp: fire_if_possible_def lifecycle_ok_def split: option.splits)

lemmas fire_simps = fire_status fire_if_possible_status

lemma can_fire: "lifecycle_ok (ai_lifecycle inst) \<Longrightarrow> lc_can_transition g (ai_lifecycle inst) \<longleftrightarrow> next_status (ai_status inst) g \<noteq> None"
  by (simp add: can_transition_iff lifecycle_ok_def)

text \<open>Firing a trigger that neither enters \<open>EXECUTING\<close> nor, without an agent, a working status keeps the invariant.\<close>

lemma fire_if_possible_ok:
  assumes "instance_ok inst"
    and "\<And>s s'. next_status s g = Some s' \<Longrightarrow> s' \<noteq> EXECUTING \<and>
      (s' \<in> {READY, PAUSED, UNHEALTHY, DEGRADED} \<longrightarrow> s \<in> {READY, EXECUTING, PAUSED, UNHEALTHY, DEGRADED})"
  shows "instance_ok (fire_if_possible now g err inst)"
  using assms fire_if_possible_status [of inst now g err] unfolding instance_ok_def
  by (auto split: option.splits)

lemma sum_list_bound:
  fixes xs :: "real list"
  shows "\<forall>x \<in> set xs. x \<le> b \<Longrightarrow> sum_list xs \<le> real (length xs) * b"
  by (induction xs) (auto simp: algebra_simps)

lemma update_metrics_ok:
  assumes "metrics_ok (ai_metrics inst)"
  shows "metrics_ok (ai_metrics (ai_update_metrics now success latency inst))"
    and "length (ai_latencies inst) \<le> 100 \<Longrightarrow> length (ai_latencies (ai_update_metrics now success latency inst)) \<le> 100"
proof -
  let ?m = "ai_metrics (ai_update_metrics now success latency inst)"
  define ls where "ls = ai_latencies (ai_update_metrics now success latency inst)"
  define s where "s = sort ls"
  have ls: "ls \<noteq> []" "length s = length ls" "set s = set ls" "sorted s"
    by (auto simp: ls_def s_def ai_update_metrics_def Let_def py_last_n_def)
  then have ne: "s \<noteq> []" by auto
  have vals: "im_p50_latency_ms ?m = s ! (length s * 1 div 2)" "im_p95_latency_ms ?m = s ! (length s * 95 div 100)"
    "im_p99_latency_ms ?m = s ! (length s * 99 div 100)" "im_max_latency_ms ?m = fold max (tl s) (hd s)"
    "im_avg_latency_ms ?m = sum_list ls / real (length ls)"
    by (simp_all add: ai_update_metrics_def Let_def ls_def s_def py_index_def)
  have "0 < length s" using ne by simp
  then have idx: "length s * 1 div 2 \<le> length s * 95 div 100" "length s * 95 div 100 \<le> length s * 99 div 100" "length s * 99 div 100 < length s"
    using div_mult_mult1 [of 50 "length s" 2] div_le_mono [of "50 * length s" "length s * 95" 100]
    by (simp_all add: div_le_mono div_less_iff_less_mult)
  have mx: "im_max_latency_ms ?m = Max (set s)"
    using ne Max.set_eq_fold [of "hd s" "tl s"] by (simp add: vals)
  have "im_p50_latency_ms ?m \<le> im_p95_latency_ms ?m" "im_p95_latency_ms ?m \<le> im_p99_latency_ms ?m"
    using idx sorted_nth_mono [OF ls(4)] by (simp_all add: vals)
  moreover have "im_p99_latency_ms ?m \<le> im_max_latency_ms ?m"
    using idx(3) by (simp add: mx vals(3))
  moreover have "im_avg_latency_ms ?m \<le> im_max_latency_ms ?m"
    using sum_list_bound [of ls "Max (set ls)"] ls(1) by (simp add: vals(5) mx ls(3) field_simps)
  moreover have "im_total_requests ?m = im_successful_requests ?m + im_failed_requests ?m"
    "0 \<le> im_successful_requests ?m" "0 \<le> im_failed_requests ?m"
    using assms by (simp_all add: metrics_ok_def ai_update_metrics_def Let_def)
  ultimately show "metrics_ok ?m" unfolding metrics_ok_def by blast
  show "length (ai_latencies (ai_update_metrics now success latency inst)) \<le> 100"
    if "length (ai_latencies inst) \<le> 100"
    using that by (auto simp: ai_update_metrics_def Let_def py_last_n_def)
qed

lemma update_metrics_fields [simp]:
  "ai_lifecycle (ai_update_metrics now success latency inst) = ai_lifecycle inst"
  "ai_slots (ai_update_metrics now success latency inst) = ai_slots inst"
  "ai_active_requests (ai_update_metrics now success latency inst) = ai_active_requests inst"
  "ai_config (ai_update_metrics now success latency inst) = ai_config inst" "ai_id (ai_update_metrics now success latency inst) = ai_id inst"
  "ai_has_agent (ai_update_metrics now success latency inst) = ai_has_agent inst"
  by (simp_all add: ai_update_metrics_def Let_def)

lemma enter_ok: "instance_ok inst \<Longrightarrow> instance_ok (ai_execute_enter now inst)"
  by (auto simp: ai_execute_enter_def Let_def instance_ok_def fire_simps)

lemma leave_ok: "instance_ok inst \<Longrightarrow> instance_ok (ai_execute_leave now outcome latency inst)"
  using update_metrics_ok [of inst now True latency] update_metrics_ok [of inst now False latency]
  by (cases outcome) (auto simp: ai_execute_leave_def Let_def instance_ok_def fire_simps)

lemma initialize_eq:
  assumes "lifecycle_ok (ai_lifecycle inst)"
  shows "ai_initialize now created inst =
    (if ai_status inst = CREATED
     then let inst1 = snd (fire now ''initialize'' None inst)
          in if ai_has_agent inst \<or> created
             then (Inr True, (snd (fire now ''initialization_complete'' None (inst1\<lparr>ai_has_agent := True\<rparr>)))\<lparr>ai_initialized_at := Some now\<rparr>)
             else (Inr False, snd (fire now ''initialization_failed'' (Some ''error'') inst1))
     else if ai_status inst = INITIALIZING then (Inr False, snd (fire now ''initialization_failed'' (Some ''error'') inst))
     else (Inl (InvalidStateTransition (ai_status inst) TERMINATED ''initialization_failed''), inst))"
proof -
  let ?i1 = "snd (fire now ''initialize'' None inst)"
  have i1: "lifecycle_ok (ai_lifecycle ?i1)" "ai_status inst = CREATED \<Longrightarrow> ai_status ?i1 = INITIALIZING"
    using assms by (simp_all add: fire_simps)
  show ?thesis
    using assms i1 by (simp add: ai_initialize_def ai_init_failed_def Let_def case_prod_beta fire_status(2))
      (auto simp: fire_def lifecycle_ok_def transition_result)
qed

lemma initialize_ok:
  assumes "instance_ok inst"
  shows "instance_ok (snd (ai_initialize now created inst))"
proof -
  have ok: "lifecycle_ok (ai_lifecycle inst)" using assms by (simp add: instance_ok_def)
  show ?thesis using assms unfolding initialize_eq [OF ok] by (auto simp: Let_def instance_ok_def fire_simps)
qed

lemma stop_finish_status:
  assumes "lifecycle_ok (ai_lifecycle inst)"
  shows "ai_status (ai_stop_finish now inst) = TERMINATED" and "lifecycle_ok (ai_lifecycle (ai_stop_finish now inst))"
    and "\<not> ai_has_agent (ai_stop_finish now inst)"
proof -
  define i1 where "i1 = (if lc_can_transition ''terminate'' (ai_lifecycle inst) then snd (fire now ''terminate'' None inst)
      else fire_if_possible now ''force_terminate'' None inst)"
  have fin: "ai_stop_finish now inst = fire_if_possible now ''terminated'' None (i1\<lparr>ai_has_agent := False\<rparr>)"
    by (simp add: ai_stop_finish_def Let_def i1_def)
  have "lifecycle_ok (ai_lifecycle i1)" using assms by (simp add: i1_def fire_simps)
  moreover have "ai_status i1 \<in> {TERMINATING, TERMINATED}"
    using assms by (cases "ai_status inst") (simp_all add: i1_def can_fire fire_simps)
  ultimately show "ai_status (ai_stop_finish now inst) = TERMINATED" and "lifecycle_ok (ai_lifecycle (ai_stop_finish now inst))"
    and "\<not> ai_has_agent (ai_stop_finish now inst)"
    by (auto simp: fin fire_simps)
qed

lemma stop_finish_fields [simp]:
  "ai_id (ai_stop_finish now inst) = ai_id inst" "ai_config (ai_stop_finish now inst) = ai_config inst"
  "ai_slots (ai_stop_finish now inst) = ai_slots inst" "ai_active_requests (ai_stop_finish now inst) = ai_active_requests inst"
  "ai_metrics (ai_stop_finish now inst) = ai_metrics inst" "ai_latencies (ai_stop_finish now inst) = ai_latencies inst"
  by (simp_all add: ai_stop_finish_def Let_def)

lemma stop_finish_ok:
  assumes "instance_ok inst"
  shows "instance_ok (ai_stop_finish now inst)"
proof -
  have "lifecycle_ok (ai_lifecycle inst)" using assms by (simp add: instance_ok_def)
  then show ?thesis using assms stop_finish_status [of inst now] by (simp add: instance_ok_def)
qed

lemma guarded_ok:
  assumes "instance_ok inst"
  shows "instance_ok (ai_pause now inst)" "instance_ok (ai_resume now inst)" "instance_ok (ai_stop_begin now graceful inst)"
    "instance_ok (ai_mark_unhealthy now err inst)" "instance_ok (ai_mark_recovered now inst)"
proof -
  show pause: "instance_ok (ai_pause now inst)"
    unfolding ai_pause_def by (rule fire_if_possible_ok [OF assms]) (auto split: if_splits)
  show "instance_ok (ai_resume now inst)"
    unfolding ai_resume_def by (rule fire_if_possible_ok [OF assms]) (auto split: if_splits)
  show "instance_ok (ai_stop_begin now graceful inst)"
    using pause assms by (simp add: ai_stop_begin_def ai_pause_def)
  show "instance_ok (ai_mark_unhealthy now err inst)"
    unfolding ai_mark_unhealthy_def by (rule fire_if_possible_ok [OF assms]) (auto split: if_splits)
  show "instance_ok (ai_mark_recovered now inst)"
    unfolding ai_mark_recovered_def by (rule fire_if_possible_ok [OF assms]) (auto split: if_splits)
qed

lemma health_check_ok: "instance_ok inst \<Longrightarrow> instance_ok (snd (ai_health_check now inst))"
  by (auto simp: ai_health_check_def Let_def instance_ok_def)

lemma instance_step_ok: "instance_ok inst \<Longrightarrow> instance_ok (instance_step inst ev)"
  by (cases ev) (simp_all add: initialize_ok enter_ok leave_ok stop_finish_ok guarded_ok health_check_ok)

interpretation pooled: invariant_machine instance_step instance_ok
  by unfold_locales (rule instance_step_ok)

lemma instance_init_ok: "instance_init now iid cfg has_agent = Some inst \<Longrightarrow> instance_ok inst"
  by (auto simp: instance_init_def Let_def instance_ok_def lifecycle_init_ok metrics_ok_def new_metrics_def split: if_splits)
    (simp_all add: lifecycle_init_def lc_record_event_def Let_def)

lemma init_failed_fields [simp]:
  "ai_config (snd (ai_init_failed now inst)) = ai_config inst" "ai_id (snd (ai_init_failed now inst)) = ai_id inst"
  by (simp_all add: ai_init_failed_def case_prod_beta split: sum.split)

lemma initialize_fields [simp]:
  "ai_config (snd (ai_initialize now created inst)) = ai_config inst" "ai_id (snd (ai_initialize now created inst)) = ai_id inst"
  by (simp_all add: ai_initialize_def case_prod_beta split: sum.split)

lemma guarded_fields [simp]:
  "ai_config (ai_pause now inst) = ai_config inst" "ai_id (ai_pause now inst) = ai_id inst"
  "ai_config (ai_resume now inst) = ai_config inst" "ai_id (ai_resume now inst) = ai_id inst"
  "ai_config (ai_stop_begin now graceful inst) = ai_config inst" "ai_id (ai_stop_begin now graceful inst) = ai_id inst"
  "ai_config (ai_mark_unhealthy now err inst) = ai_config inst" "ai_id (ai_mark_unhealthy now err inst) = ai_id inst"
  "ai_config (ai_mark_recovered now inst) = ai_config inst" "ai_id (ai_mark_recovered now inst) = ai_id inst"
  "ai_config (snd (ai_health_check now inst)) = ai_config inst" "ai_id (snd (ai_health_check now inst)) = ai_id inst"
  by (simp_all add: ai_pause_def ai_resume_def ai_stop_begin_def ai_mark_unhealthy_def ai_mark_recovered_def ai_health_check_def Let_def)

lemma execute_fields [simp]:
  "ai_config (ai_execute_enter now inst) = ai_config inst" "ai_id (ai_execute_enter now inst) = ai_id inst"
  "ai_config (ai_execute_leave now outcome latency inst) = ai_config inst" "ai_id (ai_execute_leave now outcome latency inst) = ai_id inst"
  by (simp_all add: ai_execute_enter_def ai_execute_leave_def Let_def split: request_outcome.splits)

lemma instance_step_fields [simp]:
  "ai_config (instance_step inst ev) = ai_config inst" "ai_id (instance_step inst ev) = ai_id inst"
  by (cases ev; simp)+

section \<open>Properties\<close>

text \<open>
  C21: whatever requests, pauses, health marks, checks and stops interleave, an instance never runs more
  requests than \<open>max_concurrent_requests\<close>, its free slots and its running requests always add up to that
  number, it is \<open>EXECUTING\<close> only while a request runs, a new request is refused exactly when the status
  is not an active one (an active instance always has its agent), and the request counters and latency
  percentiles are consistent.
\<close>

theorem instance_requests_bounded:
  assumes "instance_init now iid cfg has_agent = Some i0" and "inst = foldl instance_step i0 evs"
  shows "0 \<le> ai_active_requests inst \<and> ai_active_requests inst \<le> q_max_concurrent_requests (ic_quota cfg) \<and>
    ai_slots inst + ai_active_requests inst = q_max_concurrent_requests (ic_quota cfg) \<and>
    (ai_status inst = EXECUTING \<longrightarrow> 0 < ai_active_requests inst) \<and>
    (ai_execute_check inst = None \<longleftrightarrow> status_active (ai_status inst)) \<and> metrics_ok (ai_metrics inst) \<and>
    lifecycle_ok (ai_lifecycle inst)"
proof -
  have "ai_config (foldl instance_step i es) = ai_config i" for i es
    by (induction es arbitrary: i) simp_all
  then have "ai_config inst = cfg" using assms by (auto simp: instance_init_def Let_def split: if_splits)
  moreover have "instance_ok inst"
    unfolding assms(2) by (rule pooled.run_inv [OF instance_init_ok [OF assms(1)]])
  ultimately show ?thesis
    by (auto simp: instance_ok_def ai_execute_check_def lc_is_active_def)
qed

definition sample_instance :: agent_instance where
  "sample_instance = the (instance_init 0 ''i1'' (new_instance_config ''p'' ''t'' ''default'' COLD (tc_default_quota cold_tier_config)) False)"

lemma sample_instance_init:
  "instance_init 0 ''i1'' (new_instance_config ''p'' ''t'' ''default'' COLD (tc_default_quota cold_tier_config)) False = Some sample_instance"
  by (simp add: sample_instance_def instance_init_def Let_def new_instance_config_def cold_tier_config_def tier_quota_def)

definition sample_instance_events :: "instance_event list" where
  "sample_instance_events = [Initialize 1 True, Enter 2, Enter 3, Enter 4, Enter 5, Leave 6 Streamed 7, Pause 7, Leave 8 StreamFailed 9]"

theorem instance_requests_bounded_witness:
  "let inst = foldl instance_step sample_instance sample_instance_events
   in ai_status inst = PAUSED \<and> ai_active_requests inst = 1 \<and> ai_active_requests inst \<le> 3 \<and> metrics_ok (ai_metrics inst)"
proof -
  define inst where "inst = foldl instance_step sample_instance sample_instance_events"
  have "ai_status inst = PAUSED" "ai_active_requests inst = 1" unfolding inst_def by code_simp+
  then show ?thesis
    using instance_requests_bounded [OF sample_instance_init inst_def] unfolding inst_def Let_def by simp
qed

lemma terminated_stays:
  assumes "instance_ok inst" and "ai_status inst = TERMINATED" and "\<not> ai_has_agent inst"
  shows "ai_status (instance_step inst ev) = TERMINATED \<and> \<not> ai_has_agent (instance_step inst ev)"
proof -
  have ok: "lifecycle_ok (ai_lifecycle inst)" using assms(1) by (simp add: instance_ok_def)
  note [simp] = fire_if_possible_status(1) [OF ok]
  show ?thesis
  proof (cases ev)
    case (Initialize now created)
    then show ?thesis using assms by (simp add: initialize_eq [OF ok])
  next
    case (Leave now outcome latency)
    then show ?thesis using assms by (cases outcome) (simp_all add: ai_execute_leave_def Let_def)
  next
    case (StopFinish now)
    then show ?thesis using stop_finish_status [OF ok] by simp
  qed (use assms in \<open>simp_all add: ai_execute_enter_def ai_health_check_def ai_pause_def ai_resume_def ai_stop_begin_def
      ai_mark_unhealthy_def ai_mark_recovered_def Let_def\<close>)
qed

lemma terminated_forever:
  "instance_ok inst \<Longrightarrow> ai_status inst = TERMINATED \<Longrightarrow> \<not> ai_has_agent inst \<Longrightarrow>
   ai_status (foldl instance_step inst evs) = TERMINATED \<and> \<not> ai_has_agent (foldl instance_step inst evs)"
proof (induction evs arbitrary: inst)
  case (Cons ev evs)
  then show ?case using terminated_stays [of inst ev] instance_step_ok [of inst ev] by simp
qed simp

text \<open>
  C22: stopping an instance always succeeds and is final: from whatever status the instance is in, the
  last part of \<open>stop\<close> ends in \<open>TERMINATED\<close> without an agent, and no later event, not even a new
  \<open>initialize\<close>, ever gets it out of there or lets a new request start.
\<close>

theorem stop_is_final:
  assumes "instance_init t0 iid cfg has_agent = Some i0" and "inst = foldl instance_step i0 evs"
  shows "let stopped = foldl instance_step (ai_stop_finish now inst) later
    in ai_status (ai_stop_finish now inst) = TERMINATED \<and> ai_status stopped = TERMINATED \<and> \<not> ai_has_agent stopped \<and>
       ai_execute_check stopped = Some (InstanceNotActive TERMINATED)"
proof -
  have ok: "instance_ok inst" unfolding assms(2) by (rule pooled.run_inv [OF instance_init_ok [OF assms(1)]])
  then have "lifecycle_ok (ai_lifecycle inst)" by (simp add: instance_ok_def)
  note st = stop_finish_status [OF this, of now]
  then have "ai_status (foldl instance_step (ai_stop_finish now inst) later) = TERMINATED \<and>
      \<not> ai_has_agent (foldl instance_step (ai_stop_finish now inst) later)"
    using terminated_forever [OF stop_finish_ok [OF ok]] by blast
  then show ?thesis using st by (simp add: Let_def ai_execute_check_def lc_is_active_def)
qed

theorem stop_is_final_witness:
  "let inst = foldl instance_step sample_instance sample_instance_events;
       stopped = foldl instance_step (ai_stop_finish 9 inst) [Initialize 10 True, Resume 11, Enter 12]
   in ai_status inst = PAUSED \<and> ai_status stopped = TERMINATED \<and> \<not> ai_has_agent stopped"
proof -
  define inst where "inst = foldl instance_step sample_instance sample_instance_events"
  have "ai_status inst = PAUSED" unfolding inst_def by code_simp
  then show ?thesis
    using stop_is_final [OF sample_instance_init inst_def, of 9 "[Initialize 10 True, Resume 11, Enter 12]"]
    unfolding inst_def Let_def by simp
qed

end
