(* ===== verification/PoolHealth.thy ===== *)
theory PoolHealth
  imports PoolInstance
begin

text \<open>
  The health monitor of the agent pool: \<open>src/infrastructure/agent/pool/health/monitor.py\<close>. One check is one
  step; whether the instance's own check returns, times out or raises is an input. The two callbacks
  are answers of the step: the pool manager reacts to them.
\<close>

section \<open>Data\<close>

record health_config =
  hc_unhealthy_threshold :: int
  hc_healthy_threshold :: int
  hc_degraded_error_rate :: real
  hc_unhealthy_error_rate :: real
  hc_memory_critical_pct :: real
  hc_max_recovery_attempts :: int
  hc_recovery_cooldown_seconds :: int

definition default_health_config :: health_config where
  "default_health_config = \<lparr>hc_unhealthy_threshold = 3, hc_healthy_threshold = 2, hc_degraded_error_rate = 1 / 10,
     hc_unhealthy_error_rate = 1 / 2, hc_memory_critical_pct = 95, hc_max_recovery_attempts = 3, hc_recovery_cooldown_seconds = 60\<rparr>"

datatype recovery_action = RESTART | MIGRATE | DEGRADE | ALERT | TERMINATE

record health_state =
  hs_instance_id :: string
  hs_consecutive_failures :: int
  hs_consecutive_successes :: int
  hs_recovery_attempts :: int
  hs_last_recovery_at :: "int option"
  hs_last_check_result :: "health_result option"
  hs_history :: "health_result list"

definition new_health_state :: "string \<Rightarrow> health_state" where
  "new_health_state iid = \<lparr>hs_instance_id = iid, hs_consecutive_failures = 0, hs_consecutive_successes = 0,
     hs_recovery_attempts = 0, hs_last_recovery_at = None, hs_last_check_result = None, hs_history = []\<rparr>"

definition hs_record_check :: "health_result \<Rightarrow> health_state \<Rightarrow> health_state" where
  "hs_record_check r hs =
     (let h = hs_history hs @ [r]; h' = (if length h > 100 then py_last_n 100 h else h);
          hs1 = hs\<lparr>hs_last_check_result := Some r, hs_history := h'\<rparr>
      in if hr_status r = HEALTHY
         then hs1\<lparr>hs_consecutive_successes := hs_consecutive_successes hs1 + 1, hs_consecutive_failures := 0\<rparr>
         else hs1\<lparr>hs_consecutive_failures := hs_consecutive_failures hs1 + 1, hs_consecutive_successes := 0\<rparr>)"

definition hs_can_attempt_recovery :: "health_config \<Rightarrow> int \<Rightarrow> health_state \<Rightarrow> bool" where
  "hs_can_attempt_recovery cfg now hs =
     (if hs_recovery_attempts hs \<ge> hc_max_recovery_attempts cfg then False
      else case hs_last_recovery_at hs of
             None \<Rightarrow> True
           | Some t \<Rightarrow> \<not> real_of_int (now - t) / 1000000 < of_int (hc_recovery_cooldown_seconds cfg))"

definition hs_record_recovery_attempt :: "int \<Rightarrow> health_state \<Rightarrow> health_state" where
  "hs_record_recovery_attempt now hs = hs\<lparr>hs_recovery_attempts := hs_recovery_attempts hs + 1, hs_last_recovery_at := Some now\<rparr>"

definition hs_reset_recovery_state :: "health_state \<Rightarrow> health_state" where
  "hs_reset_recovery_state hs = hs\<lparr>hs_recovery_attempts := 0, hs_last_recovery_at := None\<rparr>"

record health_monitor =
  hm_config :: health_config
  hm_states :: "(string, health_state) dict"
  hm_monitored :: "string list"

definition health_monitor_init :: "health_config \<Rightarrow> health_monitor" where
  "health_monitor_init cfg = \<lparr>hm_config = cfg, hm_states = [], hm_monitored = []\<rparr>"

section \<open>Checks\<close>

datatype check_outcome = CheckReturns | CheckTimesOut | CheckRaises string

datatype monitor_callback = OnUnhealthy health_result | OnRecovered

definition hm_record :: "string \<Rightarrow> health_result \<Rightarrow> health_monitor \<Rightarrow> health_monitor" where
  "hm_record iid r hm =
     hm\<lparr>hm_states := dict_set iid (hs_record_check r (dict_get_default (hm_states hm) iid (new_health_state iid))) (hm_states hm)\<rparr>"

definition check_instance ::
  "int \<Rightarrow> check_outcome \<Rightarrow> agent_instance \<Rightarrow> health_monitor \<Rightarrow> health_result \<times> monitor_callback option \<times> agent_instance \<times> health_monitor" where
  "check_instance now outcome inst hm =
     (case outcome of
        CheckReturns \<Rightarrow>
          let (r, inst1) = ai_health_check now inst; hm1 = hm_record (ai_id inst) r hm;
              hs = dict_get_default (hm_states hm1) (ai_id inst) (new_health_state (ai_id inst))
          in if hs_consecutive_failures hs \<ge> hc_unhealthy_threshold (hm_config hm)
             then if ai_status inst1 \<notin> {UNHEALTHY, TERMINATING, TERMINATED}
                  then (r, Some (OnUnhealthy r), ai_mark_unhealthy now (hr_error_message r) inst1, hm1)
                  else (r, None, inst1, hm1)
             else if hs_consecutive_successes hs \<ge> hc_healthy_threshold (hm_config hm)
             then if ai_status inst1 = UNHEALTHY
                  then (r, Some OnRecovered, ai_mark_recovered now inst1,
                        hm1\<lparr>hm_states := dict_set (ai_id inst) (hs_reset_recovery_state hs) (hm_states hm1)\<rparr>)
                  else (r, None, inst1, hm1)
             else (r, None, inst1, hm1)
      | CheckTimesOut \<Rightarrow>
          let r = unhealthy_result now ''Health check timeout'' in (r, None, inst, hm_record (ai_id inst) r hm)
      | CheckRaises msg \<Rightarrow>
          let r = (unhealthy_result now msg)\<lparr>hr_status := UNKNOWN\<rparr> in (r, None, inst, hm_record (ai_id inst) r hm))"

definition hm_start_monitoring :: "string \<Rightarrow> health_monitor \<Rightarrow> health_monitor" where
  "hm_start_monitoring iid hm = (if iid \<in> set (hm_monitored hm) then hm else hm\<lparr>hm_monitored := hm_monitored hm @ [iid]\<rparr>)"

definition hm_stop_monitoring :: "string \<Rightarrow> health_monitor \<Rightarrow> health_monitor" where
  "hm_stop_monitoring iid hm = hm\<lparr>hm_monitored := filter (\<lambda>i. i \<noteq> iid) (hm_monitored hm)\<rparr>"

section \<open>Recovery\<close>

text \<open>\<open>sub in s\<close>.\<close>

fun is_prefix :: "string \<Rightarrow> string \<Rightarrow> bool" where
  "is_prefix [] ys = True"
| "is_prefix (x # xs) [] = False"
| "is_prefix (x # xs) (y # ys) = (x = y \<and> is_prefix xs ys)"

fun occurs_in :: "string \<Rightarrow> string \<Rightarrow> bool" where
  "occurs_in sub [] = (sub = [])"
| "occurs_in sub (y # ys) = (is_prefix sub (y # ys) \<or> occurs_in sub ys)"

definition determine_recovery_action :: "int \<Rightarrow> string \<Rightarrow> health_result \<Rightarrow> health_monitor \<Rightarrow> recovery_action" where
  "determine_recovery_action now iid r hm =
     (case dict_get (hm_states hm) iid of
        None \<Rightarrow> ALERT
      | Some hs \<Rightarrow>
          let cfg = hm_config hm; msg = py_lower (case hr_error_message r of None \<Rightarrow> [] | Some m \<Rightarrow> m)
          in if \<not> hs_can_attempt_recovery cfg now hs then TERMINATE
             else if list_ex (\<lambda>kw. occurs_in kw msg) [''connection'', ''timeout'', ''network''] then RESTART
             else if hr_memory_usage_pct r > hc_memory_critical_pct cfg then MIGRATE
             else if hc_degraded_error_rate cfg \<le> hr_error_rate r \<and> hr_error_rate r < hc_unhealthy_error_rate cfg then DEGRADE
             else RESTART)"

definition handle_unhealthy :: "int \<Rightarrow> string \<Rightarrow> health_result \<Rightarrow> health_monitor \<Rightarrow> recovery_action \<times> health_monitor" where
  "handle_unhealthy now iid r hm =
     (determine_recovery_action now iid r hm,
      case dict_get (hm_states hm) iid of
        None \<Rightarrow> hm
      | Some hs \<Rightarrow> hm\<lparr>hm_states := dict_set iid (hs_record_recovery_attempt now hs) (hm_states hm)\<rparr>)"

section \<open>What the monitor detects\<close>

definition trailing :: "(health_result \<Rightarrow> bool) \<Rightarrow> health_result list \<Rightarrow> nat" where
  "trailing P rs = length (takeWhile P (rev rs))"

definition healthy :: "health_result \<Rightarrow> bool" where
  "healthy r \<longleftrightarrow> hr_status r = HEALTHY"

abbreviation recorded :: "string \<Rightarrow> health_result list \<Rightarrow> health_state" where
  "recorded iid rs \<equiv> foldl (\<lambda>hs r. hs_record_check r hs) (new_health_state iid) rs"

lemma record_check_fields:
  "hs_consecutive_failures (hs_record_check r hs) = (if healthy r then 0 else hs_consecutive_failures hs + 1)"
  "hs_consecutive_successes (hs_record_check r hs) = (if healthy r then hs_consecutive_successes hs + 1 else 0)"
  "hs_recovery_attempts (hs_record_check r hs) = hs_recovery_attempts hs"
  "hs_last_recovery_at (hs_record_check r hs) = hs_last_recovery_at hs"
  by (simp_all add: hs_record_check_def Let_def healthy_def)

lemma recorded_counts:
  "hs_consecutive_failures (recorded iid rs) = int (trailing (\<lambda>r. \<not> healthy r) rs)"
  "hs_consecutive_successes (recorded iid rs) = int (trailing healthy rs)"
  by (induction rs rule: rev_induct) (simp_all add: record_check_fields trailing_def new_health_state_def)

lemma hm_record_state:
  "dict_get_default (hm_states (hm_record iid r hm)) iid dflt =
     hs_record_check r (dict_get_default (hm_states hm) iid (new_health_state iid))"
  by (simp add: hm_record_def dict_get_default_def dict_get_set)

lemma health_check_status [simp]: "ai_lifecycle (snd (ai_health_check now inst)) = ai_lifecycle inst"
  by (simp add: ai_health_check_def Let_def)


definition failing_instance :: agent_instance where
  "failing_instance = foldl instance_step sample_instance [Initialize 1 True, Enter 2, Leave 3 StreamFailed 4]"

lemma failing_instance_ok: "instance_ok failing_instance"
  unfolding failing_instance_def by (rule pooled.run_inv [OF instance_init_ok [OF sample_instance_init]])


text \<open>
  A check that times out is recorded as a failure but never acted upon: an instance all of whose
  checks time out is never marked, however many there are.
\<close>

fun timed_out_checks :: "int list \<Rightarrow> agent_instance \<Rightarrow> health_monitor \<Rightarrow> agent_instance \<times> health_monitor" where
  "timed_out_checks [] inst hm = (inst, hm)"
| "timed_out_checks (t # ts) inst hm = (let (_, _, i, m) = check_instance t CheckTimesOut inst hm in timed_out_checks ts i m)"

lemma timeouts_never_mark_unhealthy:
  "fst (timed_out_checks ts inst hm) = inst \<and>
   hs_consecutive_failures (dict_get_default (hm_states (snd (timed_out_checks ts inst hm))) (ai_id inst) (new_health_state (ai_id inst))) =
   hs_consecutive_failures (dict_get_default (hm_states hm) (ai_id inst) (new_health_state (ai_id inst))) + int (length ts)"
proof (induction ts arbitrary: hm)
  case (Cons t ts)
  let ?r = "unhealthy_result t ''Health check timeout''"
  have "\<not> healthy ?r" by (simp add: healthy_def unhealthy_result_def)
  then show ?case
    using Cons [of "hm_record (ai_id inst) ?r hm"]
    by (simp add: check_instance_def Let_def hm_record_state record_check_fields)
qed simp

end
