(* ===== verification/PoolResource.thy ===== *)
theory PoolResource
  imports PoolConfig "HOL-Library.Multiset"
begin

text \<open>
  The resource manager of the agent pool: \<open>src/infrastructure/agent/pool/resource/manager.py\<close>. It keeps
  one allocation record per project and three global counters. Every operation holds the lock, so each
  is one step; the clock is an argument.

  The specification is what the counters stand for: the bag of live instances with the memory and CPU
  each of them holds, and the bag of running requests. The manager is shown to refine it, as long as
  its clients give back only what they took.
\<close>

section \<open>The manager\<close>

record allocation =
  al_project_id :: string
  al_tenant_id :: string
  al_tier :: project_tier
  al_quota :: resource_quota
  al_memory_used_mb :: real
  al_cpu_used_cores :: real
  al_active_instances :: int
  al_active_requests :: int
  al_allocated_at :: int
  al_updated_at :: int

definition allocation_key :: "string \<Rightarrow> string \<Rightarrow> string" where
  "allocation_key tenant project = tenant @ '':'' @ project"

definition can_allocate_instance :: "allocation \<Rightarrow> bool" where
  "can_allocate_instance a \<longleftrightarrow> al_active_instances a < q_max_instances (al_quota a)"

definition can_accept_request :: "allocation \<Rightarrow> bool" where
  "can_accept_request a \<longleftrightarrow> al_active_requests a < q_max_instances (al_quota a) * q_max_concurrent_requests (al_quota a)"

record resource_manager =
  rm_config :: pool_config
  rm_allocations :: "(string, allocation) dict"
  rm_total_memory_mb :: real
  rm_total_cpu_cores :: real
  rm_total_instances :: int

datatype quota_exceeded =
    ProjectInstancesExceeded string int int
  | TotalInstancesExceeded int int
  | TotalMemoryExceeded real int
  | TotalCpuExceeded real real

definition rm_init :: "pool_config \<Rightarrow> resource_manager" where
  "rm_init cfg = \<lparr>rm_config = cfg, rm_allocations = [], rm_total_memory_mb = 0, rm_total_cpu_cores = 0, rm_total_instances = 0\<rparr>"

definition rm_allocate :: "int \<Rightarrow> instance_config \<Rightarrow> resource_manager \<Rightarrow> (quota_exceeded + allocation) \<times> resource_manager" where
  "rm_allocate now c rm =
     (let key = allocation_key (ic_tenant_id c) (ic_project_id c); cfg = rm_config rm; quota = ic_quota c
      in case dict_get (rm_allocations rm) key of
           Some a \<Rightarrow>
             if \<not> can_allocate_instance a
             then (Inl (ProjectInstancesExceeded (ic_project_id c) (al_active_instances a) (q_max_instances (al_quota a))), rm)
             else (Inr a, rm)
         | None \<Rightarrow>
             if rm_total_instances rm \<ge> plc_max_total_instances cfg
             then (Inl (TotalInstancesExceeded (rm_total_instances rm) (plc_max_total_instances cfg)), rm)
             else if rm_total_memory_mb rm + of_int (q_memory_request_mb quota) > of_int (plc_max_total_memory_mb cfg)
             then (Inl (TotalMemoryExceeded (rm_total_memory_mb rm + of_int (q_memory_request_mb quota)) (plc_max_total_memory_mb cfg)), rm)
             else if rm_total_cpu_cores rm + q_cpu_request_cores quota > plc_max_total_cpu_cores cfg
             then (Inl (TotalCpuExceeded (rm_total_cpu_cores rm + q_cpu_request_cores quota) (plc_max_total_cpu_cores cfg)), rm)
             else let a = \<lparr>al_project_id = ic_project_id c, al_tenant_id = ic_tenant_id c, al_tier = ic_tier c, al_quota = quota,
                           al_memory_used_mb = 0, al_cpu_used_cores = 0, al_active_instances = 0, al_active_requests = 0,
                           al_allocated_at = now, al_updated_at = now\<rparr>
                  in (Inr a, rm\<lparr>rm_allocations := dict_set key a (rm_allocations rm)\<rparr>))"

definition rm_release :: "string \<Rightarrow> string \<Rightarrow> resource_manager \<Rightarrow> bool \<times> resource_manager" where
  "rm_release tenant project rm =
     (let key = allocation_key tenant project
      in case dict_get (rm_allocations rm) key of
           None \<Rightarrow> (False, rm)
         | Some a \<Rightarrow>
             if al_active_instances a > 0 then (False, rm)
             else (True, rm\<lparr>rm_total_memory_mb := rm_total_memory_mb rm - al_memory_used_mb a,
                            rm_total_cpu_cores := rm_total_cpu_cores rm - al_cpu_used_cores a,
                            rm_allocations := dict_pop key (rm_allocations rm)\<rparr>))"

definition rm_acquire_instance :: "int \<Rightarrow> string \<Rightarrow> string \<Rightarrow> real \<Rightarrow> real \<Rightarrow> resource_manager \<Rightarrow> bool \<times> resource_manager" where
  "rm_acquire_instance now tenant project memory cpu rm =
     (let key = allocation_key tenant project; cfg = rm_config rm
      in case dict_get (rm_allocations rm) key of
           None \<Rightarrow> (False, rm)
         | Some a \<Rightarrow>
             if \<not> can_allocate_instance a then (False, rm)
             else if rm_total_instances rm \<ge> plc_max_total_instances cfg then (False, rm)
             else if rm_total_memory_mb rm + memory > of_int (plc_max_total_memory_mb cfg) then (False, rm)
             else if rm_total_cpu_cores rm + cpu > plc_max_total_cpu_cores cfg then (False, rm)
             else let a' = a\<lparr>al_active_instances := al_active_instances a + 1, al_memory_used_mb := al_memory_used_mb a + memory,
                             al_cpu_used_cores := al_cpu_used_cores a + cpu, al_updated_at := now\<rparr>
                  in (True, rm\<lparr>rm_allocations := dict_set key a' (rm_allocations rm),
                               rm_total_instances := rm_total_instances rm + 1,
                               rm_total_memory_mb := rm_total_memory_mb rm + memory,
                               rm_total_cpu_cores := rm_total_cpu_cores rm + cpu\<rparr>))"

definition rm_release_instance :: "int \<Rightarrow> string \<Rightarrow> string \<Rightarrow> real \<Rightarrow> real \<Rightarrow> resource_manager \<Rightarrow> bool \<times> resource_manager" where
  "rm_release_instance now tenant project memory cpu rm =
     (let key = allocation_key tenant project
      in case dict_get (rm_allocations rm) key of
           None \<Rightarrow> (False, rm)
         | Some a \<Rightarrow>
             let a' = a\<lparr>al_active_instances := max 0 (al_active_instances a - 1), al_memory_used_mb := max 0 (al_memory_used_mb a - memory),
                        al_cpu_used_cores := max 0 (al_cpu_used_cores a - cpu), al_updated_at := now\<rparr>
             in (True, rm\<lparr>rm_allocations := dict_set key a' (rm_allocations rm),
                          rm_total_instances := max 0 (rm_total_instances rm - 1),
                          rm_total_memory_mb := max 0 (rm_total_memory_mb rm - memory),
                          rm_total_cpu_cores := max 0 (rm_total_cpu_cores rm - cpu)\<rparr>))"

definition rm_acquire_request :: "int \<Rightarrow> string \<Rightarrow> string \<Rightarrow> resource_manager \<Rightarrow> bool \<times> resource_manager" where
  "rm_acquire_request now tenant project rm =
     (let key = allocation_key tenant project
      in case dict_get (rm_allocations rm) key of
           None \<Rightarrow> (False, rm)
         | Some a \<Rightarrow>
             if \<not> can_accept_request a then (False, rm)
             else (True, rm\<lparr>rm_allocations :=
                     dict_set key (a\<lparr>al_active_requests := al_active_requests a + 1, al_updated_at := now\<rparr>) (rm_allocations rm)\<rparr>))"

definition rm_release_request :: "int \<Rightarrow> string \<Rightarrow> string \<Rightarrow> resource_manager \<Rightarrow> bool \<times> resource_manager" where
  "rm_release_request now tenant project rm =
     (let key = allocation_key tenant project
      in case dict_get (rm_allocations rm) key of
           None \<Rightarrow> (False, rm)
         | Some a \<Rightarrow>
             (True, rm\<lparr>rm_allocations :=
                dict_set key (a\<lparr>al_active_requests := max 0 (al_active_requests a - 1), al_updated_at := now\<rparr>) (rm_allocations rm)\<rparr>))"

definition rm_update_quota :: "int \<Rightarrow> string \<Rightarrow> string \<Rightarrow> resource_quota \<Rightarrow> resource_manager \<Rightarrow> bool \<times> resource_manager" where
  "rm_update_quota now tenant project quota rm =
     (let key = allocation_key tenant project
      in case dict_get (rm_allocations rm) key of
           None \<Rightarrow> (False, rm)
         | Some a \<Rightarrow>
             if quota_validate quota \<noteq> [] then (False, rm)
             else if al_active_instances a > q_max_instances quota then (False, rm)
             else (True, rm\<lparr>rm_allocations := dict_set key (a\<lparr>al_quota := quota, al_updated_at := now\<rparr>) (rm_allocations rm)\<rparr>))"

record resource_usage =
  ru_memory_used_mb :: real
  ru_memory_limit_mb :: real
  ru_cpu_used_cores :: real
  ru_cpu_limit_cores :: real
  ru_active_instances :: int
  ru_max_instances :: int
  ru_active_requests :: int
  ru_max_concurrent_requests :: int

definition rm_get_usage :: "string \<Rightarrow> string \<Rightarrow> resource_manager \<Rightarrow> resource_usage option" where
  "rm_get_usage tenant project rm =
     map_option (\<lambda>a. \<lparr>ru_memory_used_mb = al_memory_used_mb a, ru_memory_limit_mb = of_int (q_memory_limit_mb (al_quota a)),
        ru_cpu_used_cores = al_cpu_used_cores a, ru_cpu_limit_cores = q_cpu_limit_cores (al_quota a),
        ru_active_instances = al_active_instances a, ru_max_instances = q_max_instances (al_quota a),
        ru_active_requests = al_active_requests a,
        ru_max_concurrent_requests = q_max_instances (al_quota a) * q_max_concurrent_requests (al_quota a)\<rparr>)
       (dict_get (rm_allocations rm) (allocation_key tenant project))"

definition rm_get_global_usage :: "resource_manager \<Rightarrow> resource_usage" where
  "rm_get_global_usage rm =
     \<lparr>ru_memory_used_mb = rm_total_memory_mb rm, ru_memory_limit_mb = of_int (plc_max_total_memory_mb (rm_config rm)),
      ru_cpu_used_cores = rm_total_cpu_cores rm, ru_cpu_limit_cores = plc_max_total_cpu_cores (rm_config rm),
      ru_active_instances = rm_total_instances rm, ru_max_instances = plc_max_total_instances (rm_config rm),
      ru_active_requests = sum_list (map al_active_requests (dict_values (rm_allocations rm))),
      ru_max_concurrent_requests =
        sum_list (map (\<lambda>a. q_max_instances (al_quota a) * q_max_concurrent_requests (al_quota a)) (dict_values (rm_allocations rm)))\<rparr>"

section \<open>The specification\<close>

type_synonym held = "string \<times> real \<times> real"

record pool_spec =
  ps_config :: pool_config
  ps_quotas :: "string \<Rightarrow> resource_quota option"
  ps_live :: "held multiset"
  ps_requests :: "string multiset"

definition of_key :: "string \<Rightarrow> held multiset \<Rightarrow> held multiset" where
  "of_key k L = filter_mset (\<lambda>x. fst x = k) L"

definition held_memory :: "held multiset \<Rightarrow> real" where
  "held_memory L = sum_mset (image_mset (\<lambda>x. fst (snd x)) L)"

definition held_cpu :: "held multiset \<Rightarrow> real" where
  "held_cpu L = sum_mset (image_mset (\<lambda>x. snd (snd x)) L)"

definition room_for :: "real \<Rightarrow> real \<Rightarrow> pool_spec \<Rightarrow> bool" where
  "room_for memory cpu sp \<longleftrightarrow>
     int (size (ps_live sp)) < plc_max_total_instances (ps_config sp) \<and>
     held_memory (ps_live sp) + memory \<le> of_int (plc_max_total_memory_mb (ps_config sp)) \<and>
     held_cpu (ps_live sp) + cpu \<le> plc_max_total_cpu_cores (ps_config sp)"

definition spec_init :: "pool_config \<Rightarrow> pool_spec" where
  "spec_init cfg = \<lparr>ps_config = cfg, ps_quotas = Map.empty, ps_live = {#}, ps_requests = {#}\<rparr>"

datatype rm_call =
    Allocate int instance_config
  | ReleaseProject string string
  | AcquireInstance int string string real real
  | ReleaseInstance int string string real real
  | AcquireRequest int string string
  | ReleaseRequest int string string
  | UpdateQuota int string string resource_quota

fun rm_step :: "resource_manager \<Rightarrow> rm_call \<Rightarrow> bool \<times> resource_manager" where
  "rm_step rm (Allocate now c) = (let (r, rm') = rm_allocate now c rm in (case r of Inl _ \<Rightarrow> False | Inr _ \<Rightarrow> True, rm'))"
| "rm_step rm (ReleaseProject t p) = rm_release t p rm"
| "rm_step rm (AcquireInstance now t p m c) = rm_acquire_instance now t p m c rm"
| "rm_step rm (ReleaseInstance now t p m c) = rm_release_instance now t p m c rm"
| "rm_step rm (AcquireRequest now t p) = rm_acquire_request now t p rm"
| "rm_step rm (ReleaseRequest now t p) = rm_release_request now t p rm"
| "rm_step rm (UpdateQuota now t p q) = rm_update_quota now t p q rm"

text \<open>
  A client breaks the contract when it asks for a negative amount, or gives back an instance or a
  request that is not live; everything else has an answer.
\<close>

fun spec_step :: "pool_spec \<Rightarrow> rm_call \<Rightarrow> (bool \<times> pool_spec) option" where
  "spec_step sp (Allocate now c) =
     (let k = allocation_key (ic_tenant_id c) (ic_project_id c)
      in case ps_quotas sp k of
           Some q \<Rightarrow> Some (int (size (of_key k (ps_live sp))) < q_max_instances q, sp)
         | None \<Rightarrow>
             if room_for (of_int (q_memory_request_mb (ic_quota c))) (q_cpu_request_cores (ic_quota c)) sp
             then Some (True, sp\<lparr>ps_quotas := (ps_quotas sp)(k \<mapsto> ic_quota c)\<rparr>) else Some (False, sp))"
| "spec_step sp (ReleaseProject t p) =
     (let k = allocation_key t p
      in if ps_quotas sp k = None \<or> of_key k (ps_live sp) \<noteq> {#} then Some (False, sp)
         else Some (True, sp\<lparr>ps_quotas := (ps_quotas sp)(k := None), ps_requests := filter_mset (\<lambda>r. r \<noteq> k) (ps_requests sp)\<rparr>))"
| "spec_step sp (AcquireInstance now t p m c) =
     (let k = allocation_key t p
      in if m < 0 \<or> c < 0 then None
         else case ps_quotas sp k of
           None \<Rightarrow> Some (False, sp)
         | Some q \<Rightarrow>
             if int (size (of_key k (ps_live sp))) < q_max_instances q \<and> room_for m c sp
             then Some (True, sp\<lparr>ps_live := add_mset (k, m, c) (ps_live sp)\<rparr>) else Some (False, sp))"
| "spec_step sp (ReleaseInstance now t p m c) =
     (let k = allocation_key t p
      in if ps_quotas sp k = None then Some (False, sp)
         else if (k, m, c) \<in># ps_live sp then Some (True, sp\<lparr>ps_live := ps_live sp - {#(k, m, c)#}\<rparr>) else None)"
| "spec_step sp (AcquireRequest now t p) =
     (let k = allocation_key t p
      in case ps_quotas sp k of
           None \<Rightarrow> Some (False, sp)
         | Some q \<Rightarrow>
             if int (count (ps_requests sp) k) < q_max_instances q * q_max_concurrent_requests q
             then Some (True, sp\<lparr>ps_requests := add_mset k (ps_requests sp)\<rparr>) else Some (False, sp))"
| "spec_step sp (ReleaseRequest now t p) =
     (let k = allocation_key t p
      in if ps_quotas sp k = None then Some (False, sp)
         else if k \<in># ps_requests sp then Some (True, sp\<lparr>ps_requests := ps_requests sp - {#k#}\<rparr>) else None)"
| "spec_step sp (UpdateQuota now t p q) =
     (let k = allocation_key t p
      in if ps_quotas sp k = None \<or> quota_validate q \<noteq> [] \<or> int (size (of_key k (ps_live sp))) > q_max_instances q then Some (False, sp)
         else Some (True, sp\<lparr>ps_quotas := (ps_quotas sp)(k \<mapsto> q)\<rparr>))"

section \<open>Refinement\<close>

definition counts :: "pool_spec \<Rightarrow> string \<Rightarrow> allocation \<Rightarrow> bool" where
  "counts sp k a \<longleftrightarrow>
     al_active_instances a = int (size (of_key k (ps_live sp))) \<and> al_memory_used_mb a = held_memory (of_key k (ps_live sp)) \<and>
     al_cpu_used_cores a = held_cpu (of_key k (ps_live sp)) \<and> al_active_requests a = int (count (ps_requests sp) k)"

definition implements :: "resource_manager \<Rightarrow> pool_spec \<Rightarrow> bool" where
  "implements rm sp \<longleftrightarrow>
     rm_config rm = ps_config sp \<and>
     (\<forall>k. ps_quotas sp k = map_option al_quota (dict_get (rm_allocations rm) k)) \<and>
     (\<forall>k a. dict_get (rm_allocations rm) k = Some a \<longrightarrow> counts sp k a) \<and>
     rm_total_instances rm = int (size (ps_live sp)) \<and> rm_total_memory_mb rm = held_memory (ps_live sp) \<and>
     rm_total_cpu_cores rm = held_cpu (ps_live sp) \<and>
     (\<forall>x \<in># ps_live sp. 0 \<le> fst (snd x) \<and> 0 \<le> snd (snd x))"

definition within_limits :: "pool_spec \<Rightarrow> bool" where
  "within_limits sp \<longleftrightarrow>
     int (size (ps_live sp)) \<le> max 0 (plc_max_total_instances (ps_config sp)) \<and>
     held_memory (ps_live sp) \<le> max 0 (of_int (plc_max_total_memory_mb (ps_config sp))) \<and>
     held_cpu (ps_live sp) \<le> max 0 (plc_max_total_cpu_cores (ps_config sp)) \<and>
     (\<forall>x \<in># ps_live sp. 0 \<le> fst (snd x) \<and> 0 \<le> snd (snd x)) \<and>
     (\<forall>k q. ps_quotas sp k = Some q \<longrightarrow> int (size (of_key k (ps_live sp))) \<le> max 0 (q_max_instances q)) \<and>
     (\<forall>k. ps_quotas sp k = None \<longrightarrow> of_key k (ps_live sp) = {#} \<and> count (ps_requests sp) k = 0)"

lemma held_simps [simp]:
  "held_memory {#} = 0" "held_cpu {#} = 0" "of_key k {#} = {#}"
  "held_memory (add_mset x L) = fst (snd x) + held_memory L"
  "held_cpu (add_mset x L) = snd (snd x) + held_cpu L"
  "of_key k (add_mset x L) = (if fst x = k then add_mset x (of_key k L) else of_key k L)"
  by (simp_all add: held_memory_def held_cpu_def of_key_def)

lemma held_nonneg:
  "\<forall>x \<in># L. 0 \<le> fst (snd x) \<and> 0 \<le> snd (snd x) \<Longrightarrow> 0 \<le> held_memory L \<and> 0 \<le> held_cpu L"
  by (induction L) auto

lemma of_key_nonneg:
  "\<forall>x \<in># L. 0 \<le> fst (snd x) \<and> 0 \<le> snd (snd x) \<Longrightarrow> 0 \<le> held_memory (of_key k L) \<and> 0 \<le> held_cpu (of_key k L)"
  by (rule held_nonneg) (simp add: of_key_def)

lemma implementsD:
  assumes "implements rm sp"
  shows "rm_config rm = ps_config sp" and "ps_quotas sp k = map_option al_quota (dict_get (rm_allocations rm) k)"
    and "dict_get (rm_allocations rm) k = Some a \<Longrightarrow> counts sp k a"
    and "rm_total_instances rm = int (size (ps_live sp))" and "rm_total_memory_mb rm = held_memory (ps_live sp)"
    and "rm_total_cpu_cores rm = held_cpu (ps_live sp)"
    and "\<forall>x \<in># ps_live sp. 0 \<le> fst (snd x) \<and> 0 \<le> snd (snd x)"
  using assms by (auto simp: implements_def)

lemma sim_allocate:
  assumes "implements rm sp" and "spec_step sp (Allocate now c) = Some (b, sp')" and "within_limits sp"
  shows "fst (rm_step rm (Allocate now c)) = b \<and> implements (snd (rm_step rm (Allocate now c))) sp'"
proof -
  let ?k = "allocation_key (ic_tenant_id c) (ic_project_id c)"
  note R = implementsD [OF assms(1)]
  show ?thesis
  proof (cases "dict_get (rm_allocations rm) ?k")
    case None
    then have q: "ps_quotas sp ?k = None" using R(2) by simp
    then have none: "of_key ?k (ps_live sp) = {#}" "count (ps_requests sp) ?k = 0"
      using assms(3) by (auto simp: within_limits_def)
    have room: "room_for m cc sp \<longleftrightarrow> \<not> (rm_total_instances rm \<ge> plc_max_total_instances (rm_config rm)) \<and>
        \<not> (rm_total_memory_mb rm + m > of_int (plc_max_total_memory_mb (rm_config rm))) \<and>
        \<not> (rm_total_cpu_cores rm + cc > plc_max_total_cpu_cores (rm_config rm))" for m cc
      by (auto simp: room_for_def R(1,4,5,6))
    show ?thesis
    proof (cases "room_for (of_int (q_memory_request_mb (ic_quota c))) (q_cpu_request_cores (ic_quota c)) sp")
      case True
      then have b: "b" "sp' = sp\<lparr>ps_quotas := (ps_quotas sp)(?k \<mapsto> ic_quota c)\<rparr>"
        using assms(2) q by (auto simp: Let_def)
      show ?thesis
        using True None b none assms(1) unfolding room implements_def
        by (auto simp: rm_allocate_def Let_def dict_get_set counts_def)
    next
      case False
      then have "\<not> b" "sp' = sp" using assms(2) q by (auto simp: Let_def)
      then show ?thesis
        using False None assms(1) unfolding room by (auto simp: rm_allocate_def Let_def)
    qed
  next
    case (Some a)
    then show ?thesis
      using assms R(2) [of ?k] R(3) [OF Some]
      by (auto simp: rm_allocate_def Let_def can_allocate_instance_def counts_def)
  qed
qed

lemma sim_acquire_instance:
  assumes "implements rm sp" and "spec_step sp (AcquireInstance now t p m c) = Some (b, sp')"
  shows "fst (rm_step rm (AcquireInstance now t p m c)) = b \<and> implements (snd (rm_step rm (AcquireInstance now t p m c))) sp'"
proof -
  let ?k = "allocation_key t p"
  note R = implementsD [OF assms(1)]
  have pos: "0 \<le> m" "0 \<le> c" using assms(2) by (auto simp: Let_def split: if_splits)
  show ?thesis
  proof (cases "dict_get (rm_allocations rm) ?k")
    case None
    then show ?thesis using assms R(2) [of ?k] pos by (auto simp: rm_acquire_instance_def Let_def)
  next
    case (Some a)
    let ?ok = "can_allocate_instance a \<and> room_for m c sp"
    have ok: "?ok \<longleftrightarrow> int (size (of_key ?k (ps_live sp))) < q_max_instances (al_quota a) \<and> room_for m c sp"
      using R(3) [OF Some] by (simp add: can_allocate_instance_def counts_def)
    show ?thesis
    proof (cases ?ok)
      case True
      then have sp': "b" "sp' = sp\<lparr>ps_live := add_mset (?k, m, c) (ps_live sp)\<rparr>"
        using ok assms(2) Some R(2) [of ?k] pos by (auto simp: Let_def)
      have rm': "rm_acquire_instance now t p m c rm =
          (True, rm\<lparr>rm_allocations := dict_set ?k (a\<lparr>al_active_instances := al_active_instances a + 1,
             al_memory_used_mb := al_memory_used_mb a + m, al_cpu_used_cores := al_cpu_used_cores a + c, al_updated_at := now\<rparr>) (rm_allocations rm),
           rm_total_instances := rm_total_instances rm + 1, rm_total_memory_mb := rm_total_memory_mb rm + m,
           rm_total_cpu_cores := rm_total_cpu_cores rm + c\<rparr>)"
        using True Some by (simp add: rm_acquire_instance_def Let_def room_for_def R(1,4,5,6))
      show ?thesis
        using assms(1) Some sp' pos unfolding implements_def
        by (auto simp: rm' dict_get_set counts_def)
    next
      case False
      then have "\<not> b" "sp' = sp" using ok assms(2) Some R(2) [of ?k] pos by (auto simp: Let_def)
      then show ?thesis
        using False Some assms(1) by (auto simp: rm_acquire_instance_def Let_def room_for_def R(1,4,5,6))
    qed
  qed
qed

lemma sim_release_instance:
  assumes "implements rm sp" and "spec_step sp (ReleaseInstance now t p m c) = Some (b, sp')"
  shows "fst (rm_step rm (ReleaseInstance now t p m c)) = b \<and> implements (snd (rm_step rm (ReleaseInstance now t p m c))) sp'"
proof -
  let ?k = "allocation_key t p"
  note R = implementsD [OF assms(1)]
  show ?thesis
  proof (cases "dict_get (rm_allocations rm) ?k")
    case None
    then show ?thesis using assms R(2) [of ?k] by (auto simp: rm_release_instance_def Let_def)
  next
    case (Some a)
    then have mem: "(?k, m, c) \<in># ps_live sp" "b" "sp' = sp\<lparr>ps_live := ps_live sp - {#(?k, m, c)#}\<rparr>"
      using assms(2) R(2) [of ?k] by (auto simp: Let_def split: if_splits)
    then obtain L where L: "ps_live sp = add_mset (?k, m, c) L" by (blast dest: multi_member_split)
    have nonneg: "0 \<le> held_memory L" "0 \<le> held_cpu L" "0 \<le> held_memory (of_key ?k L)" "0 \<le> held_cpu (of_key ?k L)"
      using R(7) held_nonneg [of L] of_key_nonneg [of L ?k] by (auto simp: L)
    show ?thesis
      using assms(1) Some mem(2,3) nonneg unfolding implements_def
      by (auto simp: rm_release_instance_def Let_def L dict_get_set counts_def max_def)
  qed
qed

lemma sim_release_project:
  assumes "implements rm sp" and "spec_step sp (ReleaseProject t p) = Some (b, sp')"
  shows "fst (rm_step rm (ReleaseProject t p)) = b \<and> implements (snd (rm_step rm (ReleaseProject t p))) sp'"
proof -
  let ?k = "allocation_key t p"
  note R = implementsD [OF assms(1)]
  show ?thesis
  proof (cases "dict_get (rm_allocations rm) ?k")
    case None
    then show ?thesis using assms R(2) [of ?k] by (auto simp: rm_release_def Let_def)
  next
    case (Some a)
    note c = R(3) [OF Some]
    show ?thesis
    proof (cases "of_key ?k (ps_live sp) = {#}")
      case True
      then show ?thesis
        using assms Some c R(2) [of ?k] unfolding implements_def
        by (auto simp: rm_release_def Let_def dict_get_pop counts_def)
    next
      case False
      then have "0 < al_active_instances a" using c by (simp add: counts_def nonempty_has_size)
      then show ?thesis using assms Some False by (auto simp: rm_release_def Let_def)
    qed
  qed
qed

lemma sim_requests_and_quota:
  assumes "implements rm sp" and "spec_step sp e = Some (b, sp')"
    and "(\<exists>now t p. e = AcquireRequest now t p) \<or> (\<exists>now t p. e = ReleaseRequest now t p) \<or> (\<exists>now t p q. e = UpdateQuota now t p q)"
  shows "fst (rm_step rm e) = b \<and> implements (snd (rm_step rm e)) sp'"
proof -
  note R = implementsD [OF assms(1)]
  from assms(3) consider (acquire) now t p where "e = AcquireRequest now t p" | (release) now t p where "e = ReleaseRequest now t p"
    | (quota) now t p q where "e = UpdateQuota now t p q" by blast
  then show ?thesis
  proof cases
    case acquire
    then show ?thesis
      using assms(1,2) R(2,3) [of "allocation_key t p"]
      by (cases "dict_get (rm_allocations rm) (allocation_key t p)")
        (auto simp: rm_acquire_request_def can_accept_request_def Let_def implements_def dict_get_set counts_def split: if_splits)
  next
    case release
    then show ?thesis
      using assms(1,2) R(2,3) [of "allocation_key t p"]
      by (cases "dict_get (rm_allocations rm) (allocation_key t p)")
        (auto simp: rm_release_request_def Let_def implements_def dict_get_set counts_def max_def
          of_nat_diff Suc_le_eq count_greater_zero_iff split: if_splits)
  next
    case quota
    then show ?thesis
      using assms(1,2) R(2,3) [of "allocation_key t p"]
      by (cases "dict_get (rm_allocations rm) (allocation_key t p)")
        (auto simp: rm_update_quota_def Let_def implements_def dict_get_set counts_def split: if_splits)
  qed
qed

lemma sim_step:
  assumes "implements rm sp" and "within_limits sp" and "spec_step sp e = Some (b, sp')"
  shows "fst (rm_step rm e) = b \<and> implements (snd (rm_step rm e)) sp'"
proof (cases e)
  case (Allocate now c)
  show ?thesis using assms(1,3,2) unfolding Allocate by (rule sim_allocate)
next
  case (ReleaseProject t p)
  show ?thesis using assms(1,3) unfolding ReleaseProject by (rule sim_release_project)
next
  case (AcquireInstance now t p m c)
  show ?thesis using assms(1,3) unfolding AcquireInstance by (rule sim_acquire_instance)
next
  case (ReleaseInstance now t p m c)
  show ?thesis using assms(1,3) unfolding ReleaseInstance by (rule sim_release_instance)
qed (use sim_requests_and_quota [OF assms(1,3)] in blast)+

lemma within_limits_acquire:
  assumes "within_limits sp" and "0 \<le> m" and "0 \<le> c" and "room_for m c sp"
    and "ps_quotas sp k = Some q" and "int (size (of_key k (ps_live sp))) < q_max_instances q"
  shows "within_limits (sp\<lparr>ps_live := add_mset (k, m, c) (ps_live sp)\<rparr>)"
  using assms by (auto simp: within_limits_def room_for_def)

lemma within_limits_release:
  assumes "within_limits sp" and "(k, m, c) \<in># ps_live sp"
  shows "within_limits (sp\<lparr>ps_live := ps_live sp - {#(k, m, c)#}\<rparr>)"
proof -
  obtain L where L: "ps_live sp = add_mset (k, m, c) L" using assms(2) by (blast dest: multi_member_split)
  have "int (size (of_key k' L)) \<le> int (size (of_key k' (add_mset (k, m, c) L)))" for k' by simp
  then have "int (size (of_key k' L)) \<le> max 0 (q_max_instances q)" if "ps_quotas sp k' = Some q" for k' q
    using assms(1) that unfolding within_limits_def L by (meson order_trans)
  moreover have "of_key k' L = {#}" if "ps_quotas sp k' = None" for k'
    using assms(1) that unfolding within_limits_def L by (metis held_simps(6) add_mset_not_empty)
  ultimately show ?thesis using assms(1) unfolding within_limits_def L by auto
qed

lemma within_limits_step:
  assumes "within_limits sp" and "spec_step sp e = Some (b, sp')"
  shows "within_limits sp'"
proof (cases e)
  case (AcquireInstance now t p m c)
  then show ?thesis
    using assms within_limits_acquire [OF assms(1), of m c "allocation_key t p"]
    by (auto simp: Let_def split: if_splits option.splits)
next
  case (ReleaseInstance now t p m c)
  then show ?thesis
    using assms within_limits_release [OF assms(1), of "allocation_key t p" m c]
    by (auto simp: Let_def split: if_splits)
next
  case (ReleaseRequest now t p)
  then show ?thesis using assms by (auto simp: Let_def within_limits_def split: if_splits)
qed (use assms in \<open>auto simp: Let_def within_limits_def split: if_splits option.splits\<close>)

interpretation resources: refinement rm_step spec_step implements within_limits
  by unfold_locales (erule (2) sim_step, erule (1) within_limits_step)

lemma init_related: "implements (rm_init cfg) (spec_init cfg) \<and> within_limits (spec_init cfg)"
  by (simp add: implements_def rm_init_def spec_init_def within_limits_def)

text \<open>
  C6: to clients that give back only what they took, the resource manager behaves as the bag of live
  instances it stands for: every answer to every call is the one the specification gives, the counters
  of the pool and of every project are at all times the number, memory and CPU of the live instances
  (and the running requests), and the pool limits and the instance limit of every project hold.
\<close>

theorem resource_manager_refines:
  assumes "spec_answers spec_step (spec_init cfg) calls = Some (as, sp)"
    and "answers rm_step (rm_init cfg) calls = (bs, rm)"
  shows "bs = as \<and> implements rm sp \<and> within_limits sp \<and>
    ru_active_instances (rm_get_global_usage rm) = int (size (ps_live sp)) \<and>
    ru_active_instances (rm_get_global_usage rm) \<le> max 0 (plc_max_total_instances cfg) \<and>
    ru_memory_used_mb (rm_get_global_usage rm) \<le> max 0 (of_int (plc_max_total_memory_mb cfg)) \<and>
    (\<forall>t p u. rm_get_usage t p rm = Some u \<longrightarrow>
       ru_active_instances u = int (size (of_key (allocation_key t p) (ps_live sp))) \<and>
       ru_active_instances u \<le> max 0 (ru_max_instances u))"
proof -
  have run: "bs = as" "implements rm sp" "within_limits sp"
    using resources.run_refines [of "rm_init cfg" "spec_init cfg" calls as sp] init_related assms by auto
  have cfg: "ps_config sp' = ps_config sp" if "spec_step sp e = Some (b, sp')" for sp e b sp'
    using that by (cases e) (auto simp: Let_def split: if_splits option.splits)
  have "ps_config sp = ps_config sp1" if "spec_answers spec_step sp1 cs = Some (bs, sp)" for sp1 cs bs
    using that by (induction cs arbitrary: sp1 bs) (auto split: option.splits simp: cfg)
  then have "ps_config sp = cfg" using assms(1) by (force simp: spec_init_def)
  then show ?thesis
    using run implementsD [OF run(2)]
    by (auto simp: rm_get_global_usage_def rm_get_usage_def within_limits_def counts_def)
qed

definition sample_calls :: "rm_call list" where
  "sample_calls =
    [Allocate 0 (new_instance_config ''p'' ''t'' ''default'' WARM (tc_default_quota warm_tier_config)),
     AcquireInstance 1 ''t'' ''p'' 256 (1 / 4), AcquireInstance 2 ''t'' ''p'' 256 (1 / 4), AcquireInstance 3 ''t'' ''p'' 256 (1 / 4),
     ReleaseInstance 4 ''t'' ''p'' 256 (1 / 4), ReleaseProject ''t'' ''p'']"

theorem resource_manager_refines_witness:
  "\<exists>as sp. spec_answers spec_step (spec_init default_pool_config) sample_calls = Some (as, sp) \<and>
     fst (answers rm_step (rm_init default_pool_config) sample_calls) = as \<and> as = [True, True, True, False, True, False] \<and>
     implements (snd (answers rm_step (rm_init default_pool_config) sample_calls)) sp"
proof -
  have "map_option fst (spec_answers spec_step (spec_init default_pool_config) sample_calls) = Some [True, True, True, False, True, False]"
    by code_simp
  then obtain sp where sp: "spec_answers spec_step (spec_init default_pool_config) sample_calls = Some ([True, True, True, False, True, False], sp)"
    by auto
  obtain bs rm where rm: "answers rm_step (rm_init default_pool_config) sample_calls = (bs, rm)" by fastforce
  show ?thesis using resource_manager_refines [OF sp rm] sp rm by auto
qed

text \<open>
  Outside the contract the counters drift: giving one instance back twice frees a slot that another
  project holds, after which the pool takes more instances than its limit. And since the key of an
  allocation joins tenant and project with a colon, two tenants can share one allocation.
\<close>

lemma double_release_exceeds_limit:
  "let cfg = default_pool_config\<lparr>plc_max_total_instances := 2\<rparr>; q = tc_default_quota hot_tier_config;
       conf = (\<lambda>p. new_instance_config p ''t'' ''default'' HOT q);
       (bs, rm) = answers rm_step (rm_init cfg)
         [Allocate 0 (conf ''a''), Allocate 0 (conf ''b''), AcquireInstance 1 ''t'' ''a'' 1 0, AcquireInstance 1 ''t'' ''b'' 1 0,
          ReleaseInstance 2 ''t'' ''a'' 1 0, ReleaseInstance 2 ''t'' ''a'' 1 0,
          AcquireInstance 3 ''t'' ''b'' 1 0, AcquireInstance 3 ''t'' ''b'' 1 0]
   in False \<notin> set bs \<and> map (\<lambda>ka. al_active_instances (snd ka)) (rm_allocations rm) = [0, 3] \<and> rm_total_instances rm = 2"
  by code_simp

lemma allocation_key_collides: "allocation_key ''a'' ''b:c'' = allocation_key ''a:b'' ''c''"
  by (simp add: allocation_key_def)

section \<open>The interface for clients\<close>

text \<open>
  What a client that keeps track of its instances relies on: \<open>rm_holds rm L\<close> says that the manager
  stands for the bag \<open>L\<close> of live instances.
\<close>

definition rm_holds :: "resource_manager \<Rightarrow> held multiset \<Rightarrow> bool" where
  "rm_holds rm L \<longleftrightarrow> (\<exists>sp. implements rm sp \<and> within_limits sp \<and> ps_live sp = L)"

lemma holds_step:
  assumes "implements rm sp" and "within_limits sp" and "spec_step sp e = Some (b, sp')"
  shows "fst (rm_step rm e) = b \<and> rm_holds (snd (rm_step rm e)) (ps_live sp')"
  using sim_step [OF assms] within_limits_step [OF assms(2,3)] by (auto simp: rm_holds_def)

lemma holds_init: "rm_holds (rm_init cfg) {#}"
  using init_related [of cfg] by (auto simp: rm_holds_def spec_init_def)

lemma rm_config_step [simp]: "rm_config (snd (rm_step rm e)) = rm_config rm"
  by (cases e) (auto simp: rm_allocate_def rm_release_def rm_acquire_instance_def rm_release_instance_def rm_acquire_request_def
      rm_release_request_def rm_update_quota_def Let_def split: option.splits)

lemma rm_allocate_step: "snd (rm_allocate now c rm) = snd (rm_step rm (Allocate now c))"
  by (simp split: prod.splits)

lemma holds_allocate: "rm_holds rm L \<Longrightarrow> rm_holds (snd (rm_allocate now c rm)) L"
proof -
  assume "rm_holds rm L"
  then obtain sp where sp: "implements rm sp" "within_limits sp" "ps_live sp = L" by (auto simp: rm_holds_def)
  have "spec_step sp (Allocate now c) \<noteq> None" by (auto simp: Let_def split: option.splits)
  then obtain b sp' where e: "spec_step sp (Allocate now c) = Some (b, sp')" by (metis option.exhaust surj_pair)
  moreover from e have "ps_live sp' = L" using sp(3) by (auto simp: Let_def split: option.splits if_splits)
  ultimately show ?thesis unfolding rm_allocate_step using holds_step [OF sp(1,2)] by blast
qed

lemma holds_release_project: "rm_holds rm L \<Longrightarrow> rm_holds (snd (rm_release t p rm)) L"
proof -
  assume "rm_holds rm L"
  then obtain sp where sp: "implements rm sp" "within_limits sp" "ps_live sp = L" by (auto simp: rm_holds_def)
  have "spec_step sp (ReleaseProject t p) \<noteq> None" by (auto simp: Let_def)
  then obtain b sp' where e: "spec_step sp (ReleaseProject t p) = Some (b, sp')" by (metis option.exhaust surj_pair)
  moreover from e have "ps_live sp' = L" using sp(3) by (auto simp: Let_def split: if_splits)
  ultimately show ?thesis using holds_step [OF sp(1,2) e] by simp
qed

lemma holds_acquire:
  assumes "rm_holds rm L" and "0 \<le> m" and "0 \<le> c"
  shows "rm_holds (snd (rm_acquire_instance now t p m c rm))
    (if fst (rm_acquire_instance now t p m c rm) then add_mset (allocation_key t p, m, c) L else L)"
proof -
  obtain sp where sp: "implements rm sp" "within_limits sp" "ps_live sp = L" using assms(1) by (auto simp: rm_holds_def)
  have "spec_step sp (AcquireInstance now t p m c) \<noteq> None" using assms(2,3) by (auto simp: Let_def split: option.splits)
  then obtain b sp' where e: "spec_step sp (AcquireInstance now t p m c) = Some (b, sp')" by (metis option.exhaust surj_pair)
  moreover from e have "ps_live sp' = (if b then add_mset (allocation_key t p, m, c) L else L)"
    using sp(3) assms(2,3) by (auto simp: Let_def split: option.splits if_splits)
  ultimately show ?thesis using holds_step [OF sp(1,2) e] by simp
qed

lemma holds_release:
  assumes "rm_holds rm (add_mset (allocation_key t p, m, c) L)"
  shows "rm_holds (snd (rm_release_instance now t p m c rm)) L"
proof -
  obtain sp where sp: "implements rm sp" "within_limits sp" "ps_live sp = add_mset (allocation_key t p, m, c) L"
    using assms by (auto simp: rm_holds_def)
  then have "ps_quotas sp (allocation_key t p) \<noteq> None"
    unfolding within_limits_def by (metis add_mset_not_empty fst_conv held_simps(6))
  then have "spec_step sp (ReleaseInstance now t p m c) = Some (True, sp\<lparr>ps_live := L\<rparr>)" using sp(3) by (auto simp: Let_def)
  from holds_step [OF sp(1,2) this] show ?thesis by simp
qed

lemma holds_limits:
  assumes "rm_holds rm L"
  shows "rm_total_instances rm = int (size L) \<and> rm_total_instances rm \<le> max 0 (plc_max_total_instances (rm_config rm)) \<and>
    rm_total_memory_mb rm = held_memory L \<and> rm_total_memory_mb rm \<le> max 0 (of_int (plc_max_total_memory_mb (rm_config rm))) \<and>
    rm_total_cpu_cores rm = held_cpu L \<and> rm_total_cpu_cores rm \<le> max 0 (plc_max_total_cpu_cores (rm_config rm)) \<and>
    (\<forall>k a. dict_get (rm_allocations rm) k = Some a \<longrightarrow>
       al_active_instances a = int (size (of_key k L)) \<and> al_active_instances a \<le> max 0 (q_max_instances (al_quota a)))"
proof -
  obtain sp where sp: "implements rm sp" "within_limits sp" "ps_live sp = L" using assms by (auto simp: rm_holds_def)
  have "al_active_instances a = int (size (of_key k L)) \<and> al_active_instances a \<le> max 0 (q_max_instances (al_quota a))"
    if "dict_get (rm_allocations rm) k = Some a" for k a
  proof -
    have "ps_quotas sp k = Some (al_quota a)" using implementsD(2) [OF sp(1)] that by simp
    then show ?thesis using implementsD(3) [OF sp(1) that] sp(2,3) unfolding counts_def within_limits_def by metis
  qed
  then show ?thesis using implementsD [OF sp(1)] sp(2,3) unfolding within_limits_def by auto
qed

end
