(* ===== verification/PoolManager.thy ===== *)
theory PoolManager
  imports PoolHealth PoolResource
begin

text \<open>
  The agent pool manager: \<open>src/infrastructure/agent/pool/manager.py\<close>, on top of the instances, the
  resource manager and the health monitor. Instances are objects: \<open>pm_heap\<close> maps the id of every
  instance ever created to its state, and the registry of the pool maps instance keys to ids, so that
  a recovery task that still refers to an instance after it was removed is visible. The operations
  that change the registry hold its lock and are one step each. The id of a new instance, the clock and
  whether constructing an agent succeeds are inputs. Instance callbacks and log output are left out.
\<close>

section \<open>The manager and its queries\<close>

record pool_manager =
  pm_config :: pool_config
  pm_resources :: resource_manager
  pm_monitor :: health_monitor
  pm_heap :: "(string, agent_instance) dict"
  pm_instances :: "(string, string) dict"
  pm_project_instances :: "(string, string list) dict"
  pm_tier_overrides :: "(string, project_tier list) dict"
  pm_running :: bool

datatype pool_error =
    QuotaExceeded quota_exceeded
  | AcquireFailed
  | InstanceRejected
  | InitializeRaised lifecycle_error
  | InitializeFailed
  | NegativeTarget
  | BadInstanceKey
  | MultiReplica int

definition pool_init :: "pool_config \<Rightarrow> pool_manager" where
  "pool_init cfg =
     \<lparr>pm_config = cfg, pm_resources = rm_init cfg,
      pm_monitor = health_monitor_init (default_health_config\<lparr>hc_unhealthy_threshold := plc_unhealthy_threshold cfg,
        hc_healthy_threshold := plc_healthy_threshold cfg\<rparr>),
      pm_heap = [], pm_instances = [], pm_project_instances = [], pm_tier_overrides = [], pm_running = False\<rparr>"

definition pool_start :: "pool_manager \<Rightarrow> pool_manager" where
  "pool_start pm = (if pm_running pm then pm else pm\<lparr>pm_running := True\<rparr>)"

definition pool_get :: "string \<Rightarrow> pool_manager \<Rightarrow> agent_instance option" where
  "pool_get key pm = (case dict_get (pm_instances pm) key of None \<Rightarrow> None | Some iid \<Rightarrow> dict_get (pm_heap pm) iid)"

text \<open>The instances of the registry, in its order.\<close>

definition pool_list :: "pool_manager \<Rightarrow> agent_instance list" where
  "pool_list pm = List.map_filter (\<lambda>ki. dict_get (pm_heap pm) (snd ki)) (pm_instances pm)"

record project_metrics =
  pmt_daily_requests :: int
  pmt_max_concurrent :: int
  pmt_subscription_tier :: string
  pmt_sla_requirement :: real

definition compute_project_score :: "project_metrics \<Rightarrow> int" where
  "compute_project_score m =
     (if pmt_daily_requests m > 1000 then 40 else if pmt_daily_requests m > 100 then 25 else 10) +
     dict_get_default [(''enterprise'', 30), (''professional'', 20), (''basic'', 10), (''free'', 5)] (pmt_subscription_tier m) 5 +
     (if pmt_sla_requirement m \<ge> 999 / 1000 then 20 else if pmt_sla_requirement m \<ge> 995 / 1000 then 15 else 5) +
     (if pmt_max_concurrent m > 10 then 10 else if pmt_max_concurrent m > 3 then 7 else 3)"

definition classify_project :: "string \<Rightarrow> project_metrics option \<Rightarrow> pool_manager \<Rightarrow> project_tier" where
  "classify_project project metrics pm =
     (case metrics of
        None \<Rightarrow>
          (case find (\<lambda>inst. ic_project_id (ai_config inst) = project) (pool_list pm) of
             None \<Rightarrow> WARM
           | Some inst \<Rightarrow>
               if im_total_requests (ai_metrics inst) > 100 then HOT
               else if im_total_requests (ai_metrics inst) > 0 then WARM else COLD)
      | Some m \<Rightarrow>
          let score = compute_project_score m in if score \<ge> 80 then HOT else if score \<ge> 50 then WARM else COLD)"

section \<open>Creating and removing instances\<close>

definition set_instance :: "agent_instance \<Rightarrow> pool_manager \<Rightarrow> pool_manager" where
  "set_instance inst pm = pm\<lparr>pm_heap := dict_set (ai_id inst) inst (pm_heap pm)\<rparr>"

definition config_for :: "string \<Rightarrow> string \<Rightarrow> string \<Rightarrow> instance_config option \<Rightarrow> pool_manager \<Rightarrow> instance_config" where
  "config_for tenant project mode override pm =
     (case override of
        Some c \<Rightarrow> c
      | None \<Rightarrow> let tier = classify_project project None pm
                in new_instance_config project tenant mode tier (tc_default_quota (get_tier_config (pm_config pm) tier)))"

definition quota_memory :: "instance_config \<Rightarrow> real" where
  "quota_memory c = of_int (q_memory_request_mb (ic_quota c))"

definition quota_cpu :: "instance_config \<Rightarrow> real" where
  "quota_cpu c = q_cpu_request_cores (ic_quota c)"

definition register_instance :: "instance_config \<Rightarrow> agent_instance \<Rightarrow> pool_manager \<Rightarrow> pool_manager" where
  "register_instance c inst pm =
     (let key = instance_key c; ids = dict_get_default (pm_project_instances pm) key []
      in (set_instance inst pm)\<lparr>pm_instances := dict_set key (ai_id inst) (pm_instances pm),
           pm_project_instances := dict_set key (List.insert (ai_id inst) ids) (pm_project_instances pm),
           pm_monitor := hm_start_monitoring (ai_id inst) (pm_monitor pm)\<rparr>)"

definition create_instance ::
  "int \<Rightarrow> string \<Rightarrow> bool \<Rightarrow> string \<Rightarrow> string \<Rightarrow> string \<Rightarrow> instance_config option \<Rightarrow> pool_manager \<Rightarrow>
   (pool_error + string) \<times> pool_manager" where
  "create_instance now iid created tenant project mode override pm =
     (let c = config_for tenant project mode override pm
      in case rm_allocate now c (pm_resources pm) of
           (Inl e, rm1) \<Rightarrow> (Inl (QuotaExceeded e), pm\<lparr>pm_resources := rm1\<rparr>)
         | (Inr _, rm1) \<Rightarrow>
             (case rm_acquire_instance now tenant project (quota_memory c) (quota_cpu c) rm1 of
                (False, rm2) \<Rightarrow> (Inl AcquireFailed, pm\<lparr>pm_resources := snd (rm_release tenant project rm2)\<rparr>)
              | (True, rm2) \<Rightarrow>
                  (case instance_init now iid c False of
                     None \<Rightarrow> (Inl InstanceRejected, pm\<lparr>pm_resources := rm2\<rparr>)
                   | Some inst \<Rightarrow>
                       (case ai_initialize now created inst of
                          (Inl e, inst1) \<Rightarrow> (Inl (InitializeRaised e), pm\<lparr>pm_resources := rm2\<rparr>)
                        | (Inr False, inst1) \<Rightarrow>
                            (Inl InitializeFailed,
                             pm\<lparr>pm_resources := snd (rm_release_instance now tenant project (quota_memory c) (quota_cpu c) rm2)\<rparr>)
                        | (Inr True, inst1) \<Rightarrow> (Inr iid, register_instance c inst1 (pm\<lparr>pm_resources := rm2\<rparr>))))))"

definition remove_instance :: "int \<Rightarrow> agent_instance \<Rightarrow> pool_manager \<Rightarrow> pool_manager" where
  "remove_instance now inst pm =
     (let c = ai_config inst; key = instance_key c;
          inst1 = (if ai_status inst \<in> {TERMINATED, TERMINATING} then inst else ai_stop now False inst);
          rm1 = snd (rm_release_instance now (ic_tenant_id c) (ic_project_id c) (quota_memory c) (quota_cpu c) (pm_resources pm));
          pis = (case dict_get (pm_project_instances pm) key of
                   None \<Rightarrow> pm_project_instances pm
                 | Some ids \<Rightarrow> dict_set key (filter (\<lambda>i. i \<noteq> ai_id inst) ids) (pm_project_instances pm))
      in (set_instance inst1 pm)\<lparr>pm_monitor := hm_stop_monitoring (ai_id inst) (pm_monitor pm), pm_resources := rm1,
           pm_instances := dict_pop key (pm_instances pm), pm_project_instances := pis\<rparr>)"

section \<open>Operations\<close>

definition get_or_create_instance ::
  "int \<Rightarrow> string \<Rightarrow> bool \<Rightarrow> string \<Rightarrow> string \<Rightarrow> string \<Rightarrow> instance_config option \<Rightarrow> pool_manager \<Rightarrow>
   (pool_error + string) \<times> pool_manager" where
  "get_or_create_instance now iid created tenant project mode override pm =
     (case pool_get (key_of tenant project mode) pm of
        Some inst \<Rightarrow>
          if lc_is_active (ai_lifecycle inst) then (Inr (ai_id inst), pm)
          else create_instance now iid created tenant project mode override (remove_instance now inst pm)
      | None \<Rightarrow> create_instance now iid created tenant project mode override pm)"

definition terminate_instance :: "int \<Rightarrow> string \<Rightarrow> string \<Rightarrow> string \<Rightarrow> pool_manager \<Rightarrow> bool \<times> pool_manager" where
  "terminate_instance now tenant project mode pm =
     (case pool_get (key_of tenant project mode) pm of
        None \<Rightarrow> (False, pm)
      | Some inst \<Rightarrow> (True, remove_instance now inst pm))"

text \<open>\<open>s.split(":", 2)\<close> into exactly three parts.\<close>

definition parse_instance_key :: "string \<Rightarrow> (string \<times> string \<times> string) option" where
  "parse_instance_key key =
     (case split_at CHR '':'' key of
        None \<Rightarrow> None
      | Some (tenant, rest) \<Rightarrow>
          (case split_at CHR '':'' rest of
             None \<Rightarrow> None
           | Some (project, mode) \<Rightarrow>
               if tenant = [] \<or> project = [] \<or> mode = [] then None else Some (tenant, project, mode)))"

definition ensure_registered :: "string \<Rightarrow> string \<Rightarrow> pool_manager \<Rightarrow> pool_manager" where
  "ensure_registered key i pm =
     (if dict_get (pm_instances pm) key \<noteq> None then pm
      else pm\<lparr>pm_instances := dict_set key i (pm_instances pm),
             pm_project_instances :=
               dict_set key (List.insert i (dict_get_default (pm_project_instances pm) key [])) (pm_project_instances pm)\<rparr>)"

definition scale_instances :: "int \<Rightarrow> string \<Rightarrow> bool \<Rightarrow> string \<Rightarrow> int \<Rightarrow> pool_manager \<Rightarrow> (pool_error + unit) \<times> pool_manager" where
  "scale_instances now iid created key target pm =
     (if target < 0 then (Inl NegativeTarget, pm)
      else case parse_instance_key key of
        None \<Rightarrow> (Inl BadInstanceKey, pm)
      | Some (tenant, project, mode) \<Rightarrow>
          let (current, pm1) = (case pool_get key pm of
                 None \<Rightarrow> (None, pm)
               | Some inst \<Rightarrow> if \<not> lc_is_active (ai_lifecycle inst) then (None, remove_instance now inst pm) else (Some inst, pm))
          in if target = (case current of None \<Rightarrow> 0 | Some _ \<Rightarrow> 1) then (Inr (), pm1)
             else if target = 0 then (Inr (), case current of None \<Rightarrow> pm1 | Some inst \<Rightarrow> remove_instance now inst pm1)
             else if target = 1 then
               (case create_instance now iid created tenant project mode None pm1 of
                  (Inl e, pm2) \<Rightarrow> (Inl e, pm2) | (Inr i, pm2) \<Rightarrow> (Inr (), ensure_registered key i pm2))
             else (Inl (MultiReplica target), pm1))"

definition pause_instance :: "int \<Rightarrow> string \<Rightarrow> string \<Rightarrow> string \<Rightarrow> pool_manager \<Rightarrow> bool \<times> pool_manager" where
  "pause_instance now tenant project mode pm =
     (case pool_get (key_of tenant project mode) pm of
        None \<Rightarrow> (False, pm) | Some inst \<Rightarrow> (True, set_instance (ai_pause now inst) pm))"

definition resume_instance :: "int \<Rightarrow> string \<Rightarrow> string \<Rightarrow> string \<Rightarrow> pool_manager \<Rightarrow> bool \<times> pool_manager" where
  "resume_instance now tenant project mode pm =
     (case pool_get (key_of tenant project mode) pm of
        None \<Rightarrow> (False, pm) | Some inst \<Rightarrow> (True, set_instance (ai_resume now inst) pm))"

text \<open>A check of an instance by the monitor, with the recovery the unhealthy callback decides on.\<close>

definition monitor_check ::
  "int \<Rightarrow> check_outcome \<Rightarrow> agent_instance \<Rightarrow> pool_manager \<Rightarrow> health_result \<times> recovery_action option \<times> pool_manager" where
  "monitor_check now outcome inst pm =
     (let (r, cb, inst1, hm1) = check_instance now outcome inst (pm_monitor pm)
      in (r, case cb of Some (OnUnhealthy r') \<Rightarrow> Some (determine_recovery_action now (ai_id inst) r' hm1) | _ \<Rightarrow> None,
          set_instance inst1 (pm\<lparr>pm_monitor := hm1\<rparr>)))"

definition pool_health_check ::
  "int \<Rightarrow> check_outcome \<Rightarrow> string \<Rightarrow> string \<Rightarrow> string \<Rightarrow> pool_manager \<Rightarrow>
   health_result option \<times> recovery_action option \<times> pool_manager" where
  "pool_health_check now outcome tenant project mode pm =
     (case pool_get (key_of tenant project mode) pm of
        None \<Rightarrow> (None, None, pm)
      | Some inst \<Rightarrow> let (r, action, pm1) = monitor_check now outcome inst pm in (Some r, action, pm1))"

definition execute_recovery :: "int \<Rightarrow> string \<Rightarrow> bool \<Rightarrow> recovery_action \<Rightarrow> agent_instance \<Rightarrow> pool_manager \<Rightarrow> pool_manager" where
  "execute_recovery now iid created action inst pm =
     (case action of
        RESTART \<Rightarrow>
          (case ai_initialize now created inst of
             (Inr True, inst1) \<Rightarrow> set_instance (ai_mark_recovered now inst1) pm
           | (_, inst1) \<Rightarrow> set_instance inst1 pm)
      | TERMINATE \<Rightarrow> remove_instance now inst pm
      | DEGRADE \<Rightarrow> pm
      | MIGRATE \<Rightarrow>
          let c = with_tier (if ic_tier (ai_config inst) = HOT then WARM else COLD) (ai_config inst); pm1 = remove_instance now inst pm
          in (case create_instance now iid created (ic_tenant_id c) (ic_project_id c) (ic_agent_mode c) (Some c) pm1 of
                (Inl _, pm2) \<Rightarrow> pm2
              | (Inr i, pm2) \<Rightarrow>
                  (case dict_get (pm_heap pm2) i of None \<Rightarrow> pm2 | Some inst2 \<Rightarrow> set_instance (ai_mark_recovered now inst2) pm2))
      | ALERT \<Rightarrow> pm)"

definition expired_instances :: "int \<Rightarrow> pool_manager \<Rightarrow> agent_instance list" where
  "expired_instances now pm = filter (\<lambda>inst. ai_is_idle_expired now inst \<or> ai_status inst = TERMINATED) (pool_list pm)"

definition cleanup_expired_instances :: "int \<Rightarrow> pool_manager \<Rightarrow> pool_manager" where
  "cleanup_expired_instances now pm = foldl (\<lambda>p inst. remove_instance now inst p) pm (expired_instances now pm)"

record pool_stats =
  st_total_instances :: int
  st_hot_instances :: int
  st_warm_instances :: int
  st_cold_instances :: int
  st_ready_instances :: int
  st_executing_instances :: int
  st_unhealthy_instances :: int
  st_active_requests :: int
  st_total_requests :: int

definition count_of :: "('a \<Rightarrow> bool) \<Rightarrow> 'a list \<Rightarrow> int" where
  "count_of P xs = int (length (filter P xs))"

definition pool_get_stats :: "pool_manager \<Rightarrow> pool_stats" where
  "pool_get_stats pm =
     (let xs = pool_list pm; tier = (\<lambda>i. ic_tier (ai_config i))
      in \<lparr>st_total_instances = int (length xs), st_hot_instances = count_of (\<lambda>i. tier i = HOT) xs,
          st_warm_instances = count_of (\<lambda>i. tier i = WARM) xs, st_cold_instances = count_of (\<lambda>i. tier i = COLD) xs,
          st_ready_instances = count_of (\<lambda>i. ai_status i = READY) xs, st_executing_instances = count_of (\<lambda>i. ai_status i = EXECUTING) xs,
          st_unhealthy_instances = count_of (\<lambda>i. ai_status i = UNHEALTHY) xs,
          st_active_requests = sum_list (map ai_active_requests xs),
          st_total_requests = sum_list (map (\<lambda>i. im_total_requests (ai_metrics i)) xs)\<rparr>)"

definition set_project_tier :: "string \<Rightarrow> string \<Rightarrow> project_tier \<Rightarrow> string \<Rightarrow> pool_manager \<Rightarrow> pool_manager" where
  "set_project_tier tenant project tier mode pm =
     (let pm1 = (case pool_get (key_of tenant project mode) pm of
                   None \<Rightarrow> pm
                 | Some inst \<Rightarrow>
                     if ic_tier (ai_config inst) \<noteq> tier
                     then set_instance (inst\<lparr>ai_config := (with_tier tier (ai_config inst))\<lparr>ic_tier_override := True\<rparr>\<rparr>) pm
                     else pm)
      in pm1\<lparr>pm_tier_overrides := dict_set project (dict_get_default (pm_tier_overrides pm1) project [] @ [tier]) (pm_tier_overrides pm1)\<rparr>)"

definition pool_stop :: "int \<Rightarrow> pool_manager \<Rightarrow> pool_manager" where
  "pool_stop now pm =
     (if \<not> pm_running pm then pm
      else foldl (\<lambda>p inst. set_instance (ai_stop now True inst) p)
             (pm\<lparr>pm_running := False, pm_monitor := (pm_monitor pm)\<lparr>hm_monitored := []\<rparr>\<rparr>) (pool_list pm))"

end
