(* ===== verification/PoolAccounting.thy ===== *)
theory PoolAccounting
  imports PoolManager
begin

text \<open>
  The pool as a whole: whatever its clients, its health checks, its recoveries and its clean-up do, the
  registry of the pool manager and the counters of the resource manager agree, so that the limits of
  the pool are limits on what is really registered.
\<close>

section \<open>The accounting invariant\<close>

text \<open>
  What an instance holds, what the registered instances hold together, and the agreement of the
  registry with the resource manager: the resource manager is in a state that stands for exactly the
  bag of registered instances.
\<close>

definition held_of :: "agent_instance \<Rightarrow> held" where
  "held_of inst = (allocation_key (ic_tenant_id (ai_config inst)) (ic_project_id (ai_config inst)),
     quota_memory (ai_config inst), quota_cpu (ai_config inst))"

definition held_bag :: "pool_manager \<Rightarrow> held multiset" where
  "held_bag pm = image_mset held_of (mset (pool_list pm))"

definition config_ok :: "instance_config \<Rightarrow> bool" where
  "config_ok c \<longleftrightarrow> 0 \<le> quota_memory c \<and> 0 \<le> quota_cpu c \<and> 0 \<le> q_max_concurrent_requests (ic_quota c)"

definition registered :: "pool_manager \<Rightarrow> string \<Rightarrow> string \<Rightarrow> agent_instance \<Rightarrow> bool" where
  "registered pm k i inst \<longleftrightarrow> dict_get (pm_instances pm) k = Some i \<and> dict_get (pm_heap pm) i = Some inst"

definition pool_registry_ok :: "pool_manager \<Rightarrow> bool" where
  "pool_registry_ok pm \<longleftrightarrow>
     wf_dict (pm_instances pm) \<and>
     (\<forall>k i. dict_get (pm_instances pm) k = Some i \<longrightarrow> dict_get (pm_heap pm) i \<noteq> None) \<and>
     (\<forall>k i inst. dict_get (pm_instances pm) k = Some i \<longrightarrow> dict_get (pm_heap pm) i = Some inst \<longrightarrow>
        instance_key (ai_config inst) = k \<and> config_ok (ai_config inst)) \<and>
     (\<forall>i inst. dict_get (pm_heap pm) i = Some inst \<longrightarrow> ai_id inst = i \<and> instance_ok inst)"

definition pool_ok :: "pool_manager \<Rightarrow> bool" where
  "pool_ok pm \<longleftrightarrow> pool_registry_ok pm \<and> rm_holds (pm_resources pm) (held_bag pm) \<and> rm_config (pm_resources pm) = pm_config pm"

lemma pool_list_map:
  assumes "pool_registry_ok pm"
  shows "pool_list pm = map (\<lambda>ki. the (dict_get (pm_heap pm) (snd ki))) (pm_instances pm)"
proof -
  have "dict_get (pm_heap pm) (snd ki) \<noteq> None" if "ki \<in> set (pm_instances pm)" for ki
  proof -
    have "dict_get (pm_instances pm) (fst ki) = Some (snd ki)"
      using assms that by (cases ki) (simp add: pool_registry_ok_def dict_get_iff_mem)
    then show ?thesis using assms by (force simp: pool_registry_ok_def)
  qed
  then have "list_all (\<lambda>ki. dict_get (pm_heap pm) (snd ki) \<noteq> None) (pm_instances pm)" by (simp add: list_all_iff)
  then show ?thesis unfolding pool_list_def
    by (induction "pm_instances pm" arbitrary: pm) (auto simp: List.map_filter_def list_all_iff filter_id_conv)
qed

lemma registry_entry:
  assumes "pool_registry_ok pm" and "dict_get (pm_instances pm) k = Some i"
  obtains inst where "dict_get (pm_heap pm) i = Some inst" "instance_key (ai_config inst) = k" "config_ok (ai_config inst)"
proof -
  obtain inst where "dict_get (pm_heap pm) i = Some inst" using assms unfolding pool_registry_ok_def by (meson not_None_eq)
  then show thesis using assms that unfolding pool_registry_ok_def by blast
qed

lemma registry_heap:
  "pool_registry_ok pm \<Longrightarrow> dict_get (pm_heap pm) i = Some inst \<Longrightarrow> ai_id inst = i \<and> instance_ok inst"
  unfolding pool_registry_ok_def by blast

lemma registered_same:
  assumes "pool_registry_ok pm" and "dict_get (pm_instances pm) k = Some i" and "dict_get (pm_instances pm) k' = Some i"
  shows "k' = k"
  by (rule registry_entry [OF assms(1,2)], rule registry_entry [OF assms(1,3)]) simp

lemma held_bag_map:
  "pool_registry_ok pm \<Longrightarrow> held_bag pm = mset (map (\<lambda>ki. held_of (the (dict_get (pm_heap pm) (snd ki)))) (pm_instances pm))"
  by (simp add: held_bag_def pool_list_map multiset.map_comp comp_def)

lemma pool_ok_cong:
  assumes "pool_ok pm" and "pm_config pm' = pm_config pm" and "pm_heap pm' = pm_heap pm"
    and "pm_instances pm' = pm_instances pm" and "pm_resources pm' = pm_resources pm"
  shows "pool_ok pm'"
  using assms unfolding pool_ok_def pool_registry_ok_def held_bag_def pool_list_def by simp

lemma set_instance_ok:
  assumes "pool_ok pm" and "dict_get (pm_heap pm) (ai_id inst) = Some old" and "held_of inst = held_of old"
    and "instance_key (ai_config inst) = instance_key (ai_config old)"
    and "config_ok (ai_config old) \<Longrightarrow> config_ok (ai_config inst)" and "instance_ok inst"
  shows "pool_ok (set_instance inst pm)"
proof -
  let ?pm = "set_instance inst pm"
  have reg: "pool_registry_ok pm" using assms(1) by (simp add: pool_ok_def)
  then have reg': "pool_registry_ok ?pm"
    using assms(2,4,5,6) unfolding pool_registry_ok_def by (auto simp: set_instance_def dict_get_set)
  have "held_of (the (dict_get (pm_heap ?pm) i)) = held_of (the (dict_get (pm_heap pm) i))" for i
    using assms(2,3) by (simp add: set_instance_def dict_get_set)
  then have "held_bag ?pm = held_bag pm"
    unfolding held_bag_map [OF reg] held_bag_map [OF reg'] by (simp add: set_instance_def)
  then show ?thesis
    using assms(1) reg' unfolding pool_ok_def by (auto simp: set_instance_def)
qed

lemma stop_fields [simp]: "ai_config (ai_stop now graceful inst) = ai_config inst" "ai_id (ai_stop now graceful inst) = ai_id inst"
  by (simp_all add: ai_stop_def)

lemma stop_ok: "instance_ok inst \<Longrightarrow> instance_ok (ai_stop now graceful inst)"
  by (simp add: ai_stop_def stop_finish_ok guarded_ok)

lemma remove_instance_fields:
  "pm_instances (remove_instance now inst pm) = dict_pop (instance_key (ai_config inst)) (pm_instances pm)"
  "pm_heap (remove_instance now inst pm) =
     dict_set (ai_id inst) (if ai_status inst \<in> {TERMINATED, TERMINATING} then inst else ai_stop now False inst) (pm_heap pm)"
  "pm_config (remove_instance now inst pm) = pm_config pm"
  "pm_resources (remove_instance now inst pm) =
     snd (rm_step (pm_resources pm) (ReleaseInstance now (ic_tenant_id (ai_config inst)) (ic_project_id (ai_config inst))
       (quota_memory (ai_config inst)) (quota_cpu (ai_config inst))))"
  by (simp_all add: remove_instance_def Let_def set_instance_def)

lemma remove_instance_ok:
  assumes "pool_ok pm" and "registered pm (instance_key (ai_config inst)) (ai_id inst) inst"
  shows "pool_ok (remove_instance now inst pm)"
proof -
  let ?pm = "remove_instance now inst pm" and ?k = "instance_key (ai_config inst)" and ?i = "ai_id inst"
  note fields = remove_instance_fields [of now inst pm]
  have reg: "pool_registry_ok pm" and r: "dict_get (pm_instances pm) ?k = Some ?i" "dict_get (pm_heap pm) ?i = Some inst"
    using assms by (auto simp: pool_ok_def registered_def)
  have wf: "wf_dict (pm_instances pm)" using reg unfolding pool_registry_ok_def by blast
  have iok: "instance_ok inst" using registry_heap [OF reg r(2)] by blast
  obtain xs ys where d: "pm_instances pm = xs @ (?k, ?i) # ys" and d': "pm_instances ?pm = xs @ ys"
    using dict_pop_split [OF wf r(1)] unfolding fields(1) by blast
  have other: "i' \<noteq> ?i" if "(k', i') \<in> set (xs @ ys)" for k' i'
  proof
    assume "i' = ?i"
    have "(k', i') \<in> set (pm_instances pm)" using that unfolding d by auto
    then have "dict_get (pm_instances pm) k' = Some ?i" using dict_get_iff_mem [OF wf] \<open>i' = ?i\<close> by blast
    then have "k' = ?k" using registered_same [OF reg r(1)] by blast
    moreover have "?k \<notin> fst ` set (xs @ ys)" using wf unfolding d wf_dict_def by auto
    ultimately show False using that by force
  qed
  define inst1 where "inst1 = (if ai_status inst \<in> {TERMINATED, TERMINATING} then inst else ai_stop now False inst)"
  have inst1: "ai_config inst1 = ai_config inst" "ai_id inst1 = ?i" "instance_ok inst1"
    using iok stop_ok [OF iok, of now False] by (simp_all add: inst1_def)
  have heap: "pm_heap ?pm = dict_set ?i inst1 (pm_heap pm)" by (simp add: fields(2) inst1_def)
  have reg': "pool_registry_ok ?pm"
    unfolding pool_registry_ok_def
  proof (intro conjI allI impI)
    show "wf_dict (pm_instances ?pm)" using wf by (simp add: fields(1))
    fix k i inst'
    show "ai_id inst' = i" "instance_ok inst'" if "dict_get (pm_heap ?pm) i = Some inst'"
      using that inst1 registry_heap [OF reg, of i inst'] by (auto simp: heap dict_get_set split: if_splits)
    assume k: "dict_get (pm_instances ?pm) k = Some i"
    then have "dict_get (pm_instances pm) k = Some i" "k \<noteq> ?k" by (auto simp: fields(1) dict_get_pop split: if_splits)
    then obtain old where old: "dict_get (pm_heap pm) i = Some old" "instance_key (ai_config old) = k" "config_ok (ai_config old)"
      using registry_entry [OF reg] by metis
    then show "dict_get (pm_heap ?pm) i \<noteq> None" by (simp add: heap dict_get_set)
    show "instance_key (ai_config inst') = k" "config_ok (ai_config inst')" if "dict_get (pm_heap ?pm) i = Some inst'"
      using that old r(2) \<open>k \<noteq> ?k\<close> by (auto simp: heap dict_get_set split: if_splits)
  qed
  have bag: "held_bag pm = add_mset (held_of inst) (held_bag ?pm)"
  proof -
    let ?f = "\<lambda>ki. held_of (the (dict_get (pm_heap pm) (snd ki)))"
    have "held_of (the (dict_get (pm_heap ?pm) (snd ki))) = ?f ki" if "ki \<in> set (xs @ ys)" for ki
      using other [of "fst ki" "snd ki"] that by (simp add: heap dict_get_set)
    then have "held_bag ?pm = mset (map ?f (xs @ ys))"
      unfolding held_bag_map [OF reg'] d' by (intro arg_cong [where f = mset] map_cong) auto
    moreover have "held_bag pm = mset (map ?f (xs @ (?k, ?i) # ys))" unfolding held_bag_map [OF reg] d ..
    ultimately show ?thesis by (simp add: r(2))
  qed
  have "rm_holds (pm_resources ?pm) (held_bag ?pm)"
    using assms(1) unfolding fields(4) pool_ok_def bag held_of_def rm_step.simps by (blast intro: holds_release)
  moreover have "rm_config (pm_resources ?pm) = pm_config ?pm"
    using assms(1) unfolding fields(3,4) by (simp only: rm_config_step pool_ok_def)
  ultimately show ?thesis using reg' by (simp add: pool_ok_def)
qed

text \<open>Everything but the registration itself leaves the registry alone and changes the resources only.\<close>

lemma resources_ok:
  assumes "pool_ok pm" and "rm_holds rm (held_bag pm)" and "rm_config rm = rm_config (pm_resources pm)"
  shows "pool_ok (pm\<lparr>pm_resources := rm\<rparr>)"
  using assms unfolding pool_ok_def pool_registry_ok_def held_bag_def pool_list_def by simp

lemma register_instance_ok:
  assumes "pool_registry_ok pm" and "rm_holds rm (add_mset (held_of inst) (held_bag pm))" and "rm_config rm = pm_config pm"
    and "dict_get (pm_heap pm) (ai_id inst) = None" and "dict_get (pm_instances pm) (instance_key (ai_config inst)) = None"
    and "config_ok (ai_config inst)" and "instance_ok inst"
  shows "pool_ok (register_instance (ai_config inst) inst (pm\<lparr>pm_resources := rm\<rparr>))"
proof -
  let ?pm = "register_instance (ai_config inst) inst (pm\<lparr>pm_resources := rm\<rparr>)" and ?k = "instance_key (ai_config inst)"
  have heap: "pm_heap ?pm = dict_set (ai_id inst) inst (pm_heap pm)"
    and insts: "pm_instances ?pm = pm_instances pm @ [(?k, ai_id inst)]"
    and rest: "pm_resources ?pm = rm" "pm_config ?pm = pm_config pm"
    using assms(5) by (simp_all add: register_instance_def set_instance_def Let_def dict_set_fresh dict_get_None_iff)
  have old: "i \<noteq> ai_id inst" if "dict_get (pm_instances pm) k = Some i" for k i
    using registry_entry [OF assms(1) that] assms(4) by fastforce
  have reg: "pool_registry_ok ?pm"
    unfolding pool_registry_ok_def
  proof (intro conjI allI impI)
    show "wf_dict (pm_instances ?pm)"
      using assms(1,5) by (auto simp: insts pool_registry_ok_def wf_dict_def dict_get_None_iff)
    fix k i inst'
    show "ai_id inst' = i" "instance_ok inst'" if "dict_get (pm_heap ?pm) i = Some inst'"
      using that assms(7) registry_heap [OF assms(1), of i inst'] by (auto simp: heap dict_get_set split: if_splits)
    assume k: "dict_get (pm_instances ?pm) k = Some i"
    have "\<exists>x. dict_get (pm_heap ?pm) i = Some x \<and> instance_key (ai_config x) = k \<and> config_ok (ai_config x)"
    proof (cases "k = ?k")
      case True
      then have "i = ai_id inst" using k assms(5) by (simp add: insts map_add_def)
      then show ?thesis using True assms(6) by (simp add: heap dict_get_set)
    next
      case False
      then have k': "dict_get (pm_instances pm) k = Some i" using k by (auto simp: insts map_add_def split: option.splits)
      from registry_entry [OF assms(1) this] obtain x
        where "dict_get (pm_heap pm) i = Some x" "instance_key (ai_config x) = k" "config_ok (ai_config x)" .
      then show ?thesis using old [OF k'] by (simp add: heap dict_get_set)
    qed
    then show "dict_get (pm_heap ?pm) i \<noteq> None"
      and "dict_get (pm_heap ?pm) i = Some inst' \<Longrightarrow> instance_key (ai_config inst') = k"
      and "dict_get (pm_heap ?pm) i = Some inst' \<Longrightarrow> config_ok (ai_config inst')"
      by auto
  qed
  let ?f = "\<lambda>ki. held_of (the (dict_get (pm_heap pm) (snd ki)))"
  have same: "held_of (the (dict_get (pm_heap ?pm) (snd ki))) = ?f ki" if "ki \<in> set (pm_instances pm)" for ki
  proof -
    have "dict_get (pm_instances pm) (fst ki) = Some (snd ki)"
      using that assms(1) unfolding pool_registry_ok_def by (simp add: dict_get_iff_mem)
    from old [OF this] show ?thesis by (simp add: heap dict_get_set)
  qed
  have "map (\<lambda>ki. held_of (the (dict_get (pm_heap ?pm) (snd ki)))) (pm_instances pm) = map ?f (pm_instances pm)"
    by (rule map_cong [OF refl same])
  then have "held_bag ?pm = mset (map ?f (pm_instances pm) @ [held_of inst])"
    unfolding held_bag_map [OF reg] insts by (simp only: map_append) (simp add: heap dict_get_set)
  then have "held_bag ?pm = add_mset (held_of inst) (held_bag pm)" unfolding held_bag_map [OF assms(1)] by simp
  then show ?thesis using reg assms(2,3) by (simp add: pool_ok_def rest)
qed

lemma instance_init_fields:
  assumes "instance_init now iid c has_agent = Some inst"
  shows "ai_config inst = c" "ai_id inst = iid" "ai_has_agent inst = has_agent" "ai_status inst = CREATED"
  using assms by (auto simp: instance_init_def Let_def lifecycle_init_def lc_record_event_def split: if_splits)

lemma create_instance_ok:
  assumes "pool_ok pm" and c: "config_for tenant project mode override pm = c"
    and own: "ic_tenant_id c = tenant" "ic_project_id c = project" "config_ok c"
    and fresh: "dict_get (pm_heap pm) iid = None" "dict_get (pm_instances pm) (instance_key c) = None"
  shows "pool_ok (snd (create_instance now iid created tenant project mode override pm))"
proof -
  have reg: "pool_registry_ok pm" and h0: "rm_holds (pm_resources pm) (held_bag pm)" and cfg: "rm_config (pm_resources pm) = pm_config pm"
    using assms(1) by (auto simp: pool_ok_def)
  obtain r1 rm1 where a1: "rm_allocate now c (pm_resources pm) = (r1, rm1)" by fastforce
  have h1: "rm_holds rm1 (held_bag pm)" "rm_config rm1 = rm_config (pm_resources pm)"
    using holds_allocate [OF h0, of now c] rm_allocate_step [of now c "pm_resources pm"] unfolding a1 by (auto simp del: rm_step.simps)
  obtain ok rm2 where a2: "rm_acquire_instance now tenant project (quota_memory c) (quota_cpu c) rm1 = (ok, rm2)" by fastforce
  let ?h = "(allocation_key tenant project, quota_memory c, quota_cpu c)"
  have h2: "rm_holds rm2 (if ok then add_mset ?h (held_bag pm) else held_bag pm)"
    using holds_acquire [OF h1(1), of "quota_memory c" "quota_cpu c" now tenant project] own(3) by (simp add: a2 config_ok_def)
  have c2: "rm_config rm2 = rm_config (pm_resources pm)"
    using rm_config_step [of rm1 "AcquireInstance now tenant project (quota_memory c) (quota_cpu c)"] by (simp add: a2 h1(2))
  have c3: "rm_config (snd (rm_release tenant project rm2)) = rm_config (pm_resources pm)"
    using rm_config_step [of rm2 "ReleaseProject tenant project"] c2 by simp
  have c4: "rm_config (snd (rm_release_instance now tenant project (quota_memory c) (quota_cpu c) rm2)) = rm_config (pm_resources pm)"
    using rm_config_step [of rm2 "ReleaseInstance now tenant project (quota_memory c) (quota_cpu c)"] c2 by simp
  obtain inst where i: "instance_init now iid c False = Some inst"
    using own(3) by (auto simp: instance_init_def config_ok_def Let_def)
  note inst = instance_init_fields [OF i] instance_init_ok [OF i]
  obtain x inst1 where a3: "ai_initialize now created inst = (x, inst1)" by fastforce
  have x: "x = Inr created" using initialize_eq [of inst now created] inst a3 by (auto simp: instance_ok_def Let_def split: if_splits)
  have inst1: "ai_config inst1 = c" "ai_id inst1 = iid" "instance_ok inst1"
    using initialize_fields [of now created inst] initialize_ok [OF inst(5), of now created] inst(1,2) by (simp_all add: a3)
  show ?thesis
  proof (cases "\<exists>a. r1 = Inr a")
    case False
    then obtain e where "r1 = Inl e" by (cases r1) auto
    then show ?thesis using resources_ok [OF assms(1) h1] by (simp add: create_instance_def c a1 Let_def)
  next
    case True
    then obtain a where r1: "r1 = Inr a" by blast
    show ?thesis
    proof (cases ok)
      case False
      then have "rm_holds (snd (rm_release tenant project rm2)) (held_bag pm)" using holds_release_project h2 by simp
      then show ?thesis
        using resources_ok [OF assms(1) _ c3] False by (simp add: create_instance_def c a1 r1 a2 Let_def)
    next
      case ok: True
      show ?thesis
      proof (cases created)
        case True
        have "held_of inst1 = ?h" using inst1(1) own by (simp add: held_of_def)
        then have "pool_ok (register_instance (ai_config inst1) inst1 (pm\<lparr>pm_resources := rm2\<rparr>))"
          using register_instance_ok [OF reg, of rm2 inst1] h2 ok c2 cfg fresh inst1 own(3) by simp
        moreover have "ai_initialize now True inst = (Inr True, inst1)" using a3 x True by simp
        ultimately show ?thesis using True ok by (simp add: create_instance_def c a1 r1 a2 i inst1(1) Let_def)
      next
        case False
        have "rm_holds (snd (rm_release_instance now tenant project (quota_memory c) (quota_cpu c) rm2)) (held_bag pm)"
          using h2 ok by (auto intro: holds_release)
        moreover have "ai_initialize now False inst = (Inr False, inst1)" using a3 x False by simp
        ultimately show ?thesis
          using resources_ok [OF assms(1) _ c4] False ok by (simp add: create_instance_def c a1 r1 a2 i Let_def)
      qed
    qed
  qed
qed

section \<open>Events\<close>

datatype pool_event =
    GetOrCreate int string bool string string string "instance_config option"
  | TerminateInstance int string string string
  | ScaleInstances int string bool string int
  | PauseInstance int string string string
  | ResumeInstance int string string string
  | CheckInstance int check_outcome string
  | CheckProject int check_outcome string string string
  | Recover int string bool recovery_action string
  | CleanupExpired int
  | SetTier string string project_tier string
  | InstanceEvent string instance_event
  | StartPool
  | StopPool int

definition on_instance :: "string \<Rightarrow> (agent_instance \<Rightarrow> pool_manager) \<Rightarrow> pool_manager \<Rightarrow> pool_manager" where
  "on_instance i f pm = (case dict_get (pm_heap pm) i of None \<Rightarrow> pm | Some inst \<Rightarrow> f inst)"

fun pool_step :: "pool_manager \<Rightarrow> pool_event \<Rightarrow> pool_manager" where
  "pool_step pm (GetOrCreate now iid created t p m override) = snd (get_or_create_instance now iid created t p m override pm)"
| "pool_step pm (TerminateInstance now t p m) = snd (terminate_instance now t p m pm)"
| "pool_step pm (ScaleInstances now iid created key target) = snd (scale_instances now iid created key target pm)"
| "pool_step pm (PauseInstance now t p m) = snd (pause_instance now t p m pm)"
| "pool_step pm (ResumeInstance now t p m) = snd (resume_instance now t p m pm)"
| "pool_step pm (CheckInstance now outcome i) = on_instance i (\<lambda>inst. snd (snd (monitor_check now outcome inst pm))) pm"
| "pool_step pm (CheckProject now outcome t p m) = snd (snd (pool_health_check now outcome t p m pm))"
| "pool_step pm (Recover now iid created action i) = on_instance i (\<lambda>inst. execute_recovery now iid created action inst pm) pm"
| "pool_step pm (CleanupExpired now) = cleanup_expired_instances now pm"
| "pool_step pm (SetTier t p tier m) = set_project_tier t p tier m pm"
| "pool_step pm (InstanceEvent i ev) = on_instance i (\<lambda>inst. set_instance (instance_step inst ev) pm) pm"
| "pool_step pm StartPool = pool_start pm"
| "pool_step pm (StopPool now) = pool_stop now pm"

lemma check_project_step:
  "pool_step pm (CheckProject now outcome t p m) =
     (case dict_get (pm_instances pm) (key_of t p m) of None \<Rightarrow> pm | Some i \<Rightarrow> pool_step pm (CheckInstance now outcome i))"
  by (simp add: pool_health_check_def pool_get_def on_instance_def case_prod_beta split: option.splits)

text \<open>
  What is assumed of an event: a new instance gets a new id; an overriding configuration belongs to the
  project it is used for and asks for no negative amount; a recovery is carried out while its instance
  is still registered.
\<close>

fun event_allowed :: "pool_manager \<Rightarrow> pool_event \<Rightarrow> bool" where
  "event_allowed pm (GetOrCreate now iid created t p m override) \<longleftrightarrow>
     dict_get (pm_heap pm) iid = None \<and>
     (case override of None \<Rightarrow> True
      | Some c \<Rightarrow> config_ok c \<and> ic_tenant_id c = t \<and> ic_project_id c = p \<and> ic_agent_mode c = m)"
| "event_allowed pm (ScaleInstances now iid created key target) \<longleftrightarrow> dict_get (pm_heap pm) iid = None"
| "event_allowed pm (Recover now iid created action i) \<longleftrightarrow>
     dict_get (pm_heap pm) iid = None \<and> i \<in> set (map snd (pm_instances pm))"
| "event_allowed pm _ \<longleftrightarrow> True"

definition tiers_ok :: "pool_config \<Rightarrow> bool" where
  "tiers_ok cfg \<longleftrightarrow>
     (\<forall>tier \<in> {HOT, WARM, COLD}. let q = tc_default_quota (get_tier_config cfg tier)
        in 0 \<le> q_memory_request_mb q \<and> 0 \<le> q_cpu_request_cores q \<and> 0 \<le> q_max_concurrent_requests q)"

inductive pool_reachable :: "pool_config \<Rightarrow> pool_manager \<Rightarrow> bool" for cfg where
  started: "pool_reachable cfg (pool_init cfg)"
| stepped: "pool_reachable cfg pm \<Longrightarrow> event_allowed pm ev \<Longrightarrow> pool_reachable cfg (pool_step pm ev)"

lemma config_for_ok:
  assumes "tiers_ok (pm_config pm)"
    and "case override of None \<Rightarrow> True | Some c \<Rightarrow> config_ok c \<and> ic_tenant_id c = t \<and> ic_project_id c = p \<and> ic_agent_mode c = m"
  shows "ic_tenant_id (config_for t p m override pm) = t" "ic_project_id (config_for t p m override pm) = p"
    "config_ok (config_for t p m override pm)" "instance_key (config_for t p m override pm) = key_of t p m"
proof -
  have "config_ok (new_instance_config p t m tier (tc_default_quota (get_tier_config (pm_config pm) tier)))" for tier
    using assms(1) unfolding tiers_ok_def config_ok_def quota_memory_def quota_cpu_def new_instance_config_def
    by (cases tier) (simp_all add: Let_def)
  then show "ic_tenant_id (config_for t p m override pm) = t" "ic_project_id (config_for t p m override pm) = p"
    "config_ok (config_for t p m override pm)" "instance_key (config_for t p m override pm) = key_of t p m"
    using assms(2) by (auto simp: config_for_def Let_def new_instance_config_def instance_key_def split: option.splits)
qed

lemma pm_config_simps [simp]:
  "pm_config (set_instance inst pm) = pm_config pm" "pm_config (remove_instance now inst pm) = pm_config pm"
  "pm_config (register_instance c inst pm) = pm_config pm"
  by (simp_all add: set_instance_def remove_instance_def register_instance_def Let_def)

lemma pm_config_create [simp]:
  "pm_config (snd (create_instance now iid created t p m override pm)) = pm_config pm"
  by (simp add: create_instance_def Let_def split: prod.splits sum.splits option.splits bool.splits)

lemma pool_get_registered:
  assumes "pool_registry_ok pm" and "pool_get k pm = Some inst"
  shows "registered pm (instance_key (ai_config inst)) (ai_id inst) inst" "instance_key (ai_config inst) = k" "instance_ok inst"
proof -
  obtain i where i: "dict_get (pm_instances pm) k = Some i" "dict_get (pm_heap pm) i = Some inst"
    using assms(2) by (auto simp: pool_get_def split: option.splits)
  from registry_entry [OF assms(1) i(1)] i(2) show "instance_key (ai_config inst) = k" by force
  with i registry_heap [OF assms(1) i(2)] show "registered pm (instance_key (ai_config inst)) (ai_id inst) inst" "instance_ok inst"
    by (auto simp: registered_def)
qed

lemma pool_get_None:
  assumes "pool_registry_ok pm" and "pool_get k pm = None"
  shows "dict_get (pm_instances pm) k = None"
  using assms registry_entry [OF assms(1)] by (auto simp: pool_get_def split: option.splits) (metis option.distinct(1))

lemma remove_keeps_fresh:
  assumes "registered pm k (ai_id inst) inst" and "dict_get (pm_heap pm) iid = None"
  shows "dict_get (pm_heap (remove_instance now inst pm)) iid = None"
  using assms by (auto simp: remove_instance_fields dict_get_set registered_def)

text \<open>Create for a key that is free, and after removing what was registered under it.\<close>

lemma create_after_remove_ok:
  assumes "pool_ok pm" and "tiers_ok (pm_config pm)" and "dict_get (pm_heap pm) iid = None"
    and ov: "case override of None \<Rightarrow> True | Some c \<Rightarrow> config_ok c \<and> ic_tenant_id c = t \<and> ic_project_id c = p \<and> ic_agent_mode c = m"
  shows "pool_get (key_of t p m) pm = None \<Longrightarrow> pool_ok (snd (create_instance now iid created t p m override pm))"
    and "pool_get (key_of t p m) pm = Some inst \<Longrightarrow>
      pool_ok (snd (create_instance now iid created t p m override (remove_instance now' inst pm)))"
proof -
  have reg: "pool_registry_ok pm" using assms(1) by (simp add: pool_ok_def)
  show "pool_ok (snd (create_instance now iid created t p m override pm))" if "pool_get (key_of t p m) pm = None"
    using create_instance_ok [OF assms(1) refl config_for_ok(1-3) [OF assms(2) ov] assms(3)] pool_get_None [OF reg that]
      config_for_ok(4) [OF assms(2) ov] by simp
  assume g: "pool_get (key_of t p m) pm = Some inst"
  note r = pool_get_registered [OF reg g]
  let ?pm = "remove_instance now' inst pm"
  have ok: "pool_ok ?pm" by (rule remove_instance_ok [OF assms(1) r(1)])
  have tiers: "tiers_ok (pm_config ?pm)" using assms(2) by simp
  have "dict_get (pm_instances ?pm) (key_of t p m) = None" by (simp add: remove_instance_fields r(2) dict_get_pop)
  then show "pool_ok (snd (create_instance now iid created t p m override ?pm))"
    using create_instance_ok [OF ok refl config_for_ok(1-3) [OF tiers ov] remove_keeps_fresh [OF r(1) assms(3)]]
      config_for_ok(4) [OF tiers ov] by simp
qed

lemma set_same_config_ok:
  assumes "pool_ok pm" and "dict_get (pm_heap pm) (ai_id inst) = Some old" and "ai_config inst = ai_config old" and "instance_ok inst"
  shows "pool_ok (set_instance inst pm)"
  using set_instance_ok [OF assms(1,2) _ _ _ assms(4)] assms(3) by (simp add: held_of_def)

lemma check_instance_fields:
  assumes "check_instance now outcome inst hm = (r, cb, inst1, hm1)" and "instance_ok inst"
  shows "ai_config inst1 = ai_config inst" "ai_id inst1 = ai_id inst" "instance_ok inst1"
  using assms health_check_ok [OF assms(2), of now] guarded_ok(4,5) [OF health_check_ok [OF assms(2), of now], of now]
  by (cases outcome; auto simp: check_instance_def Let_def split: prod.splits if_splits; metis guarded_fields(11,12) snd_conv)+

lemma pool_list_members:
  assumes "pool_registry_ok pm"
  shows "distinct (map ai_id (pool_list pm))"
    and "inst \<in> set (pool_list pm) \<Longrightarrow> registered pm (instance_key (ai_config inst)) (ai_id inst) inst"
proof -
  have wf: "wf_dict (pm_instances pm)" using assms unfolding pool_registry_ok_def by blast
  have entry: "\<exists>x. dict_get (pm_heap pm) i = Some x \<and> instance_key (ai_config x) = k \<and> ai_id x = i \<and> dict_get (pm_instances pm) k = Some i"
    if "(k, i) \<in> set (pm_instances pm)" for k i
  proof -
    have k: "dict_get (pm_instances pm) k = Some i" using that dict_get_iff_mem [OF wf] by blast
    from registry_entry [OF assms k] obtain x where "dict_get (pm_heap pm) i = Some x" "instance_key (ai_config x) = k" .
    with registry_heap [OF assms this(1)] k show ?thesis by blast
  qed
  have "ai_id (the (dict_get (pm_heap pm) (snd ki))) = snd ki" if "ki \<in> set (pm_instances pm)" for ki
    using entry [of "fst ki" "snd ki"] that by auto
  then have "map ai_id (pool_list pm) = map snd (pm_instances pm)" by (simp add: pool_list_map [OF assms])
  moreover have "distinct (map snd (pm_instances pm))"
  proof -
    have "inj_on snd (set (pm_instances pm))"
    proof (rule inj_onI)
      fix a b assume ab: "a \<in> set (pm_instances pm)" "b \<in> set (pm_instances pm)" "snd a = snd b"
      obtain k i k' where eq: "a = (k, i)" "b = (k', i)" using ab(3) by (metis prod.collapse)
      then show "a = b" using entry [of k i] entry [of k' i] ab by auto
    qed
    then show ?thesis using wf by (simp add: distinct_map wf_dict_def)
  qed
  ultimately show "distinct (map ai_id (pool_list pm))" by simp
  show "registered pm (instance_key (ai_config inst)) (ai_id inst) inst" if "inst \<in> set (pool_list pm)"
    using that entry by (force simp: pool_list_map [OF assms] registered_def)
qed

lemma remove_all_ok:
  "pool_ok pm \<Longrightarrow> distinct (map ai_id xs) \<Longrightarrow> \<forall>inst \<in> set xs. registered pm (instance_key (ai_config inst)) (ai_id inst) inst \<Longrightarrow>
   pool_ok (foldl (\<lambda>p inst. remove_instance now inst p) pm xs) \<and>
   pm_config (foldl (\<lambda>p inst. remove_instance now inst p) pm xs) = pm_config pm"
proof (induction xs arbitrary: pm)
  case (Cons x xs)
  let ?pm = "remove_instance now x pm"
  have "registered ?pm (instance_key (ai_config y)) (ai_id y) y" if "y \<in> set xs" for y
  proof -
    have "ai_id x \<notin> ai_id ` set xs" using Cons.prems(2) by simp
    then have ne: "ai_id y \<noteq> ai_id x" using that by (metis image_eqI)
    then have "instance_key (ai_config y) \<noteq> instance_key (ai_config x)"
      using Cons.prems(3) that unfolding registered_def by (metis list.set_intros option.inject)
    then show ?thesis using Cons.prems(3) that ne by (simp add: registered_def remove_instance_fields dict_get_pop dict_get_set)
  qed
  then show ?case using Cons.IH [of ?pm] Cons.prems remove_instance_ok [OF Cons.prems(1), of x] by simp
qed simp

lemma stop_all_ok:
  "pool_ok pm \<Longrightarrow> distinct (map ai_id xs) \<Longrightarrow> \<forall>inst \<in> set xs. dict_get (pm_heap pm) (ai_id inst) = Some inst \<Longrightarrow>
   pool_ok (foldl (\<lambda>p inst. set_instance (ai_stop now True inst) p) pm xs) \<and>
   pm_config (foldl (\<lambda>p inst. set_instance (ai_stop now True inst) p) pm xs) = pm_config pm"
proof (induction xs arbitrary: pm)
  case (Cons x xs)
  let ?pm = "set_instance (ai_stop now True x) pm"
  have x: "dict_get (pm_heap pm) (ai_id x) = Some x" using Cons.prems(3) by simp
  then have "instance_ok x" using Cons.prems(1) registry_heap by (auto simp: pool_ok_def)
  then have "pool_ok ?pm" using set_same_config_ok [OF Cons.prems(1), of "ai_stop now True x" x] x stop_ok by simp
  moreover have "dict_get (pm_heap ?pm) (ai_id y) = Some y" if "y \<in> set xs" for y
  proof -
    have "ai_id x \<notin> ai_id ` set xs" using Cons.prems(2) by simp
    then have "ai_id y \<noteq> ai_id x" using that by (metis image_eqI)
    then show ?thesis using Cons.prems(3) that by (simp add: set_instance_def dict_get_set)
  qed
  ultimately show ?case using Cons.IH [of ?pm] Cons.prems(2) by simp
qed simp

lemma parse_instance_key_eq: "parse_instance_key key = Some (t, p, m) \<Longrightarrow> key_of t p m = key"
  by (auto simp: parse_instance_key_def key_of_def dest!: split_at_eq split: option.splits if_splits)

text \<open>The second registration of \<open>scale_instances\<close> never happens: the new instance is under the very key already.\<close>

lemma create_success:
  assumes "fst (create_instance now iid created t p m override pm) = Inr i"
  obtains inst rm where "snd (create_instance now iid created t p m override pm) =
    register_instance (config_for t p m override pm) inst (pm\<lparr>pm_resources := rm\<rparr>)"
proof -
  let ?c = "config_for t p m override pm"
  obtain a rm1 where a: "rm_allocate now ?c (pm_resources pm) = (a, rm1)" by (metis prod.exhaust)
  obtain ok rm2 where ok: "rm_acquire_instance now t p (quota_memory ?c) (quota_cpu ?c) rm1 = (ok, rm2)" by (metis prod.exhaust)
  have x: "instance_init now iid ?c False \<noteq> None" using assms a ok by (cases a; cases ok; cases "instance_init now iid ?c False") (simp_all add: create_instance_def Let_def)
  then obtain inst where inst: "instance_init now iid ?c False = Some inst" by blast
  obtain res inst1 where res: "ai_initialize now created inst = (res, inst1)" by (metis prod.exhaust)
  have "snd (create_instance now iid created t p m override pm) = register_instance ?c inst1 (pm\<lparr>pm_resources := rm2\<rparr>)"
    using assms a ok inst res by (cases a; cases ok; cases res) (auto simp: create_instance_def Let_def split: bool.splits)
  then show thesis by (rule that)
qed

lemma create_registers:
  assumes "fst (create_instance now iid created t p m None pm) = Inr i" and "key_of t p m = key"
  shows "ensure_registered key j (snd (create_instance now iid created t p m None pm)) = snd (create_instance now iid created t p m None pm)"
proof -
  have "instance_key (config_for t p m None pm) = key"
    using assms(2) by (simp add: config_for_def instance_key_def new_instance_config_def Let_def)
  then show ?thesis
    by (rule_tac create_success [OF assms(1)]) (simp add: register_instance_def ensure_registered_def dict_get_set Let_def)
qed

lemma scale_instances_ok:
  assumes "pool_ok pm" and "tiers_ok (pm_config pm)" and "dict_get (pm_heap pm) iid = None"
  shows "pool_ok (snd (scale_instances now iid created key target pm)) \<and>
    pm_config (snd (scale_instances now iid created key target pm)) = pm_config pm"
proof (cases "target < 0 \<or> parse_instance_key key = None")
  case True
  then show ?thesis using assms(1) by (auto simp: scale_instances_def)
next
  case False
  then obtain t p m where k: "parse_instance_key key = Some (t, p, m)" by auto
  have key: "key_of t p m = key" by (rule parse_instance_key_eq [OF k])
  have reg: "pool_registry_ok pm" using assms(1) by (simp add: pool_ok_def)
  note create = create_after_remove_ok [OF assms, where override = None and t = t and p = p and m = m, unfolded key, simplified]
  show ?thesis
  proof (cases "pool_get key pm")
    case None
    then show ?thesis
      using False assms(1) create(1) [OF None, of now created]
      by (auto simp: scale_instances_def k case_prod_beta create_registers [OF _ key] split: sum.splits)
  next
    case (Some inst)
    have rm: "pool_ok (remove_instance now inst pm)" by (rule remove_instance_ok [OF assms(1) pool_get_registered(1) [OF reg Some]])
    show ?thesis
      using False assms(1) rm create(2) [OF Some, of now created now]
      by (auto simp: scale_instances_def k Some case_prod_beta create_registers [OF _ key] split: sum.splits)
  qed
qed

lemma execute_recovery_ok:
  assumes "pool_ok pm" and "tiers_ok (pm_config pm)" and "dict_get (pm_heap pm) iid = None"
    and r: "registered pm (instance_key (ai_config inst)) (ai_id inst) inst"
  shows "pool_ok (execute_recovery now iid created action inst pm) \<and>
    pm_config (execute_recovery now iid created action inst pm) = pm_config pm"
proof -
  have reg: "pool_registry_ok pm" and heap: "dict_get (pm_heap pm) (ai_id inst) = Some inst"
    using assms(1) r by (auto simp: pool_ok_def registered_def)
  have iok: "instance_ok inst" and cok: "config_ok (ai_config inst)"
    using registry_heap [OF reg heap] r registry_entry [OF reg, of "instance_key (ai_config inst)" "ai_id inst"]
    by (auto simp: registered_def)
  show ?thesis
  proof (cases action)
    case RESTART
    obtain x inst1 where i: "ai_initialize now created inst = (x, inst1)" by fastforce
    then have inst1: "ai_config inst1 = ai_config inst" "ai_id inst1 = ai_id inst" "instance_ok inst1"
      using initialize_fields [of now created inst] initialize_ok [OF iok, of now created] by simp_all
    have "pool_ok (set_instance inst1 pm)" "pool_ok (set_instance (ai_mark_recovered now inst1) pm)"
      using set_same_config_ok [OF assms(1), of inst1 inst] set_same_config_ok [OF assms(1), of "ai_mark_recovered now inst1" inst]
        inst1 heap guarded_ok(5) [OF inst1(3), of now] by simp_all
    then show ?thesis by (auto simp: execute_recovery_def RESTART i split: sum.splits bool.splits)
  next
    case MIGRATE
    define c where "c = with_tier (if ic_tier (ai_config inst) = HOT then WARM else COLD) (ai_config inst)"
    define res where "res = create_instance now iid created (ic_tenant_id c) (ic_project_id c) (ic_agent_mode c) (Some c) (remove_instance now inst pm)"
    have c: "config_ok c" "instance_key c = instance_key (ai_config inst)"
      using cok by (simp_all add: c_def with_tier_def config_ok_def quota_memory_def quota_cpu_def instance_key_def)
    have "pool_get (key_of (ic_tenant_id c) (ic_project_id c) (ic_agent_mode c)) pm = Some inst"
      using r c(2) by (simp add: pool_get_def registered_def instance_key_def)
    then have ok: "pool_ok (snd res)" using create_after_remove_ok(2) [OF assms(1-3), where override = "Some c"] c(1) by (simp add: res_def)
    have cfg: "pm_config (snd res) = pm_config pm" by (simp add: res_def)
    have "pool_ok (set_instance (ai_mark_recovered now inst2) (snd res))" if "dict_get (pm_heap (snd res)) i = Some inst2" for i inst2
    proof -
      have "ai_id inst2 = i" "instance_ok inst2" using registry_heap that ok by (auto simp: pool_ok_def)
      then show ?thesis using set_same_config_ok [OF ok, of "ai_mark_recovered now inst2" inst2] that guarded_ok(5) by simp
    qed
    then show ?thesis
      using ok cfg unfolding execute_recovery_def MIGRATE
      by (auto simp: Let_def c_def [symmetric] res_def [symmetric] case_prod_beta split: sum.splits option.splits)
  qed (use assms(1) remove_instance_ok [OF assms(1) r] in \<open>simp_all add: execute_recovery_def\<close>)
qed

lemma set_project_tier_ok:
  assumes "pool_ok pm"
  shows "pool_ok (set_project_tier t p tier m pm)"
proof -
  have reg: "pool_registry_ok pm" using assms by (simp add: pool_ok_def)
  have "pool_ok (set_instance (inst\<lparr>ai_config := (with_tier tier (ai_config inst))\<lparr>ic_tier_override := True\<rparr>\<rparr>) pm)"
    if "pool_get (key_of t p m) pm = Some inst" for inst
  proof -
    note r = pool_get_registered [OF reg that]
    show ?thesis
    proof (rule set_instance_ok [OF assms])
      show "dict_get (pm_heap pm) (ai_id (inst\<lparr>ai_config := (with_tier tier (ai_config inst))\<lparr>ic_tier_override := True\<rparr>\<rparr>)) = Some inst"
        using r(1) by (simp add: registered_def)
    qed (use r(3) in \<open>simp_all add: held_of_def with_tier_def quota_memory_def quota_cpu_def instance_key_def config_ok_def instance_ok_def\<close>)
  qed
  then have "pool_ok (case pool_get (key_of t p m) pm of None \<Rightarrow> pm
      | Some inst \<Rightarrow> if ic_tier (ai_config inst) \<noteq> tier
          then set_instance (inst\<lparr>ai_config := (with_tier tier (ai_config inst))\<lparr>ic_tier_override := True\<rparr>\<rparr>) pm else pm)"
    using assms by (simp split: option.splits)
  then show ?thesis unfolding set_project_tier_def Let_def by (rule pool_ok_cong) simp_all
qed

lemma set_project_tier_config [simp]: "pm_config (set_project_tier t p tier m pm) = pm_config pm"
  by (simp add: set_project_tier_def Let_def split: option.splits)

lemma check_step_ok:
  assumes ok: "pool_ok pm"
  shows "pool_ok (pool_step pm (CheckInstance now outcome i)) \<and> pm_config (pool_step pm (CheckInstance now outcome i)) = pm_config pm"
proof (cases "dict_get (pm_heap pm) i")
  case (Some inst)
  have iok: "ai_id inst = i" "instance_ok inst" using registry_heap [OF _ Some] ok by (auto simp: pool_ok_def)
  obtain r cb inst1 hm1 where c: "check_instance now outcome inst (pm_monitor pm) = (r, cb, inst1, hm1)" by (metis prod.exhaust)
  note f = check_instance_fields [OF c iok(2)]
  have "pool_ok (pm\<lparr>pm_monitor := hm1\<rparr>)" by (rule pool_ok_cong [OF ok]) simp_all
  then have "pool_ok (set_instance inst1 (pm\<lparr>pm_monitor := hm1\<rparr>))"
    by (rule set_same_config_ok) (use f Some iok in simp_all)
  then show ?thesis by (simp add: on_instance_def Some monitor_check_def c)
qed (simp add: on_instance_def ok)

lemma pool_step_ok:
  assumes ok: "pool_ok pm" and "tiers_ok (pm_config pm)" and "event_allowed pm ev"
  shows "pool_ok (pool_step pm ev) \<and> pm_config (pool_step pm ev) = pm_config pm"
proof -
  have reg: "pool_registry_ok pm" using ok by (simp add: pool_ok_def)
  note got = pool_get_registered [OF reg] and set = set_same_config_ok [OF ok]
  have iok: "ai_id inst = i" "instance_ok inst" if "dict_get (pm_heap pm) i = Some inst" for i inst
    using registry_heap [OF reg that] by auto
  show ?thesis
  proof (cases ev)
    case (GetOrCreate now iid created t p m override)
    note create = create_after_remove_ok [OF ok assms(2), where override = override and t = t and p = p and m = m]
    show ?thesis
      using assms(3) ok create unfolding GetOrCreate by (auto simp: get_or_create_instance_def split: option.splits)
  next
    case (TerminateInstance now t p m)
    show ?thesis using ok remove_instance_ok [OF ok got(1)] unfolding TerminateInstance
      by (auto simp: terminate_instance_def split: option.splits)
  next
    case (ScaleInstances now iid created key target)
    show ?thesis using assms(3) scale_instances_ok [OF ok assms(2)] unfolding ScaleInstances by simp
  next
    case (PauseInstance now t p m)
    show ?thesis using ok set got guarded_ok(1) unfolding PauseInstance
      by (auto simp: pause_instance_def registered_def split: option.splits)
  next
    case (ResumeInstance now t p m)
    show ?thesis using ok set got guarded_ok(2) unfolding ResumeInstance
      by (auto simp: resume_instance_def registered_def split: option.splits)
  next
    case (CheckInstance now outcome i)
    show ?thesis unfolding CheckInstance by (rule check_step_ok [OF ok])
  next
    case (CheckProject now outcome t p m)
    show ?thesis
      using ok check_step_ok [OF ok] unfolding CheckProject check_project_step by (auto simp del: pool_step.simps split: option.split)
  next
    case (Recover now iid created action i)
    then obtain k where "dict_get (pm_instances pm) k = Some i"
      using assms(3) reg unfolding pool_registry_ok_def by (force simp: dict_get_iff_mem)
    then obtain inst where "dict_get (pm_heap pm) i = Some inst" "instance_key (ai_config inst) = k" "dict_get (pm_instances pm) k = Some i"
      using registry_entry [OF reg] by metis
    then show ?thesis
      using execute_recovery_ok [OF ok assms(2), of iid inst] assms(3) iok(1) unfolding Recover
      by (simp add: on_instance_def registered_def)
  next
    case (CleanupExpired now)
    have "distinct (map ai_id (expired_instances now pm))"
      using pool_list_members(1) [OF reg] by (simp add: expired_instances_def distinct_map_filter)
    then show ?thesis
      using remove_all_ok [OF ok] pool_list_members(2) [OF reg] unfolding CleanupExpired
      by (simp add: cleanup_expired_instances_def expired_instances_def)
  next
    case (InstanceEvent i e)
    show ?thesis
      using ok iok set instance_step_ok unfolding InstanceEvent by (auto simp: on_instance_def split: option.splits)
  next
    case (StopPool now)
    let ?pm = "pm\<lparr>pm_running := False, pm_monitor := (pm_monitor pm)\<lparr>hm_monitored := []\<rparr>\<rparr>"
    have "pool_ok ?pm" by (rule pool_ok_cong [OF ok]) simp_all
    from stop_all_ok [OF this pool_list_members(1) [OF reg]] pool_list_members(2) [OF reg] show ?thesis
      unfolding StopPool using ok by (simp add: pool_stop_def registered_def)
  next
    case StartPool
    have "pool_ok (pool_start pm)" by (rule pool_ok_cong [OF ok]) (simp_all add: pool_start_def)
    then show ?thesis unfolding StartPool by (simp add: pool_start_def)
  qed (simp add: set_project_tier_ok [OF ok])
qed

lemma pool_init_ok: "pool_ok (pool_init cfg)"
  by (simp add: pool_ok_def pool_init_def pool_registry_ok_def held_bag_def pool_list_def holds_init)
    (simp add: rm_init_def List.map_filter_def)

lemma reachable_ok:
  assumes "pool_reachable cfg pm" and "tiers_ok cfg"
  shows "pool_ok pm \<and> pm_config pm = cfg"
  using assms(1)
proof induction
  case started
  show ?case using pool_init_ok [of cfg] by (simp add: pool_init_def)
next
  case (stepped pm ev)
  then show ?case using pool_step_ok [of pm ev] assms(2) by simp
qed

lemma held_bag_sums:
  "held_memory (image_mset held_of (mset xs)) = sum_list (map (\<lambda>i. quota_memory (ai_config i)) xs)"
  "held_cpu (image_mset held_of (mset xs)) = sum_list (map (\<lambda>i. quota_cpu (ai_config i)) xs)"
  "int (size (of_key k (image_mset held_of (mset xs)))) =
     count_of (\<lambda>i. allocation_key (ic_tenant_id (ai_config i)) (ic_project_id (ai_config i)) = k) xs"
  by (induction xs) (simp_all add: held_of_def count_of_def)

text \<open>
  C5: whatever requests, terminations, scalings, health checks, recoveries and clean-ups the pool goes
  through, the resource manager's counters are those of the registered instances: the pool never has
  more instances, memory or CPU registered than its limits, no project more than its quota, and nothing
  is ever counted that is no longer registered.
\<close>

theorem pool_accounting:
  assumes "pool_reachable cfg pm" and "tiers_ok cfg"
  shows "rm_total_instances (pm_resources pm) = st_total_instances (pool_get_stats pm) \<and>
    rm_total_instances (pm_resources pm) \<le> max 0 (plc_max_total_instances cfg) \<and>
    rm_total_memory_mb (pm_resources pm) = sum_list (map (\<lambda>i. quota_memory (ai_config i)) (pool_list pm)) \<and>
    rm_total_memory_mb (pm_resources pm) \<le> max 0 (of_int (plc_max_total_memory_mb cfg)) \<and>
    rm_total_cpu_cores (pm_resources pm) = sum_list (map (\<lambda>i. quota_cpu (ai_config i)) (pool_list pm)) \<and>
    rm_total_cpu_cores (pm_resources pm) \<le> max 0 (plc_max_total_cpu_cores cfg) \<and>
    (\<forall>k a. dict_get (rm_allocations (pm_resources pm)) k = Some a \<longrightarrow>
       al_active_instances a = count_of (\<lambda>i. allocation_key (ic_tenant_id (ai_config i)) (ic_project_id (ai_config i)) = k) (pool_list pm) \<and>
       al_active_instances a \<le> max 0 (q_max_instances (al_quota a)))"
proof -
  have ok: "rm_holds (pm_resources pm) (held_bag pm)" "rm_config (pm_resources pm) = cfg"
    using reachable_ok [OF assms] by (auto simp: pool_ok_def)
  have st: "st_total_instances (pool_get_stats pm) = int (length (pool_list pm))" by (simp add: pool_get_stats_def Let_def)
  from holds_limits [OF ok(1)] show ?thesis
    unfolding held_bag_def held_bag_sums ok(2) st size_image_mset size_mset .
qed

lemma default_tiers_ok: "tiers_ok default_pool_config"
  by (simp add: tiers_ok_def get_tier_config_def default_pool_config_def default_tier_configs_def dict_get_default_def
      hot_tier_config_def warm_tier_config_def cold_tier_config_def tier_quota_def)

definition sample_pool :: pool_manager where
  "sample_pool = foldl pool_step (pool_init default_pool_config)
     [GetOrCreate 0 ''i1'' True ''t'' ''p'' ''default'' None, GetOrCreate 1 ''i2'' True ''t'' ''p'' ''plan'' None,
      GetOrCreate 2 ''i3'' True ''t'' ''p'' ''x'' None, InstanceEvent ''i1'' (Enter 3)]"

lemma reachable_run:
  "pool_reachable cfg pm \<Longrightarrow> (\<And>i. i < length evs \<Longrightarrow> event_allowed (foldl pool_step pm (take i evs)) (evs ! i)) \<Longrightarrow>
   pool_reachable cfg (foldl pool_step pm evs)"
proof (induction evs rule: rev_induct)
  case (snoc ev evs)
  have "pool_reachable cfg (foldl pool_step pm evs)"
  proof (rule snoc.IH [OF snoc.prems(1)])
    show "event_allowed (foldl pool_step pm (take i evs)) (evs ! i)" if "i < length evs" for i
      using snoc.prems(2) [of i] that by (simp add: nth_append)
  qed
  moreover have "event_allowed (foldl pool_step pm evs) ev" using snoc.prems(2) [of "length evs"] by simp
  ultimately show ?case by (simp add: pool_reachable.stepped)
qed simp

lemma sample_pool_reachable: "pool_reachable default_pool_config sample_pool"
  unfolding sample_pool_def
proof (rule reachable_run [OF pool_reachable.started])
  let ?evs = "[GetOrCreate 0 ''i1'' True ''t'' ''p'' ''default'' None, GetOrCreate 1 ''i2'' True ''t'' ''p'' ''plan'' None,
      GetOrCreate 2 ''i3'' True ''t'' ''p'' ''x'' None, InstanceEvent ''i1'' (Enter 3)]"
  have "list_all (\<lambda>i. event_allowed (foldl pool_step (pool_init default_pool_config) (take i ?evs)) (?evs ! i)) [0, 1, 2, 3]"
    by code_simp
  then show "event_allowed (foldl pool_step (pool_init default_pool_config) (take i ?evs)) (?evs ! i)" if "i < length ?evs" for i
    using that by (auto simp: less_Suc_eq numeral_eq_Suc)
qed

theorem pool_accounting_witness:
  "st_total_instances (pool_get_stats sample_pool) = 2 \<and> rm_total_instances (pm_resources sample_pool) = 2 \<and>
   rm_total_memory_mb (pm_resources sample_pool) \<le> 32768"
proof -
  have "st_total_instances (pool_get_stats sample_pool) = 2" by code_simp
  then show ?thesis
    using pool_accounting [OF sample_pool_reachable default_tiers_ok] by (simp add: default_pool_config_def)
qed

section \<open>Recoveries\<close>

text \<open>Recovery attempts are counted by \<open>handle_unhealthy\<close> only, which the pool manager does not call.\<close>

definition no_attempts :: "pool_manager \<Rightarrow> bool" where
  "no_attempts pm \<longleftrightarrow>
     (\<forall>i hs. dict_get (hm_states (pm_monitor pm)) i = Some hs \<longrightarrow> hs_recovery_attempts hs = 0 \<and> hs_last_recovery_at hs = None) \<and>
     hc_max_recovery_attempts (hm_config (pm_monitor pm)) = 3"

definition monitored_as :: "pool_manager \<Rightarrow> pool_manager \<Rightarrow> bool" where
  "monitored_as pm' pm \<longleftrightarrow> hm_states (pm_monitor pm') = hm_states (pm_monitor pm) \<and> hm_config (pm_monitor pm') = hm_config (pm_monitor pm)"

lemma monitored_as_refl [simp]: "monitored_as pm pm"
  by (simp add: monitored_as_def)

lemma monitored_as_trans: "monitored_as p q \<Longrightarrow> monitored_as q r \<Longrightarrow> monitored_as p r"
  by (simp add: monitored_as_def)

lemma monitored_as_simps [simp]:
  "monitored_as (set_instance inst pm) pm' = monitored_as pm pm'"
  "monitored_as (remove_instance now inst pm) pm' = monitored_as pm pm'"
  "monitored_as (register_instance c inst pm) pm' = monitored_as pm pm'"
  "monitored_as (pm\<lparr>pm_resources := rm\<rparr>) pm' = monitored_as pm pm'"
  "monitored_as (pm\<lparr>pm_tier_overrides := ts\<rparr>) pm' = monitored_as pm pm'"
  "monitored_as (pm\<lparr>pm_running := b, pm_monitor := (pm_monitor pm)\<lparr>hm_monitored := is\<rparr>\<rparr>) pm' = monitored_as pm pm'"
  "monitored_as (ensure_registered key i pm) pm' = monitored_as pm pm'"
  "monitored_as (pool_start pm) pm' = monitored_as pm pm'"
  by (simp_all add: monitored_as_def ensure_registered_def pool_start_def set_instance_def remove_instance_def register_instance_def hm_stop_monitoring_def hm_start_monitoring_def Let_def)

lemma create_monitored [simp]: "monitored_as (snd (create_instance now iid created t p m override pm)) pm' = monitored_as pm pm'"
  by (simp add: create_instance_def Let_def split: prod.splits sum.splits option.splits bool.splits)

lemma no_attempts_cong: "no_attempts pm \<Longrightarrow> monitored_as pm' pm \<Longrightarrow> no_attempts pm'"
  by (simp add: no_attempts_def monitored_as_def)

lemma foldl_monitored:
  "(\<And>p x. monitored_as (f p x) pm = monitored_as p pm) \<Longrightarrow> monitored_as (foldl f p xs) pm = monitored_as p pm"
  by (induction xs arbitrary: p) auto

lemma check_no_attempts:
  assumes "no_attempts pm" and "check_instance now outcome inst (pm_monitor pm) = (r, cb, inst1, hm1)"
  shows "no_attempts (pm\<lparr>pm_monitor := hm1\<rparr>)"
proof -
  have rec: "no_attempts (pm\<lparr>pm_monitor := hm_record iid r (pm_monitor pm)\<rparr>)" for iid r
    using assms(1)
    by (auto simp: no_attempts_def hm_record_def dict_get_set dict_get_default_def record_check_fields new_health_state_def split: option.splits)
  have "hm1 = hm_record (ai_id inst) r (pm_monitor pm) \<or>
    (\<exists>hs. hm1 = (hm_record (ai_id inst) r (pm_monitor pm))\<lparr>hm_states :=
       dict_set (ai_id inst) (hs_reset_recovery_state hs) (hm_states (hm_record (ai_id inst) r (pm_monitor pm)))\<rparr>)"
    using assms(2) by (cases outcome) (auto simp: check_instance_def Let_def split: prod.splits if_splits)
  then show ?thesis
    using rec [of "ai_id inst" r] by (auto simp: no_attempts_def dict_get_set hs_reset_recovery_state_def split: if_splits)
qed

lemma reachable_no_attempts: "pool_reachable cfg pm \<Longrightarrow> no_attempts pm"
proof (induction rule: pool_reachable.induct)
  case started
  show ?case by (simp add: no_attempts_def pool_init_def health_monitor_init_def default_health_config_def)
next
  case (stepped pm ev)
  have "no_attempts (pool_step pm (CheckInstance now outcome i))" for now outcome i
  proof (cases "dict_get (pm_heap pm) i")
    case (Some inst)
    obtain r cb inst1 hm1 where c: "check_instance now outcome inst (pm_monitor pm) = (r, cb, inst1, hm1)" by (metis prod.exhaust)
    show ?thesis
      by (rule no_attempts_cong [OF check_no_attempts [OF stepped.IH c]])
        (simp add: on_instance_def Some monitor_check_def c)
  qed (simp add: on_instance_def stepped.IH)
  then have check: "no_attempts (pool_step pm (CheckInstance now outcome i))" "no_attempts (pool_step pm (CheckProject now outcome t p m))"
    for now outcome i t p m
    using stepped.IH by (auto simp del: pool_step.simps simp: check_project_step split: option.split)
  have "monitored_as (pool_step pm ev) pm" 
    if "\<nexists>now outcome i. ev = CheckInstance now outcome i" "\<nexists>now outcome t p m. ev = CheckProject now outcome t p m"
    using that
    by (cases ev) (auto simp: get_or_create_instance_def terminate_instance_def scale_instances_def pause_instance_def resume_instance_def
        on_instance_def execute_recovery_def cleanup_expired_instances_def set_project_tier_def pool_stop_def foldl_monitored case_prod_beta Let_def
        split: option.splits sum.splits recovery_action.splits bool.splits)
  then show ?case using check no_attempts_cong [OF stepped.IH] by blast
qed

lemma check_unhealthy:
  assumes "check_instance now outcome inst hm = (r, Some (OnUnhealthy r2), inst1, hm1)" and "instance_ok inst"
    and "ai_status inst \<in> {READY, EXECUTING, PAUSED, DEGRADED}"
  shows "r2 = r \<and> ai_status inst1 = UNHEALTHY"
proof -
  obtain r1 i1 where h: "ai_health_check now inst = (r1, i1)" by fastforce
  have i1: "instance_ok i1" "ai_status i1 = ai_status inst"
    using health_check_ok [OF assms(2), of now] health_check_status [of now inst] by (simp_all add: h)
  then have "ai_status (ai_mark_unhealthy now err i1) = UNHEALTHY" for err
    using assms(3) by (auto simp: ai_mark_unhealthy_def fire_if_possible_status instance_ok_def)
  moreover have "r2 = r \<and> inst1 = ai_mark_unhealthy now (hr_error_message r) i1"
    using assms(1) by (cases outcome) (auto simp: check_instance_def Let_def h split: if_splits)
  ultimately show ?thesis by simp
qed

text \<open>
  C25: the automatic recovery never recovers anything by itself: when a check finds a working instance
  unhealthy, the action decided on is never its termination, however often this happens, and a restart
  leaves the instance \<open>UNHEALTHY\<close>, because \<open>initialize\<close> raises for every status but the first two.
\<close>

theorem recovery_never_restarts:
  assumes "pool_reachable cfg pm" and "tiers_ok cfg" and "dict_get (pm_heap pm) i = Some inst"
    and "ai_status inst \<in> {READY, EXECUTING, PAUSED, DEGRADED}"
    and "monitor_check now outcome inst pm = (r, Some action, pm')"
  shows "action \<noteq> TERMINATE \<and>
    (\<exists>inst'. dict_get (pm_heap pm') i = Some inst' \<and> ai_status inst' = UNHEALTHY \<and>
       (\<exists>e. fst (ai_initialize later created inst') = Inl e) \<and>
       dict_get (pm_heap (execute_recovery later iid created RESTART inst' pm')) i = Some inst')"
proof -
  obtain r' cb inst1 hm1 where c: "check_instance now outcome inst (pm_monitor pm) = (r', cb, inst1, hm1)" by (metis prod.exhaust)
  have ok: "ai_id inst = i" "instance_ok inst"
    using reachable_ok [OF assms(1,2)] registry_heap [of pm i inst] assms(3) by (auto simp: pool_ok_def)
  note f = check_instance_fields [OF c ok(2)]
  obtain r2 where cb: "cb = Some (OnUnhealthy r2)"
    using assms(5) by (cases cb) (auto simp: monitor_check_def c split: monitor_callback.splits)
  note u = check_unhealthy [OF c [unfolded cb] ok(2) assms(4)]
  have out: "action = determine_recovery_action now i r' hm1" "pm' = set_instance inst1 (pm\<lparr>pm_monitor := hm1\<rparr>)"
    using assms(5) ok(1) u by (auto simp: monitor_check_def c cb)
  have status: "ai_status inst1 = UNHEALTHY" using u by simp
  have "\<not> hs_recovery_attempts hs \<ge> hc_max_recovery_attempts (hm_config hm1)" "hs_last_recovery_at hs = None"
    if "dict_get (hm_states hm1) i = Some hs" for hs
    using check_no_attempts [OF reachable_no_attempts [OF assms(1)] c] that by (auto simp: no_attempts_def)
  then have "action \<noteq> TERMINATE"
    by (auto simp: out(1) determine_recovery_action_def hs_can_attempt_recovery_def Let_def split: option.splits if_splits)
  moreover have "dict_get (pm_heap pm') i = Some inst1" using f(2) ok(1) by (simp add: out(2) set_instance_def dict_get_set)
  moreover have init: "ai_initialize later created inst1 = (Inl (InvalidStateTransition UNHEALTHY TERMINATED ''initialization_failed''), inst1)"
    using initialize_eq [of inst1 later created] f(3) status by (simp add: instance_ok_def)
  moreover have "dict_get (pm_heap (execute_recovery later iid created RESTART inst1 pm')) i = Some inst1"
    using f(2) ok(1) by (simp add: execute_recovery_def init set_instance_def dict_get_set)
  ultimately show ?thesis using status by auto
qed

definition strict_config :: pool_config where
  "strict_config = default_pool_config\<lparr>plc_unhealthy_threshold := 1\<rparr>"

definition failing_events :: "pool_event list" where
  "failing_events = [GetOrCreate 0 ''i1'' True ''t'' ''p'' ''default'' None, InstanceEvent ''i1'' (Enter 1), InstanceEvent ''i1'' (Leave 2 StreamFailed 3)]"

definition failing_pool :: pool_manager where
  "failing_pool = foldl pool_step (pool_init strict_config) failing_events"

lemma strict_tiers_ok: "tiers_ok strict_config"
  using default_tiers_ok by (simp add: strict_config_def tiers_ok_def get_tier_config_def)

lemma failing_pool_reachable: "pool_reachable strict_config failing_pool"
  unfolding failing_pool_def
proof (rule reachable_run [OF pool_reachable.started])
  have "list_all (\<lambda>i. event_allowed (foldl pool_step (pool_init strict_config) (take i failing_events)) (failing_events ! i)) [0, 1, 2]"
    by code_simp
  moreover have "length failing_events = 3" by (simp add: failing_events_def)
  ultimately show "event_allowed (foldl pool_step (pool_init strict_config) (take i failing_events)) (failing_events ! i)"
    if "i < length failing_events" for i
    using that by (auto simp: less_Suc_eq numeral_eq_Suc)
qed

theorem recovery_never_restarts_witness:
  "\<exists>inst r pm'. dict_get (pm_heap failing_pool) ''i1'' = Some inst \<and> monitor_check 5 CheckReturns inst failing_pool = (r, Some RESTART, pm') \<and>
     map_option ai_status (dict_get (pm_heap pm') ''i1'') = Some UNHEALTHY"
proof -
  define inst where "inst = the (dict_get (pm_heap failing_pool) ''i1'')"
  have "map_option ai_status (dict_get (pm_heap failing_pool) ''i1'') = Some READY" by code_simp
  then have i: "dict_get (pm_heap failing_pool) ''i1'' = Some inst" "ai_status inst = READY" by (auto simp: inst_def)
  obtain r a pm' where h: "monitor_check 5 CheckReturns inst failing_pool = (r, a, pm')" by (metis prod.exhaust)
  have "fst (snd (monitor_check 5 CheckReturns inst failing_pool)) = Some RESTART" unfolding inst_def by code_simp
  then have a: "a = Some RESTART" by (simp add: h)
  have "map_option ai_status (dict_get (pm_heap pm') ''i1'') = Some UNHEALTHY"
    using recovery_never_restarts [OF failing_pool_reachable strict_tiers_ok i(1) _ h [unfolded a], where later = 6 and created = True and iid = "''i9''"] i(2) by auto
  then show ?thesis using i(1) h a by blast
qed

text \<open>
  A recovery that is carried out after its instance was removed breaks the agreement: the resources are
  given back a second time, and when a new instance has taken the key, that one is dropped from the
  registry while it still runs.
\<close>

lemma stale_recovery_drops_new_instance:
  "let pm = foldl pool_step (pool_init default_pool_config)
        [GetOrCreate 0 ''i1'' True ''t'' ''p'' ''default'' None, TerminateInstance 1 ''t'' ''p'' ''default'',
         GetOrCreate 2 ''i2'' True ''t'' ''p'' ''default'' None];
       pm' = pool_step pm (Recover 3 ''i3'' True TERMINATE ''i1'')
   in map ai_id (pool_list pm) = [''i2''] \<and> rm_total_instances (pm_resources pm) = 1 \<and>
      pool_list pm' = [] \<and> rm_total_instances (pm_resources pm') = 0 \<and>
      map_option ai_status (dict_get (pm_heap pm') ''i2'') = Some READY"
  unfolding Let_def
proof (intro conjI)
  show "pool_list (pool_step (foldl pool_step (pool_init default_pool_config)
      [GetOrCreate 0 ''i1'' True ''t'' ''p'' ''default'' None, TerminateInstance 1 ''t'' ''p'' ''default'',
       GetOrCreate 2 ''i2'' True ''t'' ''p'' ''default'' None]) (Recover 3 ''i3'' True TERMINATE ''i1'')) = []"
    by (rule length_0_conv [THEN iffD1]) code_simp
qed code_simp+

end
