(* ===== verification/PoolClassifier.thy ===== *)
theory PoolClassifier
  imports PoolManager
begin

text \<open>
  The project classifier: \<open>src/infrastructure/agent/pool/classification/classifier.py\<close> with its
  configuration, and its relation to the scoring that the pool manager has of its own. Weights are
  reals; \<open>int\<close> truncates towards zero.
\<close>

record classification_config =
  cc_request_weight :: real
  cc_hot_request_threshold :: int
  cc_warm_request_threshold :: int
  cc_subscription_weight :: real
  cc_enterprise_score :: int
  cc_professional_score :: int
  cc_basic_score :: int
  cc_free_score :: int
  cc_sla_weight :: real
  cc_high_sla_threshold :: real
  cc_medium_sla_threshold :: real
  cc_concurrent_weight :: real
  cc_high_concurrent_threshold :: int
  cc_medium_concurrent_threshold :: int
  cc_hot_score_threshold :: int
  cc_warm_score_threshold :: int

definition default_classification :: classification_config where
  "default_classification = \<lparr>cc_request_weight = 4 / 10, cc_hot_request_threshold = 1000, cc_warm_request_threshold = 100,
     cc_subscription_weight = 3 / 10, cc_enterprise_score = 100, cc_professional_score = 70, cc_basic_score = 40, cc_free_score = 10,
     cc_sla_weight = 2 / 10, cc_high_sla_threshold = 999 / 1000, cc_medium_sla_threshold = 995 / 1000,
     cc_concurrent_weight = 1 / 10, cc_high_concurrent_threshold = 10, cc_medium_concurrent_threshold = 3,
     cc_hot_score_threshold = 80, cc_warm_score_threshold = 50\<rparr>"

definition py_int_of :: "real \<Rightarrow> int" where
  "py_int_of x = (if x \<ge> 0 then \<lfloor>x\<rfloor> else \<lceil>x\<rceil>)"

definition score_requests :: "classification_config \<Rightarrow> int \<Rightarrow> int" where
  "score_requests cfg n = (if n > cc_hot_request_threshold cfg then 100 else if n > cc_warm_request_threshold cfg then 60 else 25)"

definition score_subscription :: "classification_config \<Rightarrow> string \<Rightarrow> int" where
  "score_subscription cfg tier =
     dict_get_default [(''enterprise'', cc_enterprise_score cfg), (''professional'', cc_professional_score cfg),
       (''basic'', cc_basic_score cfg), (''free'', cc_free_score cfg)] (py_lower tier) (cc_free_score cfg)"

definition score_sla :: "classification_config \<Rightarrow> real \<Rightarrow> int" where
  "score_sla cfg sla = (if sla \<ge> cc_high_sla_threshold cfg then 100 else if sla \<ge> cc_medium_sla_threshold cfg then 70 else 30)"

definition score_concurrent :: "classification_config \<Rightarrow> int \<Rightarrow> int" where
  "score_concurrent cfg n = (if n > cc_high_concurrent_threshold cfg then 100 else if n > cc_medium_concurrent_threshold cfg then 60 else 30)"

record classification =
  cl_tier :: project_tier
  cl_score :: int
  cl_breakdown :: "(string, int) dict"

definition classify :: "classification_config \<Rightarrow> project_metrics \<Rightarrow> classification" where
  "classify cfg m =
     (let requests = score_requests cfg (pmt_daily_requests m); subscription = score_subscription cfg (pmt_subscription_tier m);
          sla = score_sla cfg (pmt_sla_requirement m); concurrent = score_concurrent cfg (pmt_max_concurrent m);
          total = py_int_of (of_int requests * cc_request_weight cfg) + py_int_of (of_int subscription * cc_subscription_weight cfg) +
                  py_int_of (of_int sla * cc_sla_weight cfg) + py_int_of (of_int concurrent * cc_concurrent_weight cfg)
      in \<lparr>cl_tier = (if total \<ge> cc_hot_score_threshold cfg then HOT else if total \<ge> cc_warm_score_threshold cfg then WARM else COLD),
          cl_score = total,
          cl_breakdown = [(''requests'', requests), (''subscription'', subscription), (''sla'', sla), (''concurrent'', concurrent)]\<rparr>)"

fun tier_order :: "project_tier \<Rightarrow> int" where
  "tier_order COLD = 0"
| "tier_order WARM = 1"
| "tier_order HOT = 2"

definition should_upgrade :: "classification_config \<Rightarrow> project_tier \<Rightarrow> project_metrics \<Rightarrow> project_tier option" where
  "should_upgrade cfg current m =
     (let t = cl_tier (classify cfg m) in if tier_order t > tier_order current then Some t else None)"

definition should_downgrade :: "classification_config \<Rightarrow> project_tier \<Rightarrow> project_metrics \<Rightarrow> project_tier option" where
  "should_downgrade cfg current m =
     (let t = cl_tier (classify cfg m) in if tier_order t < tier_order current then Some t else None)"

section \<open>Two scorings\<close>

text \<open>The points of each dimension, as both scorings compute them.\<close>

lemma classifier_points:
  "py_int_of (of_int (score_requests default_classification n) * cc_request_weight default_classification) =
     (if n > 1000 then 40 else if n > 100 then 24 else 10)"
  "py_int_of (of_int (score_subscription default_classification tier) * cc_subscription_weight default_classification) =
     (if py_lower tier = ''enterprise'' then 30 else if py_lower tier = ''professional'' then 21
      else if py_lower tier = ''basic'' then 12 else 3)"
  "py_int_of (of_int (score_sla default_classification sla) * cc_sla_weight default_classification) =
     (if sla \<ge> 999 / 1000 then 20 else if sla \<ge> 995 / 1000 then 14 else 6)"
  "py_int_of (of_int (score_concurrent default_classification k) * cc_concurrent_weight default_classification) =
     (if k > 10 then 10 else if k > 3 then 6 else 3)"
  by (auto simp: py_int_of_def default_classification_def score_requests_def score_subscription_def score_sla_def
      score_concurrent_def dict_get_default_def)

lemma manager_points:
  "dict_get_default [(''enterprise'', 30), (''professional'', 20), (''basic'', 10), (''free'', 5)] tier 5 =
     (if tier = ''enterprise'' then 30 else if tier = ''professional'' then 20 else if tier = ''basic'' then 10 else (5 :: int))"
  by (simp add: dict_get_default_def)

definition points_tier :: "int \<Rightarrow> project_tier" where
  "points_tier n = (if n \<ge> 80 then HOT else if n \<ge> 50 then WARM else COLD)"

lemma classify_points:
  "cl_tier (classify default_classification m) = points_tier (
     (if pmt_daily_requests m > 1000 then 40 else if pmt_daily_requests m > 100 then 24 else 10) +
     (if py_lower (pmt_subscription_tier m) = ''enterprise'' then 30 else if py_lower (pmt_subscription_tier m) = ''professional'' then 21
      else if py_lower (pmt_subscription_tier m) = ''basic'' then 12 else 3) +
     (if pmt_sla_requirement m \<ge> 999 / 1000 then 20 else if pmt_sla_requirement m \<ge> 995 / 1000 then 14 else 6) +
     (if pmt_max_concurrent m > 10 then 10 else if pmt_max_concurrent m > 3 then 6 else 3))"
proof -
  have "cc_hot_score_threshold default_classification = 80" "cc_warm_score_threshold default_classification = 50"
    by (simp_all add: default_classification_def)
  then show ?thesis by (simp only: classify_def Let_def classifier_points points_tier_def classification.select_convs)
qed

lemma classify_project_points:
  "classify_project project (Some m) pm = points_tier (
     (if pmt_daily_requests m > 1000 then 40 else if pmt_daily_requests m > 100 then 25 else 10) +
     (if pmt_subscription_tier m = ''enterprise'' then 30 else if pmt_subscription_tier m = ''professional'' then 20
      else if pmt_subscription_tier m = ''basic'' then 10 else 5) +
     (if pmt_sla_requirement m \<ge> 999 / 1000 then 20 else if pmt_sla_requirement m \<ge> 995 / 1000 then 15 else 5) +
     (if pmt_max_concurrent m > 10 then 10 else if pmt_max_concurrent m > 3 then 7 else 3))"
  by (simp only: classify_project_def option.case Let_def compute_project_score_def manager_points points_tier_def)

text \<open>
  C26: the pool manager and the classifier score a project differently but, for a subscription written
  in lower case, put it into the same tier except in exactly two situations, both with 101 to 1000
  requests a day and a service level of 99.5 to 99.9 per cent: an enterprise project with more than ten
  concurrent requests, and a free one with four to ten; there the manager chooses the higher tier.
\<close>

theorem tier_scorings_agree:
  assumes "py_lower (pmt_subscription_tier m) = pmt_subscription_tier m"
  shows "(classify_project project (Some m) pm = cl_tier (classify default_classification m) \<longleftrightarrow>
     \<not> (100 < pmt_daily_requests m \<and> pmt_daily_requests m \<le> 1000 \<and>
        995 / 1000 \<le> pmt_sla_requirement m \<and> pmt_sla_requirement m < 999 / 1000 \<and>
        (pmt_subscription_tier m = ''enterprise'' \<and> pmt_max_concurrent m > 10 \<or>
         pmt_subscription_tier m \<notin> {''enterprise'', ''professional'', ''basic''} \<and> 3 < pmt_max_concurrent m \<and> pmt_max_concurrent m \<le> 10))) \<and>
   tier_order (cl_tier (classify default_classification m)) \<le> tier_order (classify_project project (Some m) pm)"
proof -
  define r where "r = (if pmt_daily_requests m > 1000 then 2 else if pmt_daily_requests m > 100 then 1 else (0 :: nat))"
  define b where "b = (if pmt_subscription_tier m = ''enterprise'' then 3 else if pmt_subscription_tier m = ''professional'' then 2
      else if pmt_subscription_tier m = ''basic'' then 1 else (0 :: nat))"
  define s where "s = (if pmt_sla_requirement m \<ge> 999 / 1000 then 2 else if pmt_sla_requirement m \<ge> 995 / 1000 then 1 else (0 :: nat))"
  define k where "k = (if pmt_max_concurrent m > 10 then 2 else if pmt_max_concurrent m > 3 then 1 else (0 :: nat))"
  let ?x = "points_tier ([10, 25, 40] ! r + [5, 10, 20, 30] ! b + [5, 15, 20] ! s + [3, 7, 10] ! k)"
    and ?y = "points_tier ([10, 24, 40] ! r + [3, 12, 21, 30] ! b + [6, 14, 20] ! s + [3, 6, 10] ! k)"
  have x: "classify_project project (Some m) pm = ?x"
    unfolding classify_project_points by (simp add: r_def b_def s_def k_def)
  have y: "cl_tier (classify default_classification m) = ?y"
    unfolding classify_points assms by (simp add: r_def b_def s_def k_def)
  have "list_all (\<lambda>(r, b, s, k). let x = points_tier ([10, 25, 40] ! r + [5, 10, 20, 30] ! b + [5, 15, 20] ! s + [3, 7, 10] ! k);
        y = points_tier ([10, 24, 40] ! r + [3, 12, 21, 30] ! b + [6, 14, 20] ! s + [3, 6, 10] ! k)
      in (x = y \<longleftrightarrow> \<not> (r = 1 \<and> s = 1 \<and> (b = 3 \<and> k = 2 \<or> b = 0 \<and> k = 1))) \<and> tier_order y \<le> tier_order x)
    (List.product [0, 1, 2] (List.product [0, 1, 2, 3] (List.product [0, 1, 2] [0, 1, 2])))"
    by (simp add: points_tier_def)
  moreover have "r \<in> {0, 1, 2}" "b \<in> {0, 1, 2, 3}" "s \<in> {0, 1, 2}" "k \<in> {0, 1, 2}"
    by (simp_all add: r_def b_def s_def k_def)
  then have "(r, b, s, k) \<in> set (List.product [0, 1, 2] (List.product [0, 1, 2, 3] (List.product [0, 1, 2] [0, 1, 2])))"
    unfolding set_product by (intro SigmaI; simp)
  ultimately have "(?x = ?y \<longleftrightarrow> \<not> (r = 1 \<and> s = 1 \<and> (b = 3 \<and> k = 2 \<or> b = 0 \<and> k = 1))) \<and> tier_order ?y \<le> tier_order ?x"
    unfolding list_all_iff Let_def by blast
  moreover have "r = 1 \<longleftrightarrow> 100 < pmt_daily_requests m \<and> pmt_daily_requests m \<le> 1000" by (simp add: r_def)
  moreover have "s = 1 \<longleftrightarrow> 995 / 1000 \<le> pmt_sla_requirement m \<and> pmt_sla_requirement m < 999 / 1000" by (auto simp: s_def)
  moreover have "b = 3 \<longleftrightarrow> pmt_subscription_tier m = ''enterprise''" by (simp add: b_def)
  moreover have "b = 0 \<longleftrightarrow> pmt_subscription_tier m \<notin> {''enterprise'', ''professional'', ''basic''}" by (simp add: b_def)
  moreover have "k = 2 \<longleftrightarrow> pmt_max_concurrent m > 10" "k = 1 \<longleftrightarrow> 3 < pmt_max_concurrent m \<and> pmt_max_concurrent m \<le> 10"
    by (simp_all add: k_def)
  ultimately show ?thesis unfolding x y by (simp only: conj_assoc)
qed

definition sample_metrics :: project_metrics where
  "sample_metrics = \<lparr>pmt_daily_requests = 500, pmt_max_concurrent = 20, pmt_subscription_tier = ''enterprise'', pmt_sla_requirement = 996 / 1000\<rparr>"

theorem tier_scorings_agree_witness:
  "classify_project ''p'' (Some sample_metrics) (pool_init default_pool_config) \<noteq> cl_tier (classify default_classification sample_metrics)"
proof -
  have "py_lower (pmt_subscription_tier sample_metrics) = pmt_subscription_tier sample_metrics" by code_simp
  from tier_scorings_agree [OF this, of "''p''" "pool_init default_pool_config"] show ?thesis by (simp add: sample_metrics_def)
qed

text \<open>The classifier ignores the case of the subscription, the manager does not.\<close>

lemma subscription_case_matters:
  "let m = sample_metrics\<lparr>pmt_subscription_tier := ''Enterprise'', pmt_daily_requests := 5000\<rparr>
   in cl_tier (classify default_classification m) = HOT \<and> classify_project ''p'' (Some m) (pool_init default_pool_config) = WARM"
  by code_simp

end
