(* ===== verification/Fnmatch.thy ===== *)
theory Fnmatch
  imports Prelude
begin

text \<open>
  Shell patterns as Python's \<open>fnmatch.fnmatch\<close> matches them on POSIX systems: \<open>*\<close> is any text, \<open>?\<close> any
  character, \<open>[...]\<close> a set of characters and ranges (negated by a leading \<open>!\<close>), everything else itself.
  \<open>translate\<close> follows the library function of that name, token by token instead of building a regular
  expression; an opening bracket without its closing one is an ordinary character.
\<close>

section \<open>Tokens\<close>

datatype bracket_item = One char | Range char char

datatype glob_token = Star | AnyChar | Lit char | OneOf bool "bracket_item list"

fun in_item :: "char \<Rightarrow> bracket_item \<Rightarrow> bool" where
  "in_item c (One d) = (c = d)"
| "in_item c (Range lo hi) = ((of_char lo :: nat) \<le> of_char c \<and> (of_char c :: nat) \<le> of_char hi)"

fun tok_matches :: "glob_token \<Rightarrow> char \<Rightarrow> bool" where
  "tok_matches Star c = False"
| "tok_matches AnyChar c = True"
| "tok_matches (Lit d) c = (c = d)"
| "tok_matches (OneOf neg items) c = (list_ex (in_item c) items \<noteq> neg)"

text \<open>The text between the brackets: \<open>a-z\<close> is a range, a minus at either end is a character.\<close>

fun bracket_items :: "string \<Rightarrow> bracket_item list" where
  "bracket_items (a # b # c # cs) =
     (if b = CHR ''-'' then Range a c # bracket_items cs else One a # bracket_items (b # c # cs))"
| "bracket_items cs = map One cs"

fun empty_item :: "bracket_item \<Rightarrow> bool" where
  "empty_item (One c) = False"
| "empty_item (Range lo hi) = ((of_char hi :: nat) < of_char lo)"

text \<open>
  Empty ranges are dropped before the first character is inspected, so that an exclamation mark
  that follows one negates the set.
\<close>

definition bracket_token :: "string \<Rightarrow> glob_token" where
  "bracket_token stuff =
     (case stuff of
        c # body \<Rightarrow>
          if c = CHR ''!'' then OneOf True (filter (\<lambda>it. \<not> empty_item it) (bracket_items body))
          else (case filter (\<lambda>it. \<not> empty_item it) (bracket_items stuff) of
                  One d # items \<Rightarrow> if d = CHR ''!'' then OneOf True items else OneOf False (One d # items)
                | Range lo hi # items \<Rightarrow>
                    if lo = CHR ''!'' then OneOf True (One CHR ''-'' # One hi # items) else OneOf False (Range lo hi # items)
                | [] \<Rightarrow> OneOf False [])
      | [] \<Rightarrow> OneOf False [])"

text \<open>The text up to the closing bracket, which cannot be the first character (after \<open>!\<close>), and the rest.\<close>

definition close_bracket :: "string \<Rightarrow> (string \<times> string) option" where
  "close_bracket s =
     (let j = (if take 1 s = ''!'' then 1 else 0); k = (if take 1 (drop j s) = '']'' then j + 1 else j);
          rest = dropWhile (\<lambda>c. c \<noteq> CHR '']'') (drop k s)
      in if rest = [] then None else Some (take k s @ takeWhile (\<lambda>c. c \<noteq> CHR '']'') (drop k s), tl rest))"

lemma close_bracket_shorter: "close_bracket s = Some (stuff, rest) \<Longrightarrow> length rest < length s"
proof -
  assume a: "close_bracket s = Some (stuff, rest)"
  define k where "k = (let j = (if take 1 s = ''!'' then 1 else 0) in if take 1 (drop j s) = '']'' then j + 1 else (j :: nat))"
  have r: "rest = tl (dropWhile (\<lambda>c. c \<noteq> CHR '']'') (drop k s))" "dropWhile (\<lambda>c. c \<noteq> CHR '']'') (drop k s) \<noteq> []"
    using a by (auto simp: close_bracket_def k_def Let_def split: if_splits)
  have "length (dropWhile (\<lambda>c. c \<noteq> CHR '']'') (drop k s)) \<le> length s"
    by (metis length_dropWhile_le length_drop diff_le_self le_trans)
  then show ?thesis using r by (cases "dropWhile (\<lambda>c. c \<noteq> CHR '']'') (drop k s)") auto
qed

function (sequential) translate :: "string \<Rightarrow> glob_token list" where
  "translate [] = []"
| "translate (c # cs) =
     (if c = CHR ''*'' then Star # translate cs
      else if c = CHR ''?'' then AnyChar # translate cs
      else if c = CHR ''['' then
        (case close_bracket cs of
           None \<Rightarrow> Lit c # translate cs
         | Some (stuff, rest) \<Rightarrow> bracket_token stuff # translate rest)
      else Lit c # translate cs)"
  by pat_completeness auto
termination
  by (relation "measure length") (auto dest: close_bracket_shorter)

fun glob_match :: "glob_token list \<Rightarrow> string \<Rightarrow> bool" where
  "glob_match [] s = (s = [])"
| "glob_match (Star # ts) [] = glob_match ts []"
| "glob_match (Star # ts) (c # s) = (glob_match ts (c # s) \<or> glob_match (Star # ts) s)"
| "glob_match (t # ts) [] = False"
| "glob_match (t # ts) (c # s) = (tok_matches t c \<and> glob_match ts s)"

definition fnmatch :: "string \<Rightarrow> string \<Rightarrow> bool" where
  "fnmatch name pat = glob_match (translate pat) name"

section \<open>What a pattern matches\<close>

lemma glob_match_star: "glob_match (Star # ts) s \<longleftrightarrow> (\<exists>a b. s = a @ b \<and> glob_match ts b)"
proof (induction s)
  case (Cons c s)
  have "(\<exists>a b. c # s = a @ b \<and> glob_match ts b) \<longleftrightarrow> glob_match ts (c # s) \<or> (\<exists>a b. s = a @ b \<and> glob_match ts b)"
    by (auto simp: Cons_eq_append_conv)
  with Cons show ?case by simp
qed simp

lemma glob_match_tok:
  "t \<noteq> Star \<Longrightarrow> glob_match (t # ts) s \<longleftrightarrow> (\<exists>c s'. s = c # s' \<and> tok_matches t c \<and> glob_match ts s')"
  by (cases t; cases s) auto

text \<open>The matcher is the concatenation of the languages of the tokens.\<close>

lemma glob_match_append: "glob_match (ts @ us) s \<longleftrightarrow> (\<exists>a b. s = a @ b \<and> glob_match ts a \<and> glob_match us b)"
proof (induction ts arbitrary: s)
  case (Cons t ts)
  show ?case
  proof (cases "t = Star")
    case True
    then show ?thesis unfolding append_Cons True glob_match_star Cons.IH by (metis append.assoc)
  next
    case False
    show ?thesis unfolding append_Cons glob_match_tok [OF False] Cons.IH
      by (metis append_Cons)
  qed
qed simp

definition plain :: "char \<Rightarrow> bool" where
  "plain c \<longleftrightarrow> c \<noteq> CHR ''*'' \<and> c \<noteq> CHR ''?'' \<and> c \<noteq> CHR ''[''"

lemma translate_plain: "list_all plain p \<Longrightarrow> translate (p @ q) = map Lit p @ translate q"
  by (induction p) (auto simp: plain_def)

lemma glob_match_lits: "glob_match (map Lit p) s \<longleftrightarrow> s = p"
  by (induction p arbitrary: s) (auto simp: glob_match_tok)

lemma fnmatch_plain: "list_all plain p \<Longrightarrow> fnmatch s p \<longleftrightarrow> s = p"
  using translate_plain [of p "[]"] by (simp add: fnmatch_def glob_match_lits)

lemma fnmatch_star [simp]: "fnmatch s ''*''"
  by (simp add: fnmatch_def glob_match_star)

lemma fnmatch_star_plain: "list_all plain p \<Longrightarrow> fnmatch s (CHR ''*'' # p) \<longleftrightarrow> (\<exists>a. s = a @ p)"
  using translate_plain [of p "[]"] by (simp add: fnmatch_def glob_match_star glob_match_lits)

lemma fnmatch_plain_star: "list_all plain p \<Longrightarrow> fnmatch s (p @ ''*'') \<longleftrightarrow> (\<exists>b. s = p @ b)"
  using translate_plain [of p "''*''"] by (simp add: fnmatch_def glob_match_append glob_match_lits glob_match_star)

end
