(* ===== verification/PermissionRules.thy ===== *)
theory PermissionRules
  imports Fnmatch
begin

text \<open>
  Permission rules of the agent's tools: \<open>src/infrastructure/agent/permission/rules.py\<close>. A rule maps a
  permission and a target, both given as shell patterns, to allow, deny or ask; of several matching
  rules the last decides. Tool arguments are a dictionary from names to the text of their value,
  \<open>None\<close> standing for Python's \<open>None\<close>.
\<close>

section \<open>Rules\<close>

datatype rule_scope = AGENT | USER | SESSION

datatype permission_action = ALLOW | DENY | ASK

record permission_rule =
  pr_permission :: string
  pr_pattern :: string
  pr_action :: permission_action
  pr_scope :: rule_scope
  pr_arg_pattern :: "string option"

type_synonym tool_args = "(string, string option) dict"

definition rule :: "string \<Rightarrow> string \<Rightarrow> permission_action \<Rightarrow> permission_rule" where
  "rule permission pattern action =
     \<lparr>pr_permission = permission, pr_pattern = pattern, pr_action = action, pr_scope = AGENT, pr_arg_pattern = None\<rparr>"

text \<open>\<open>arg_pattern\<close> is \<open>"key:value_glob"\<close>; without a colon it matches everything.\<close>

definition match_arg_pattern :: "string \<Rightarrow> tool_args \<Rightarrow> bool" where
  "match_arg_pattern ap args =
     (if ap = [] then True
      else case split_at CHR '':'' ap of
             None \<Rightarrow> True
           | Some (key, value_pattern) \<Rightarrow>
               (case dict_get args (py_strip key) of
                  Some (Some v) \<Rightarrow> fnmatch v (py_strip value_pattern)
                | _ \<Rightarrow> False))"

definition rule_matches :: "permission_rule \<Rightarrow> string \<Rightarrow> string \<Rightarrow> tool_args option \<Rightarrow> bool" where
  "rule_matches r permission target args =
     (if \<not> (fnmatch permission (pr_permission r) \<and> fnmatch target (pr_pattern r)) then False
      else case pr_arg_pattern r of
             None \<Rightarrow> True
           | Some ap \<Rightarrow> (case args of None \<Rightarrow> True | Some a \<Rightarrow> match_arg_pattern ap a))"

section \<open>As dictionaries\<close>

fun action_value :: "permission_action \<Rightarrow> string" where
  "action_value ALLOW = ''allow''"
| "action_value DENY = ''deny''"
| "action_value ASK = ''ask''"

fun scope_value :: "rule_scope \<Rightarrow> string" where
  "scope_value AGENT = ''agent''"
| "scope_value USER = ''user''"
| "scope_value SESSION = ''session''"

datatype rule_error = MissingKey string | BadValue string

definition rule_to_dict :: "permission_rule \<Rightarrow> (string, string) dict" where
  "rule_to_dict r =
     [(''permission'', pr_permission r), (''pattern'', pr_pattern r), (''action'', action_value (pr_action r))] @
     (if pr_scope r \<noteq> AGENT then [(''scope'', scope_value (pr_scope r))] else []) @
     (case pr_arg_pattern r of None \<Rightarrow> [] | Some ap \<Rightarrow> [(''arg_pattern'', ap)])"

definition parse_action :: "string \<Rightarrow> permission_action option" where
  "parse_action s = find (\<lambda>a. action_value a = s) [ALLOW, DENY, ASK]"

definition parse_scope :: "string \<Rightarrow> rule_scope option" where
  "parse_scope s = find (\<lambda>a. scope_value a = s) [AGENT, USER, SESSION]"

definition rule_from_dict :: "(string, string) dict \<Rightarrow> rule_error + permission_rule" where
  "rule_from_dict d =
     (case dict_get d ''permission'' of
        None \<Rightarrow> Inl (MissingKey ''permission'')
      | Some permission \<Rightarrow>
     (case dict_get d ''pattern'' of
        None \<Rightarrow> Inl (MissingKey ''pattern'')
      | Some pattern \<Rightarrow>
     (case dict_get d ''action'' of
        None \<Rightarrow> Inl (MissingKey ''action'')
      | Some a \<Rightarrow>
     (case parse_action a of
        None \<Rightarrow> Inl (BadValue a)
      | Some action \<Rightarrow>
     (case (case dict_get d ''scope'' of None \<Rightarrow> Inr AGENT
            | Some s \<Rightarrow> (case parse_scope s of None \<Rightarrow> Inl (BadValue s) | Some scope \<Rightarrow> Inr scope)) of
        Inl e \<Rightarrow> Inl e
      | Inr scope \<Rightarrow>
          Inr \<lparr>pr_permission = permission, pr_pattern = pattern, pr_action = action, pr_scope = scope,
               pr_arg_pattern = dict_get d ''arg_pattern''\<rparr>)))))"

section \<open>Evaluation\<close>

definition evaluate_rules :: "string \<Rightarrow> string \<Rightarrow> permission_rule list list \<Rightarrow> tool_args option \<Rightarrow> permission_rule" where
  "evaluate_rules permission target rulesets args =
     (case find (\<lambda>r. rule_matches r permission target args) (rev (concat rulesets)) of
        Some r \<Rightarrow> r
      | None \<Rightarrow> rule permission ''*'' ASK)"

definition edit_tools :: "string list" where
  "edit_tools = [''edit'', ''write'', ''patch'', ''multiedit'']"

definition tool_permission :: "string \<Rightarrow> string" where
  "tool_permission tool = (if tool \<in> set edit_tools then ''edit'' else tool)"

definition tool_disabled :: "permission_rule list \<Rightarrow> string \<Rightarrow> bool" where
  "tool_disabled ruleset tool =
     (case find (\<lambda>r. fnmatch (tool_permission tool) (pr_permission r)) (rev ruleset) of
        None \<Rightarrow> False
      | Some r \<Rightarrow> pr_pattern r = ''*'' \<and> pr_action r = DENY)"

definition get_disabled_tools :: "string list \<Rightarrow> permission_rule list \<Rightarrow> string set" where
  "get_disabled_tools tools ruleset = set (filter (tool_disabled ruleset) tools)"

section \<open>The rulesets\<close>

definition default_ruleset :: "permission_rule list" where
  "default_ruleset =
     [rule ''*'' ''*'' ALLOW,
      rule ''doom_loop'' ''*'' ASK,
      rule ''external_directory'' ''*'' ASK,
      rule ''read'' ''*.env'' ASK,
      rule ''read'' ''*.env.*'' ASK,
      rule ''read'' ''*.env.example'' ALLOW,
      rule ''question'' ''*'' DENY]"

definition explore_mode_ruleset :: "permission_rule list" where
  "explore_mode_ruleset =
     [rule ''edit'' ''*'' DENY, rule ''write'' ''*'' DENY, rule ''patch'' ''*'' DENY, rule ''multiedit'' ''*'' DENY,
      rule ''bash'' ''*'' DENY, rule ''code_executor'' ''*'' DENY,
      rule ''read'' ''*'' ALLOW, rule ''glob'' ''*'' ALLOW, rule ''grep'' ''*'' ALLOW,
      rule ''memory_search'' ''*'' ALLOW, rule ''entity_lookup'' ''*'' ALLOW, rule ''episode_retrieval'' ''*'' ALLOW,
      rule ''graph_query'' ''*'' ALLOW,
      rule ''web_search'' ''*'' ALLOW, rule ''web_scrape'' ''*'' ALLOW,
      rule ''memory_create'' ''*'' DENY,
      rule ''ask_clarification'' ''*'' DENY, rule ''ask_decision'' ''*'' DENY,
      rule ''*'' ''bash'' DENY, rule ''*'' ''write'' DENY, rule ''*'' ''file_write'' DENY,
      rule ''*'' ''edit'' DENY, rule ''*'' ''patch'' DENY, rule ''*'' ''execute'' DENY]"

definition read_tools :: "string list" where
  "read_tools = [''file_read'', ''read_file'', ''list_files'', ''cat'', ''grep'', ''glob'', ''find'', ''ls'', ''dir'']"

definition write_tools :: "string list" where
  "write_tools = [''file_write'', ''write_file'', ''create_file'', ''edit_file'', ''delete_file'', ''remove'', ''rm'',
     ''mv'', ''rename'', ''mkdir'', ''touch'']"

definition execute_tools :: "string list" where
  "execute_tools = [''bash'', ''execute'', ''run_command'', ''python'', ''node'', ''sh'', ''shell'']"

definition classify_sandbox_tool_permission :: "string \<Rightarrow> string" where
  "classify_sandbox_tool_permission name =
     (let tool = py_lower name
      in if tool \<in> set read_tools then ''read''
         else if tool \<in> set write_tools then ''write''
         else if tool \<in> set execute_tools then ''bash'' else ''ask'')"

definition sandbox_mcp_ruleset :: "permission_rule list" where
  "sandbox_mcp_ruleset =
     [rule ''*'' ''*'' ASK,
      rule ''read'' ''read'' ALLOW, rule ''read'' ''file_read'' ALLOW, rule ''read'' ''list_files'' ALLOW,
      rule ''read'' ''cat'' ALLOW, rule ''read'' ''grep'' ALLOW, rule ''read'' ''glob'' ALLOW, rule ''read'' ''find'' ALLOW,
      rule ''write'' ''write'' ASK, rule ''write'' ''file_write'' ASK, rule ''write'' ''write_file'' ASK,
      rule ''write'' ''create_file'' ASK, rule ''write'' ''edit_file'' ASK, rule ''write'' ''delete_file'' ASK,
      rule ''write'' ''edit'' ASK, rule ''write'' ''patch'' ASK,
      rule ''bash'' ''bash'' ASK, rule ''bash'' ''execute'' ASK, rule ''bash'' ''run'' ASK,
      rule ''bash'' ''python'' ASK, rule ''bash'' ''sh'' ASK, rule ''bash'' ''shell'' ASK]"

end
