(* ===== verification/PermissionManager.thy ===== *)
theory PermissionManager
  imports PermissionRules
begin

text \<open>
  The permission manager: \<open>src/infrastructure/agent/permission/manager.py\<close>. A task that needs a permission
  calls \<open>ask\<close>, which answers at once or registers a pending request and waits for the user's reply.
  The pending objects (request, event and result) live in \<open>pg_waiters\<close>, in order of creation, and
  \<open>pg_pending\<close> maps request ids to them; \<open>wt_result\<close> is the result holder, set together with the event,
  and \<open>wt_gone\<close> says that the waiting task was cancelled or gave up. Whether the event publisher raises, and
  what other tasks do while it is awaited inside a loop (\<open>during\<close>), are inputs. The persistent store is
  the in-memory one. Request metadata is not read by any operation and left out.
\<close>

section \<open>State\<close>

datatype permission_mode = BUILD | PLAN | EXPLORE

datatype approval_scope = ApproveOnce | ApproveSession | ApproveAlways

record perm_request =
  pq_id :: string
  pq_permission :: string
  pq_patterns :: "string list"
  pq_session_id :: string
  pq_always_patterns :: "string list"

record waiter =
  wt_request :: perm_request
  wt_result :: "string option"
  wt_gone :: bool

record perm_manager =
  pg_ruleset :: "permission_rule list"
  pg_approved :: "permission_rule list"
  pg_mode_rules :: "permission_rule list"
  pg_pending :: "(string, nat) dict"
  pg_waiters :: "waiter list"
  pg_publisher :: bool
  pg_request_counter :: nat
  pg_current_mode :: permission_mode
  pg_store :: "permission_rule list option"

definition perm_init :: "permission_rule list option \<Rightarrow> permission_rule list option \<Rightarrow> perm_manager" where
  "perm_init ruleset store =
     \<lparr>pg_ruleset = (case ruleset of None \<Rightarrow> default_ruleset | Some rs \<Rightarrow> if rs = [] then default_ruleset else rs),
      pg_approved = [], pg_mode_rules = [], pg_pending = [], pg_waiters = [], pg_publisher = False,
      pg_request_counter = 0, pg_current_mode = BUILD, pg_store = store\<rparr>"

section \<open>The in-memory store\<close>

definition store_is_approved :: "string \<Rightarrow> string \<Rightarrow> tool_args option \<Rightarrow> permission_rule list \<Rightarrow> bool" where
  "store_is_approved permission target args st = list_ex (\<lambda>r. rule_matches r permission target args) (rev st)"

definition store_save_rule :: "string \<Rightarrow> string \<Rightarrow> string option \<Rightarrow> permission_rule list \<Rightarrow> permission_rule list" where
  "store_save_rule permission pattern ap st =
     st @ [\<lparr>pr_permission = permission, pr_pattern = pattern, pr_action = ALLOW, pr_scope = USER, pr_arg_pattern = ap\<rparr>]"

definition store_remove :: "string \<Rightarrow> string \<Rightarrow> permission_rule list \<Rightarrow> permission_rule list" where
  "store_remove permission pattern st = filter (\<lambda>r. \<not> (pr_permission r = permission \<and> pr_pattern r = pattern)) st"

definition store_list_approvals :: "permission_rule list \<Rightarrow> (string, string) dict list" where
  "store_list_approvals st = map rule_to_dict st"

section \<open>Rules and modes\<close>

definition set_event_publisher :: "perm_manager \<Rightarrow> perm_manager" where
  "set_event_publisher m = m\<lparr>pg_publisher := True\<rparr>"

definition set_mode :: "permission_mode \<Rightarrow> perm_manager \<Rightarrow> perm_manager" where
  "set_mode mode m =
     m\<lparr>pg_current_mode := mode,
       pg_mode_rules := (case mode of PLAN \<Rightarrow> explore_mode_ruleset | EXPLORE \<Rightarrow> explore_mode_ruleset | BUILD \<Rightarrow> [])\<rparr>"

definition perm_evaluate :: "string \<Rightarrow> string \<Rightarrow> tool_args option \<Rightarrow> perm_manager \<Rightarrow> permission_rule" where
  "perm_evaluate permission target args m =
     evaluate_rules permission target [pg_ruleset m, pg_mode_rules m, pg_approved m] args"

definition add_rule :: "permission_rule \<Rightarrow> perm_manager \<Rightarrow> perm_manager" where
  "add_rule r m = m\<lparr>pg_ruleset := pg_ruleset m @ [r]\<rparr>"

definition clear_approved :: "perm_manager \<Rightarrow> perm_manager" where
  "clear_approved m = m\<lparr>pg_approved := []\<rparr>"

definition perm_reset :: "perm_manager \<Rightarrow> perm_manager" where
  "perm_reset m =
     m\<lparr>pg_approved := [], pg_mode_rules := [], pg_pending := [], pg_request_counter := 0, pg_current_mode := BUILD\<rparr>"

definition manager_disabled_tools :: "string list \<Rightarrow> perm_manager \<Rightarrow> string set" where
  "manager_disabled_tools tools m = get_disabled_tools tools (pg_ruleset m @ pg_mode_rules m @ pg_approved m)"

definition get_allowed_tools :: "string list \<Rightarrow> perm_manager \<Rightarrow> string list" where
  "get_allowed_tools tools m = filter (\<lambda>t. t \<notin> manager_disabled_tools tools m) tools"

definition approve :: "string \<Rightarrow> string \<Rightarrow> approval_scope \<Rightarrow> string option \<Rightarrow> perm_manager \<Rightarrow> perm_manager" where
  "approve permission pattern scope ap m =
     (case scope of
        ApproveAlways \<Rightarrow>
          m\<lparr>pg_store := map_option (store_save_rule permission pattern ap) (pg_store m),
            pg_approved := pg_approved m @
              [\<lparr>pr_permission = permission, pr_pattern = pattern, pr_action = ALLOW, pr_scope = USER, pr_arg_pattern = ap\<rparr>]\<rparr>
      | ApproveSession \<Rightarrow>
          m\<lparr>pg_approved := pg_approved m @
              [\<lparr>pr_permission = permission, pr_pattern = pattern, pr_action = ALLOW, pr_scope = SESSION, pr_arg_pattern = ap\<rparr>]\<rparr>
      | ApproveOnce \<Rightarrow> m)"

section \<open>Asking\<close>

definition perm_id :: "nat \<Rightarrow> string" where
  "perm_id n = ''perm_'' @ nat_str n"

datatype ask_outcome = Allowed | Denied string string | Rejected | Waiting nat

definition perm_ask ::
  "bool \<Rightarrow> string \<Rightarrow> string list \<Rightarrow> string \<Rightarrow> string list option \<Rightarrow> perm_manager \<Rightarrow> ask_outcome \<times> perm_manager" where
  "perm_ask published permission patterns session always m =
     (case find (\<lambda>p. pr_action (perm_evaluate permission p None m) \<noteq> ALLOW) patterns of
        None \<Rightarrow> (Allowed, m)
      | Some p \<Rightarrow>
          if pr_action (perm_evaluate permission p None m) = DENY then (Denied permission p, m)
          else let n = Suc (pg_request_counter m); rid = perm_id n; i = length (pg_waiters m);
                   req = \<lparr>pq_id = rid, pq_permission = permission, pq_patterns = patterns, pq_session_id = session,
                          pq_always_patterns = (case always of None \<Rightarrow> patterns | Some ps \<Rightarrow> if ps = [] then patterns else ps)\<rparr>;
                   failed = (pg_publisher m \<and> \<not> published);
                   m1 = m\<lparr>pg_request_counter := n, pg_pending := dict_set rid i (pg_pending m),
                          pg_waiters := pg_waiters m @ [\<lparr>wt_request = req, wt_result = None, wt_gone = failed\<rparr>]\<rparr>
               in if failed then (Rejected, m1\<lparr>pg_pending := dict_pop rid (pg_pending m1)\<rparr>) else (Waiting i, m1))"

text \<open>What the waiting task sees when it is scheduled again.\<close>

definition perm_wake :: "nat \<Rightarrow> perm_manager \<Rightarrow> ask_outcome" where
  "perm_wake i m = (case wt_result (pg_waiters m ! i) of
     None \<Rightarrow> Waiting i | Some r \<Rightarrow> if r = ''reject'' then Rejected else Allowed)"

text \<open>The waiting task is cancelled.\<close>

definition perm_cancel_task :: "nat \<Rightarrow> perm_manager \<Rightarrow> perm_manager" where
  "perm_cancel_task i m =
     (if i < length (pg_waiters m) \<and> wt_result (pg_waiters m ! i) = None \<and> \<not> wt_gone (pg_waiters m ! i)
      then m\<lparr>pg_waiters := (pg_waiters m)[i := (pg_waiters m ! i)\<lparr>wt_gone := True\<rparr>],
             pg_pending := dict_pop (pq_id (wt_request (pg_waiters m ! i))) (pg_pending m)\<rparr>
      else m)"

section \<open>Replying\<close>

datatype perm_error = PendingKeyError string

definition set_result :: "nat \<Rightarrow> string \<Rightarrow> perm_manager \<Rightarrow> perm_manager" where
  "set_result i r m = m\<lparr>pg_waiters := (pg_waiters m)[i := (pg_waiters m ! i)\<lparr>wt_result := Some r\<rparr>]\<rparr>"

definition drop_pending :: "string \<Rightarrow> perm_manager \<Rightarrow> perm_manager" where
  "drop_pending rid m = m\<lparr>pg_pending := dict_pop rid (pg_pending m)\<rparr>"

abbreviation request_of :: "nat \<Rightarrow> perm_manager \<Rightarrow> perm_request" where
  "request_of i m \<equiv> wt_request (pg_waiters m ! i)"

definition all_allowed :: "perm_request \<Rightarrow> perm_manager \<Rightarrow> bool" where
  "all_allowed req m = list_all (\<lambda>p. pr_action (perm_evaluate (pq_permission req) p None m) = ALLOW) (pq_patterns req)"

text \<open>
  The loop over a snapshot of the pending requests: those that satisfy the condition leave the
  dictionary (\<open>del\<close> raises when another task removed them first) and get the result.
\<close>

fun resolve_peers ::
  "(perm_manager \<Rightarrow> perm_manager) \<Rightarrow> (nat \<Rightarrow> perm_manager \<Rightarrow> bool) \<Rightarrow> string \<Rightarrow> (string, nat) dict \<Rightarrow> perm_manager \<Rightarrow>
   perm_error option \<times> perm_manager" where
  "resolve_peers during cond r [] m = (None, m)"
| "resolve_peers during cond r ((pid, i) # ps) m =
     (if \<not> cond i m then resolve_peers during cond r ps m
      else if dict_get (pg_pending m) pid = None then (Some (PendingKeyError pid), m)
      else let m1 = set_result i r (drop_pending pid m)
           in resolve_peers during cond r ps (if pg_publisher m1 then during m1 else m1))"

definition handle_reject_reply :: "(perm_manager \<Rightarrow> perm_manager) \<Rightarrow> nat \<Rightarrow> perm_manager \<Rightarrow> perm_error option \<times> perm_manager" where
  "handle_reject_reply during i m =
     (let m1 = set_result i ''reject'' m; session = pq_session_id (request_of i m)
      in resolve_peers during (\<lambda>j m. pq_session_id (request_of j m) = session) ''reject'' (pg_pending m1) m1)"

definition handle_always_reply :: "(perm_manager \<Rightarrow> perm_manager) \<Rightarrow> nat \<Rightarrow> perm_manager \<Rightarrow> perm_error option \<times> perm_manager" where
  "handle_always_reply during i m =
     (let req = request_of i m; session = pq_session_id req;
          m1 = m\<lparr>pg_approved := pg_approved m @ map (\<lambda>p. rule (pq_permission req) p ALLOW) (pq_always_patterns req),
                 pg_store := map_option (\<lambda>st. foldl (\<lambda>s p. store_save_rule (pq_permission req) p None s) st (pq_always_patterns req)) (pg_store m)\<rparr>;
          m2 = set_result i ''allow'' m1
      in resolve_peers during (\<lambda>j m. pq_session_id (request_of j m) = session \<and> all_allowed (request_of j m) m) ''allow'' (pg_pending m2) m2)"

definition perm_reply ::
  "(perm_manager \<Rightarrow> perm_manager) \<Rightarrow> string \<Rightarrow> string \<Rightarrow> perm_manager \<Rightarrow> perm_error option \<times> perm_manager" where
  "perm_reply during rid reply m =
     (case dict_get (pg_pending m) rid of
        None \<Rightarrow> (None, m)
      | Some i \<Rightarrow>
          let m1 = drop_pending rid m
          in if reply = ''reject'' then handle_reject_reply during i m1
             else if reply = ''once'' then (None, set_result i ''allow'' m1)
             else if reply = ''always'' then handle_always_reply during i m1
             else (None, m1))"

definition get_pending_requests :: "string option \<Rightarrow> perm_manager \<Rightarrow> perm_request list" where
  "get_pending_requests session m =
     (let reqs = map (\<lambda>(rid, i). request_of i m) (pg_pending m)
      in case session of None \<Rightarrow> reqs | Some s \<Rightarrow> if s = [] then reqs else filter (\<lambda>q. pq_session_id q = s) reqs)"

text \<open>\<open>cancel_all\<close> runs without suspension and cannot fail.\<close>

fun cancel_peers :: "string \<Rightarrow> (string, nat) dict \<Rightarrow> int \<times> perm_manager \<Rightarrow> int \<times> perm_manager" where
  "cancel_peers session [] (n, m) = (n, m)"
| "cancel_peers session ((pid, i) # ps) (n, m) =
     (if pq_session_id (request_of i m) = session
      then cancel_peers session ps (n + 1, set_result i ''reject'' (drop_pending pid m))
      else cancel_peers session ps (n, m))"

definition cancel_all :: "string \<Rightarrow> perm_manager \<Rightarrow> int \<times> perm_manager" where
  "cancel_all session m = cancel_peers session (pg_pending m) (0, m)"

end
