(* ===== verification/PermissionProps.thy ===== *)
theory PermissionProps
  imports PermissionManager
begin

text \<open>
  What the permission manager promises: which rule decides, that a read-only mode is read-only, and
  that the requests waiting for the user are exactly the pending ones, so that every reply reaches
  the tasks it is meant for.
\<close>

section \<open>Which rule decides\<close>

lemma evaluate_rules_append:
  "evaluate_rules p t (rss @ [rs]) args =
     (case find (\<lambda>r. rule_matches r p t args) (rev rs) of Some r \<Rightarrow> r | None \<Rightarrow> evaluate_rules p t rss args)"
  by (simp add: evaluate_rules_def find_append split: option.splits)

lemma rule_fields [simp]:
  "pr_permission (rule p t a) = p" "pr_pattern (rule p t a) = t" "pr_action (rule p t a) = a" "pr_arg_pattern (rule p t a) = None"
  by (simp_all add: rule_def)

lemma rule_matches_rule [simp]: "rule_matches (rule p' t' a) p t args \<longleftrightarrow> fnmatch p p' \<and> fnmatch t t'"
  by (simp add: rule_matches_def)

lemma rule_roundtrip: "rule_from_dict (rule_to_dict r) = Inr r"
proof -
  have "parse_action (action_value a) = Some a" for a by (cases a) (simp_all add: parse_action_def)
  then show ?thesis
    by (cases "pr_scope r"; cases "pr_arg_pattern r") (simp_all add: rule_to_dict_def rule_from_dict_def parse_scope_def)
qed

section \<open>Read-only modes\<close>

definition explore_denied :: "string list" where
  "explore_denied = [''edit'', ''write'', ''patch'', ''multiedit'', ''bash'', ''code_executor'', ''memory_create'',
     ''ask_clarification'', ''ask_decision'']"

definition explore_allowed :: "string list" where
  "explore_allowed = [''read'', ''glob'', ''grep'', ''memory_search'', ''entity_lookup'', ''episode_retrieval'', ''graph_query'',
     ''web_search'', ''web_scrape'']"

definition explore_targets :: "string list" where
  "explore_targets = [''bash'', ''write'', ''file_write'', ''edit'', ''patch'', ''execute'']"

lemma find_explore:
  "find (\<lambda>r. rule_matches r p t args) (rev explore_mode_ruleset) =
     (if t \<in> set explore_targets then Some (rule ''*'' t DENY)
      else if p \<in> set explore_denied then Some (rule p ''*'' DENY)
      else if p \<in> set explore_allowed then Some (rule p ''*'' ALLOW) else None)"
  by (simp add: explore_mode_ruleset_def explore_targets_def explore_denied_def explore_allowed_def fnmatch_plain plain_def)

lemma explore_ask_denied:
  assumes "pg_mode_rules m = explore_mode_ruleset" and "pg_approved m = []" and "p \<in> set explore_denied"
  shows "perm_ask published p (t # ts) session always m = (Denied p t, m)"
proof -
  have "perm_evaluate p t None m =
      (case find (\<lambda>r. rule_matches r p t None) (rev explore_mode_ruleset) of Some r \<Rightarrow> r | None \<Rightarrow> evaluate_rules p t [pg_ruleset m] None)"
    using evaluate_rules_append [of p t "[pg_ruleset m]" explore_mode_ruleset] assms(1,2)
    by (simp add: perm_evaluate_def evaluate_rules_def)
  then have "pr_action (perm_evaluate p t None m) = DENY"
    using assms(3) by (simp add: find_explore)
  then show ?thesis by (simp add: perm_ask_def)
qed



text \<open>
  The list of disabled tools, however, is empty in these modes: the search stops at the last rule whose
  permission pattern fits, which is the one for the target \<open>execute\<close>, and that rule does not disable.
\<close>

lemma read_only_modes_disable_nothing:
  assumes "mode = PLAN \<or> mode = EXPLORE" and "pg_approved m = []"
  shows "get_allowed_tools tools (set_mode mode m) = tools"
proof -
  have "tool_disabled (pg_ruleset m @ explore_mode_ruleset) tool = False" for tool
    by (simp add: tool_disabled_def explore_mode_ruleset_def)
  then have "manager_disabled_tools tools (set_mode mode m) = {}"
    using assms by (auto simp: manager_disabled_tools_def get_disabled_tools_def set_mode_def)
  then show ?thesis by (simp add: get_allowed_tools_def)
qed

section \<open>Pending requests\<close>

definition waiting :: "waiter \<Rightarrow> bool" where
  "waiting w \<longleftrightarrow> wt_result w = None \<and> \<not> wt_gone w"

definition perm_ok :: "perm_manager \<Rightarrow> bool" where
  "perm_ok m \<longleftrightarrow> wf_dict (pg_pending m) \<and>
     (\<forall>rid i. dict_get (pg_pending m) rid = Some i \<longleftrightarrow>
        i < length (pg_waiters m) \<and> waiting (pg_waiters m ! i) \<and> pq_id (request_of i m) = rid) \<and>
     (\<exists>ns. map (\<lambda>w. pq_id (wt_request w)) (pg_waiters m) = map perm_id ns \<and> sorted_wrt (<) ns \<and>
        (\<forall>n \<in> set ns. n \<le> pg_request_counter m))"

lemma perm_id_inject [simp]: "perm_id m = perm_id n \<longleftrightarrow> m = n"
  by (simp add: perm_id_def)

lemma perm_okD:
  assumes "perm_ok m"
  shows "wf_dict (pg_pending m)"
    and "dict_get (pg_pending m) rid = Some i \<longleftrightarrow> i < length (pg_waiters m) \<and> waiting (pg_waiters m ! i) \<and> pq_id (request_of i m) = rid"
  using assms unfolding perm_ok_def by blast+

lemma perm_ok_ids:
  assumes "perm_ok m"
  shows "distinct (map (\<lambda>w. pq_id (wt_request w)) (pg_waiters m))"
    and "perm_id (Suc (pg_request_counter m)) \<notin> (\<lambda>w. pq_id (wt_request w)) ` set (pg_waiters m)"
proof -
  obtain ns where ns: "map (\<lambda>w. pq_id (wt_request w)) (pg_waiters m) = map perm_id ns" "sorted_wrt (<) ns"
    "\<forall>n \<in> set ns. n \<le> pg_request_counter m"
    using assms unfolding perm_ok_def by blast
  have "distinct ns" using ns(2) strict_sorted_iff by blast
  then show "distinct (map (\<lambda>w. pq_id (wt_request w)) (pg_waiters m))"
    unfolding ns(1) by (simp add: distinct_map inj_on_def)
  have "(\<lambda>w. pq_id (wt_request w)) ` set (pg_waiters m) = perm_id ` set ns"
    using arg_cong [OF ns(1), of set] by simp
  then show "perm_id (Suc (pg_request_counter m)) \<notin> (\<lambda>w. pq_id (wt_request w)) ` set (pg_waiters m)"
    using ns(3) by auto
qed

text \<open>Changing the rules leaves the requests alone; so does everything that keeps these three fields.\<close>

lemma perm_ok_cong:
  "perm_ok m \<Longrightarrow> pg_pending m' = pg_pending m \<Longrightarrow> pg_waiters m' = pg_waiters m \<Longrightarrow>
   pg_request_counter m' = pg_request_counter m \<Longrightarrow> perm_ok m'"
  unfolding perm_ok_def by simp

text \<open>Taking a request out of the dictionary together with ending its wait.\<close>

lemma settle_ok:
  assumes "perm_ok m" and "dict_get (pg_pending m) rid = Some i"
    and "pg_pending m' = dict_pop rid (pg_pending m)" and "pg_waiters m' = (pg_waiters m)[i := w]"
    and "wt_request w = request_of i m" and "\<not> waiting w" and "pg_request_counter m' = pg_request_counter m"
  shows "perm_ok m'"
proof -
  have i: "i < length (pg_waiters m)" "pq_id (request_of i m) = rid" using assms(1,2) by (auto simp: perm_okD)
  have uniq: "j = i" if "j < length (pg_waiters m)" "pq_id (request_of j m) = rid" for j
    using perm_ok_ids(1) [OF assms(1)] that i unfolding distinct_conv_nth by (metis length_map nth_map)
  have ids: "map (\<lambda>w. pq_id (wt_request w)) (pg_waiters m') = map (\<lambda>w. pq_id (wt_request w)) (pg_waiters m)"
    unfolding assms(4) by (rule nth_equalityI) (auto simp: nth_list_update i(1) assms(5))
  have "dict_get (pg_pending m') r = Some j \<longleftrightarrow>
      j < length (pg_waiters m') \<and> waiting (pg_waiters m' ! j) \<and> pq_id (request_of j m') = r" for r j
  proof (cases "j = i")
    case True
    have "dict_get (pg_pending m') r \<noteq> Some i"
      using perm_okD(2) [OF assms(1), of r i] i by (auto simp: assms(3) dict_get_pop)
    then show ?thesis using assms(6) i by (simp add: True assms(4))
  next
    case False
    then show ?thesis
      using uniq [of j] perm_okD(2) [OF assms(1), of r j] by (auto simp: assms(3,4) dict_get_pop)
  qed
  moreover have "wf_dict (pg_pending m')" using perm_okD(1) [OF assms(1)] by (simp add: assms(3))
  ultimately show ?thesis using assms(1) unfolding perm_ok_def ids assms(7) by blast
qed

lemma answer_fields [simp]:
  "pg_ruleset (set_result i r (drop_pending rid m)) = pg_ruleset m"
  "pg_mode_rules (set_result i r (drop_pending rid m)) = pg_mode_rules m"
  "pg_approved (set_result i r (drop_pending rid m)) = pg_approved m"
  "pg_request_counter (set_result i r (drop_pending rid m)) = pg_request_counter m"
  "pg_pending (set_result i r (drop_pending rid m)) = dict_pop rid (pg_pending m)"
  "pg_waiters (set_result i r (drop_pending rid m)) = (pg_waiters m)[i := (pg_waiters m ! i)\<lparr>wt_result := Some r\<rparr>]"
  by (simp_all add: set_result_def drop_pending_def)

lemma answer_ok:
  assumes "perm_ok m" and "dict_get (pg_pending m) rid = Some i"
  shows "perm_ok (set_result i r (drop_pending rid m))"
  by (rule settle_ok [OF assms, where w = "(pg_waiters m ! i)\<lparr>wt_result := Some r\<rparr>"]) (simp_all add: waiting_def)

lemma request_of_answer [simp]: "i < length (pg_waiters m) \<Longrightarrow> request_of j (set_result i r (drop_pending rid m)) = request_of j m"
  by (simp add: nth_list_update)

text \<open>Every waiting request of a kind gets one answer.\<close>

definition answer_where :: "(perm_request \<Rightarrow> bool) \<Rightarrow> string \<Rightarrow> waiter list \<Rightarrow> waiter list" where
  "answer_where P r ws = map (\<lambda>w. if waiting w \<and> P (wt_request w) then w\<lparr>wt_result := Some r\<rparr> else w) ws"

lemma answer_where_nth [simp]:
  "i < length ws \<Longrightarrow> answer_where P r ws ! i = (if waiting (ws ! i) \<and> P (wt_request (ws ! i)) then (ws ! i)\<lparr>wt_result := Some r\<rparr> else ws ! i)"
  "length (answer_where P r ws) = length ws"
  by (simp_all add: answer_where_def)

lemma answer_where_cong:
  "(\<And>w. w \<in> set ws \<Longrightarrow> P (wt_request w) = Q (wt_request w)) \<Longrightarrow> answer_where P r ws = answer_where Q r ws"
  by (simp add: answer_where_def)

lemma pending_unique:
  assumes "perm_ok m" and "dict_get (pg_pending m) rid = Some i" and "w \<in> set (pg_waiters m)" and "pq_id (wt_request w) = rid"
  shows "wt_request w = request_of i m"
proof -
  have "i < length (pg_waiters m)" "pq_id (request_of i m) = rid" using assms(1,2) by (auto simp: perm_okD)
  then have "w = pg_waiters m ! i"
    using perm_ok_ids(1) [OF assms(1)] assms(3,4) unfolding distinct_map inj_on_def by (metis nth_mem)
  then show ?thesis by simp
qed

lemma answer_where_twice:
  "answer_where Q r (answer_where P r ws) = answer_where (\<lambda>q. P q \<or> Q q) r ws"
  by (auto simp: answer_where_def waiting_def)

lemma answer_one:
  assumes "perm_ok m" and "dict_get (pg_pending m) rid = Some i"
  shows "pg_waiters (set_result i r (drop_pending rid m)) = answer_where (\<lambda>q. pq_id q = rid) r (pg_waiters m)"
proof (rule nth_equalityI)
  fix j
  assume j: "j < length (pg_waiters (set_result i r (drop_pending rid m)))"
  have i: "i < length (pg_waiters m)" "waiting (pg_waiters m ! i)" "pq_id (request_of i m) = rid"
    using assms by (auto simp: perm_okD)
  have "pq_id (request_of j m) = rid \<longleftrightarrow> j = i"
    using perm_ok_ids(1) [OF assms(1)] i j unfolding distinct_conv_nth by (metis answer_fields(6) length_list_update length_map nth_map)
  then show "pg_waiters (set_result i r (drop_pending rid m)) ! j = answer_where (\<lambda>q. pq_id q = rid) r (pg_waiters m) ! j"
    using i j by (auto simp: nth_list_update)
qed simp

text \<open>
  The loop over the peers, when the publisher returns without other tasks running in between: it never
  raises, and answers every listed request of the kind.
\<close>

lemma resolve_peers_spec:
  assumes "perm_ok m" and "distinct (map fst ps)" and "\<forall>(pid, i) \<in> set ps. dict_get (pg_pending m) pid = Some i"
    and "\<And>j m'. pg_ruleset m' = pg_ruleset m \<Longrightarrow> pg_mode_rules m' = pg_mode_rules m \<Longrightarrow> pg_approved m' = pg_approved m \<Longrightarrow>
      cond j m' = P (request_of j m')"
  shows "fst (resolve_peers (\<lambda>m. m) cond r ps m) = None \<and> perm_ok (snd (resolve_peers (\<lambda>m. m) cond r ps m)) \<and>
    pg_waiters (snd (resolve_peers (\<lambda>m. m) cond r ps m)) = answer_where (\<lambda>q. pq_id q \<in> fst ` set ps \<and> P q) r (pg_waiters m)"
  using assms
proof (induction ps arbitrary: m)
  case Nil
  then show ?case by (simp add: answer_where_def)
next
  case (Cons p ps)
  obtain pid i where p: "p = (pid, i)" by (cases p)
  have i: "dict_get (pg_pending m) pid = Some i" "pq_id (request_of i m) = pid" "i < length (pg_waiters m)"
    using Cons.prems(1,3) by (auto simp: p perm_okD)
  have c: "cond i m = P (request_of i m)" by (rule Cons.prems(4)) simp_all
  have ids: "pq_id w = pid \<Longrightarrow> w \<in> wt_request ` set (pg_waiters m) \<Longrightarrow> w = request_of i m" for w
    using perm_ok_ids(1) [OF Cons.prems(1)] i(2,3) by (auto simp: distinct_map inj_on_def)
  show ?case
  proof (cases "P (request_of i m)")
    case True
    let ?m = "set_result i r (drop_pending pid m)"
    have rest: "\<forall>(q, j) \<in> set ps. dict_get (pg_pending ?m) q = Some j"
      using Cons.prems(2,3) by (auto simp: p dict_get_pop rev_image_eqI)
    have "answer_where (\<lambda>q. pq_id q \<in> fst ` set ps \<and> P q) r (pg_waiters ?m) =
        answer_where (\<lambda>q. pq_id q = pid \<or> pq_id q \<in> fst ` set ps \<and> P q) r (pg_waiters m)"
      unfolding answer_one [OF Cons.prems(1) i(1)] answer_where_twice ..
    also have "\<dots> = answer_where (\<lambda>q. pq_id q \<in> fst ` set (p # ps) \<and> P q) r (pg_waiters m)"
      using True ids by (auto simp: answer_where_def p)
    finally show ?thesis
      using Cons.IH [of ?m, OF answer_ok [OF Cons.prems(1) i(1)] _ rest] Cons.prems(2,4) True c i(1) by (simp add: p)
  next
    case False
    have "answer_where (\<lambda>q. pq_id q \<in> fst ` set ps \<and> P q) r (pg_waiters m) =
        answer_where (\<lambda>q. pq_id q \<in> fst ` set (p # ps) \<and> P q) r (pg_waiters m)"
      using False ids by (auto simp: answer_where_def p)
    then show ?thesis using Cons.IH [of m] Cons.prems False c by (simp add: p)
  qed
qed

text \<open>When the list is all of the dictionary, these are all the waiting requests of the kind.\<close>

lemma answer_pending:
  assumes "perm_ok m"
  shows "answer_where (\<lambda>q. pq_id q \<in> fst ` set (pg_pending m) \<and> P q) r (pg_waiters m) = answer_where P r (pg_waiters m)"
proof -
  have "pq_id (wt_request w) \<in> fst ` set (pg_pending m)" if "w \<in> set (pg_waiters m)" "waiting w" for w
    using that perm_okD(2) [OF assms] dict_get_Some_key [of "pg_pending m"] by (metis in_set_conv_nth set_map)
  then show ?thesis by (auto simp: answer_where_def)
qed

lemma resolve_all:
  assumes "perm_ok m"
    and "\<And>j m'. pg_ruleset m' = pg_ruleset m \<Longrightarrow> pg_mode_rules m' = pg_mode_rules m \<Longrightarrow> pg_approved m' = pg_approved m \<Longrightarrow>
      cond j m' = P (request_of j m')"
  shows "fst (resolve_peers (\<lambda>m. m) cond r (pg_pending m) m) = None" "perm_ok (snd (resolve_peers (\<lambda>m. m) cond r (pg_pending m) m))"
    "pg_waiters (snd (resolve_peers (\<lambda>m. m) cond r (pg_pending m) m)) = answer_where P r (pg_waiters m)"
proof -
  have "distinct (map fst (pg_pending m))" "\<forall>(pid, i) \<in> set (pg_pending m). dict_get (pg_pending m) pid = Some i"
    using perm_okD(1) [OF assms(1)] by (auto simp: wf_dict_def)
  note spec = resolve_peers_spec [where cond = cond and P = P, OF assms(1) this assms(2), of r, unfolded answer_pending [OF assms(1)]]
  show "fst (resolve_peers (\<lambda>m. m) cond r (pg_pending m) m) = None" by (rule conjunct1 [OF spec])
  show "perm_ok (snd (resolve_peers (\<lambda>m. m) cond r (pg_pending m) m))" by (rule conjunct1 [OF conjunct2 [OF spec]])
  show "pg_waiters (snd (resolve_peers (\<lambda>m. m) cond r (pg_pending m) m)) = answer_where P r (pg_waiters m)"
    by (rule conjunct2 [OF conjunct2 [OF spec]])
qed

lemma all_allowed_cong:
  "pg_ruleset m' = pg_ruleset m \<Longrightarrow> pg_mode_rules m' = pg_mode_rules m \<Longrightarrow> pg_approved m' = pg_approved m \<Longrightarrow> all_allowed q m' = all_allowed q m"
  by (simp add: all_allowed_def perm_evaluate_def)

lemma resolve_peers_rules:
  "pg_ruleset (snd (resolve_peers (\<lambda>m. m) cond r ps m)) = pg_ruleset m \<and>
   pg_mode_rules (snd (resolve_peers (\<lambda>m. m) cond r ps m)) = pg_mode_rules m \<and>
   pg_approved (snd (resolve_peers (\<lambda>m. m) cond r ps m)) = pg_approved m"
  by (induction ps arbitrary: m) auto

text \<open>The three replies to a pending request.\<close>

lemma reply_once:
  assumes "perm_ok m" and "dict_get (pg_pending m) rid = Some i"
  shows "fst (perm_reply (\<lambda>m. m) rid ''once'' m) = None" "perm_ok (snd (perm_reply (\<lambda>m. m) rid ''once'' m))"
    "pg_waiters (snd (perm_reply (\<lambda>m. m) rid ''once'' m)) = answer_where (\<lambda>q. pq_id q = rid) ''allow'' (pg_waiters m)"
  using answer_ok [OF assms] answer_one [OF assms] assms(2) by (simp_all add: perm_reply_def)

lemma reply_reject:
  assumes ok: "perm_ok m" and i: "dict_get (pg_pending m) rid = Some i"
  shows "fst (perm_reply (\<lambda>m. m) rid ''reject'' m) = None" "perm_ok (snd (perm_reply (\<lambda>m. m) rid ''reject'' m))"
    "pg_waiters (snd (perm_reply (\<lambda>m. m) rid ''reject'' m)) =
       answer_where (\<lambda>q. pq_session_id q = pq_session_id (request_of i m)) ''reject'' (pg_waiters m)"
proof -
  let ?m = "set_result i ''reject'' (drop_pending rid m)" and ?s = "pq_session_id (request_of i m)"
  have eq: "perm_reply (\<lambda>m. m) rid ''reject'' m =
      resolve_peers (\<lambda>m. m) (\<lambda>j m. pq_session_id (request_of j m) = ?s) ''reject'' (pg_pending ?m) ?m"
    using i by (simp add: perm_reply_def handle_reject_reply_def) (simp add: drop_pending_def)
  note all = resolve_all [OF answer_ok [OF ok i], where P = "\<lambda>q. pq_session_id q = ?s" and cond = "\<lambda>j m. pq_session_id (request_of j m) = ?s"
      and r = "''reject''", OF refl]
  show "fst (perm_reply (\<lambda>m. m) rid ''reject'' m) = None" "perm_ok (snd (perm_reply (\<lambda>m. m) rid ''reject'' m))"
    unfolding eq by (rule all)+
  have "wt_request w = request_of i m" if "w \<in> set (pg_waiters m)" "pq_id (wt_request w) = rid" for w
    by (rule pending_unique [OF ok i that])
  then show "pg_waiters (snd (perm_reply (\<lambda>m. m) rid ''reject'' m)) = answer_where (\<lambda>q. pq_session_id q = ?s) ''reject'' (pg_waiters m)"
    unfolding eq all(3) answer_one [OF ok i] answer_where_twice by (intro answer_where_cong) auto
qed

lemma reply_always:
  fixes m rid
  defines "m' \<equiv> snd (perm_reply (\<lambda>m. m) rid ''always'' m)"
  assumes ok: "perm_ok m" and i: "dict_get (pg_pending m) rid = Some i"
  shows "fst (perm_reply (\<lambda>m. m) rid ''always'' m) = None" "perm_ok m'"
    "pg_waiters m' = answer_where (\<lambda>q. pq_id q = rid \<or> pq_session_id q = pq_session_id (request_of i m) \<and> all_allowed q m') ''allow'' (pg_waiters m)"
    "pg_approved m' = pg_approved m @ map (\<lambda>p. rule (pq_permission (request_of i m)) p ALLOW) (pq_always_patterns (request_of i m))"
proof -
  let ?req = "request_of i m" and ?s = "pq_session_id (request_of i m)"
  let ?upd = "\<lambda>m. m\<lparr>pg_approved := pg_approved m @ map (\<lambda>p. rule (pq_permission ?req) p ALLOW) (pq_always_patterns ?req),
      pg_store := map_option (\<lambda>st. foldl (\<lambda>s p. store_save_rule (pq_permission ?req) p None s) st (pq_always_patterns ?req)) (pg_store m)\<rparr>"
  let ?m = "set_result i ''allow'' (?upd (drop_pending rid m))"
  let ?c = "\<lambda>j m. pq_session_id (request_of j m) = ?s \<and> all_allowed (request_of j m) m"
  have eq: "perm_reply (\<lambda>m. m) rid ''always'' m = resolve_peers (\<lambda>m. m) ?c ''allow'' (pg_pending ?m) ?m"
    using i by (simp add: perm_reply_def handle_always_reply_def Let_def) (simp add: drop_pending_def)
  have ok': "perm_ok ?m"
    by (rule perm_ok_cong [OF answer_ok [OF ok i, of "''allow''"]]) (simp_all add: set_result_def drop_pending_def)
  have rules: "pg_ruleset m' = pg_ruleset ?m" "pg_mode_rules m' = pg_mode_rules ?m" "pg_approved m' = pg_approved ?m"
    using resolve_peers_rules [of ?c "''allow''" "pg_pending ?m" ?m] unfolding m'_def eq by blast+
  have cond: "?c j m2 = (pq_session_id (request_of j m2) = ?s \<and> all_allowed (request_of j m2) m')"
    if "pg_ruleset m2 = pg_ruleset ?m" "pg_mode_rules m2 = pg_mode_rules ?m" "pg_approved m2 = pg_approved ?m" for j m2
    using that by (simp only: all_allowed_cong [of m2 m'] rules)
  note all = resolve_all [where P = "\<lambda>q. pq_session_id q = ?s \<and> all_allowed q m'" and cond = ?c and r = "''allow''", OF ok' cond]
  show "fst (perm_reply (\<lambda>m. m) rid ''always'' m) = None" unfolding eq by (rule all(1))
  show "perm_ok m'" unfolding m'_def eq by (rule all(2))
  have base: "pg_waiters ?m = answer_where (\<lambda>q. pq_id q = rid) ''allow'' (pg_waiters m)"
    using answer_one [OF ok i, of "''allow''"] by (simp add: set_result_def drop_pending_def)
  have "pg_waiters m' = answer_where (\<lambda>q. pq_session_id q = ?s \<and> all_allowed q m') ''allow'' (pg_waiters ?m)"
    unfolding m'_def eq by (rule all(3) [unfolded m'_def eq])
  then show "pg_waiters m' = answer_where (\<lambda>q. pq_id q = rid \<or> pq_session_id q = ?s \<and> all_allowed q m') ''allow'' (pg_waiters m)"
    by (simp only: base answer_where_twice)
  show "pg_approved m' = pg_approved m @ map (\<lambda>p. rule (pq_permission ?req) p ALLOW) (pq_always_patterns ?req)"
    unfolding rules by (simp add: set_result_def drop_pending_def)
qed

lemma cancel_peers_resolve:
  assumes "perm_ok m" and "distinct (map fst ps)" and "\<forall>(pid, i) \<in> set ps. dict_get (pg_pending m) pid = Some i"
  shows "cancel_peers session ps (n, m) =
    (n + int (length (filter (\<lambda>(pid, i). pq_session_id (request_of i m) = session) ps)),
     snd (resolve_peers (\<lambda>m. m) (\<lambda>j m. pq_session_id (request_of j m) = session) ''reject'' ps m))"
  using assms
proof (induction ps arbitrary: n m)
  case (Cons p ps)
  obtain pid i where p: "p = (pid, i)" by (cases p)
  have i: "dict_get (pg_pending m) pid = Some i" "i < length (pg_waiters m)"
    using Cons.prems(1,3) by (auto simp: p perm_okD)
  let ?m = "set_result i ''reject'' (drop_pending pid m)"
  have rest: "\<forall>(q, j) \<in> set ps. dict_get (pg_pending ?m) q = Some j"
    using Cons.prems(2,3) by (auto simp: p dict_get_pop rev_image_eqI)
  have same: "request_of j ?m = request_of j m" for j by (rule request_of_answer [OF i(2)])
  show ?case
    using Cons.IH [OF Cons.prems(1), of n] Cons.IH [OF answer_ok [OF Cons.prems(1) i(1)] _ rest, of "n + 1", unfolded same] Cons.prems(2,3) i(1)
    by (simp add: p)
qed simp

lemma pending_count:
  assumes "perm_ok m"
  shows "length (filter (\<lambda>(pid, i). P (request_of i m)) (pg_pending m)) =
    length (filter (\<lambda>w. waiting w \<and> P (wt_request w)) (pg_waiters m))"
proof -
  let ?ps = "filter (\<lambda>(pid, i). P (request_of i m)) (pg_pending m)"
  have mem: "(pid, i) \<in> set (pg_pending m) \<longleftrightarrow> i < length (pg_waiters m) \<and> waiting (pg_waiters m ! i) \<and> pq_id (request_of i m) = pid" for pid i
    unfolding dict_get_iff_mem [OF perm_okD(1) [OF assms], symmetric] by (rule perm_okD(2) [OF assms])
  have inj: "inj_on snd (set ?ps)" unfolding inj_on_def by (auto simp: mem)
  have "i \<in> snd ` set ?ps \<longleftrightarrow> i < length (pg_waiters m) \<and> waiting (pg_waiters m ! i) \<and> P (request_of i m)" for i
    by (auto simp: mem image_iff)
  then have "snd ` set ?ps = {i. i < length (pg_waiters m) \<and> waiting (pg_waiters m ! i) \<and> P (request_of i m)}" by blast
  moreover have "distinct ?ps" using perm_okD(1) [OF assms] by (simp add: wf_dict_def distinct_map)
  then have "card (snd ` set ?ps) = length ?ps" unfolding card_image [OF inj] by (rule distinct_card)
  ultimately show ?thesis by (simp add: length_filter_conv_card)
qed

lemma cancel_all_spec:
  assumes "perm_ok m"
  shows "fst (cancel_all s m) = int (length (filter (\<lambda>w. waiting w \<and> pq_session_id (wt_request w) = s) (pg_waiters m)))"
    "perm_ok (snd (cancel_all s m))"
    "pg_waiters (snd (cancel_all s m)) = answer_where (\<lambda>q. pq_session_id q = s) ''reject'' (pg_waiters m)"
proof -
  have "distinct (map fst (pg_pending m))" "\<forall>(pid, i) \<in> set (pg_pending m). dict_get (pg_pending m) pid = Some i"
    using perm_okD(1) [OF assms] by (auto simp: wf_dict_def)
  note eq = cancel_peers_resolve [OF assms this, of s 0]
  note all = resolve_all [OF assms, where cond = "\<lambda>j m. pq_session_id (request_of j m) = s" and P = "\<lambda>q. pq_session_id q = s"
      and r = "''reject''", OF refl]
  show "fst (cancel_all s m) = int (length (filter (\<lambda>w. waiting w \<and> pq_session_id (wt_request w) = s) (pg_waiters m)))"
    unfolding cancel_all_def eq using pending_count [OF assms, of "\<lambda>q. pq_session_id q = s"] by simp
  show "perm_ok (snd (cancel_all s m))" unfolding cancel_all_def eq snd_conv by (rule all(2))
  show "pg_waiters (snd (cancel_all s m)) = answer_where (\<lambda>q. pq_session_id q = s) ''reject'' (pg_waiters m)"
    unfolding cancel_all_def eq snd_conv by (rule all(3))
qed

text \<open>A request that cannot be decided at once joins the waiters under a fresh id.\<close>

lemma join_ok:
  fixes m
  defines "rid \<equiv> perm_id (Suc (pg_request_counter m))"
  assumes ok: "perm_ok m" and w: "pg_waiters m' = pg_waiters m @ [w]" "pq_id (wt_request w) = rid"
    and c: "pg_request_counter m' = Suc (pg_request_counter m)" and wf: "wf_dict (pg_pending m')"
    and get: "\<And>r. dict_get (pg_pending m') r = (if r = rid then if waiting w then Some (length (pg_waiters m)) else None else dict_get (pg_pending m) r)"
  shows "perm_ok m'"
proof -
  have fresh: "pq_id (request_of j m) \<noteq> rid" if "j < length (pg_waiters m)" for j
    using perm_ok_ids(2) [OF ok] that unfolding rid_def by (metis image_eqI nth_mem)
  have "dict_get (pg_pending m') r = Some j \<longleftrightarrow>
      j < length (pg_waiters m') \<and> waiting (pg_waiters m' ! j) \<and> pq_id (request_of j m') = r" for r j
    using perm_okD(2) [OF ok, of r j] fresh [of j] w(2) unfolding w(1) get by (auto simp: nth_append less_Suc_eq)
  moreover obtain ns where "map (\<lambda>w. pq_id (wt_request w)) (pg_waiters m) = map perm_id ns" "sorted_wrt (<) ns"
    "\<forall>n \<in> set ns. n \<le> pg_request_counter m"
    using ok unfolding perm_ok_def by blast
  then have "map (\<lambda>w. pq_id (wt_request w)) (pg_waiters m') = map perm_id (ns @ [Suc (pg_request_counter m)])"
    "sorted_wrt (<) (ns @ [Suc (pg_request_counter m)])" "\<forall>n \<in> set (ns @ [Suc (pg_request_counter m)]). n \<le> pg_request_counter m'"
    unfolding w(1) c by (auto simp: w(2) rid_def sorted_wrt_append)
  ultimately show ?thesis using wf unfolding perm_ok_def by blast
qed

lemma ask_ok:
  assumes ok: "perm_ok m"
  shows "perm_ok (snd (perm_ask published permission patterns session always m))"
proof (cases "fst (perm_ask published permission patterns session always m)")
  case (Waiting i)
  show ?thesis
    by (rule join_ok [OF ok, where w = "last (pg_waiters (snd (perm_ask published permission patterns session always m)))"])
      (use Waiting perm_okD(1) [OF ok] in \<open>auto simp: perm_ask_def waiting_def Let_def dict_get_set split: option.splits if_splits\<close>)
next
  case Rejected
  show ?thesis
    by (rule join_ok [OF ok, where w = "last (pg_waiters (snd (perm_ask published permission patterns session always m)))"])
      (use Rejected perm_okD(1) [OF ok] in \<open>auto simp: perm_ask_def waiting_def Let_def dict_get_set dict_get_pop split: option.splits if_splits\<close>)
qed (use ok in \<open>auto simp: perm_ask_def Let_def split: option.splits if_splits\<close>)

lemma cancel_task_ok:
  assumes "perm_ok m"
  shows "perm_ok (perm_cancel_task i m)"
proof (cases "i < length (pg_waiters m) \<and> wt_result (pg_waiters m ! i) = None \<and> \<not> wt_gone (pg_waiters m ! i)")
  case True
  then have "dict_get (pg_pending m) (pq_id (request_of i m)) = Some i"
    using perm_okD(2) [OF assms] by (simp add: waiting_def)
  from settle_ok [OF assms this, where w = "(pg_waiters m ! i)\<lparr>wt_gone := True\<rparr>"] True show ?thesis
    by (simp add: perm_cancel_task_def waiting_def)
next
  case False
  then show ?thesis using assms by (auto simp: perm_cancel_task_def)
qed

section \<open>Reachable states\<close>

datatype perm_event =
    AskFor bool string "string list" string "string list option"
  | ReplyTo string string
  | CancelTask nat
  | CancelAll string
  | ChangeMode permission_mode
  | AddRule permission_rule
  | Approve string string approval_scope "string option"
  | ClearApproved
  | SetPublisher

fun perm_step :: "perm_manager \<Rightarrow> perm_event \<Rightarrow> perm_manager" where
  "perm_step m (AskFor published permission patterns session always) = snd (perm_ask published permission patterns session always m)"
| "perm_step m (ReplyTo rid reply) = snd (perm_reply (\<lambda>m. m) rid reply m)"
| "perm_step m (CancelTask i) = perm_cancel_task i m"
| "perm_step m (CancelAll s) = snd (cancel_all s m)"
| "perm_step m (ChangeMode mode) = set_mode mode m"
| "perm_step m (AddRule r) = add_rule r m"
| "perm_step m (Approve permission pattern scope ap) = approve permission pattern scope ap m"
| "perm_step m ClearApproved = clear_approved m"
| "perm_step m SetPublisher = set_event_publisher m"

text \<open>Replies are the three documented ones; \<open>reset\<close> is not among the events (see below).\<close>

fun documented :: "perm_event \<Rightarrow> bool" where
  "documented (ReplyTo rid reply) \<longleftrightarrow> reply = ''once'' \<or> reply = ''always'' \<or> reply = ''reject''"
| "documented _ \<longleftrightarrow> True"

inductive perm_reachable :: "perm_manager \<Rightarrow> bool" where
  started: "perm_reachable (perm_init ruleset store)"
| stepped: "perm_reachable m \<Longrightarrow> documented ev \<Longrightarrow> perm_reachable (perm_step m ev)"

lemma perm_step_ok:
  assumes "perm_ok m" and "documented ev"
  shows "perm_ok (perm_step m ev)"
proof (cases ev)
  case (ReplyTo rid reply)
  show ?thesis
  proof (cases "dict_get (pg_pending m) rid")
    case None
    then show ?thesis using assms(1) by (simp add: ReplyTo perm_reply_def)
  next
    case (Some i)
    then show ?thesis
      using assms(2) reply_once(2) [OF assms(1)] reply_always(2) [OF assms(1)] reply_reject(2) [OF assms(1)] by (auto simp: ReplyTo)
  qed
next
  case (Approve permission pattern scope ap)
  show ?thesis
    by (rule perm_ok_cong [OF assms(1)]) (cases scope; simp add: Approve approve_def)+
qed (auto simp: ask_ok cancel_task_ok cancel_all_spec assms(1)
      intro!: perm_ok_cong [OF assms(1)] simp: set_mode_def add_rule_def clear_approved_def set_event_publisher_def)

lemma reachable_perm_ok: "perm_reachable m \<Longrightarrow> perm_ok m"
proof (induction rule: perm_reachable.induct)
  case (started ruleset store)
  show ?case by (simp add: perm_ok_def perm_init_def)
qed (rule perm_step_ok)


definition sample_asks :: "perm_event list" where
  "sample_asks = [AskFor True ''read'' [''a.env''] ''s1'' None, AskFor True ''read'' [''b.env''] ''s1'' (Some [''*'']), AskFor True ''read'' [''a.env''] ''s2'' None]"

definition sample_permissions :: perm_manager where
  "sample_permissions = foldl perm_step (perm_init None None) sample_asks"

lemma sample_permissions_reachable: "perm_reachable sample_permissions"
  unfolding sample_permissions_def sample_asks_def foldl.simps
  by (intro perm_reachable.intros) simp_all


section \<open>Where the code falls short\<close>

text \<open>
  An approved pattern ends \<open>ask\<close>: the patterns after it are never looked at, and the task is granted
  a target that the rules deny.
\<close>

lemma approval_skips_later_patterns:
  "let m = perm_init (Some [rule ''read'' ''*.env'' ASK, rule ''read'' ''secret'' DENY]) None;
       (r, m1) = perm_ask True ''read'' [''a.env'', ''secret''] ''s'' None m;
       m2 = snd (perm_reply (\<lambda>m. m) ''perm_1'' ''once'' m1)
   in r = Waiting 0 \<and> perm_wake 0 m2 = Allowed \<and> pr_action (perm_evaluate ''read'' ''secret'' None m2) = DENY"
  by code_simp

text \<open>
  A reply that is none of the three, and \<open>reset\<close>, take requests out of the dictionary without waking the
  tasks, which no later reply can reach.
\<close>

lemma stranded_requests:
  assumes "perm_reachable m" and "dict_get (pg_pending m) rid = Some i"
  shows "reply \<notin> {''once'', ''always'', ''reject''} \<Longrightarrow>
      (let m' = snd (perm_reply during rid reply m) in waiting (pg_waiters m' ! i) \<and> dict_get (pg_pending m') rid = None)"
    and "waiting (pg_waiters (perm_reset m) ! i) \<and> pg_pending (perm_reset m) = []"
  using perm_okD(2) [OF reachable_perm_ok [OF assms(1)], of rid i] assms(2)
  by (auto simp: perm_reply_def drop_pending_def dict_get_pop perm_reset_def)

text \<open>A session cancelled while a rejection awaits the publisher makes the rejection raise \<open>KeyError\<close>.\<close>

lemma reject_races_cancel:
  "fst (perm_reply (\<lambda>m. snd (cancel_all ''s'' m)) ''perm_1'' ''reject''
     (foldl perm_step (perm_init None None)
       [SetPublisher, AskFor True ''read'' [''a.env''] ''s'' None, AskFor True ''read'' [''b.env''] ''s'' None, AskFor True ''read'' [''c.env''] ''s'' None])) =
   Some (PendingKeyError ''perm_3'')"
  by code_simp

text \<open>Persistent approvals are saved but never read: no decision depends on the store.\<close>

lemma store_never_consulted: "perm_evaluate p t args (m\<lparr>pg_store := st\<rparr>) = perm_evaluate p t args m"
  by (simp add: perm_evaluate_def)

end
