(* ===== verification/SandboxPool.thy ===== *)
theory SandboxPool
  imports Prelude
begin

text \<open>
  The pool of sandbox resources: \<open>src/domain/model/sandbox/resource_pool.py\<close>. Every operation runs under
  the pool's lock and is one step; \<open>acquire\<close> is split where it waits on the condition variable, so a
  waiting call is an entry of \<open>rp_waiting\<close> (its deadline and its timeout), moved to \<open>rp_woken\<close> by a
  notification. What the factory returns, the fresh id it is stored under, which element of the set of
  available ids the iterator yields first, and the clock are inputs of a step; \<open>validate\<close>, the truth
  value of a resource and whether there is a \<open>cleanup\<close> are fixed per pool. Resources given to \<open>cleanup\<close>
  are logged in \<open>rp_cleaned\<close>; exceptions of it are suppressed by the code. A call that has been notified
  continues its loop; that its timeout fires between the notification and its next turn is left out.
\<close>

section \<open>State\<close>

record res_config =
  rc_min_size :: int
  rc_max_size :: int
  rc_acquire_timeout :: real
  rc_idle_timeout :: real
  rc_max_lifetime :: real

datatype res_config_error = MinSizeNegative | MaxSizeTooSmall | MinExceedsMax | TimeoutNotPositive

definition res_config_init :: "res_config \<Rightarrow> res_config_error + res_config" where
  "res_config_init c =
     (if rc_min_size c < 0 then Inl MinSizeNegative
      else if rc_max_size c < 1 then Inl MaxSizeTooSmall
      else if rc_min_size c > rc_max_size c then Inl MinExceedsMax
      else if rc_acquire_timeout c \<le> 0 then Inl TimeoutNotPositive
      else Inr c)"

definition default_res_config :: res_config where
  "default_res_config =
     \<lparr>rc_min_size = 0, rc_max_size = 10, rc_acquire_timeout = 30, rc_idle_timeout = 300, rc_max_lifetime = 3600\<rparr>"

record 'r res_pool =
  rp_config :: res_config
  rp_validate :: "'r \<Rightarrow> bool"
  rp_truthy :: "'r \<Rightarrow> bool"
  rp_has_cleanup :: bool
  rp_resources :: "(string, 'r) dict"
  rp_available :: "string list"
  rp_in_use :: "string list"
  rp_created_at :: "(string, real) dict"
  rp_last_used :: "(string, real) dict"
  rp_is_closed :: bool
  rp_cleaned :: "'r list"
  rp_waiting :: "(real \<times> real) list"
  rp_woken :: "(real \<times> real) list"

definition res_pool_init :: "res_config \<Rightarrow> ('r \<Rightarrow> bool) \<Rightarrow> ('r \<Rightarrow> bool) \<Rightarrow> bool \<Rightarrow> 'r res_pool" where
  "res_pool_init cfg validate truthy has_cleanup =
     \<lparr>rp_config = cfg, rp_validate = validate, rp_truthy = truthy, rp_has_cleanup = has_cleanup, rp_resources = [],
      rp_available = [], rp_in_use = [], rp_created_at = [], rp_last_used = [], rp_is_closed = False, rp_cleaned = [],
      rp_waiting = [], rp_woken = []\<rparr>"

datatype acquire_outcome =
    Acquired string
  | PoolClosed
  | AlreadyInUse string
  | AtMaxCapacity
  | AcquireTimeout real
  | MustWait

section \<open>Operations\<close>

definition remove_resource_metadata :: "string \<Rightarrow> 'r res_pool \<Rightarrow> 'r res_pool" where
  "remove_resource_metadata rid p =
     p\<lparr>rp_created_at := dict_pop rid (rp_created_at p), rp_last_used := dict_pop rid (rp_last_used p)\<rparr>"

definition clean_up :: "'r option \<Rightarrow> 'r res_pool \<Rightarrow> 'r res_pool" where
  "clean_up resource p =
     (case resource of
        None \<Rightarrow> p
      | Some r \<Rightarrow> if rp_truthy p r \<and> rp_has_cleanup p then p\<lparr>rp_cleaned := rp_cleaned p @ [r]\<rparr> else p)"

definition create_resource :: "real \<Rightarrow> 'r \<Rightarrow> string \<Rightarrow> 'r res_pool \<Rightarrow> acquire_outcome \<times> 'r res_pool" where
  "create_resource now made rid p =
     (Acquired rid,
      p\<lparr>rp_resources := dict_set rid made (rp_resources p), rp_created_at := dict_set rid now (rp_created_at p),
        rp_last_used := dict_set rid now (rp_last_used p), rp_in_use := List.insert rid (rp_in_use p)\<rparr>)"

definition acquire_specific :: "real \<Rightarrow> 'r \<Rightarrow> string \<Rightarrow> 'r res_pool \<Rightarrow> acquire_outcome \<times> 'r res_pool" where
  "acquire_specific now made rid p =
     (if rid \<in> set (rp_available p)
      then (Acquired rid,
            p\<lparr>rp_available := removeAll rid (rp_available p), rp_in_use := List.insert rid (rp_in_use p),
              rp_last_used := dict_set rid now (rp_last_used p)\<rparr>)
      else if rid \<in> set (rp_in_use p) then (AlreadyInUse rid, p)
      else if int (length (rp_resources p)) \<ge> rc_max_size (rp_config p) then (AtMaxCapacity, p)
      else create_resource now made rid p)"

definition try_take_validated :: "real \<Rightarrow> nat \<Rightarrow> 'r res_pool \<Rightarrow> string option \<times> 'r res_pool" where
  "try_take_validated now k p =
     (if rp_available p = [] then (None, p)
      else let rid = rp_available p ! (k mod length (rp_available p)); resource = dict_get (rp_resources p) rid;
               p1 = p\<lparr>rp_available := removeAll rid (rp_available p)\<rparr>
           in if (case resource of None \<Rightarrow> False | Some r \<Rightarrow> rp_truthy p r \<and> rp_validate p r)
              then (Some rid, p1\<lparr>rp_in_use := List.insert rid (rp_in_use p1), rp_last_used := dict_set rid now (rp_last_used p1)\<rparr>)
              else let p2 = clean_up resource (remove_resource_metadata rid p1)
                   in (None, p2\<lparr>rp_resources := dict_pop rid (rp_resources p2)\<rparr>))"

text \<open>One round of the loop of \<open>_acquire_any\<close>, up to its next wait.\<close>

definition acquire_any_round ::
  "real \<Rightarrow> nat \<Rightarrow> 'r \<Rightarrow> string \<Rightarrow> real \<Rightarrow> real \<Rightarrow> 'r res_pool \<Rightarrow> acquire_outcome \<times> 'r res_pool" where
  "acquire_any_round now k made fresh deadline timeout p =
     (case try_take_validated now k p of
        (Some rid, p1) \<Rightarrow> (Acquired rid, p1)
      | (None, p1) \<Rightarrow>
          if int (length (rp_resources p1)) < rc_max_size (rp_config p1) then create_resource now made fresh p1
          else if deadline - now \<le> 0 then (AcquireTimeout timeout, p1)
          else (MustWait, p1\<lparr>rp_waiting := rp_waiting p1 @ [(deadline, timeout)]\<rparr>))"

definition rp_acquire ::
  "real \<Rightarrow> nat \<Rightarrow> 'r \<Rightarrow> string \<Rightarrow> string option \<Rightarrow> real option \<Rightarrow> 'r res_pool \<Rightarrow> acquire_outcome \<times> 'r res_pool" where
  "rp_acquire now k made fresh resource_id timeout p =
     (let t = (case timeout of None \<Rightarrow> rc_acquire_timeout (rp_config p) | Some t \<Rightarrow> if t = 0 then rc_acquire_timeout (rp_config p) else t)
      in if rp_is_closed p then (PoolClosed, p)
         else case resource_id of
                Some rid \<Rightarrow> if rid \<noteq> [] then acquire_specific now made rid p else acquire_any_round now k made fresh (now + t) t p
              | None \<Rightarrow> acquire_any_round now k made fresh (now + t) t p)"

text \<open>The \<open>i\<close>-th woken call continues its loop.\<close>

definition rp_resume :: "real \<Rightarrow> nat \<Rightarrow> 'r \<Rightarrow> string \<Rightarrow> nat \<Rightarrow> 'r res_pool \<Rightarrow> acquire_outcome \<times> 'r res_pool" where
  "rp_resume now k made fresh i p =
     (if i \<ge> length (rp_woken p) then (MustWait, p)
      else let (deadline, timeout) = rp_woken p ! i
           in acquire_any_round now k made fresh deadline timeout (p\<lparr>rp_woken := take i (rp_woken p) @ drop (Suc i) (rp_woken p)\<rparr>))"

text \<open>The \<open>i\<close>-th waiting call gives up when its deadline has passed.\<close>

definition rp_expire :: "real \<Rightarrow> nat \<Rightarrow> 'r res_pool \<Rightarrow> acquire_outcome \<times> 'r res_pool" where
  "rp_expire now i p =
     (if i \<ge> length (rp_waiting p) \<or> now < fst (rp_waiting p ! i) then (MustWait, p)
      else (AcquireTimeout (snd (rp_waiting p ! i)), p\<lparr>rp_waiting := take i (rp_waiting p) @ drop (Suc i) (rp_waiting p)\<rparr>))"

definition notify :: "nat \<Rightarrow> 'r res_pool \<Rightarrow> 'r res_pool" where
  "notify n p = p\<lparr>rp_woken := rp_woken p @ take n (rp_waiting p), rp_waiting := drop n (rp_waiting p)\<rparr>"

definition rp_release :: "real \<Rightarrow> string \<Rightarrow> 'r res_pool \<Rightarrow> 'r res_pool" where
  "rp_release now rid p =
     (if rid \<notin> set (rp_in_use p) then p
      else notify 1 (p\<lparr>rp_in_use := removeAll rid (rp_in_use p), rp_available := List.insert rid (rp_available p),
                       rp_last_used := dict_set rid now (rp_last_used p)\<rparr>))"

definition rp_remove :: "string \<Rightarrow> 'r res_pool \<Rightarrow> 'r res_pool" where
  "rp_remove rid p =
     (let resource = dict_get (rp_resources p) rid
      in clean_up resource (remove_resource_metadata rid
           (p\<lparr>rp_available := removeAll rid (rp_available p), rp_in_use := removeAll rid (rp_in_use p),
              rp_resources := dict_pop rid (rp_resources p)\<rparr>)))"

definition rp_close :: "'r res_pool \<Rightarrow> 'r res_pool" where
  "rp_close p =
     (if rp_is_closed p then p
      else let p1 = foldl (\<lambda>p rid. rp_remove rid p) (p\<lparr>rp_is_closed := True\<rparr>) (dict_keys (rp_resources p))
           in notify (length (rp_waiting p1)) p1)"

definition rp_get_resource :: "string \<Rightarrow> 'r res_pool \<Rightarrow> 'r option" where
  "rp_get_resource rid p = dict_get (rp_resources p) rid"

definition rp_size :: "'r res_pool \<Rightarrow> int" where
  "rp_size p = int (length (rp_available p)) + int (length (rp_in_use p))"

section \<open>Invariant\<close>

text \<open>
  The ids of the pool are split into the available and the borrowed ones, the time stamps are kept for
  exactly these, and there are never more than \<open>max_size\<close>.
\<close>

definition res_pool_ok :: "'r res_pool \<Rightarrow> bool" where
  "res_pool_ok p \<longleftrightarrow> wf_dict (rp_resources p) \<and> distinct (rp_available p) \<and> distinct (rp_in_use p) \<and>
     set (rp_available p) \<inter> set (rp_in_use p) = {} \<and>
     set (dict_keys (rp_resources p)) = set (rp_available p) \<union> set (rp_in_use p) \<and>
     set (dict_keys (rp_created_at p)) = set (dict_keys (rp_resources p)) \<and>
     set (dict_keys (rp_last_used p)) = set (dict_keys (rp_resources p)) \<and>
     int (length (rp_resources p)) \<le> rc_max_size (rp_config p)"

lemma res_pool_okD:
  assumes "res_pool_ok p"
  shows "wf_dict (rp_resources p)" "distinct (rp_available p)" "distinct (rp_in_use p)"
    "set (rp_available p) \<inter> set (rp_in_use p) = {}" "set (dict_keys (rp_resources p)) = set (rp_available p) \<union> set (rp_in_use p)"
    "set (dict_keys (rp_created_at p)) = set (dict_keys (rp_resources p))" "set (dict_keys (rp_last_used p)) = set (dict_keys (rp_resources p))"
    "int (length (rp_resources p)) \<le> rc_max_size (rp_config p)"
  using assms unfolding res_pool_ok_def by blast+

lemma res_pool_ok_cong:
  "res_pool_ok p \<Longrightarrow> rp_config q = rp_config p \<Longrightarrow> rp_resources q = rp_resources p \<Longrightarrow> rp_available q = rp_available p \<Longrightarrow>
   rp_in_use q = rp_in_use p \<Longrightarrow> rp_created_at q = rp_created_at p \<Longrightarrow> rp_last_used q = rp_last_used p \<Longrightarrow> res_pool_ok q"
  unfolding res_pool_ok_def by simp

lemma size_is_resources: "res_pool_ok p \<Longrightarrow> rp_size p = int (length (rp_resources p))"
proof -
  assume ok: "res_pool_ok p"
  note d = res_pool_okD [OF ok]
  have "length (rp_resources p) = card (set (dict_keys (rp_resources p)))"
    using distinct_card [of "dict_keys (rp_resources p)"] d(1) by (simp only: wf_dict_def length_map)
  also have "\<dots> = card (set (rp_available p)) + card (set (rp_in_use p))"
    unfolding d(5) by (rule card_Un_disjoint) (use d(4) in auto)
  finally show ?thesis using d(2,3) by (simp add: rp_size_def distinct_card)
qed

lemma clean_up_fields [simp]:
  "rp_config (clean_up r p) = rp_config p" "rp_resources (clean_up r p) = rp_resources p" "rp_available (clean_up r p) = rp_available p"
  "rp_in_use (clean_up r p) = rp_in_use p" "rp_created_at (clean_up r p) = rp_created_at p" "rp_last_used (clean_up r p) = rp_last_used p"
  "rp_waiting (clean_up r p) = rp_waiting p" "rp_woken (clean_up r p) = rp_woken p" "rp_is_closed (clean_up r p) = rp_is_closed p"
  by (simp_all add: clean_up_def split: option.split)

lemma metadata_fields [simp]:
  "rp_config (remove_resource_metadata r p) = rp_config p" "rp_resources (remove_resource_metadata r p) = rp_resources p"
  "rp_available (remove_resource_metadata r p) = rp_available p" "rp_in_use (remove_resource_metadata r p) = rp_in_use p"
  "rp_created_at (remove_resource_metadata r p) = dict_pop r (rp_created_at p)"
  "rp_last_used (remove_resource_metadata r p) = dict_pop r (rp_last_used p)"
  "rp_waiting (remove_resource_metadata r p) = rp_waiting p" "rp_woken (remove_resource_metadata r p) = rp_woken p"
  "rp_is_closed (remove_resource_metadata r p) = rp_is_closed p"
  by (simp_all add: remove_resource_metadata_def)

lemma notify_fields [simp]:
  "rp_config (notify n p) = rp_config p" "rp_resources (notify n p) = rp_resources p" "rp_available (notify n p) = rp_available p"
  "rp_in_use (notify n p) = rp_in_use p" "rp_created_at (notify n p) = rp_created_at p" "rp_last_used (notify n p) = rp_last_used p"
  "rp_waiting (notify n p) = drop n (rp_waiting p)" "rp_woken (notify n p) = rp_woken p @ take n (rp_waiting p)"
  "rp_is_closed (notify n p) = rp_is_closed p"
  by (simp_all add: notify_def)

text \<open>The three ways an id changes its place: created for a borrower, borrowed, given back, dropped.\<close>

lemma create_ok:
  assumes "res_pool_ok p" and "rid \<notin> set (dict_keys (rp_resources p))" and "int (length (rp_resources p)) < rc_max_size (rp_config p)"
  shows "res_pool_ok (snd (create_resource now made rid p))"
  using assms unfolding res_pool_ok_def
  by (auto simp: create_resource_def dict_key_image length_dict_set List.insert_def)

lemma borrow_ok:
  assumes "res_pool_ok p" and "rid \<in> set (rp_available p)"
    and "rp_available q = removeAll rid (rp_available p)" and "rp_in_use q = List.insert rid (rp_in_use p)"
    and "rp_last_used q = dict_set rid now (rp_last_used p)" and "rp_created_at q = rp_created_at p"
    and "rp_resources q = rp_resources p" and "rp_config q = rp_config p"
  shows "res_pool_ok q"
  using assms unfolding res_pool_ok_def by (auto simp: dict_key_image distinct_removeAll)

lemma give_back_ok:
  assumes "res_pool_ok p" and "rid \<in> set (rp_in_use p)"
    and "rp_in_use q = removeAll rid (rp_in_use p)" and "rp_available q = List.insert rid (rp_available p)"
    and "rp_last_used q = dict_set rid now (rp_last_used p)" and "rp_created_at q = rp_created_at p"
    and "rp_resources q = rp_resources p" and "rp_config q = rp_config p"
  shows "res_pool_ok q"
  using assms unfolding res_pool_ok_def by (auto simp: dict_key_image distinct_removeAll)

lemma drop_ok:
  assumes "res_pool_ok p"
    and "rp_available q = removeAll rid (rp_available p)" and "rp_in_use q = removeAll rid (rp_in_use p)"
    and "rp_last_used q = dict_pop rid (rp_last_used p)" and "rp_created_at q = dict_pop rid (rp_created_at p)"
    and "rp_resources q = dict_pop rid (rp_resources p)" and "rp_config q = rp_config p"
  shows "res_pool_ok q"
proof -
  note d = res_pool_okD [OF assms(1)]
  have "int (length (rp_resources q)) \<le> rc_max_size (rp_config q)"
    using d(1,8) length_dict_pop [OF d(1), of rid] by (simp add: assms(6,7) split: if_splits)
  then show ?thesis
    using d unfolding res_pool_ok_def assms(2-6) by (auto simp: dict_key_image distinct_removeAll)
qed

section \<open>Every operation keeps it\<close>

lemma try_take_cases:
  assumes "try_take_validated now k p = (r, q)" and "res_pool_ok p"
  obtains (empty) "rp_available p = []" "r = None" "q = p"
    | (taken) rid where "r = Some rid" "rid \<in> set (rp_available p)" "res_pool_ok q" "rp_available q = removeAll rid (rp_available p)"
      "rp_in_use q = List.insert rid (rp_in_use p)" "rp_resources q = rp_resources p" "rp_waiting q = rp_waiting p"
      "rp_woken q = rp_woken p" "rp_config q = rp_config p"
    | (dropped) rid where "r = None" "rid \<in> set (rp_available p)" "res_pool_ok q" "rp_available q = removeAll rid (rp_available p)"
      "rp_in_use q = rp_in_use p" "rp_resources q = dict_pop rid (rp_resources p)" "rp_waiting q = rp_waiting p"
      "rp_woken q = rp_woken p" "rp_config q = rp_config p"
proof (cases "rp_available p = []")
  case True
  then have "try_take_validated now k p = (None, p)" by (simp add: try_take_validated_def)
  then have "r = None" "q = p" using assms(1) by simp_all
  then show ?thesis by (rule empty [OF True])
next
  case False
  define rid where "rid = rp_available p ! (k mod length (rp_available p))"
  have mem: "rid \<in> set (rp_available p)" using False by (simp add: rid_def)
  then have out: "rid \<notin> set (rp_in_use p)" using res_pool_okD(4) [OF assms(2)] by blast
  let ?ok = "case dict_get (rp_resources p) rid of None \<Rightarrow> False | Some r \<Rightarrow> rp_truthy p r \<and> rp_validate p r"
  let ?p1 = "p\<lparr>rp_available := removeAll rid (rp_available p)\<rparr>"
  let ?p2 = "clean_up (dict_get (rp_resources p) rid) (remove_resource_metadata rid ?p1)"
  have eq: "try_take_validated now k p =
      (if ?ok then (Some rid, ?p1\<lparr>rp_in_use := List.insert rid (rp_in_use p), rp_last_used := dict_set rid now (rp_last_used p)\<rparr>)
       else (None, ?p2\<lparr>rp_resources := dict_pop rid (rp_resources p)\<rparr>))"
    unfolding try_take_validated_def Let_def rid_def using False by simp
  show ?thesis
  proof (cases ?ok)
    case True
    have q: "r = Some rid" "q = ?p1\<lparr>rp_in_use := List.insert rid (rp_in_use p), rp_last_used := dict_set rid now (rp_last_used p)\<rparr>"
      using assms(1) unfolding eq if_P [OF True] by blast+
    have ok: "res_pool_ok q" by (rule borrow_ok [OF assms(2) mem, where now = now]) (simp_all add: q(2))
    show ?thesis by (rule taken [OF q(1) mem ok]) (simp_all add: q(2))
  next
    case bad: False
    have q: "r = None" "q = ?p2\<lparr>rp_resources := dict_pop rid (rp_resources p)\<rparr>"
      using assms(1) unfolding eq if_not_P [OF bad] by blast+
    have ok: "res_pool_ok q" by (rule drop_ok [OF assms(2), where rid = rid]) (simp_all add: q(2) removeAll_id [OF out])
    show ?thesis by (rule dropped [OF q(1) mem ok]) (simp_all add: q(2))
  qed
qed

lemma round_ok:
  assumes "res_pool_ok p" and "fresh \<notin> set (dict_keys (rp_resources p))"
    and "acquire_any_round now k made fresh deadline timeout p = (out, q)"
  shows "res_pool_ok q \<and> (\<forall>rid. out = Acquired rid \<longrightarrow> rid \<notin> set (rp_in_use p) \<and> rid \<in> set (rp_in_use q)) \<and> rp_config q = rp_config p"
proof -
  obtain r p1 where t: "try_take_validated now k p = (r, p1)" by fastforce
  have ids: "rid \<in> set (rp_available p) \<Longrightarrow> rid \<notin> set (rp_in_use p)" for rid using res_pool_okD(4) [OF assms(1)] by blast
  have inuse: "fresh \<notin> set (rp_in_use p)" using assms(2) res_pool_okD(5) [OF assms(1)] by blast
  have new: "res_pool_ok q \<and> (\<forall>rid. out = Acquired rid \<longrightarrow> rid \<notin> set (rp_in_use p) \<and> rid \<in> set (rp_in_use q)) \<and> rp_config q = rp_config p"
    if "r = None" "res_pool_ok p1" "fresh \<notin> set (dict_keys (rp_resources p1))" "rp_config p1 = rp_config p"
    using assms(3) that(1,4) t inuse create_ok [OF that(2,3), of now made] res_pool_ok_cong [OF that(2)]
    by (auto simp: acquire_any_round_def create_resource_def split: if_splits)
  show ?thesis
  proof (cases rule: try_take_cases [OF t assms(1)])
    case 1
    then show ?thesis using new assms(1,2) by simp
  next
    case (2 rid)
    then show ?thesis using assms(3) t ids by (auto simp: acquire_any_round_def)
  next
    case (3 rid)
    then have "fresh \<notin> set (dict_keys (rp_resources p1))" using assms(2) by (auto simp: dict_key_image)
    then show ?thesis using new 3 by simp
  qed
qed

lemma specific_ok:
  assumes "res_pool_ok p" and "acquire_specific now made rid p = (out, q)"
  shows "res_pool_ok q \<and> (\<forall>rid. out = Acquired rid \<longrightarrow> rid \<notin> set (rp_in_use p) \<and> rid \<in> set (rp_in_use q)) \<and> rp_config q = rp_config p"
proof (cases "rid \<in> set (rp_available p)")
  case True
  then have "res_pool_ok q" "rid \<notin> set (rp_in_use p)"
    using borrow_ok [OF assms(1) True, where q = q] assms(2) res_pool_okD(4) [OF assms(1)] by (auto simp: acquire_specific_def)
  then show ?thesis using True assms(2) by (auto simp: acquire_specific_def)
next
  case False
  then show ?thesis
    using assms create_ok [OF assms(1), of rid] res_pool_okD(5) [OF assms(1)]
    by (auto simp: acquire_specific_def create_resource_def split: if_splits)
qed

lemma acquire_ok:
  assumes "res_pool_ok p" and "fresh \<notin> set (dict_keys (rp_resources p))" and "rp_acquire now k made fresh resource_id timeout p = (out, q)"
  shows "res_pool_ok q \<and> (\<forall>rid. out = Acquired rid \<longrightarrow> rid \<notin> set (rp_in_use p) \<and> rid \<in> set (rp_in_use q)) \<and> rp_config q = rp_config p"
  using assms(3) round_ok [OF assms(1,2)] specific_ok [OF assms(1)] assms(1)
  by (auto simp: rp_acquire_def Let_def split: if_splits option.splits)

lemma resume_ok:
  assumes "res_pool_ok p" and "fresh \<notin> set (dict_keys (rp_resources p))" and "rp_resume now k made fresh i p = (out, q)"
  shows "res_pool_ok q \<and> (\<forall>rid. out = Acquired rid \<longrightarrow> rid \<notin> set (rp_in_use p) \<and> rid \<in> set (rp_in_use q)) \<and> rp_config q = rp_config p"
proof -
  let ?p = "p\<lparr>rp_woken := take i (rp_woken p) @ drop (Suc i) (rp_woken p)\<rparr>"
  have "res_pool_ok ?p" by (rule res_pool_ok_cong [OF assms(1)]) simp_all
  from round_ok [OF this, of fresh] show ?thesis
    using assms by (auto simp: rp_resume_def split: if_splits prod.splits)
qed

lemma pool_release_ok: "res_pool_ok p \<Longrightarrow> res_pool_ok (rp_release now rid p)"
  by (cases "rid \<in> set (rp_in_use p)") (auto simp: rp_release_def intro: give_back_ok)

lemma remove_ok: "res_pool_ok p \<Longrightarrow> res_pool_ok (rp_remove rid p)"
  by (rule drop_ok) (simp_all add: rp_remove_def)

lemma remove_fields [simp]: "rp_config (rp_remove rid p) = rp_config p" "rp_waiting (rp_remove rid p) = rp_waiting p"
  "rp_woken (rp_remove rid p) = rp_woken p" "rp_resources (rp_remove rid p) = dict_pop rid (rp_resources p)"
  by (simp_all add: rp_remove_def)

lemma remove_all:
  "res_pool_ok p \<Longrightarrow> res_pool_ok (foldl (\<lambda>p rid. rp_remove rid p) p rids) \<and> rp_config (foldl (\<lambda>p rid. rp_remove rid p) p rids) = rp_config p \<and>
   rp_waiting (foldl (\<lambda>p rid. rp_remove rid p) p rids) = rp_waiting p \<and> rp_woken (foldl (\<lambda>p rid. rp_remove rid p) p rids) = rp_woken p \<and>
   set (dict_keys (rp_resources (foldl (\<lambda>p rid. rp_remove rid p) p rids))) = set (dict_keys (rp_resources p)) - set rids"
  by (induction rids arbitrary: p) (auto simp: remove_ok dict_key_image)

lemma close_ok:
  assumes "res_pool_ok p"
  shows "res_pool_ok (rp_close p) \<and> rp_config (rp_close p) = rp_config p \<and> (\<not> rp_is_closed p \<longrightarrow> rp_waiting (rp_close p) = [])"
proof (cases "rp_is_closed p")
  case False
  define q where "q = foldl (\<lambda>p rid. rp_remove rid p) (p\<lparr>rp_is_closed := True\<rparr>) (dict_keys (rp_resources p))"
  have "res_pool_ok (p\<lparr>rp_is_closed := True\<rparr>)" by (rule res_pool_ok_cong [OF assms]) simp_all
  from remove_all [OF this, of "dict_keys (rp_resources p)"] have "res_pool_ok q" "rp_config q = rp_config p" by (simp_all add: q_def)
  then have "res_pool_ok (notify (length (rp_waiting q)) q)" by (auto intro: res_pool_ok_cong)
  then show ?thesis using False \<open>rp_config q = rp_config p\<close> by (simp add: rp_close_def Let_def flip: q_def)
qed (use assms in \<open>simp add: rp_close_def\<close>)

section \<open>Wake-ups\<close>

text \<open>
  While calls wait, the pool is full and for every available resource a woken call is on its way.
  Only \<open>remove\<close> breaks this, because it frees a place without notifying.
\<close>

definition wakeups :: "nat \<Rightarrow> 'r res_pool \<Rightarrow> bool" where
  "wakeups extra p \<longleftrightarrow> (rp_waiting p \<noteq> [] \<longrightarrow>
     length (rp_available p) \<le> length (rp_woken p) + extra \<and> int (length (rp_resources p)) = rc_max_size (rp_config p))"

lemma length_removeAll_distinct: "distinct xs \<Longrightarrow> x \<in> set xs \<Longrightarrow> Suc (length (removeAll x xs)) = length xs"
  by (simp add: distinct_remove1_removeAll [symmetric] length_remove1) (metis Suc_pred length_pos_if_in_set One_nat_def)

lemma create_fields:
  "rp_waiting (snd (create_resource now made rid p)) = rp_waiting p" "rp_woken (snd (create_resource now made rid p)) = rp_woken p"
  "rp_available (snd (create_resource now made rid p)) = rp_available p" "rp_config (snd (create_resource now made rid p)) = rp_config p"
  "rid \<notin> set (dict_keys (rp_resources p)) \<Longrightarrow> length (rp_resources (snd (create_resource now made rid p))) = Suc (length (rp_resources p))"
  by (simp_all add: create_resource_def length_dict_set)

lemma round_wakeups:
  assumes "res_pool_ok p" and "fresh \<notin> set (dict_keys (rp_resources p))" and "wakeups 1 p"
    and "acquire_any_round now k made fresh deadline timeout p = (out, q)"
  shows "wakeups 0 q"
proof -
  obtain r p1 where t: "try_take_validated now k p = (r, p1)" by fastforce
  show ?thesis
  proof (cases rule: try_take_cases [OF t assms(1)])
    case 1
    then show ?thesis
      using assms(3,4) t res_pool_okD(8) [OF assms(1)] create_fields [where now = now and made = made and rid = fresh and p = p]
      by (auto simp: acquire_any_round_def wakeups_def split: if_splits)
  next
    case (2 rid)
    then show ?thesis
      using assms(3,4) t length_removeAll_distinct [OF res_pool_okD(2) [OF assms(1)], of rid]
      by (auto simp: acquire_any_round_def wakeups_def)
  next
    case (3 rid)
    have "rid \<in> set (dict_keys (rp_resources p))" using 3(2) res_pool_okD(5) [OF assms(1)] by blast
    then have len: "Suc (length (rp_resources p1)) = length (rp_resources p)"
      using length_dict_pop [OF res_pool_okD(1) [OF assms(1)], of rid] 3(6) by (cases "rp_resources p") auto
    have "fresh \<notin> set (dict_keys (rp_resources p1))" using assms(2) 3(6) by (auto simp: dict_key_image)
    moreover have "int (length (rp_resources p1)) < rc_max_size (rp_config p1)" using len res_pool_okD(8) [OF assms(1)] 3(9) by simp
    ultimately show ?thesis
      using assms(3,4) t 3 len create_fields [where now = now and made = made and rid = fresh and p = p1] length_removeAll_distinct [OF res_pool_okD(2) [OF assms(1)], of rid]
      by (auto simp: acquire_any_round_def wakeups_def)
  qed
qed

lemma wakeups_mono: "wakeups 0 p \<Longrightarrow> wakeups 1 p"
  by (auto simp: wakeups_def)

lemma specific_wakeups:
  assumes "res_pool_ok p" and "wakeups 0 p" and "acquire_specific now made rid p = (out, q)"
  shows "wakeups 0 q"
  using assms(2,3) length_removeAll_distinct [OF res_pool_okD(2) [OF assms(1)], of rid] create_fields [where now = now and made = made and rid = rid and p = p]
  by (auto simp: acquire_specific_def wakeups_def split: if_splits)

section \<open>Runs\<close>

datatype 'r res_event =
    Acquire real nat 'r string "string option" "real option"
  | Resume real nat 'r string nat
  | Expire real nat
  | Release real string
  | Remove string
  | Close

fun res_step :: "'r res_pool \<Rightarrow> 'r res_event \<Rightarrow> 'r res_pool" where
  "res_step p (Acquire now k made fresh resource_id timeout) = snd (rp_acquire now k made fresh resource_id timeout p)"
| "res_step p (Resume now k made fresh i) = snd (rp_resume now k made fresh i p)"
| "res_step p (Expire now i) = snd (rp_expire now i p)"
| "res_step p (Release now rid) = rp_release now rid p"
| "res_step p (Remove rid) = rp_remove rid p"
| "res_step p Close = rp_close p"

text \<open>A generated id is not the id of a resource of the pool.\<close>

fun fresh_id :: "'r res_pool \<Rightarrow> 'r res_event \<Rightarrow> bool" where
  "fresh_id p (Acquire now k made fresh resource_id timeout) \<longleftrightarrow> fresh \<notin> set (dict_keys (rp_resources p))"
| "fresh_id p (Resume now k made fresh i) \<longleftrightarrow> fresh \<notin> set (dict_keys (rp_resources p))"
| "fresh_id p _ \<longleftrightarrow> True"

inductive res_run :: "'r res_pool \<Rightarrow> 'r res_event list \<Rightarrow> 'r res_pool \<Rightarrow> bool" for p where
  start: "res_run p [] p"
| step: "res_run p evs q \<Longrightarrow> fresh_id q ev \<Longrightarrow> res_run p (evs @ [ev]) (res_step q ev)"

inductive_cases res_run_snocE: "res_run p (evs @ [ev]) q"

lemma res_step_ok:
  assumes "res_pool_ok p" and "fresh_id p ev"
  shows "res_pool_ok (res_step p ev) \<and> rp_config (res_step p ev) = rp_config p"
proof (cases ev)
  case (Expire now i)
  have "res_pool_ok (p\<lparr>rp_waiting := ws\<rparr>)" for ws by (rule res_pool_ok_cong [OF assms(1)]) simp_all
  then show ?thesis using assms(1) by (simp add: Expire rp_expire_def)
qed (use assms acquire_ok [OF assms(1) _ prod.collapse [symmetric]] resume_ok [OF assms(1) _ prod.collapse [symmetric]]
      pool_release_ok [OF assms(1)] remove_ok [OF assms(1)] close_ok [OF assms(1)] in \<open>auto simp: rp_release_def\<close>)

lemma res_step_wakeups:
  assumes "res_pool_ok p" and "fresh_id p ev" and "wakeups 0 p" and "\<nexists>rid. ev = Remove rid"
  shows "wakeups 0 (res_step p ev)"
proof (cases ev)
  case (Acquire now k made fresh resource_id timeout)
  have "fresh \<notin> set (dict_keys (rp_resources p))" using assms(2) by (simp add: Acquire)
  note round = round_wakeups [OF assms(1) this wakeups_mono [OF assms(3)] prod.collapse [symmetric]]
    and specific = specific_wakeups [OF assms(1,3) prod.collapse [symmetric]]
  show ?thesis
    using assms(3) round specific by (auto simp: Acquire rp_acquire_def Let_def split: option.splits)
next
  case (Resume now k made fresh i)
  show ?thesis
  proof (cases "i < length (rp_woken p)")
    case True
    let ?p = "p\<lparr>rp_woken := take i (rp_woken p) @ drop (Suc i) (rp_woken p)\<rparr>"
    obtain deadline timeout where w: "rp_woken p ! i = (deadline, timeout)" by fastforce
    have "res_pool_ok ?p" by (rule res_pool_ok_cong [OF assms(1)]) simp_all
    moreover have "wakeups 1 ?p" using assms(3) True by (auto simp: wakeups_def)
    moreover have "fresh \<notin> set (dict_keys (rp_resources ?p))" using assms(2) by (simp add: Resume)
    ultimately have "wakeups 0 (snd (acquire_any_round now k made fresh deadline timeout ?p))"
      using round_wakeups [of ?p fresh now k made deadline timeout] by (metis prod.collapse)
    then show ?thesis using True w by (simp add: Resume rp_resume_def)
  qed (use assms(3) in \<open>simp add: Resume rp_resume_def\<close>)
next
  case (Expire now i)
  then show ?thesis using assms(3) by (auto simp: rp_expire_def wakeups_def)
next
  case (Release now rid)
  have "rid \<in> set (rp_in_use p) \<Longrightarrow> rid \<notin> set (rp_available p)" using res_pool_okD(4) [OF assms(1)] by blast
  then show ?thesis using assms(3) by (cases "rp_waiting p") (auto simp: Release rp_release_def wakeups_def List.insert_def)
next
  case Close
  then show ?thesis using assms(3) close_ok [OF assms(1)] by (cases "rp_is_closed p") (auto simp: wakeups_def rp_close_def)
qed (use assms(4) in simp)

lemma res_run_ok:
  assumes "res_run p evs q" and "res_pool_ok p" and "wakeups 0 p"
  shows "res_pool_ok q \<and> rp_config q = rp_config p \<and> ((\<nexists>rid. Remove rid \<in> set evs) \<longrightarrow> wakeups 0 q)"
  using assms
proof induction
  case (step evs q ev)
  then show ?case using res_step_ok [of q ev] res_step_wakeups [of q ev] by auto
qed simp

lemma res_pool_init_ok:
  "res_config_init c = Inr cfg \<Longrightarrow> res_pool_ok (res_pool_init cfg v t cl) \<and> wakeups 0 (res_pool_init cfg v t cl)"
  by (auto simp: res_pool_init_def res_config_init_def res_pool_ok_def wakeups_def split: if_splits)


lemma res_run_steps:
  "res_run p evs q \<Longrightarrow> fresh_id q ev \<Longrightarrow> evs' = evs @ [ev] \<Longrightarrow> q' = res_step q ev \<Longrightarrow> res_run p evs' q'"
  by (simp add: res_run.step)

lemmas res_pool_eval = res_pool_init_def rp_acquire_def rp_resume_def rp_release_def rp_remove_def rp_close_def acquire_any_round_def
  acquire_specific_def try_take_validated_def create_resource_def clean_up_def remove_resource_metadata_def notify_def
  default_res_config_def res_config_init_def Let_def

text \<open>A pool of one place: borrowed, a second call waits, and the release wakes it.\<close>

definition one_place :: "nat res_pool" where
  "one_place = res_pool_init (default_res_config\<lparr>rc_max_size := 1\<rparr>) (\<lambda>r. True) (\<lambda>r. True) True"

definition waiting_events :: "nat res_event list" where
  "waiting_events = [Acquire 0 0 7 ''a'' None None, Acquire 1 0 8 ''b'' None None]"

definition waiting_pool :: "nat res_pool" where
  "waiting_pool = one_place\<lparr>rp_resources := [(''a'', 7)], rp_created_at := [(''a'', 0)], rp_last_used := [(''a'', 0)], rp_in_use := [''a''],
     rp_waiting := [(31, 30)]\<rparr>"

lemma waiting_run: "res_run one_place waiting_events waiting_pool"
proof -
  have "res_run one_place [Acquire 0 0 7 ''a'' None None] (res_step one_place (Acquire 0 0 7 ''a'' None None))"
    by (rule res_run_steps [OF res_run.start, where ev = "Acquire 0 0 7 ''a'' None None"]) (simp_all add: one_place_def res_pool_eval)
  then show ?thesis
    by (rule res_run_steps [where ev = "Acquire 1 0 8 ''b'' None None"])
      (simp_all add: one_place_def waiting_events_def waiting_pool_def res_pool_eval)
qed


section \<open>Two gaps\<close>

text \<open>
  \<open>remove\<close> frees a place of the full pool and notifies nobody: the call stays asleep beside an empty pool
  until its timeout, while a call that comes later is served at once.
\<close>

lemma remove_strands_waiter:
  "\<exists>p. res_run one_place (waiting_events @ [Remove ''a'']) p \<and> rp_waiting p = [(31, 30)] \<and> rp_woken p = [] \<and>
     rp_size p = 0 \<and> fst (rp_expire 31 0 p) = AcquireTimeout 30 \<and> fst (rp_acquire 2 0 9 ''c'' None None p) = Acquired ''c''"
proof (intro exI conjI)
  show "res_run one_place (waiting_events @ [Remove ''a'']) (rp_remove ''a'' waiting_pool)"
    by (rule res_run_steps [OF waiting_run, where ev = "Remove ''a''"]) simp_all
qed (simp_all add: waiting_pool_def one_place_def res_pool_eval rp_size_def rp_expire_def)

text \<open>
  \<open>close\<close> wakes the waiting calls, and their loop does not look at \<open>_is_closed\<close> again: the woken call
  creates a resource in the closed pool, and closing again does not clean it up.
\<close>

lemma woken_call_creates_in_closed_pool:
  "let p = snd (rp_resume 2 0 8 ''b'' 0 (rp_close waiting_pool))
   in rp_is_closed p \<and> rp_resources p = [(''b'', 8)] \<and> rp_close p = p \<and> rp_cleaned p = [7]"
  by (simp add: waiting_pool_def one_place_def res_pool_eval)

end
