(* ===== verification/SandboxStates.thy ===== *)
theory SandboxStates
  imports Prelude
begin

text \<open>
  The two lifecycle machines of a sandbox. \<open>state_machine.py\<close> has ten states; \<open>simplified_state_machine.py\<close>
  has four and converts from and to the statuses of the entity in \<open>project_sandbox.py\<close>, an enumeration of
  its own with the ten old values and \<open>starting\<close>. The prefix tells the enumerations apart: no prefix for the
  ten-state machine, \<open>Ps\<close> for the entity and \<open>Ss\<close> for the simplified machine. Members of the first two
  with the same value name the same status. A frozen set of transitions is a list without repetitions.
\<close>

section \<open>The ten-state machine\<close>

datatype sandbox_status =
    PENDING | CREATING | RUNNING | UNHEALTHY | STOPPED
  | TERMINATED | ERROR | CONNECTING | DISCONNECTED | ORPHAN

fun sm_value :: "sandbox_status \<Rightarrow> string" where
  "sm_value s = (case s of
     PENDING \<Rightarrow> ''pending''
   | CREATING \<Rightarrow> ''creating''
   | RUNNING \<Rightarrow> ''running''
   | UNHEALTHY \<Rightarrow> ''unhealthy''
   | STOPPED \<Rightarrow> ''stopped''
   | TERMINATED \<Rightarrow> ''terminated''
   | ERROR \<Rightarrow> ''error''
   | CONNECTING \<Rightarrow> ''connecting''
   | DISCONNECTED \<Rightarrow> ''disconnected''
   | ORPHAN \<Rightarrow> ''orphan'')"

text \<open>The message of \<open>InvalidStateTransitionError\<close> and its fields.\<close>

record 's transition_failure =
  tf_from_status :: 's
  tf_to_status :: 's
  tf_sandbox_id :: "string option"
  tf_message :: string

definition transition_message :: "string \<Rightarrow> string \<Rightarrow> string option \<Rightarrow> string" where
  "transition_message old new sandbox_id =
     ''Invalid state transition from '' @ old @ '' to '' @ new @
     (case sandbox_id of None \<Rightarrow> [] | Some i \<Rightarrow> if i = [] then [] else '' for sandbox '' @ i)"

definition sm_VALID_TRANSITIONS :: "(sandbox_status \<times> sandbox_status \<times> string) list" where
  "sm_VALID_TRANSITIONS =
     [(PENDING, CREATING, ''Start sandbox creation''),
      (CREATING, RUNNING, ''Sandbox created successfully''),
      (RUNNING, UNHEALTHY, ''Health check failed''),
      (RUNNING, STOPPED, ''Sandbox stopped''),
      (RUNNING, TERMINATED, ''Sandbox terminated''),
      (UNHEALTHY, RUNNING, ''Recovery succeeded''),
      (UNHEALTHY, STOPPED, ''Sandbox stopped while unhealthy''),
      (UNHEALTHY, TERMINATED, ''Unhealthy sandbox terminated''),
      (STOPPED, CREATING, ''Restart stopped sandbox''),
      (STOPPED, TERMINATED, ''Stopped sandbox terminated''),
      (PENDING, ERROR, ''Creation request failed''),
      (CREATING, ERROR, ''Creation process failed''),
      (RUNNING, ERROR, ''Runtime error occurred''),
      (UNHEALTHY, ERROR, ''Recovery failed''),
      (ERROR, CREATING, ''Retry after error''),
      (ERROR, TERMINATED, ''Error sandbox terminated''),
      (PENDING, CONNECTING, ''Start local sandbox connection''),
      (CONNECTING, RUNNING, ''Local sandbox connected''),
      (CONNECTING, DISCONNECTED, ''Connection attempt failed''),
      (CONNECTING, ERROR, ''Connection error''),
      (RUNNING, DISCONNECTED, ''Local sandbox disconnected''),
      (DISCONNECTED, CONNECTING, ''Reconnection attempt''),
      (DISCONNECTED, TERMINATED, ''Disconnected sandbox terminated''),
      (ORPHAN, RUNNING, ''Orphan adopted and running''),
      (ORPHAN, TERMINATED, ''Orphan terminated''),
      (ORPHAN, UNHEALTHY, ''Orphan adopted but unhealthy'')]"

definition sm_TERMINAL_STATES :: "sandbox_status list" where
  "sm_TERMINAL_STATES = [TERMINATED]"

definition sm_USABLE_STATES :: "sandbox_status list" where
  "sm_USABLE_STATES = [RUNNING]"

definition sm_ACTIVE_STATES :: "sandbox_status list" where
  "sm_ACTIVE_STATES = [RUNNING, CREATING, CONNECTING, UNHEALTHY]"

definition sm_RECOVERABLE_STATES :: "sandbox_status list" where
  "sm_RECOVERABLE_STATES = [UNHEALTHY, STOPPED, ERROR, DISCONNECTED]"

text \<open>The lookup table a machine builds from its transitions.\<close>

definition add_transition :: "('s, 's list) dict \<Rightarrow> 's \<times> 's \<times> string \<Rightarrow> ('s, 's list) dict" where
  "add_transition m tr =
     (let (old, new, _) = tr; m1 = (if dict_get m old = None then dict_set old [] m else m)
      in dict_set old (List.insert new (dict_get_default m1 old [])) m1)"

definition sm_transition_map :: "(sandbox_status, sandbox_status list) dict" where
  "sm_transition_map = foldl add_transition [] sm_VALID_TRANSITIONS"

definition sm_can_transition :: "sandbox_status \<Rightarrow> sandbox_status \<Rightarrow> bool" where
  "sm_can_transition old new =
     (if old = new then True
      else if old \<in> set sm_TERMINAL_STATES then False
      else new \<in> set (dict_get_default sm_transition_map old []))"

definition sm_transition ::
  "string option \<Rightarrow> sandbox_status \<Rightarrow> sandbox_status \<Rightarrow> sandbox_status transition_failure + sandbox_status" where
  "sm_transition sandbox_id old new =
     (if \<not> sm_can_transition old new
      then Inl \<lparr>tf_from_status = old, tf_to_status = new, tf_sandbox_id = sandbox_id,
                tf_message = transition_message (sm_value old) (sm_value new) sandbox_id\<rparr>
      else Inr new)"

definition sm_get_valid_transitions :: "sandbox_status \<Rightarrow> sandbox_status list" where
  "sm_get_valid_transitions old =
     (if old \<in> set sm_TERMINAL_STATES then [] else dict_get_default sm_transition_map old [])"

definition sm_is_usable :: "sandbox_status \<Rightarrow> bool" where
  "sm_is_usable s \<longleftrightarrow> s \<in> set sm_USABLE_STATES"

definition sm_is_active :: "sandbox_status \<Rightarrow> bool" where
  "sm_is_active s \<longleftrightarrow> s \<in> set sm_ACTIVE_STATES"

definition sm_is_terminal :: "sandbox_status \<Rightarrow> bool" where
  "sm_is_terminal s \<longleftrightarrow> s \<in> set sm_TERMINAL_STATES"

definition sm_is_recoverable :: "sandbox_status \<Rightarrow> bool" where
  "sm_is_recoverable s \<longleftrightarrow> s \<in> set sm_RECOVERABLE_STATES"

definition sm_get_transition_description :: "sandbox_status \<Rightarrow> sandbox_status \<Rightarrow> string option" where
  "sm_get_transition_description old new =
     map_option (snd \<circ> snd) (find (\<lambda>(a, b, _). a = old \<and> b = new) sm_VALID_TRANSITIONS)"

definition validate_transition ::
  "sandbox_status \<Rightarrow> sandbox_status \<Rightarrow> string option \<Rightarrow> sandbox_status transition_failure + sandbox_status" where
  "validate_transition old new sandbox_id = sm_transition sandbox_id old new"

section \<open>The statuses of the entity\<close>

datatype project_sandbox_status =
    PsSTARTING | PsRUNNING | PsERROR | PsTERMINATED
  | PsPENDING | PsCREATING | PsUNHEALTHY | PsSTOPPED | PsCONNECTING | PsDISCONNECTED | PsORPHAN

fun ps_value :: "project_sandbox_status \<Rightarrow> string" where
  "ps_value s = (case s of
     PsSTARTING \<Rightarrow> ''starting''
   | PsRUNNING \<Rightarrow> ''running''
   | PsERROR \<Rightarrow> ''error''
   | PsTERMINATED \<Rightarrow> ''terminated''
   | PsPENDING \<Rightarrow> ''pending''
   | PsCREATING \<Rightarrow> ''creating''
   | PsUNHEALTHY \<Rightarrow> ''unhealthy''
   | PsSTOPPED \<Rightarrow> ''stopped''
   | PsCONNECTING \<Rightarrow> ''connecting''
   | PsDISCONNECTED \<Rightarrow> ''disconnected''
   | PsORPHAN \<Rightarrow> ''orphan'')"

section \<open>The simplified machine\<close>

datatype simplified_state = SsSTARTING | SsRUNNING | SsERROR | SsTERMINATED

fun ss_value :: "simplified_state \<Rightarrow> string" where
  "ss_value s = (case s of SsSTARTING \<Rightarrow> ''starting'' | SsRUNNING \<Rightarrow> ''running'' | SsERROR \<Rightarrow> ''error'' | SsTERMINATED \<Rightarrow> ''terminated'')"

definition ss_VALID_TRANSITIONS :: "(simplified_state \<times> simplified_state \<times> string) list" where
  "ss_VALID_TRANSITIONS =
     [(SsSTARTING, SsRUNNING, ''Sandbox started successfully''),
      (SsSTARTING, SsERROR, ''Sandbox start failed''),
      (SsRUNNING, SsERROR, ''Runtime error or health check failed''),
      (SsRUNNING, SsTERMINATED, ''Sandbox terminated''),
      (SsERROR, SsSTARTING, ''Retrying after error''),
      (SsERROR, SsTERMINATED, ''Error sandbox terminated'')]"

definition ss_TERMINAL_STATES :: "simplified_state list" where
  "ss_TERMINAL_STATES = [SsTERMINATED]"

definition ss_USABLE_STATES :: "simplified_state list" where
  "ss_USABLE_STATES = [SsRUNNING]"

definition ss_ACTIVE_STATES :: "simplified_state list" where
  "ss_ACTIVE_STATES = [SsSTARTING, SsRUNNING]"

definition ss_RECOVERABLE_STATES :: "simplified_state list" where
  "ss_RECOVERABLE_STATES = [SsERROR]"

definition ss_transition_map :: "(simplified_state, simplified_state list) dict" where
  "ss_transition_map = foldl add_transition [] ss_VALID_TRANSITIONS"

definition ss_can_transition :: "simplified_state \<Rightarrow> simplified_state \<Rightarrow> bool" where
  "ss_can_transition old new =
     (if old = new then True
      else if old \<in> set ss_TERMINAL_STATES then False
      else new \<in> set (dict_get_default ss_transition_map old []))"

definition ss_transition ::
  "string option \<Rightarrow> simplified_state \<Rightarrow> simplified_state \<Rightarrow> simplified_state transition_failure + simplified_state" where
  "ss_transition sandbox_id old new =
     (if \<not> ss_can_transition old new
      then Inl \<lparr>tf_from_status = old, tf_to_status = new, tf_sandbox_id = sandbox_id,
                tf_message = transition_message (ss_value old) (ss_value new) sandbox_id\<rparr>
      else Inr new)"

definition ss_get_valid_transitions :: "simplified_state \<Rightarrow> simplified_state list" where
  "ss_get_valid_transitions old =
     (if old \<in> set ss_TERMINAL_STATES then [] else dict_get_default ss_transition_map old [])"

definition ss_is_usable :: "simplified_state \<Rightarrow> bool" where
  "ss_is_usable s \<longleftrightarrow> s \<in> set ss_USABLE_STATES"

definition ss_is_active :: "simplified_state \<Rightarrow> bool" where
  "ss_is_active s \<longleftrightarrow> s \<in> set ss_ACTIVE_STATES"

definition ss_is_terminal :: "simplified_state \<Rightarrow> bool" where
  "ss_is_terminal s \<longleftrightarrow> s \<in> set ss_TERMINAL_STATES"

definition ss_is_recoverable :: "simplified_state \<Rightarrow> bool" where
  "ss_is_recoverable s \<longleftrightarrow> s \<in> set ss_RECOVERABLE_STATES"

definition ss_get_transition_description :: "simplified_state \<Rightarrow> simplified_state \<Rightarrow> string option" where
  "ss_get_transition_description old new =
     map_option (snd \<circ> snd) (find (\<lambda>(a, b, _). a = old \<and> b = new) ss_VALID_TRANSITIONS)"

datatype legacy_error = UnknownLegacyStatus project_sandbox_status

definition legacy_to_simplified :: "project_sandbox_status \<Rightarrow> legacy_error + simplified_state" where
  "legacy_to_simplified s = (case s of
     PsPENDING \<Rightarrow> Inr SsSTARTING
   | PsCREATING \<Rightarrow> Inr SsSTARTING
   | PsCONNECTING \<Rightarrow> Inr SsSTARTING
   | PsRUNNING \<Rightarrow> Inr SsRUNNING
   | PsUNHEALTHY \<Rightarrow> Inr SsERROR
   | PsERROR \<Rightarrow> Inr SsERROR
   | PsDISCONNECTED \<Rightarrow> Inr SsERROR
   | PsSTOPPED \<Rightarrow> Inr SsTERMINATED
   | PsTERMINATED \<Rightarrow> Inr SsTERMINATED
   | PsORPHAN \<Rightarrow> Inr SsERROR
   | PsSTARTING \<Rightarrow> Inl (UnknownLegacyStatus PsSTARTING))"

definition simplified_to_legacy :: "simplified_state \<Rightarrow> project_sandbox_status" where
  "simplified_to_legacy s = (case s of
     SsSTARTING \<Rightarrow> PsCREATING
   | SsRUNNING \<Rightarrow> PsRUNNING
   | SsERROR \<Rightarrow> PsERROR
   | SsTERMINATED \<Rightarrow> PsTERMINATED)"

section \<open>The machines as paths of their tables\<close>

lemmas sm_tables = sm_VALID_TRANSITIONS_def sm_TERMINAL_STATES_def sm_USABLE_STATES_def sm_ACTIVE_STATES_def sm_RECOVERABLE_STATES_def
lemmas ss_tables = ss_VALID_TRANSITIONS_def ss_TERMINAL_STATES_def ss_USABLE_STATES_def ss_ACTIVE_STATES_def ss_RECOVERABLE_STATES_def

lemma add_transition_get:
  "set (dict_get_default (add_transition m (old, new, d)) k []) =
     (if k = old then insert new (set (dict_get_default m k [])) else set (dict_get_default m k []))"
  by (cases "dict_get m old") (auto simp: add_transition_def dict_get_default_def dict_get_set)

lemma transition_map_targets:
  "set (dict_get_default (foldl add_transition m trs) old []) =
     set (dict_get_default m old []) \<union> {new. \<exists>d. (old, new, d) \<in> set trs}"
  by (induction trs arbitrary: m) (auto simp: add_transition_get split: if_splits)

lemma sm_targets: "new \<in> set (dict_get_default sm_transition_map old []) \<longleftrightarrow> (\<exists>d. (old, new, d) \<in> set sm_VALID_TRANSITIONS)"
  by (simp add: sm_transition_map_def transition_map_targets) (simp add: dict_get_default_def)

lemma ss_targets: "new \<in> set (dict_get_default ss_transition_map old []) \<longleftrightarrow> (\<exists>d. (old, new, d) \<in> set ss_VALID_TRANSITIONS)"
  by (simp add: ss_transition_map_def transition_map_targets) (simp add: dict_get_default_def)

text \<open>A transition is possible exactly when it is a no-op or has a description.\<close>

lemma sm_can_iff_described: "sm_can_transition old new \<longleftrightarrow> old = new \<or> sm_get_transition_description old new \<noteq> None"
proof -
  have "old = TERMINATED \<Longrightarrow> (old, new, d) \<notin> set sm_VALID_TRANSITIONS" for d by (auto simp: sm_VALID_TRANSITIONS_def)
  then show ?thesis
    by (auto simp: sm_can_transition_def sm_targets sm_get_transition_description_def find_None_iff sm_TERMINAL_STATES_def)
qed

lemma ss_can_iff_described: "ss_can_transition old new \<longleftrightarrow> old = new \<or> ss_get_transition_description old new \<noteq> None"
proof -
  have "old = SsTERMINATED \<Longrightarrow> (old, new, d) \<notin> set ss_VALID_TRANSITIONS" for d by (auto simp: ss_VALID_TRANSITIONS_def)
  then show ?thesis
    by (auto simp: ss_can_transition_def ss_targets ss_get_transition_description_def find_None_iff ss_TERMINAL_STATES_def)
qed

interpretation sm: status_machine "\<lambda>s. {t. sm_can_transition s t}" "sm_transition sandbox_id" for sandbox_id
  by unfold_locales (auto simp: sm_transition_def split: if_splits)

interpretation ss: status_machine "\<lambda>s. {t. ss_can_transition s t}" "ss_transition sandbox_id" for sandbox_id
  by unfold_locales (auto simp: ss_transition_def split: if_splits)

text \<open>Terminated is final, and every other status can still get there.\<close>

lemma sm_terminated_final: "run_changes (sm_transition i) TERMINATED ts = Inr s \<Longrightarrow> s = TERMINATED"
  by (erule sm.final_absorbs [rotated]) (auto simp: sm_can_transition_def sm_TERMINAL_STATES_def)

lemma ss_terminated_final: "run_changes (ss_transition i) SsTERMINATED ts = Inr s \<Longrightarrow> s = SsTERMINATED"
  by (erule ss.final_absorbs [rotated]) (auto simp: ss_can_transition_def ss_TERMINAL_STATES_def)

definition way_out :: "sandbox_status \<Rightarrow> sandbox_status list" where
  "way_out s = (case s of
     PENDING \<Rightarrow> [ERROR, TERMINATED] | CREATING \<Rightarrow> [ERROR, TERMINATED] | CONNECTING \<Rightarrow> [ERROR, TERMINATED]
   | TERMINATED \<Rightarrow> [] | _ \<Rightarrow> [TERMINATED])"

lemmas sm_eval = sm_transition_def sm_can_iff_described sm_get_transition_description_def sm_VALID_TRANSITIONS_def
lemmas ss_eval = ss_transition_def ss_can_iff_described ss_get_transition_description_def ss_VALID_TRANSITIONS_def

lemma sm_terminated_reachable: "run_changes (sm_transition i) s (way_out s) = Inr TERMINATED"
  by (cases s) (simp_all add: way_out_def sm_eval)

section \<open>The simplified machine against the ten-state machine\<close>

definition project_status :: "sandbox_status \<Rightarrow> project_sandbox_status" where
  "project_status s = (case s of
     PENDING \<Rightarrow> PsPENDING
   | CREATING \<Rightarrow> PsCREATING
   | RUNNING \<Rightarrow> PsRUNNING
   | UNHEALTHY \<Rightarrow> PsUNHEALTHY
   | STOPPED \<Rightarrow> PsSTOPPED
   | TERMINATED \<Rightarrow> PsTERMINATED
   | ERROR \<Rightarrow> PsERROR
   | CONNECTING \<Rightarrow> PsCONNECTING
   | DISCONNECTED \<Rightarrow> PsDISCONNECTED
   | ORPHAN \<Rightarrow> PsORPHAN)"

lemma project_status_value: "ps_value (project_status s) = sm_value s"
  by (cases s) (simp_all add: project_status_def)

definition simplified :: "sandbox_status \<Rightarrow> simplified_state" where
  "simplified s = (case legacy_to_simplified (project_status s) of Inr a \<Rightarrow> a | Inl _ \<Rightarrow> SsERROR)"

lemma legacy_defined: "legacy_to_simplified (project_status s) = Inr (simplified s)"
  by (cases s) (simp_all add: legacy_to_simplified_def project_status_def simplified_def)

text \<open>The moves of the ten-state machine that the simplified one does not have.\<close>

definition dropped :: "sandbox_status \<times> sandbox_status \<Rightarrow> bool" where
  "dropped move \<longleftrightarrow> move \<in> set [(UNHEALTHY, RUNNING), (STOPPED, CREATING), (ORPHAN, RUNNING)]"

lemma table_simplified:
  "list_all (\<lambda>(s, t, _). ss_can_transition (simplified s) (simplified t) \<longleftrightarrow> \<not> dropped (s, t)) sm_VALID_TRANSITIONS"
  by code_simp

lemma step_simplified:
  assumes "sm_can_transition s t"
  shows "ss_can_transition (simplified s) (simplified t) \<longleftrightarrow> \<not> dropped (s, t)"
proof (cases "s = t")
  case True
  then show ?thesis by (cases t) (simp_all add: ss_can_transition_def dropped_def)
next
  case False
  then obtain d where "(s, t, d) \<in> set sm_VALID_TRANSITIONS" using assms by (auto simp: sm_can_transition_def sm_targets split: if_splits)
  then show ?thesis using table_simplified by (auto simp: list_all_iff)
qed

definition moves :: "'s \<Rightarrow> 's list \<Rightarrow> ('s \<times> 's) list" where
  "moves s ts = zip (s # ts) ts"

lemma moves_simps [simp]: "moves s [] = []" "moves s (t # ts) = (s, t) # moves t ts"
  by (simp_all add: moves_def)

lemma run_simplified:
  "run_changes (sm_transition i) s ts = Inr t \<Longrightarrow>
   run_changes (ss_transition j) (simplified s) (map simplified ts) = Inr (simplified t) \<longleftrightarrow> list_all (Not \<circ> dropped) (moves s ts)"
proof (induction ts arbitrary: s)
  case (Cons u us)
  then have u: "sm_can_transition s u" "run_changes (sm_transition i) u us = Inr t"
    using sm.run_Cons by blast+
  show ?case using Cons.IH [OF u(2)] step_simplified [OF u(1)] by (auto simp: ss.run_Cons simp del: run_changes.simps)
qed simp

text \<open>The status written back for a simplified state moves exactly as the simplified state does.\<close>

lemma representatives:
  "ss_can_transition a b \<longleftrightarrow>
     (\<exists>s t. project_status s = simplified_to_legacy a \<and> project_status t = simplified_to_legacy b \<and> sm_can_transition s t)"
proof -
  let ?rep = "\<lambda>a. case a of SsSTARTING \<Rightarrow> CREATING | SsRUNNING \<Rightarrow> RUNNING | SsERROR \<Rightarrow> ERROR | SsTERMINATED \<Rightarrow> TERMINATED"
  have rep: "project_status s = simplified_to_legacy a \<longleftrightarrow> s = ?rep a" for s a
    by (cases s; cases a) (simp_all add: project_status_def simplified_to_legacy_def)
  have "ss_can_transition a b \<longleftrightarrow> sm_can_transition (?rep a) (?rep b)"
    by (cases a; cases b) (simp_all add: sm_eval ss_eval)
  then show ?thesis by (simp add: rep)
qed

text \<open>
  C28: a run of the ten-state machine is, read through \<open>legacy_to_simplified\<close>, a run of the simplified machine
  with the corresponding end exactly when it uses none of the three moves unhealthy to running, stopped to
  creating and orphan to running. In the other direction, \<open>simplified_to_legacy\<close> embeds the simplified machine:
  it is undone by \<open>legacy_to_simplified\<close>, and two simplified states are connected exactly when the statuses
  written for them are.
\<close>

theorem sandbox_machines_refine:
  assumes "run_changes (sm_transition i) s ts = Inr t"
  shows "(run_changes (ss_transition j) (simplified s) (map simplified ts) = Inr (simplified t)) = list_all (Not \<circ> dropped) (moves s ts) \<and>
    ps_value (project_status s) = sm_value s \<and> legacy_to_simplified (project_status s) = Inr (simplified s) \<and>
    legacy_to_simplified (simplified_to_legacy a) = Inr a \<and>
    ss_can_transition a b = (\<exists>u v. project_status u = simplified_to_legacy a \<and> project_status v = simplified_to_legacy b \<and> sm_can_transition u v)"
proof (intro conjI)
  show "legacy_to_simplified (simplified_to_legacy a) = Inr a"
    by (cases a) (simp_all add: legacy_to_simplified_def simplified_to_legacy_def)
qed (rule run_simplified [OF assms] project_status_value legacy_defined representatives)+

theorem sandbox_machines_refine_witness:
  "run_changes (ss_transition None) SsSTARTING [SsSTARTING, SsRUNNING, SsERROR, SsTERMINATED] = Inr SsTERMINATED \<and>
   run_changes (ss_transition None) SsERROR [SsRUNNING] \<noteq> Inr SsRUNNING"
proof -
  have "run_changes (sm_transition None) PENDING [CREATING, RUNNING, UNHEALTHY, TERMINATED] = Inr TERMINATED"
    "run_changes (sm_transition None) UNHEALTHY [RUNNING] = Inr RUNNING"
    by (simp_all add: sm_eval)
  from this [THEN sandbox_machines_refine, where j = None] show ?thesis
    by (simp add: simplified_def legacy_to_simplified_def project_status_def dropped_def)
qed

text \<open>Which status predicates survive the simplification.\<close>

lemma simplified_predicates:
  "sm_is_usable s \<longleftrightarrow> ss_is_usable (simplified s)"
  "ss_is_terminal (simplified s) \<longleftrightarrow> sm_is_terminal s \<or> s = STOPPED"
  "ss_is_active (simplified s) \<longleftrightarrow> sm_is_active s \<and> s \<noteq> UNHEALTHY \<or> s = PENDING"
  "ss_is_recoverable (simplified s) \<longleftrightarrow> sm_is_recoverable s \<and> s \<noteq> STOPPED \<or> s = ORPHAN"
  by (cases s; simp add: sm_is_usable_def ss_is_usable_def sm_is_terminal_def ss_is_terminal_def sm_is_active_def ss_is_active_def
      sm_is_recoverable_def ss_is_recoverable_def sm_tables ss_tables simplified_def legacy_to_simplified_def project_status_def)+

end
