(* ===== verification/ProjectSandbox.thy ===== *)
theory ProjectSandbox
  imports SandboxStates
begin

text \<open>
  The association of a project with its sandbox: \<open>src/domain/model/sandbox/project_sandbox.py\<close>. A configuration
  dictionary is a record with one optional entry per key, its values of the annotated types; \<open>transport\<close> may be
  the text or the member of the enumeration. The clock is an argument of the methods that read it (in
  microseconds), \<open>isoformat\<close> stands for \<open>datetime.isoformat\<close>, and metadata holds the two kinds of values the entity
  writes beside those of its callers.
\<close>

section \<open>The configuration of a local sandbox\<close>

datatype sandbox_type = CLOUD | LOCAL

datatype sandbox_transport = WEBSOCKET | STDIO

fun transport_value :: "sandbox_transport \<Rightarrow> string" where
  "transport_value WEBSOCKET = ''websocket''"
| "transport_value STDIO = ''stdio''"

fun type_value :: "sandbox_type \<Rightarrow> string" where
  "type_value CLOUD = ''cloud''"
| "type_value LOCAL = ''local''"

record local_config =
  lc_workspace_path :: string
  lc_transport :: sandbox_transport
  lc_tunnel_url :: "string option"
  lc_host :: string
  lc_port :: int
  lc_auth_token :: "string option"

definition default_local_config :: local_config where
  "default_local_config =
     \<lparr>lc_workspace_path = ''/workspace'', lc_transport = WEBSOCKET, lc_tunnel_url = None, lc_host = ''localhost'', lc_port = 8765,
      lc_auth_token = None\<rparr>"

definition get_websocket_url :: "local_config \<Rightarrow> string" where
  "get_websocket_url c =
     (case lc_tunnel_url c of
        Some url \<Rightarrow> if url \<noteq> [] then url
          else (if lc_host c \<in> {''localhost'', ''127.0.0.1''} then ''ws'' else ''wss'') @ ''://'' @ lc_host c @ '':'' @ int_str (lc_port c)
      | None \<Rightarrow> (if lc_host c \<in> {''localhost'', ''127.0.0.1''} then ''ws'' else ''wss'') @ ''://'' @ lc_host c @ '':'' @ int_str (lc_port c))"

datatype transport_entry = TransportText string | TransportMember sandbox_transport

record config_dict =
  cd_workspace_path :: "string option"
  cd_transport :: "transport_entry option"
  cd_tunnel_url :: "string option"
  cd_host :: "string option"
  cd_port :: "int option"
  cd_auth_token :: "string option"

definition config_to_dict :: "local_config \<Rightarrow> config_dict" where
  "config_to_dict c =
     \<lparr>cd_workspace_path = Some (lc_workspace_path c), cd_transport = Some (TransportText (transport_value (lc_transport c))),
      cd_tunnel_url = lc_tunnel_url c, cd_host = Some (lc_host c), cd_port = Some (lc_port c), cd_auth_token = lc_auth_token c\<rparr>"

datatype sandbox_error = BadTransport string | LocalConfigOnCloud

fun read_transport :: "transport_entry \<Rightarrow> sandbox_error + sandbox_transport" where
  "read_transport (TransportText s) =
     (if s = ''websocket'' then Inr WEBSOCKET else if s = ''stdio'' then Inr STDIO else Inl (BadTransport s))"
| "read_transport (TransportMember t) = Inr t"

definition get_or :: "'a option \<Rightarrow> 'a \<Rightarrow> 'a" where
  "get_or x d = (case x of None \<Rightarrow> d | Some v \<Rightarrow> v)"

definition config_from_dict :: "config_dict \<Rightarrow> sandbox_error + local_config" where
  "config_from_dict d =
     (case read_transport (get_or (cd_transport d) (TransportText ''websocket'')) of
        Inl e \<Rightarrow> Inl e
      | Inr t \<Rightarrow> Inr \<lparr>lc_workspace_path = get_or (cd_workspace_path d) ''/workspace'', lc_transport = t, lc_tunnel_url = cd_tunnel_url d,
                      lc_host = get_or (cd_host d) ''localhost'', lc_port = get_or (cd_port d) 8765, lc_auth_token = cd_auth_token d\<rparr>)"

section \<open>The entity\<close>

datatype meta_value = MetaBool bool | MetaConfig config_dict | MetaOther bool string

record project_sandbox =
  sb_id :: string
  sb_project_id :: string
  sb_tenant_id :: string
  sb_sandbox_id :: string
  sb_sandbox_type :: sandbox_type
  sb_status :: project_sandbox_status
  sb_created_at :: int
  sb_started_at :: "int option"
  sb_last_accessed_at :: int
  sb_health_checked_at :: "int option"
  sb_error_message :: "string option"
  sb_metadata :: "(string, meta_value) dict"
  sb_local_config :: "local_config option"

definition sb_post_init :: "project_sandbox \<Rightarrow> project_sandbox" where
  "sb_post_init sb =
     (if sb_sandbox_type sb = LOCAL \<and> sb_local_config sb = None then sb\<lparr>sb_local_config := Some default_local_config\<rparr> else sb)"

definition new_project_sandbox :: "int \<Rightarrow> int \<Rightarrow> string \<Rightarrow> string \<Rightarrow> string \<Rightarrow> string \<Rightarrow> sandbox_type \<Rightarrow> project_sandbox" where
  "new_project_sandbox created accessed eid project tenant sandbox kind =
     sb_post_init
       \<lparr>sb_id = eid, sb_project_id = project, sb_tenant_id = tenant, sb_sandbox_id = sandbox, sb_sandbox_type = kind, sb_status = PsSTARTING,
        sb_created_at = created, sb_started_at = None, sb_last_accessed_at = accessed, sb_health_checked_at = None, sb_error_message = None,
        sb_metadata = [], sb_local_config = None\<rparr>"

definition mark_accessed :: "int \<Rightarrow> project_sandbox \<Rightarrow> project_sandbox" where
  "mark_accessed now sb = sb\<lparr>sb_last_accessed_at := now\<rparr>"

definition mark_healthy :: "int \<Rightarrow> project_sandbox \<Rightarrow> project_sandbox" where
  "mark_healthy now sb = sb\<lparr>sb_status := PsRUNNING, sb_health_checked_at := Some now, sb_error_message := None\<rparr>"

definition mark_error :: "string \<Rightarrow> project_sandbox \<Rightarrow> project_sandbox" where
  "mark_error e sb = sb\<lparr>sb_status := PsERROR, sb_error_message := Some e\<rparr>"

definition mark_unhealthy :: "string option \<Rightarrow> project_sandbox \<Rightarrow> project_sandbox" where
  "mark_unhealthy reason sb =
     mark_error (case reason of None \<Rightarrow> ''Unhealthy'' | Some r \<Rightarrow> if r = [] then ''Unhealthy'' else r) sb"

definition mark_terminated :: "project_sandbox \<Rightarrow> project_sandbox" where
  "mark_terminated sb = sb\<lparr>sb_status := PsTERMINATED\<rparr>"

definition mark_stopped :: "project_sandbox \<Rightarrow> project_sandbox" where
  "mark_stopped sb = mark_terminated sb"

definition mark_connecting :: "project_sandbox \<Rightarrow> project_sandbox" where
  "mark_connecting sb = sb\<lparr>sb_status := PsSTARTING\<rparr>"

definition mark_disconnected :: "project_sandbox \<Rightarrow> project_sandbox" where
  "mark_disconnected sb = mark_error ''Disconnected'' sb"

definition mark_orphan :: "project_sandbox \<Rightarrow> project_sandbox" where
  "mark_orphan sb = sb\<lparr>sb_status := PsERROR, sb_metadata := dict_set ''orphan'' (MetaBool True) (sb_metadata sb)\<rparr>"

definition mark_creating :: "project_sandbox \<Rightarrow> project_sandbox" where
  "mark_creating sb = sb\<lparr>sb_status := PsSTARTING\<rparr>"

definition is_orphan :: "project_sandbox \<Rightarrow> meta_value" where
  "is_orphan sb = dict_get_default (sb_metadata sb) ''orphan'' (MetaBool False)"

definition can_adopt :: "project_sandbox \<Rightarrow> meta_value" where
  "can_adopt sb = is_orphan sb"

definition is_local :: "project_sandbox \<Rightarrow> bool" where
  "is_local sb \<longleftrightarrow> sb_sandbox_type sb = LOCAL"

definition is_cloud :: "project_sandbox \<Rightarrow> bool" where
  "is_cloud sb \<longleftrightarrow> sb_sandbox_type sb = CLOUD"

definition sb_is_active :: "project_sandbox \<Rightarrow> bool" where
  "sb_is_active sb \<longleftrightarrow> sb_status sb \<in> {PsRUNNING, PsSTARTING, PsCREATING, PsCONNECTING}"

definition sb_is_usable :: "project_sandbox \<Rightarrow> bool" where
  "sb_is_usable sb \<longleftrightarrow> sb_status sb = PsRUNNING"

definition needs_health_check :: "int \<Rightarrow> int \<Rightarrow> project_sandbox \<Rightarrow> bool" where
  "needs_health_check now max_age_seconds sb =
     (case sb_health_checked_at sb of None \<Rightarrow> True | Some t \<Rightarrow> now - t > max_age_seconds * 1000000)"

definition get_connection_url :: "project_sandbox \<Rightarrow> string option" where
  "get_connection_url sb =
     (if is_local sb then (case sb_local_config sb of Some c \<Rightarrow> Some (get_websocket_url c) | None \<Rightarrow> None) else None)"

definition update_local_config :: "local_config \<Rightarrow> project_sandbox \<Rightarrow> sandbox_error + project_sandbox" where
  "update_local_config c sb =
     (if sb_sandbox_type sb \<noteq> LOCAL then Inl LocalConfigOnCloud
      else Inr (sb\<lparr>sb_local_config := Some c, sb_metadata := dict_set ''local_config'' (MetaConfig (config_to_dict c)) (sb_metadata sb)\<rparr>))"

datatype sandbox_field =
    FieldStr string | FieldNone | FieldMeta "(string, meta_value) dict" | FieldConfig config_dict

definition sb_to_dict :: "(int \<Rightarrow> string) \<Rightarrow> project_sandbox \<Rightarrow> (string, sandbox_field) dict" where
  "sb_to_dict isoformat sb =
     (let time = (\<lambda>t. case t of None \<Rightarrow> FieldNone | Some x \<Rightarrow> FieldStr (isoformat x))
      in [(''id'', FieldStr (sb_id sb)), (''project_id'', FieldStr (sb_project_id sb)), (''tenant_id'', FieldStr (sb_tenant_id sb)),
          (''sandbox_id'', FieldStr (sb_sandbox_id sb)), (''sandbox_type'', FieldStr (type_value (sb_sandbox_type sb))),
          (''status'', FieldStr (ps_value (sb_status sb))), (''created_at'', time (Some (sb_created_at sb))),
          (''started_at'', time (sb_started_at sb)), (''last_accessed_at'', time (Some (sb_last_accessed_at sb))),
          (''health_checked_at'', time (sb_health_checked_at sb)),
          (''error_message'', case sb_error_message sb of None \<Rightarrow> FieldNone | Some e \<Rightarrow> FieldStr e),
          (''metadata'', FieldMeta (sb_metadata sb)),
          (''local_config'', case sb_local_config sb of None \<Rightarrow> FieldNone | Some c \<Rightarrow> FieldConfig (config_to_dict c))])"

section \<open>Correctness\<close>

lemma config_roundtrip: "config_from_dict (config_to_dict c) = Inr c"
  by (cases "lc_transport c") (simp_all add: config_from_dict_def config_to_dict_def get_or_def)

lemma config_to_dict_inject: "config_to_dict c = config_to_dict d \<longleftrightarrow> c = d"
  by (metis config_roundtrip sum.inject(2))

text \<open>Only the text of an unknown transport stops a configuration from being read.\<close>

lemma config_from_dict_fails:
  "config_from_dict d = Inl e \<longleftrightarrow> (\<exists>s. cd_transport d = Some (TransportText s) \<and> s \<noteq> ''websocket'' \<and> s \<noteq> ''stdio'' \<and> e = BadTransport s)"
proof (cases "cd_transport d")
  case (Some t)
  then show ?thesis by (cases t) (auto simp: config_from_dict_def get_or_def)
qed (auto simp: config_from_dict_def get_or_def)

text \<open>The changes of an entity.\<close>

datatype sandbox_call =
    MarkAccessed int
  | MarkHealthy int
  | MarkUnhealthy "string option"
  | MarkError string
  | MarkStopped
  | MarkTerminated
  | MarkConnecting
  | MarkDisconnected
  | MarkOrphan
  | MarkCreating
  | UpdateLocalConfig local_config

fun sandbox_call_step :: "project_sandbox \<Rightarrow> sandbox_call \<Rightarrow> project_sandbox" where
  "sandbox_call_step sb (MarkAccessed now) = mark_accessed now sb"
| "sandbox_call_step sb (MarkHealthy now) = mark_healthy now sb"
| "sandbox_call_step sb (MarkUnhealthy reason) = mark_unhealthy reason sb"
| "sandbox_call_step sb (MarkError e) = mark_error e sb"
| "sandbox_call_step sb MarkStopped = mark_stopped sb"
| "sandbox_call_step sb MarkTerminated = mark_terminated sb"
| "sandbox_call_step sb MarkConnecting = mark_connecting sb"
| "sandbox_call_step sb MarkDisconnected = mark_disconnected sb"
| "sandbox_call_step sb MarkOrphan = mark_orphan sb"
| "sandbox_call_step sb MarkCreating = mark_creating sb"
| "sandbox_call_step sb (UpdateLocalConfig c) = (case update_local_config c sb of Inl e \<Rightarrow> sb | Inr sb' \<Rightarrow> sb')"

definition sandbox_ok :: "project_sandbox \<Rightarrow> bool" where
  "sandbox_ok sb \<longleftrightarrow> sb_status sb \<in> {PsSTARTING, PsRUNNING, PsERROR, PsTERMINATED} \<and>
     (sb_local_config sb \<noteq> None) = is_local sb \<and>
     (sb_status sb = PsRUNNING \<longrightarrow> sb_error_message sb = None \<and> sb_health_checked_at sb \<noteq> None) \<and>
     (\<forall>d. dict_get (sb_metadata sb) ''local_config'' = Some (MetaConfig d) \<longrightarrow> sb_local_config sb \<noteq> None \<and> config_from_dict d = Inr (the (sb_local_config sb)))"

lemmas mark_defs = mark_accessed_def mark_healthy_def mark_unhealthy_def mark_error_def mark_stopped_def mark_terminated_def
  mark_connecting_def mark_disconnected_def mark_orphan_def mark_creating_def

interpretation sandbox: invariant_machine sandbox_call_step sandbox_ok
proof
  fix sb c
  assume "sandbox_ok sb"
  then show "sandbox_ok (sandbox_call_step sb c)"
    by (cases c) (auto simp: mark_defs sandbox_ok_def is_local_def update_local_config_def dict_get_set config_roundtrip)
qed

lemma new_project_sandbox_ok: "sandbox_ok (new_project_sandbox created accessed eid project tenant sandbox kind)"
  by (cases kind) (simp_all add: sandbox_ok_def new_project_sandbox_def sb_post_init_def is_local_def)

text \<open>
  Whatever methods are called on a new association, its status is one of the four simplified ones, a running
  sandbox has been checked and carries no error, it has a local configuration (and hence a connection URL) exactly
  when it is local, and the configuration kept in the metadata is read back as the current one.
\<close>

theorem project_sandbox_states:
  assumes "sb = foldl sandbox_call_step (new_project_sandbox created accessed eid project tenant sandbox kind) calls"
  shows "sb_status sb \<in> {PsSTARTING, PsRUNNING, PsERROR, PsTERMINATED} \<and> (get_connection_url sb \<noteq> None) = is_local sb \<and>
    (sb_is_usable sb \<longrightarrow> sb_error_message sb = None \<and> sb_health_checked_at sb \<noteq> None) \<and>
    (\<forall>d. dict_get (sb_metadata sb) ''local_config'' = Some (MetaConfig d) \<longrightarrow> (\<exists>c. config_from_dict d = Inr c \<and> sb_local_config sb = Some c))"
proof -
  have "sandbox_ok sb" unfolding assms by (rule sandbox.run_inv [OF new_project_sandbox_ok])
  then show ?thesis
    by (auto simp: sandbox_ok_def sb_is_usable_def get_connection_url_def split: option.splits)
qed

definition tunnelled :: local_config where
  "tunnelled = default_local_config\<lparr>lc_transport := STDIO, lc_tunnel_url := Some ''wss://t''\<rparr>"

theorem project_sandbox_states_witness:
  "\<exists>sb. sb = foldl sandbox_call_step (new_project_sandbox 0 0 ''i'' ''p'' ''t'' ''s'' LOCAL) [UpdateLocalConfig tunnelled, MarkError ''e'', MarkHealthy 9] \<and>
     sb_is_usable sb \<and> sb_error_message sb = None \<and> get_connection_url sb = Some ''wss://t'' \<and>
     dict_get (sb_metadata sb) ''local_config'' = Some (MetaConfig (config_to_dict tunnelled)) \<and>
     (\<exists>c. config_from_dict (config_to_dict tunnelled) = Inr c \<and> sb_local_config sb = Some c)"
  (is "\<exists>sb. sb = ?sb \<and> _ sb")
proof -
  have "sb_is_usable ?sb" "dict_get (sb_metadata ?sb) ''local_config'' = Some (MetaConfig (config_to_dict tunnelled))"
    "get_connection_url ?sb = Some ''wss://t''"
    by (simp_all add: mark_defs update_local_config_def new_project_sandbox_def sb_post_init_def sb_is_usable_def get_connection_url_def
        is_local_def get_websocket_url_def tunnelled_def)
  with project_sandbox_states [OF refl, of 0 0 "''i''" "''p''" "''t''" "''s''" LOCAL "[UpdateLocalConfig tunnelled, MarkError ''e'', MarkHealthy 9]"]
  show ?thesis by blast
qed

section \<open>The entity beside the state machines\<close>

text \<open>The status every new association has, and the one it prefers while it starts, is unknown to the conversion.\<close>

lemma starting_not_convertible:
  "legacy_to_simplified (sb_status (new_project_sandbox created accessed eid project tenant sandbox kind)) = Inl (UnknownLegacyStatus PsSTARTING)"
  "legacy_to_simplified s = Inl e \<longleftrightarrow> s = PsSTARTING \<and> e = UnknownLegacyStatus PsSTARTING"
  by (simp add: legacy_to_simplified_def new_project_sandbox_def sb_post_init_def)
    (cases s; auto simp: legacy_to_simplified_def)

text \<open>
  The methods assign the status without asking a machine: a terminated sandbox runs again after \<open>mark_healthy\<close>,
  which no run of either machine does, and the flag of an orphan outlives its recovery.
\<close>

lemma mark_healthy_revives:
  "sb_status sb = PsTERMINATED \<Longrightarrow> sb_is_usable (mark_healthy now sb)"
  "run_changes (sm_transition i) TERMINATED ts \<noteq> Inr RUNNING"
  "run_changes (ss_transition i) SsTERMINATED ts' \<noteq> Inr SsRUNNING"
  "can_adopt (mark_healthy now (mark_orphan sb)) = MetaBool True"
  using sm_terminated_final [of i ts RUNNING] ss_terminated_final [of i ts' SsRUNNING]
  by (auto simp: mark_healthy_def mark_orphan_def sb_is_usable_def can_adopt_def is_orphan_def dict_get_default_def dict_get_set)

end
