(* ===== verification/SandboxRetry.thy ===== *)
theory SandboxRetry
  imports Prelude
begin

text \<open>
  Retrying sandbox operations: \<open>src/domain/model/sandbox/retry_policy.py\<close> and the exceptions of \<open>exceptions.py\<close>.
  The operation is given by the outcome of its \<open>i\<close>-th call, and \<open>execute\<close> returns its own outcome with the trace of
  what it did: calls, callbacks and sleeps. Floating-point seconds are reals. A callback that raises is caught
  by the code and leaves no trace, so a callback only has to be present or not.
\<close>

section \<open>Exceptions\<close>

datatype error_class =
    SandboxError
  | SandboxConnectionError "string option" bool
  | SandboxResourceError string "int option"
  | SandboxTimeoutError "real option"
  | SandboxValidationError "string option" "string option"
  | SandboxStateTransitionError string string
  | SandboxHealthCheckError "string option"
  | SandboxLockTimeoutError "string option" "real option"
  | NotSandboxError

record sandbox_exception =
  se_class :: error_class
  se_message :: string
  se_sandbox_id :: "string option"
  se_operation :: "string option"

definition sandbox_connection_error ::
  "string \<Rightarrow> string option \<Rightarrow> string option \<Rightarrow> bool \<Rightarrow> string option \<Rightarrow> sandbox_exception" where
  "sandbox_connection_error message sandbox_id endpoint retryable operation =
     \<lparr>se_class = SandboxConnectionError endpoint retryable, se_message = message, se_sandbox_id = sandbox_id,
      se_operation = (case operation of None \<Rightarrow> Some ''connect'' | Some x \<Rightarrow> if x = [] then Some ''connect'' else Some x)\<rparr>"

definition sandbox_resource_error :: "string \<Rightarrow> string \<Rightarrow> string option \<Rightarrow> int option \<Rightarrow> sandbox_exception" where
  "sandbox_resource_error message resource_type sandbox_id available =
     \<lparr>se_class = SandboxResourceError resource_type available, se_message = message, se_sandbox_id = sandbox_id,
      se_operation = Some ''acquire_resource''\<rparr>"

definition sandbox_timeout_error :: "string \<Rightarrow> string option \<Rightarrow> string option \<Rightarrow> real option \<Rightarrow> sandbox_exception" where
  "sandbox_timeout_error message sandbox_id operation timeout_seconds =
     \<lparr>se_class = SandboxTimeoutError timeout_seconds, se_message = message, se_sandbox_id = sandbox_id, se_operation = operation\<rparr>"

definition sandbox_validation_error :: "string \<Rightarrow> string option \<Rightarrow> string option \<Rightarrow> sandbox_exception" where
  "sandbox_validation_error message fld val =
     \<lparr>se_class = SandboxValidationError fld val, se_message = message, se_sandbox_id = None, se_operation = Some ''validate''\<rparr>"

definition sandbox_state_transition_error :: "string \<Rightarrow> string \<Rightarrow> string \<Rightarrow> sandbox_exception" where
  "sandbox_state_transition_error sandbox_id current_state target_state =
     \<lparr>se_class = SandboxStateTransitionError current_state target_state,
      se_message = ''Invalid state transition for sandbox '' @ sandbox_id @ '': '' @ current_state @ '' -> '' @ target_state,
      se_sandbox_id = Some sandbox_id, se_operation = Some ''transition''\<rparr>"

definition sandbox_health_check_error :: "string \<Rightarrow> string option \<Rightarrow> string option \<Rightarrow> sandbox_exception" where
  "sandbox_health_check_error message sandbox_id health_check_type =
     \<lparr>se_class = SandboxHealthCheckError health_check_type, se_message = message, se_sandbox_id = sandbox_id,
      se_operation = Some ''health_check''\<rparr>"

definition sandbox_lock_timeout_error :: "string \<Rightarrow> string option \<Rightarrow> real option \<Rightarrow> sandbox_exception" where
  "sandbox_lock_timeout_error message project_id timeout_seconds =
     \<lparr>se_class = SandboxLockTimeoutError project_id timeout_seconds, se_message = message, se_sandbox_id = None,
      se_operation = Some ''acquire_lock''\<rparr>"

text \<open>The attribute \<open>retryable\<close>, which the base class does not have.\<close>

fun retryable_attribute :: "error_class \<Rightarrow> bool option" where
  "retryable_attribute (SandboxConnectionError endpoint retryable) = Some retryable"
| "retryable_attribute (SandboxResourceError resource_type available) = Some False"
| "retryable_attribute (SandboxTimeoutError timeout) = Some True"
| "retryable_attribute (SandboxValidationError fld val) = Some False"
| "retryable_attribute (SandboxStateTransitionError current target) = Some False"
| "retryable_attribute (SandboxHealthCheckError kind) = Some True"
| "retryable_attribute (SandboxLockTimeoutError project timeout) = Some True"
| "retryable_attribute SandboxError = None"
| "retryable_attribute NotSandboxError = None"

definition is_retryable_error :: "sandbox_exception \<Rightarrow> bool" where
  "is_retryable_error e =
     (if se_class e \<noteq> NotSandboxError then (case retryable_attribute (se_class e) of None \<Rightarrow> False | Some b \<Rightarrow> b) else False)"

section \<open>The policy\<close>

record retry_policy =
  rp_max_attempts :: int
  rp_base_delay :: real
  rp_max_delay :: real
  rp_backoff_factor :: real

datatype retry_error = MaxAttemptsRange int | BaseDelayRange real | MaxDelayRange real | BackoffRange real

definition retry_policy_init :: "int \<Rightarrow> real \<Rightarrow> real \<Rightarrow> real \<Rightarrow> retry_error + retry_policy" where
  "retry_policy_init max_attempts base_delay max_delay backoff_factor =
     (if \<not> (1 \<le> max_attempts \<and> max_attempts \<le> 10) then Inl (MaxAttemptsRange max_attempts)
      else if \<not> (1 / 10 \<le> base_delay \<and> base_delay \<le> 60) then Inl (BaseDelayRange base_delay)
      else if \<not> (1 \<le> max_delay \<and> max_delay \<le> 300) then Inl (MaxDelayRange max_delay)
      else if \<not> (11 / 10 \<le> backoff_factor \<and> backoff_factor \<le> 10) then Inl (BackoffRange backoff_factor)
      else Inr \<lparr>rp_max_attempts = max_attempts, rp_base_delay = base_delay, rp_max_delay = max_delay, rp_backoff_factor = backoff_factor\<rparr>)"

definition calculate_delay :: "retry_policy \<Rightarrow> nat \<Rightarrow> real" where
  "calculate_delay pol attempt =
     (if attempt = 0 then rp_base_delay pol else min (rp_base_delay pol * rp_backoff_factor pol ^ attempt) (rp_max_delay pol))"

datatype 'e retry_event = CallOperation | OnRetry 'e nat real | Sleep real

datatype 'e retry_failure = RaisedError 'e | AssertionFailed

text \<open>The loop from \<open>attempt\<close> on; \<open>n\<close> attempts are left.\<close>

fun execute_from ::
  "retry_policy \<Rightarrow> ('e \<Rightarrow> bool) \<Rightarrow> (nat \<Rightarrow> 'e + 'a) \<Rightarrow> bool \<Rightarrow> 'e option \<Rightarrow> nat \<Rightarrow> nat \<Rightarrow> ('e retry_failure + 'a) \<times> 'e retry_event list" where
  "execute_from pol should_retry operation callback last_exception 0 attempt =
     (case last_exception of None \<Rightarrow> (Inl AssertionFailed, []) | Some e \<Rightarrow> (Inl (RaisedError e), []))"
| "execute_from pol should_retry operation callback last_exception (Suc n) attempt =
     (case operation attempt of
        Inr v \<Rightarrow> (Inr v, [CallOperation])
      | Inl error \<Rightarrow>
          let is_last_attempt = (int attempt \<ge> rp_max_attempts pol - 1)
          in if \<not> (\<not> is_last_attempt \<and> should_retry error) then (Inl (RaisedError error), [CallOperation])
             else let called = (if callback then [OnRetry error (attempt + 1) (calculate_delay pol attempt)] else []);
                      slept = (if \<not> is_last_attempt then [Sleep (calculate_delay pol attempt)] else []);
                      (result, trace) = execute_from pol should_retry operation callback (Some error) n (attempt + 1)
                  in (result, CallOperation # called @ slept @ trace))"

definition execute ::
  "retry_policy \<Rightarrow> ('e \<Rightarrow> bool) \<Rightarrow> (nat \<Rightarrow> 'e + 'a) \<Rightarrow> bool \<Rightarrow> ('e retry_failure + 'a) \<times> 'e retry_event list" where
  "execute pol should_retry operation callback =
     execute_from pol should_retry operation callback None (nat (rp_max_attempts pol)) 0"

definition max_retries_exceeded :: "retry_policy \<Rightarrow> string \<Rightarrow> sandbox_exception" where
  "max_retries_exceeded pol operation_name =
     sandbox_connection_error
       (''Operation '' @ [CHR 0x27] @ operation_name @ [CHR 0x27] @ '' failed after '' @ int_str (rp_max_attempts pol) @ '' attempts'')
       None None False (Some operation_name)"

text \<open>The decorator: a policy made once, and every call of the wrapped function executed under it.\<close>

definition retryable_decorator ::
  "int \<Rightarrow> real \<Rightarrow> real \<Rightarrow> real \<Rightarrow> ('e \<Rightarrow> bool) \<Rightarrow> ('args \<Rightarrow> nat \<Rightarrow> 'e + 'a) \<Rightarrow>
     retry_error + ('args \<Rightarrow> ('e retry_failure + 'a) \<times> 'e retry_event list)" where
  "retryable_decorator max_attempts base_delay max_delay backoff_factor should_retry func =
     (case retry_policy_init max_attempts base_delay max_delay backoff_factor of
        Inl e \<Rightarrow> Inl e
      | Inr pol \<Rightarrow> Inr (\<lambda>args. execute pol should_retry (func args) False))"

section \<open>Correctness\<close>

text \<open>The attempt that decides: the first that succeeds, fails for good or is the last one allowed.\<close>

definition decides :: "retry_policy \<Rightarrow> ('e \<Rightarrow> bool) \<Rightarrow> (nat \<Rightarrow> 'e + 'a) \<Rightarrow> nat \<Rightarrow> bool" where
  "decides pol should_retry operation k \<longleftrightarrow>
     (case operation k of Inr v \<Rightarrow> True | Inl e \<Rightarrow> int k \<ge> rp_max_attempts pol - 1 \<or> \<not> should_retry e)"

definition outcome_of :: "'e + 'a \<Rightarrow> 'e retry_failure + 'a" where
  "outcome_of r = (case r of Inr v \<Rightarrow> Inr v | Inl e \<Rightarrow> Inl (RaisedError e))"

definition retry_round :: "retry_policy \<Rightarrow> (nat \<Rightarrow> 'e + 'a) \<Rightarrow> bool \<Rightarrow> nat \<Rightarrow> 'e retry_event list" where
  "retry_round pol operation callback i =
     CallOperation # (if callback then [OnRetry (projl (operation i)) (i + 1) (calculate_delay pol i)] else []) @ [Sleep (calculate_delay pol i)]"

lemma execute_from_decides:
  assumes "decides pol sr op (a + m)" and "\<And>i. i < m \<Longrightarrow> \<not> decides pol sr op (a + i)" and "m < n"
  shows "execute_from pol sr op cb e n a =
    (outcome_of (op (a + m)), concat (map (retry_round pol op cb) [a..<a + m]) @ [CallOperation])"
  using assms
proof (induction m arbitrary: a n e)
  case 0
  then obtain n' where n: "n = Suc n'" by (cases n) auto
  show ?case
  proof (cases "op a")
    case (Inl err)
    then show ?thesis using 0(1) by (auto simp: n decides_def outcome_of_def Let_def)
  qed (simp add: n outcome_of_def)
next
  case (Suc m)
  then obtain n' where n: "n = Suc n'" "m < n'" by (cases n) auto
  have "\<not> decides pol sr op a" using Suc.prems(2) [of 0] by simp
  then obtain err where err: "op a = Inl err" "\<not> int a \<ge> rp_max_attempts pol - 1" "sr err"
    by (auto simp: decides_def split: sum.splits)
  have "execute_from pol sr op cb (Some err) n' (Suc a) =
      (outcome_of (op (Suc a + m)), concat (map (retry_round pol op cb) [Suc a..<Suc a + m]) @ [CallOperation])"
    by (rule Suc.IH) (use Suc.prems(1) Suc.prems(2) [of "Suc i" for i] n(2) in auto)
  moreover have "[a..<a + Suc m] = a # [Suc a..<Suc a + m]" using upt_conv_Cons [of a "a + Suc m"] by simp
  moreover have "a + Suc m = Suc a + m" by simp
  moreover have "retry_round pol op cb a =
      CallOperation # (if cb then [OnRetry err (Suc a) (calculate_delay pol a)] else []) @ [Sleep (calculate_delay pol a)]"
    using err(1) by (simp add: retry_round_def)
  ultimately show ?case using err by (simp add: n(1) Let_def del: upt_Suc)
qed

lemma some_attempt_decides:
  assumes "1 \<le> rp_max_attempts pol"
  obtains k where "int k < rp_max_attempts pol" "decides pol sr op k" "\<And>i. i < k \<Longrightarrow> \<not> decides pol sr op i"
proof -
  let ?k = "LEAST k. decides pol sr op k"
  have last: "decides pol sr op (nat (rp_max_attempts pol - 1))"
    using assms by (auto simp: decides_def split: sum.splits)
  then have "?k \<le> nat (rp_max_attempts pol - 1)" by (rule Least_le)
  then have "int ?k < rp_max_attempts pol" using assms by linarith
  then show ?thesis using that [OF _ LeastI [of "decides pol sr op", OF last]] not_less_Least by blast
qed

lemma delay_bounds:
  assumes "retry_policy_init n b m f = Inr pol"
  shows "0 < calculate_delay pol i" "calculate_delay pol i \<le> max (rp_base_delay pol) (rp_max_delay pol)"
    "0 < i \<Longrightarrow> calculate_delay pol i \<le> calculate_delay pol (Suc i)"
proof -
  have pol: "1 \<le> rp_max_delay pol" "1 / 10 \<le> rp_base_delay pol" "11 / 10 \<le> rp_backoff_factor pol"
    using assms by (auto simp: retry_policy_init_def split: if_splits)
  then have "0 < rp_base_delay pol * rp_backoff_factor pol ^ j" for j by simp
  then show "0 < calculate_delay pol i" using pol by (auto simp: calculate_delay_def)
  show "calculate_delay pol i \<le> max (rp_base_delay pol) (rp_max_delay pol)" by (auto simp: calculate_delay_def)
  have "rp_base_delay pol * rp_backoff_factor pol ^ i \<le> rp_base_delay pol * rp_backoff_factor pol ^ Suc i"
    using pol by (intro mult_left_mono power_increasing) auto
  then show "0 < i \<Longrightarrow> calculate_delay pol i \<le> calculate_delay pol (Suc i)" by (auto simp: calculate_delay_def min_le_iff_disj)
qed


definition twice_failing :: "nat \<Rightarrow> sandbox_exception + nat" where
  "twice_failing i = (if i < 2 then Inl (sandbox_timeout_error ''slow'' None None None) else Inr i)"


text \<open>The error made when a policy gives up is not retried by an enclosing policy.\<close>

lemma exhausted_not_retryable: "\<not> is_retryable_error (max_retries_exceeded pol name)"
  by (simp add: max_retries_exceeded_def sandbox_connection_error_def is_retryable_error_def)

text \<open>The first delay is not capped: with a base above the maximum it is longer than every later one.\<close>

lemma first_delay_uncapped:
  "\<exists>pol. retry_policy_init 3 60 1 2 = Inr pol \<and> calculate_delay pol 0 = 60 \<and> rp_max_delay pol = 1 \<and> calculate_delay pol 1 = 1"
  by (simp add: retry_policy_init_def calculate_delay_def)

end
