(* ===== verification/JsonText.thy ===== *)
theory JsonText
  imports Prelude "HOL-Library.Char_ord" "HOL-Library.List_Lexorder"
begin

text \<open>
  \<open>json.dumps(value, sort_keys=True)\<close> of the standard library, on the values a parsed tool call consists of, apart
  from floating-point numbers: the text of a string is escaped to ASCII, items are separated by a comma and a
  blank, and the entries of an object are written in the order of their keys. The result determines the value
  up to the order of the keys.
\<close>

section \<open>Values and their text\<close>

datatype json =
    JNull
  | JBool bool
  | JNum int
  | JString string
  | JArr "json list"
  | JObj "(string \<times> json) list"

definition hex_digit :: "nat \<Rightarrow> char" where
  "hex_digit n = (if n < 10 then char_of (48 + n) else char_of (87 + n))"

definition json_escape :: "char \<Rightarrow> string" where
  "json_escape c =
     (let n = (of_char c :: nat)
      in if n = 34 then [CHR 0x5C, CHR 0x22] else if n = 92 then [CHR 0x5C, CHR 0x5C]
         else if n = 10 then [CHR 0x5C, CHR ''n''] else if n = 13 then [CHR 0x5C, CHR ''r'']
         else if n = 9 then [CHR 0x5C, CHR ''t''] else if n = 12 then [CHR 0x5C, CHR ''f'']
         else if n = 8 then [CHR 0x5C, CHR ''b'']
         else if 32 \<le> n \<and> n \<le> 126 then [c]
         else [CHR 0x5C, CHR ''u'', CHR ''0'', CHR ''0'', hex_digit (n div 16), hex_digit (n mod 16)])"

definition json_quote :: "string \<Rightarrow> string" where
  "json_quote s = CHR 0x22 # concat (map json_escape s) @ [CHR 0x22]"

fun join_items :: "string list \<Rightarrow> string" where
  "join_items [] = []"
| "join_items [x] = x"
| "join_items (x # y # ys) = x @ '', '' @ join_items (y # ys)"

fun json_dumps :: "json \<Rightarrow> string" where
  "json_dumps JNull = ''null''"
| "json_dumps (JBool b) = (if b then ''true'' else ''false'')"
| "json_dumps (JNum n) = int_str n"
| "json_dumps (JString s) = json_quote s"
| "json_dumps (JArr xs) = ''['' @ join_items (map json_dumps xs) @ '']''"
| "json_dumps (JObj kvs) =
     ''{'' @ join_items (map (\<lambda>(k, t). json_quote k @ '': '' @ t) (sort_key fst (map (\<lambda>(k, v). (k, json_dumps v)) kvs))) @ ''}''"

text \<open>A value with the entries of all its objects in the order of their keys.\<close>

fun canon :: "json \<Rightarrow> json" where
  "canon (JArr xs) = JArr (map canon xs)"
| "canon (JObj kvs) = JObj (sort_key fst (map (\<lambda>(k, v). (k, canon v)) kvs))"
| "canon v = v"

section \<open>The text determines the value\<close>

text \<open>The text without sorting.\<close>

fun plain :: "json \<Rightarrow> string" where
  "plain JNull = ''null''"
| "plain (JBool b) = (if b then ''true'' else ''false'')"
| "plain (JNum n) = int_str n"
| "plain (JString s) = json_quote s"
| "plain (JArr xs) = ''['' @ join_items (map plain xs) @ '']''"
| "plain (JObj kvs) = ''{'' @ join_items (map (\<lambda>(k, v). json_quote k @ '': '' @ plain v) kvs) @ ''}''"

lemma sort_key_map: "sort_key f (map g xs) = map g (sort_key (f \<circ> g) xs)"
proof -
  have ins: "insort_key f (g x) (map g ys) = map g (insort_key (f \<circ> g) x ys)" for x ys by (induction ys) auto
  show ?thesis by (induction xs) (simp_all add: ins comp_def)
qed

lemma plain_canon: "plain (canon v) = json_dumps v"
proof (induction v)
  case (JArr xs)
  then have "map (plain \<circ> canon) xs = map json_dumps xs" by simp
  then show ?case by (simp only: canon.simps plain.simps json_dumps.simps map_map)
next
  case (JObj kvs)
  have "map (\<lambda>(k, v). (k, json_dumps v)) kvs = map (\<lambda>(k, v). (k, plain v)) (map (\<lambda>(k, v). (k, canon v)) kvs)"
    using JObj by (auto simp: snds.simps)
  then have "sort_key fst (map (\<lambda>(k, v). (k, json_dumps v)) kvs) = map (\<lambda>(k, v). (k, plain v)) (sort_key fst (map (\<lambda>(k, v). (k, canon v)) kvs))"
    by (simp only: sort_key_map) (simp add: comp_def case_prod_unfold)
  then show ?case by (simp only: canon.simps plain.simps json_dumps.simps map_map) (simp add: comp_def case_prod_unfold)
qed simp_all

definition is_digit :: "char \<Rightarrow> bool" where
  "is_digit c \<longleftrightarrow> (48 \<le> (of_char c :: nat) \<and> of_char c \<le> (57 :: nat))"

definition no_digit_next :: "string \<Rightarrow> bool" where
  "no_digit_next r \<longleftrightarrow> (r = [] \<or> \<not> is_digit (hd r))"

lemma nat_str_digits: "list_all is_digit (nat_str n) \<and> nat_str n \<noteq> []"
proof (induction n rule: nat_str.induct)
  case (1 n)
  have d: "k < 10 \<Longrightarrow> is_digit (char_of (48 + k))" for k :: nat by (simp add: is_digit_def of_char_of)
  show ?case
  proof (cases "n < 10")
    case True
    then show ?thesis by (simp add: nat_str.simps [of n] d)
  next
    case False
    then show ?thesis using 1 d [of "n mod 10"] by (simp add: nat_str.simps [of n])
  qed
qed

lemma nat_str_prefix:
  assumes "nat_str m @ r = nat_str n @ s" and "no_digit_next r" and "no_digit_next s"
  shows "m = n \<and> r = s"
proof -
  have take: "takeWhile is_digit (nat_str k @ t) = nat_str k" if "no_digit_next t" for k t
    using that nat_str_digits [of k] by (cases t) (auto simp: no_digit_next_def list_all_iff takeWhile_append2)
  have "nat_str m = nat_str n" using take [OF assms(2), of m] take [OF assms(3), of n] assms(1) by simp
  then show ?thesis using assms(1) by simp
qed

lemma nat_str_no_minus: "nat_str n @ r \<noteq> CHR ''-'' # s" "CHR ''-'' # s \<noteq> nat_str n @ r"
  using nat_str_digits [of n] by (cases "nat_str n"; auto simp: is_digit_def)+

lemma int_str_prefix:
  assumes "int_str m @ r = int_str n @ s" and "no_digit_next r" and "no_digit_next s"
  shows "m = n \<and> r = s"
proof (cases "(m < 0) = (n < 0)")
  case True
  then have "nat_str (nat \<bar>m\<bar>) @ r = nat_str (nat \<bar>n\<bar>) @ s"
    using assms(1) by (cases "n < 0") (simp_all add: int_str_def)
  then have "nat \<bar>m\<bar> = nat \<bar>n\<bar> \<and> r = s" by (rule nat_str_prefix [OF _ assms(2,3)])
  then show ?thesis using True by linarith
next
  case False
  then show ?thesis
    using assms(1) by (cases "n < 0") (simp_all add: int_str_def nat_str_no_minus)
qed

text \<open>Escaped strings: the escapes are told apart by their beginning, and none of them is the closing quote.\<close>

definition hex_value :: "char \<Rightarrow> nat" where
  "hex_value c = (let n = of_char c in if n < 58 then n - 48 else n - 87)"

lemma hex_value_digit: "n < 16 \<Longrightarrow> hex_value (hex_digit n) = n"
  by (simp add: hex_value_def hex_digit_def of_char_of)

definition unescape :: "string \<Rightarrow> char \<times> string" where
  "unescape t =
     (if hd t \<noteq> CHR 0x5C then (hd t, tl t)
      else let x = t ! 1
           in if x = CHR ''u'' then (char_of (16 * hex_value (t ! 4) + hex_value (t ! 5)), drop 6 t)
              else (if x = CHR ''n'' then char_of (10 :: nat) else if x = CHR ''r'' then char_of (13 :: nat) else if x = CHR ''t'' then char_of (9 :: nat)
                    else if x = CHR ''f'' then char_of (12 :: nat) else if x = CHR ''b'' then char_of (8 :: nat) else x, drop 2 t))"

lemma char_by_code: "of_char c = (n :: nat) \<Longrightarrow> char_of n = c"
  by auto

lemma unescape_escape: "unescape (json_escape c @ r) = (c, r)"
proof -
  define n where "n = (of_char c :: nat)"
  have c: "c = char_of n" by (simp add: n_def)
  have "n < 256" by (simp add: n_def)
  then have "n div 16 < 16" "n mod 16 < 16" by auto
  note hex = this [THEN hex_value_digit]
  consider "n \<in> {34, 92, 10, 13, 9, 12, 8}" | "n \<notin> {34, 92, 10, 13, 9, 12, 8}" "32 \<le> n \<and> n \<le> 126" | "n \<notin> {34, 92, 10, 13, 9, 12, 8}" "\<not> (32 \<le> n \<and> n \<le> 126)" by blast
  then show ?thesis
  proof cases
    case 1
    then show ?thesis
      by (elim insertE emptyE) (simp_all add: c json_escape_def unescape_def of_char_of, (rule char_by_code [symmetric], simp)+)
  next
    case 2
    then have "json_escape c = [c]" by (simp add: json_escape_def flip: n_def)
    moreover have "c \<noteq> CHR 0x5C" using 2(1) by (auto simp: n_def)
    ultimately show ?thesis by (simp add: unescape_def)
  next
    case 3
    then have "json_escape c = [CHR 0x5C, CHR ''u'', CHR ''0'', CHR ''0'', hex_digit (n div 16), hex_digit (n mod 16)]"
      by (simp add: json_escape_def flip: n_def)
    then show ?thesis using hex by (simp add: unescape_def flip: c)
  qed
qed

lemma escape_not_quote: "json_escape c @ r \<noteq> CHR 0x22 # s"
proof (cases "c = CHR 0x22")
  case False
  then show ?thesis by (simp add: json_escape_def Let_def)
qed (simp add: json_escape_def)

lemma quote_prefix: "json_quote s @ r = json_quote t @ r' \<Longrightarrow> s = t \<and> r = r'"
proof -
  have "concat (map json_escape s) @ CHR 0x22 # r = concat (map json_escape t) @ CHR 0x22 # r' \<Longrightarrow> s = t \<and> r = r'"
  proof (induction s arbitrary: t)
    case Nil
    then show ?case by (cases t) (auto simp: escape_not_quote [THEN not_sym])
  next
    case (Cons c s)
    then obtain d t' where t: "t = d # t'" by (cases t) (auto simp: escape_not_quote)
    have "unescape (json_escape c @ concat (map json_escape s) @ CHR 0x22 # r) = unescape (json_escape d @ concat (map json_escape t') @ CHR 0x22 # r')"
      using Cons.prems by (simp add: t)
    then show ?case using Cons.IH [of t'] by (simp add: unescape_escape t)
  qed
  then show "json_quote s @ r = json_quote t @ r' \<Longrightarrow> s = t \<and> r = r'" by (simp add: json_quote_def)
qed

text \<open>Items that determine themselves, joined and closed by a character none of them begins with.\<close>

lemma join_prefix:
  assumes det: "\<And>x y r s. x \<in> set xs \<Longrightarrow> p x @ r = p y @ s \<Longrightarrow> no_digit_next r \<Longrightarrow> no_digit_next s \<Longrightarrow> x = y \<and> r = s"
    and close: "\<And>x r s. p x @ r \<noteq> cl # s" "cl \<noteq> CHR '','' " "\<not> is_digit cl"
    and eq: "join_items (map p xs) @ cl # r = join_items (map p ys) @ cl # s"
  shows "xs = ys \<and> r = s"
  using det eq
proof (induction xs arbitrary: ys)
  case Nil
  show ?case
  proof (cases ys)
    case (Cons y ys')
    then show ?thesis using Nil(2) close(1) [of y, THEN not_sym] by (cases ys') auto
  qed (use Nil(2) in simp)
next
  case (Cons x xs)
  let ?rest = "\<lambda>zs t. if zs = [] then cl # t else '', '' @ join_items (map p zs) @ cl # t"
  have join: "join_items (map p (z # zs)) @ cl # t = p z @ ?rest zs t" for z zs t by (cases zs) auto
  have nd: "no_digit_next (?rest zs t)" for zs t using close(3) by (simp add: no_digit_next_def is_digit_def)
  obtain y ys' where ys: "ys = y # ys'"
    using Cons.prems(2) close(1) [of x] unfolding join by (cases ys) auto
  have "p x @ ?rest xs r = p y @ ?rest ys' s" using Cons.prems(2) unfolding ys join .
  from Cons.prems(1) [OF _ this nd nd] have xy: "x = y" "?rest xs r = ?rest ys' s" by auto
  show ?case
  proof (cases "xs = [] \<or> ys' = []")
    case True
    then show ?thesis using xy close(2) by (auto simp: ys split: if_splits)
  next
    case False
    then have "join_items (map p xs) @ cl # r = join_items (map p ys') @ cl # s" using xy(2) by simp
    then have "xs = ys' \<and> r = s" by (rule Cons.IH [rotated]) (rule Cons.prems(1), simp_all)
    then show ?thesis using xy(1) by (simp add: ys)
  qed
qed

text \<open>The kind of a value shows in the first character of its text.\<close>

fun kind_of :: "json \<Rightarrow> nat" where
  "kind_of JNull = 0"
| "kind_of (JBool b) = (if b then 1 else 2)"
| "kind_of (JNum n) = 3"
| "kind_of (JString s) = 4"
| "kind_of (JArr xs) = 5"
| "kind_of (JObj kvs) = 6"

definition kind_char :: "char \<Rightarrow> nat" where
  "kind_char c = (if c = CHR ''n'' then 0 else if c = CHR ''t'' then 1 else if c = CHR ''f'' then 2 else if c = CHR 0x22 then 4
     else if c = CHR ''['' then 5 else if c = CHR ''{'' then 6 else if is_digit c \<or> c = CHR ''-'' then 3 else 7)"

lemma plain_kind: "plain v @ r \<noteq> [] \<and> kind_char (hd (plain v @ r)) = kind_of v"
proof (cases v)
  case (JNum n)
  have "nat_str k @ r \<noteq> [] \<and> kind_char (hd (nat_str k @ r)) = 3" for k
    using nat_str_digits [of k] by (cases "nat_str k") (auto simp: kind_char_def is_digit_def)
  moreover have "kind_char CHR ''-'' = 3" by (simp add: kind_char_def)
  ultimately show ?thesis by (simp only: JNum int_str_def plain.simps kind_of.simps split: if_split) simp
qed (simp_all add: kind_char_def json_quote_def)

lemma plain_close: "plain v @ r \<noteq> CHR '']'' # s"
  using plain_kind [of v r] by (cases v) (auto simp: kind_char_def is_digit_def)

lemma kind_cases:
  "kind_of w = 0 \<longleftrightarrow> w = JNull" "kind_of w = 1 \<longleftrightarrow> w = JBool True" "kind_of w = 2 \<longleftrightarrow> w = JBool False" "kind_of w = 3 \<longleftrightarrow> (\<exists>n. w = JNum n)"
  "kind_of w = 4 \<longleftrightarrow> (\<exists>t. w = JString t)" "kind_of w = 5 \<longleftrightarrow> (\<exists>xs. w = JArr xs)" "kind_of w = 6 \<longleftrightarrow> (\<exists>kvs. w = JObj kvs)"
  by (cases w; simp)+

lemma plain_same_kind: "plain v @ r = plain w @ s \<Longrightarrow> kind_of w = kind_of v"
  by (metis plain_kind)

lemma plain_prefix:
  "plain v @ r = plain w @ s \<Longrightarrow> no_digit_next r \<Longrightarrow> no_digit_next s \<Longrightarrow> v = w \<and> r = s"
proof (induction v arbitrary: w r s)
  case (JArr xs)
  then obtain ys where w: "w = JArr ys" using plain_same_kind [OF JArr.prems(1)] kind_cases by auto
  have "xs = ys \<and> r = s"
  proof (rule join_prefix [where p = plain and cl = "CHR '']''"])
    show "join_items (map plain xs) @ CHR '']'' # r = join_items (map plain ys) @ CHR '']'' # s" using JArr.prems(1) by (simp add: w)
  qed (use JArr.IH plain_close in \<open>simp_all add: is_digit_def\<close>)
  then show ?case by (simp add: w)
next
  case (JObj kvs)
  let ?entry = "\<lambda>(k, v). json_quote k @ '': '' @ plain v"
  obtain lvs where w: "w = JObj lvs" using plain_same_kind [OF JObj.prems(1)] kind_cases by auto
  have det: "kv = lw \<and> r' = s'"
    if mem: "kv \<in> set kvs" and eq: "?entry kv @ r' = ?entry lw @ s'" and nd: "no_digit_next r'" "no_digit_next s'" for kv lw r' s'
  proof -
    obtain k v l u where p: "kv = (k, v)" "lw = (l, u)" by fastforce
    have "json_quote k @ '': '' @ plain v @ r' = json_quote l @ '': '' @ plain u @ s'" using eq by (simp add: p)
    from quote_prefix [OF this] have "k = l" "plain v @ r' = plain u @ s'" by auto
    then show ?thesis using JObj.IH [of kv v] mem nd by (auto simp: p)
  qed
  have "kvs = lvs \<and> r = s"
  proof (rule join_prefix [where p = ?entry and cl = "CHR ''}''"])
    show "?entry kv @ r' \<noteq> CHR ''}'' # s'" for kv r' s' by (cases kv) (simp add: json_quote_def)
    show "join_items (map ?entry kvs) @ CHR ''}'' # r = join_items (map ?entry lvs) @ CHR ''}'' # s" using JObj.prems(1) by (simp add: w)
  qed (fact det, simp_all add: is_digit_def)
  then show ?case by (simp add: w)
next
  case (JNum n)
  then obtain m where "w = JNum m" using plain_same_kind [OF JNum(1)] kind_cases by auto
  then show ?case using JNum int_str_prefix [of n r m s] by simp
next
  case (JString t)
  then obtain t' where "w = JString t'" using plain_same_kind [OF JString(1)] kind_cases by auto
  then show ?case using JString(1) quote_prefix [of t r t' s] by simp
next
  case JNull
  then have "w = JNull" using plain_same_kind [OF JNull(1)] kind_cases by auto
  then show ?case using JNull by simp
next
  case (JBool b)
  then have "w = JBool b" using plain_same_kind [OF JBool(1)] kind_cases(2,3) by (cases b) auto
  then show ?case using JBool by simp
qed

lemma json_dumps_inject: "json_dumps v = json_dumps w \<longleftrightarrow> canon v = canon w"
  using plain_prefix [of "canon v" "[]" "canon w" "[]"] by (auto simp: plain_canon no_digit_next_def simp flip: plain_canon)

end
