(* ===== verification/DoomLoop.thy ===== *)
theory DoomLoop
  imports JsonText
begin

text \<open>
  The detector of agents that repeat themselves: \<open>src/infrastructure/agent/doom_loop/detector.py\<close>. Bounded queues
  (\<open>deque(maxlen=n)\<close>) are lists that lose their oldest entries; inputs of tools are the values of theory
  \<open>JsonText\<close>. The lock of the detector makes every method one step.
\<close>

section \<open>State and operations\<close>

record tool_call_record =
  tc_tool :: string
  tc_input :: json
  tc_input_hash :: string
  tc_timestamp :: real

record tool_error_record =
  te_tool :: string
  te_error :: string
  te_timestamp :: real

record detector =
  dl_threshold :: int
  dl_window_size :: nat
  dl_window :: "tool_call_record list"
  dl_error_threshold :: int
  dl_error_history_max :: nat
  dl_consecutive_errors :: "tool_error_record list"

text \<open>\<open>deque.append\<close> of a queue of at most \<open>n\<close> entries.\<close>

definition deque_append :: "nat \<Rightarrow> 'a \<Rightarrow> 'a list \<Rightarrow> 'a list" where
  "deque_append n x q = (let q' = q @ [x] in drop (length q' - n) q')"

datatype detector_error = NegativeMaxlen int

definition detector_init :: "int \<Rightarrow> int \<Rightarrow> int option \<Rightarrow> detector_error + detector" where
  "detector_init threshold window_size error_threshold =
     (if window_size < 0 then Inl (NegativeMaxlen window_size)
      else let et = (case error_threshold of Some t \<Rightarrow> t | None \<Rightarrow> threshold * 2)
           in Inr \<lparr>dl_threshold = threshold, dl_window_size = nat window_size, dl_window = [], dl_error_threshold = et,
                    dl_error_history_max = nat (max (et * 2) window_size), dl_consecutive_errors = []\<rparr>)"

fun type_name :: "json \<Rightarrow> string" where
  "type_name JNull = ''NoneType''"
| "type_name (JBool b) = ''bool''"
| "type_name (JNum n) = ''int''"
| "type_name (JString s) = ''str''"
| "type_name (JArr xs) = ''list''"
| "type_name (JObj kvs) = ''dict''"

definition hash_input :: "json \<Rightarrow> string" where
  "hash_input v = type_name v @ ''::'' @ json_dumps v"

definition record_call :: "real \<Rightarrow> string \<Rightarrow> json \<Rightarrow> detector \<Rightarrow> detector" where
  "record_call now tool v d =
     d\<lparr>dl_window := deque_append (dl_window_size d) \<lparr>tc_tool = tool, tc_input = v, tc_input_hash = hash_input v, tc_timestamp = now\<rparr> (dl_window d)\<rparr>"

definition record_error :: "real \<Rightarrow> string \<Rightarrow> string \<Rightarrow> detector \<Rightarrow> detector" where
  "record_error now tool e d =
     d\<lparr>dl_consecutive_errors := deque_append (dl_error_history_max d) \<lparr>te_tool = tool, te_error = e, te_timestamp = now\<rparr> (dl_consecutive_errors d)\<rparr>"

definition reset_errors :: "detector \<Rightarrow> detector" where
  "reset_errors d = d\<lparr>dl_consecutive_errors := []\<rparr>"

definition consecutive_error_count :: "detector \<Rightarrow> int" where
  "consecutive_error_count d = int (length (dl_consecutive_errors d))"

definition should_intervene :: "string \<Rightarrow> json \<Rightarrow> detector \<Rightarrow> bool" where
  "should_intervene tool v d =
     (if int (length (dl_window d)) < dl_threshold d then False
      else list_all (\<lambda>r. tc_tool r = tool \<and> tc_input_hash r = hash_input v) (py_last_n (dl_threshold d) (dl_window d)))"

definition should_intervene_on_errors :: "detector \<Rightarrow> bool" where
  "should_intervene_on_errors d \<longleftrightarrow> int (length (dl_consecutive_errors d)) \<ge> dl_error_threshold d"

definition get_recent_errors :: "int \<Rightarrow> detector \<Rightarrow> tool_error_record list" where
  "get_recent_errors n d = py_last_n n (dl_consecutive_errors d)"

definition get_recent_calls :: "int \<Rightarrow> detector \<Rightarrow> tool_call_record list" where
  "get_recent_calls n d = py_last_n n (dl_window d)"

definition detector_clear :: "detector \<Rightarrow> detector" where
  "detector_clear d = d\<lparr>dl_window := [], dl_consecutive_errors := []\<rparr>"

definition reset_for_new_conversation :: "detector \<Rightarrow> detector" where
  "reset_for_new_conversation d = detector_clear d"

section \<open>Histories\<close>

datatype detector_event =
    RecordCall real string json
  | RecordError real string string
  | ResetErrors
  | Clear

fun detector_step :: "detector \<Rightarrow> detector_event \<Rightarrow> detector" where
  "detector_step d (RecordCall now tool v) = record_call now tool v d"
| "detector_step d (RecordError now tool e) = record_error now tool e d"
| "detector_step d ResetErrors = reset_errors d"
| "detector_step d Clear = detector_clear d"

text \<open>The calls since the last clearing, and the errors since the last success or clearing, oldest first.\<close>

fun calls_step :: "(string \<times> json) list \<Rightarrow> detector_event \<Rightarrow> (string \<times> json) list" where
  "calls_step cs (RecordCall now tool v) = cs @ [(tool, v)]"
| "calls_step cs Clear = []"
| "calls_step cs _ = cs"

fun errors_step :: "(string \<times> string) list \<Rightarrow> detector_event \<Rightarrow> (string \<times> string) list" where
  "errors_step es (RecordError now tool e) = es @ [(tool, e)]"
| "errors_step es ResetErrors = []"
| "errors_step es Clear = []"
| "errors_step es _ = es"

text \<open>A bounded queue holds the end of what was appended.\<close>

definition last_of :: "nat \<Rightarrow> 'a list \<Rightarrow> 'a list" where
  "last_of n xs = drop (length xs - n) xs"

lemma last_of_append: "deque_append n x (last_of n xs) = last_of n (xs @ [x])"
  by (cases "length xs < n") (auto simp: deque_append_def last_of_def Let_def drop_append Suc_diff_le)

lemma last_of_Nil [simp]: "last_of n [] = []"
  by (simp add: last_of_def)

lemma length_last_of: "length (last_of n xs) = min n (length xs)"
  by (simp add: last_of_def)

lemma last_of_last_of: "m \<le> n \<Longrightarrow> last_of m (last_of n xs) = last_of m xs"
  by (cases "n \<le> length xs") (simp_all add: last_of_def)

lemma map_last_of: "map f (last_of n xs) = last_of n (map f xs)"
  by (simp add: last_of_def drop_map)

definition call_key :: "tool_call_record \<Rightarrow> string \<times> string" where
  "call_key r = (tc_tool r, tc_input_hash r)"

definition event_key :: "string \<times> json \<Rightarrow> string \<times> string" where
  "event_key c = (fst c, hash_input (snd c))"

definition holds_history :: "(string \<times> json) list \<Rightarrow> (string \<times> string) list \<Rightarrow> detector \<Rightarrow> bool" where
  "holds_history calls errors d \<longleftrightarrow>
     map call_key (dl_window d) = last_of (dl_window_size d) (map event_key calls) \<and>
     map (\<lambda>e. (te_tool e, te_error e)) (dl_consecutive_errors d) = last_of (dl_error_history_max d) errors"

lemma map_deque_append: "map f (deque_append n x q) = deque_append n (f x) (map f q)"
  unfolding deque_append_def Let_def by (simp only: drop_map [symmetric]) simp

lemma history_step:
  "holds_history calls errors d \<Longrightarrow> holds_history (calls_step calls ev) (errors_step errors ev) (detector_step d ev)"
  by (cases ev)
    (simp_all add: holds_history_def record_call_def record_error_def reset_errors_def detector_clear_def map_deque_append last_of_append
      call_key_def event_key_def)

lemma history_run:
  "holds_history calls errors d \<Longrightarrow>
   holds_history (foldl calls_step calls evs) (foldl errors_step errors evs) (foldl detector_step d evs)"
  by (induction evs arbitrary: calls errors d) (simp_all add: history_step)

lemma step_settings [simp]:
  "dl_threshold (detector_step d ev) = dl_threshold d" "dl_window_size (detector_step d ev) = dl_window_size d"
  "dl_error_threshold (detector_step d ev) = dl_error_threshold d" "dl_error_history_max (detector_step d ev) = dl_error_history_max d"
  by (cases ev; simp add: record_call_def record_error_def reset_errors_def detector_clear_def)+

lemma run_settings [simp]:
  "dl_threshold (foldl detector_step d evs) = dl_threshold d" "dl_window_size (foldl detector_step d evs) = dl_window_size d"
  "dl_error_threshold (foldl detector_step d evs) = dl_error_threshold d"
  "dl_error_history_max (foldl detector_step d evs) = dl_error_history_max d"
  by (induction evs arbitrary: d) simp_all

lemma type_name_canon: "type_name (canon v) = type_name v"
  by (cases v) simp_all

text \<open>Two inputs have the same hash exactly when they differ at most in the order of keys.\<close>

lemma hash_input_inject: "hash_input v = hash_input w \<longleftrightarrow> canon v = canon w"
proof
  assume "canon v = canon w"
  then show "hash_input v = hash_input w"
    using type_name_canon [of v] type_name_canon [of w] json_dumps_inject [of v w] by (simp add: hash_input_def)
next
  assume "hash_input v = hash_input w"
  moreover from this have "type_name v = type_name w"
    by (cases v; cases w) (simp_all add: hash_input_def)
  ultimately show "canon v = canon w" by (simp add: hash_input_def json_dumps_inject)
qed

lemma py_last_n_pos: "0 < n \<Longrightarrow> py_last_n n xs = last_of (nat n) xs"
  by (simp add: py_last_n_def last_of_def)


definition same_search :: "detector_event list" where
  "same_search =
     [RecordCall 0 ''search'' (JObj [(''q'', JString ''x''), (''n'', JNum 3)]), RecordError 1 ''t'' ''Unknown tool'',
      RecordCall 2 ''search'' (JObj [(''n'', JNum 3), (''q'', JString ''x'')])]"


text \<open>
  A threshold above the window size switches the detector off: the window never holds enough calls. The session
  processor passes its configured threshold and leaves the window at ten.
\<close>

lemma threshold_above_window:
  assumes "detector_init threshold window_size error_threshold = Inr d0" and "window_size < threshold"
  shows "\<not> should_intervene tool v (foldl detector_step d0 evs)"
proof -
  have d0: "dl_threshold d0 = threshold" "int (dl_window_size d0) = window_size" "holds_history [] [] d0"
    using assms(1) by (auto simp: detector_init_def holds_history_def Let_def split: if_splits)
  let ?d = "foldl detector_step d0 evs"
  have "map call_key (dl_window ?d) = last_of (dl_window_size d0) (map event_key (foldl calls_step [] evs))"
    using history_run [OF d0(3), of evs] by (simp add: holds_history_def)
  then have "length (dl_window ?d) \<le> dl_window_size d0"
    using length_last_of [of "dl_window_size d0" "map event_key (foldl calls_step [] evs)"] by (metis length_map min.cobounded1)
  then show ?thesis using assms(2) d0 by (simp add: should_intervene_def)
qed

end
