(* ===== verification/CostTracker.thy ===== *)
theory CostTracker
  imports Prelude
begin

text \<open>
  Prices and budgets of model calls: \<open>src/infrastructure/agent/cost/pricing_loader.py\<close> and \<open>tracker.py\<close>. Decimals are
  rational numbers, which they are as long as no result needs more than 28 digits. A value of the usage
  dictionary is what the code observes of it: whether it is true and what \<open>int\<close> makes of it (\<open>None\<close> when that
  raises \<open>ValueError\<close> or \<open>TypeError\<close>; the overflow of an infinite float is left out). The YAML file is given by its
  modification time and its parsed content.
\<close>

section \<open>Prices\<close>

datatype model_cost =
  ModelCost (mc_input: rat) (mc_output: rat) (mc_cache_read: "rat option") (mc_cache_write: "rat option")
    (mc_reasoning: "rat option") (mc_context_over_200k: "model_cost option")

text \<open>A price as the file has it.\<close>

datatype cost_value = Absent | NullValue | Number rat | NotFinite | NotANumber

datatype pricing_error =
    PricingFileNotFound
  | InvalidYaml
  | NotADictionary
  | DefaultNotADictionary
  | ModelsNotADictionary
  | ModelNotADictionary string
  | MissingInputOrOutput
  | InvalidCostValue string

definition parse_cost_value :: "cost_value \<Rightarrow> string \<Rightarrow> pricing_error + rat" where
  "parse_cost_value v fld =
     (let error_field = (if fld \<in> {''input'', ''output''} then ''Decimal'' else fld)
      in case v of
           Number q \<Rightarrow> if q < 0 then Inl (InvalidCostValue error_field) else Inr q
         | _ \<Rightarrow> Inl (InvalidCostValue error_field))"

record cost_data =
  cd_input :: cost_value
  cd_output :: cost_value
  cd_cache_read :: cost_value
  cd_cache_write :: cost_value
  cd_reasoning :: cost_value
  cd_context_over_200k :: cost_value

definition parse_optional :: "cost_value \<Rightarrow> string \<Rightarrow> pricing_error + rat option" where
  "parse_optional v fld = (if v \<in> {Absent, NullValue} then Inr None else map_sum id Some (parse_cost_value v fld))"

definition parse_model_cost :: "cost_data \<Rightarrow> pricing_error + model_cost" where
  "parse_model_cost d =
     (if cd_input d \<in> {Absent, NullValue} \<or> cd_output d \<in> {Absent, NullValue} then Inl MissingInputOrOutput
      else case parse_cost_value (cd_input d) ''input'' of Inl e \<Rightarrow> Inl e
      | Inr input_cost \<Rightarrow> (case parse_cost_value (cd_output d) ''output'' of Inl e \<Rightarrow> Inl e
      | Inr output_cost \<Rightarrow> (case parse_optional (cd_cache_read d) ''cache_read'' of Inl e \<Rightarrow> Inl e
      | Inr cache_read \<Rightarrow> (case parse_optional (cd_cache_write d) ''cache_write'' of Inl e \<Rightarrow> Inl e
      | Inr cache_write \<Rightarrow> (case parse_optional (cd_reasoning d) ''reasoning'' of Inl e \<Rightarrow> Inl e
      | Inr reasoning \<Rightarrow> Inr (ModelCost input_cost output_cost cache_read cache_write reasoning None))))))"

datatype 'a yaml_section = SectionAbsent | SectionOther | SectionDict 'a

datatype yaml_file =
    NoSuchFile
  | BadYaml
  | OtherYaml
  | YamlFile "cost_data yaml_section" "(string, cost_data option) dict yaml_section"

text \<open>An absent default section is an empty dictionary, which has no prices.\<close>

definition empty_cost_data :: cost_data where
  "empty_cost_data = \<lparr>cd_input = Absent, cd_output = Absent, cd_cache_read = Absent, cd_cache_write = Absent, cd_reasoning = Absent,
     cd_context_over_200k = Absent\<rparr>"

fun parse_models :: "(string, cost_data option) dict \<Rightarrow> (string, model_cost) dict \<Rightarrow> pricing_error + (string, model_cost) dict" where
  "parse_models [] acc = Inr acc"
| "parse_models ((name, d) # rest) acc =
     (case d of
        None \<Rightarrow> Inl (ModelNotADictionary name)
      | Some cost_data \<Rightarrow> (case parse_model_cost cost_data of Inl e \<Rightarrow> Inl e | Inr c \<Rightarrow> parse_models rest (dict_set name c acc)))"

definition load_pricing_from_file :: "yaml_file \<Rightarrow> pricing_error + (string, model_cost) dict \<times> model_cost" where
  "load_pricing_from_file f =
     (case f of
        NoSuchFile \<Rightarrow> Inl PricingFileNotFound
      | BadYaml \<Rightarrow> Inl InvalidYaml
      | OtherYaml \<Rightarrow> Inl NotADictionary
      | YamlFile default_section models_section \<Rightarrow>
          (if default_section = SectionOther then Inl DefaultNotADictionary
           else case parse_model_cost (case default_section of SectionDict d \<Rightarrow> d | _ \<Rightarrow> empty_cost_data) of
                  Inl e \<Rightarrow> Inl e
                | Inr default_cost \<Rightarrow>
                    (if models_section = SectionOther then Inl ModelsNotADictionary
                     else case parse_models (case models_section of SectionDict ms \<Rightarrow> ms | _ \<Rightarrow> []) [] of
                            Inl e \<Rightarrow> Inl e
                          | Inr costs \<Rightarrow> Inr (costs, default_cost))))"

record pricing_cache =
  pc_pricing :: "(string, model_cost) dict"
  pc_default_cost :: "model_cost option"
  pc_file_mtime :: real

definition pricing_cache_init :: pricing_cache where
  "pricing_cache_init = \<lparr>pc_pricing = [], pc_default_cost = None, pc_file_mtime = 0\<rparr>"

text \<open>\<open>mtime\<close> and \<open>mtime2\<close> are the answers of \<open>os.path.getmtime\<close> before and under the lock.\<close>

definition get_model_costs ::
  "real option \<Rightarrow> real option \<Rightarrow> yaml_file \<Rightarrow> pricing_cache \<Rightarrow> (pricing_error + (string, model_cost) dict) \<times> pricing_cache" where
  "get_model_costs mtime mtime2 f pc =
     (case mtime of
        None \<Rightarrow> (Inl PricingFileNotFound, pc)
      | Some t \<Rightarrow>
          if t \<noteq> pc_file_mtime pc
          then (case mtime2 of
                  None \<Rightarrow> (Inl PricingFileNotFound, pc)
                | Some t2 \<Rightarrow>
                    if t2 \<noteq> pc_file_mtime pc
                    then (case load_pricing_from_file f of
                            Inl e \<Rightarrow> (Inl e, pc)
                          | Inr (costs, default_cost) \<Rightarrow>
                              (Inr costs, \<lparr>pc_pricing = costs, pc_default_cost = Some default_cost, pc_file_mtime = t2\<rparr>))
                    else (Inr (pc_pricing pc), pc))
          else (Inr (pc_pricing pc), pc))"

definition get_default_cost ::
  "real option \<Rightarrow> real option \<Rightarrow> yaml_file \<Rightarrow> pricing_cache \<Rightarrow> (pricing_error + model_cost) \<times> pricing_cache" where
  "get_default_cost mtime mtime2 f pc =
     (case get_model_costs mtime mtime2 f pc of
        (Inl e, pc1) \<Rightarrow> (Inl e, pc1)
      | (Inr _, pc1) \<Rightarrow>
          (Inr (case pc_default_cost pc1 of None \<Rightarrow> ModelCost (15 / 100) (60 / 100) None None None None | Some c \<Rightarrow> c), pc1))"

section \<open>Token usage\<close>

record token_usage =
  tu_input :: int
  tu_output :: int
  tu_reasoning :: int
  tu_cache_read :: int
  tu_cache_write :: int

definition no_tokens :: token_usage where
  "no_tokens = \<lparr>tu_input = 0, tu_output = 0, tu_reasoning = 0, tu_cache_read = 0, tu_cache_write = 0\<rparr>"

definition tu_total :: "token_usage \<Rightarrow> int" where
  "tu_total u = tu_input u + tu_output u + tu_reasoning u"

definition tu_total_with_cache :: "token_usage \<Rightarrow> int" where
  "tu_total_with_cache u = tu_total u + tu_cache_read u + tu_cache_write u"

record usage_value =
  uv_true :: bool
  uv_int :: "int option"

type_synonym usage = "(string, usage_value) dict"

definition int_value :: "int \<Rightarrow> usage_value" where
  "int_value n = \<lparr>uv_true = (n \<noteq> 0), uv_int = Some n\<rparr>"

definition safe_int :: "usage_value \<Rightarrow> int" where
  "safe_int v = (case uv_int v of None \<Rightarrow> 0 | Some n \<Rightarrow> if n \<ge> 0 then n else 0)"

text \<open>\<open>d.get(k1) or d.get(k2) or default\<close>.\<close>

fun first_true :: "usage \<Rightarrow> string list \<Rightarrow> usage_value \<Rightarrow> usage_value" where
  "first_true d [] dflt = dflt"
| "first_true d (k # ks) dflt = (case dict_get d k of None \<Rightarrow> first_true d ks dflt | Some v \<Rightarrow> if uv_true v then v else first_true d ks dflt)"

text \<open>Provider metadata: the \<open>anthropic\<close> entry and the \<open>usage\<close> of the \<open>bedrock\<close> entry, empty when absent.\<close>

record provider_metadata =
  pm_anthropic :: usage
  pm_bedrock_usage :: usage

definition parse_usage :: "usage \<Rightarrow> provider_metadata option \<Rightarrow> token_usage" where
  "parse_usage u meta =
     (let input_tokens = safe_int (first_true u [''input_tokens'', ''prompt_tokens''] (int_value 0));
          output_tokens = safe_int (first_true u [''output_tokens'', ''completion_tokens''] (int_value 0));
          reasoning_tokens = safe_int (first_true u [''reasoning_tokens''] (int_value 0));
          cache_read = safe_int (first_true u [''cache_read_tokens'', ''cached_tokens''] (int_value 0));
          cache_write = safe_int (first_true u [''cache_write_tokens'', ''cache_creation_tokens''] (int_value 0));
          (cache_write, cache_read) =
            (case meta of
               None \<Rightarrow> (cache_write, cache_read)
             | Some m \<Rightarrow>
                 (let cw = (if pm_anthropic m \<noteq> [] then safe_int (first_true (pm_anthropic m) [''cacheCreationInputTokens''] (int_value cache_write))
                            else cache_write)
                  in if pm_bedrock_usage m \<noteq> []
                     then (safe_int (first_true (pm_bedrock_usage m) [''cacheWriteInputTokens''] (int_value cw)),
                           safe_int (first_true (pm_bedrock_usage m) [''cacheReadInputTokens''] (int_value cache_read)))
                     else (cw, cache_read)));
          cached_input = safe_int (first_true u [''cachedInputTokens'', ''cached_input_tokens''] (int_value 0));
          cache_read = (if cached_input > 0 \<and> cache_read = 0 then cached_input else cache_read)
      in \<lparr>tu_input = input_tokens, tu_output = output_tokens, tu_reasoning = reasoning_tokens, tu_cache_read = cache_read,
          tu_cache_write = cache_write\<rparr>)"

section \<open>The tracker\<close>

record cost_tracker =
  ct_context_limit :: int
  ct_max_cost_per_request :: rat
  ct_max_cost_per_session :: rat
  ct_total_cost :: rat
  ct_total_tokens :: token_usage
  ct_call_count :: int

definition tracker_init :: "int \<Rightarrow> rat \<Rightarrow> rat \<Rightarrow> cost_tracker" where
  "tracker_init context_limit max_request max_session =
     \<lparr>ct_context_limit = context_limit, ct_max_cost_per_request = max_request, ct_max_cost_per_session = max_session, ct_total_cost = 0,
      ct_total_tokens = no_tokens, ct_call_count = 0\<rparr>"

datatype budget_error = RequestOverLimit rat rat | SessionOverLimit rat rat

definition true_price :: "rat option \<Rightarrow> rat option" where
  "true_price p = (case p of None \<Rightarrow> None | Some q \<Rightarrow> if q = 0 then None else Some q)"

definition calculate_cost :: "token_usage \<Rightarrow> model_cost \<Rightarrow> rat" where
  "calculate_cost tokens info =
     (let cost = of_int (tu_input tokens) * mc_input info / 1000000;
          cost = cost + of_int (tu_output tokens) * mc_output info / 1000000;
          cost = (if tu_reasoning tokens > 0
                  then cost + of_int (tu_reasoning tokens) * (case true_price (mc_reasoning info) of None \<Rightarrow> mc_output info | Some q \<Rightarrow> q) / 1000000
                  else cost);
          cost = (case true_price (mc_cache_read info) of
                    None \<Rightarrow> cost
                  | Some q \<Rightarrow> if tu_cache_read tokens > 0 then cost + of_int (tu_cache_read tokens) * q / 1000000 else cost);
          cost = (case true_price (mc_cache_write info) of
                    None \<Rightarrow> cost
                  | Some q \<Rightarrow> if tu_cache_write tokens > 0 then cost + of_int (tu_cache_write tokens) * q / 1000000 else cost)
      in cost)"

definition add_tokens :: "token_usage \<Rightarrow> token_usage \<Rightarrow> token_usage" where
  "add_tokens a b =
     \<lparr>tu_input = tu_input a + tu_input b, tu_output = tu_output a + tu_output b, tu_reasoning = tu_reasoning a + tu_reasoning b,
      tu_cache_read = tu_cache_read a + tu_cache_read b, tu_cache_write = tu_cache_write a + tu_cache_write b\<rparr>"

definition update_totals :: "rat \<Rightarrow> token_usage \<Rightarrow> cost_tracker \<Rightarrow> budget_error option \<times> cost_tracker" where
  "update_totals cost tokens ct =
     (if ct_max_cost_per_request ct > 0 \<and> cost > ct_max_cost_per_request ct
      then (Some (RequestOverLimit cost (ct_max_cost_per_request ct)), ct)
      else let ct1 = ct\<lparr>ct_total_cost := ct_total_cost ct + cost\<rparr>
           in if ct_max_cost_per_session ct1 > 0 \<and> ct_total_cost ct1 > ct_max_cost_per_session ct1
              then (Some (SessionOverLimit (ct_total_cost ct1) (ct_max_cost_per_session ct1)), ct1)
              else (None, ct1\<lparr>ct_total_tokens := add_tokens (ct_total_tokens ct1) tokens, ct_call_count := ct_call_count ct1 + 1\<rparr>))"

definition py_in :: "string \<Rightarrow> string \<Rightarrow> bool" where
  "py_in p s \<longleftrightarrow> list_ex (\<lambda>i. take (length p) (drop i s) = p) [0..<Suc (length s)]"

definition before_dash :: "string \<Rightarrow> string" where
  "before_dash s = takeWhile (\<lambda>c. c \<noteq> CHR ''-'') s"

definition get_cost_info :: "(string, model_cost) dict \<Rightarrow> model_cost \<Rightarrow> string \<Rightarrow> model_cost" where
  "get_cost_info costs default_cost model_name =
     (let model_lower = py_lower model_name
      in case dict_get costs model_lower of
           Some c \<Rightarrow> c
         | None \<Rightarrow> (case find (\<lambda>(k, c). py_in k model_lower) costs of
              Some (k, c) \<Rightarrow> c
            | None \<Rightarrow> (case find (\<lambda>(k, c). take (length (before_dash k)) model_lower = before_dash k) costs of
                 Some (k, c) \<Rightarrow> c
               | None \<Rightarrow> default_cost)))"

definition select_cost_info :: "int \<Rightarrow> token_usage \<Rightarrow> model_cost \<Rightarrow> model_cost" where
  "select_cost_info limit tokens info =
     (case mc_context_over_200k info of
        None \<Rightarrow> info
      | Some over \<Rightarrow> if tu_input tokens + tu_cache_read tokens > limit then over else info)"

definition ct_calculate ::
  "(string, model_cost) dict \<Rightarrow> model_cost \<Rightarrow> usage \<Rightarrow> string \<Rightarrow> provider_metadata option \<Rightarrow> cost_tracker \<Rightarrow>
     (budget_error + rat \<times> token_usage) \<times> cost_tracker" where
  "ct_calculate costs default_cost u model_name meta ct =
     (let tokens = parse_usage u meta;
          cost = calculate_cost tokens (select_cost_info (ct_context_limit ct) tokens (get_cost_info costs default_cost model_name))
      in case update_totals cost tokens ct of
           (Some e, ct1) \<Rightarrow> (Inl e, ct1)
         | (None, ct1) \<Rightarrow> (Inr (cost, tokens), ct1))"

definition needs_compaction :: "token_usage \<Rightarrow> cost_tracker \<Rightarrow> bool" where
  "needs_compaction tokens ct \<longleftrightarrow> of_int (tu_input tokens + tu_cache_read tokens) > (of_int (ct_context_limit ct) * 8 / 10 :: rat)"

definition average_cost_per_call :: "cost_tracker \<Rightarrow> rat" where
  "average_cost_per_call ct = (if ct_call_count ct > 0 then ct_total_cost ct / of_int (ct_call_count ct) else 0)"

definition ct_reset :: "cost_tracker \<Rightarrow> cost_tracker" where
  "ct_reset ct = ct\<lparr>ct_total_cost := 0, ct_total_tokens := no_tokens, ct_call_count := 0\<rparr>"

section \<open>Prices are not negative\<close>

fun nonneg_price :: "rat option \<Rightarrow> bool" where
  "nonneg_price None = True"
| "nonneg_price (Some q) = (0 \<le> q)"

definition priced :: "model_cost \<Rightarrow> bool" where
  "priced c \<longleftrightarrow> 0 \<le> mc_input c \<and> 0 \<le> mc_output c \<and> nonneg_price (mc_cache_read c) \<and> nonneg_price (mc_cache_write c) \<and>
     nonneg_price (mc_reasoning c) \<and> mc_context_over_200k c = None"

lemma parse_cost_value_nonneg: "parse_cost_value v fld = Inr q \<Longrightarrow> 0 \<le> q"
  by (auto simp: parse_cost_value_def Let_def split: cost_value.splits if_splits)

lemma parse_optional_nonneg: "parse_optional v fld = Inr p \<Longrightarrow> nonneg_price p"
  by (cases "parse_cost_value v fld") (auto simp: parse_optional_def parse_cost_value_nonneg split: if_splits)

lemma parse_model_cost_priced: "parse_model_cost d = Inr c \<Longrightarrow> priced c"
  by (auto simp: parse_model_cost_def priced_def dest: parse_cost_value_nonneg parse_optional_nonneg split: if_splits sum.splits)

lemma parse_models_priced:
  "parse_models ms acc = Inr costs \<Longrightarrow> list_all (priced \<circ> snd) acc \<Longrightarrow> list_all (priced \<circ> snd) costs"
proof (induction ms acc rule: parse_models.induct)
  case (2 name d rest acc)
  then obtain cd c where d: "d = Some cd" "parse_model_cost cd = Inr c" "parse_models rest (dict_set name c acc) = Inr costs"
    by (auto split: option.splits sum.splits)
  have "list_all (priced \<circ> snd) (dict_set name c acc)"
    using 2(3) parse_model_cost_priced [OF d(2)] by (auto simp: list_all_iff dest: dict_set_mem)
  then show ?case using 2(1) [OF d(1,2)] d(3) by blast
qed simp

lemma load_priced:
  assumes "load_pricing_from_file f = Inr (costs, default_cost)"
  shows "list_all (priced \<circ> snd) costs" "priced default_cost"
  using assms parse_models_priced [where acc = "[]"] parse_model_cost_priced
  by (auto simp: load_pricing_from_file_def split: yaml_file.splits if_splits sum.splits)

lemma get_cost_info_priced:
  assumes "list_all (priced \<circ> snd) costs" and "priced default_cost"
  shows "priced (get_cost_info costs default_cost name)"
proof -
  have "(k, c) \<in> set costs \<Longrightarrow> priced c" for k c using assms(1) by (auto simp: list_all_iff)
  then show ?thesis using assms(2)
    by (auto simp: get_cost_info_def Let_def find_Some_iff split: option.splits dest!: map_of_SomeD nth_mem)
qed

lemma parse_usage_nonneg:
  "0 \<le> tu_input (parse_usage u meta)" "0 \<le> tu_output (parse_usage u meta)"
proof -
  have "0 \<le> safe_int v" for v by (simp add: safe_int_def split: option.split)
  then show "0 \<le> tu_input (parse_usage u meta)" "0 \<le> tu_output (parse_usage u meta)"
    by (simp_all add: parse_usage_def Let_def split: prod.split)
qed

lemma calculate_cost_nonneg:
  assumes "priced info" and "0 \<le> tu_input tokens" and "0 \<le> tu_output tokens"
  shows "0 \<le> calculate_cost tokens info"
proof -
  have true: "true_price p = Some q \<Longrightarrow> nonneg_price p \<Longrightarrow> 0 \<le> q" for p q
    by (auto simp: true_price_def split: option.splits if_splits)
  show ?thesis using assms true [of "mc_reasoning info"] true [of "mc_cache_read info"] true [of "mc_cache_write info"]
    by (auto simp: calculate_cost_def Let_def priced_def intro!: add_nonneg_nonneg divide_nonneg_nonneg mult_nonneg_nonneg split: option.split)
qed

section \<open>The budget of a session\<close>

record cost_call =
  cc_costs :: "(string, model_cost) dict"
  cc_default_cost :: model_cost
  cc_usage :: usage
  cc_model_name :: string
  cc_metadata :: "provider_metadata option"

definition loaded :: "cost_call \<Rightarrow> bool" where
  "loaded c \<longleftrightarrow> (\<exists>f g d cs. load_pricing_from_file f = Inr (cc_costs c, d) \<and> load_pricing_from_file g = Inr (cs, cc_default_cost c))"

definition cost_step :: "cost_tracker \<Rightarrow> cost_call \<Rightarrow> (budget_error + rat \<times> token_usage) \<times> cost_tracker" where
  "cost_step ct c = ct_calculate (cc_costs c) (cc_default_cost c) (cc_usage c) (cc_model_name c) (cc_metadata c) ct"

definition call_cost :: "int \<Rightarrow> cost_call \<Rightarrow> rat" where
  "call_cost limit c =
     (let tokens = parse_usage (cc_usage c) (cc_metadata c)
      in calculate_cost tokens (select_cost_info limit tokens (get_cost_info (cc_costs c) (cc_default_cost c) (cc_model_name c))))"

lemma cost_step_eq:
  "cost_step ct c =
     (case update_totals (call_cost (ct_context_limit ct) c) (parse_usage (cc_usage c) (cc_metadata c)) ct of
        (Some e, ct1) \<Rightarrow> (Inl e, ct1)
      | (None, ct1) \<Rightarrow> (Inr (call_cost (ct_context_limit ct) c, parse_usage (cc_usage c) (cc_metadata c)), ct1))"
  unfolding cost_step_def ct_calculate_def call_cost_def Let_def by (rule refl)

lemma call_cost_nonneg: "loaded c \<Longrightarrow> 0 \<le> call_cost limit c"
proof -
  assume "loaded c"
  then have p: "priced (get_cost_info (cc_costs c) (cc_default_cost c) (cc_model_name c))"
    by (auto simp: loaded_def intro: get_cost_info_priced dest: load_priced)
  then have "select_cost_info limit tokens (get_cost_info (cc_costs c) (cc_default_cost c) (cc_model_name c)) =
      get_cost_info (cc_costs c) (cc_default_cost c) (cc_model_name c)" for tokens
    by (simp add: select_cost_info_def priced_def)
  then show ?thesis using calculate_cost_nonneg [OF p] by (simp add: call_cost_def parse_usage_nonneg)
qed

text \<open>The three outcomes of a call.\<close>

lemma cost_step_cases:
  assumes "cost_step ct c = (out, ct')" and "loaded c"
  obtains
    (request) x l where "out = Inl (RequestOverLimit x l)" "ct' = ct" "0 < ct_max_cost_per_request ct"
  | (session) x l cost where "out = Inl (SessionOverLimit x l)" "0 \<le> cost" "ct' = ct\<lparr>ct_total_cost := ct_total_cost ct + cost\<rparr>"
      "0 < ct_max_cost_per_session ct" "ct_max_cost_per_session ct < ct_total_cost ct'"
  | (returned) cost tokens where "out = Inr (cost, tokens)" "0 \<le> cost" "0 < ct_max_cost_per_request ct \<longrightarrow> cost \<le> ct_max_cost_per_request ct"
      "ct' = ct\<lparr>ct_total_cost := ct_total_cost ct + cost, ct_total_tokens := add_tokens (ct_total_tokens ct) tokens,
         ct_call_count := ct_call_count ct + 1\<rparr>"
      "0 < ct_max_cost_per_session ct \<longrightarrow> ct_total_cost ct + cost \<le> ct_max_cost_per_session ct"
proof -
  define cost where "cost = call_cost (ct_context_limit ct) c"
  have nonneg: "0 \<le> cost" unfolding cost_def by (rule call_cost_nonneg [OF assms(2)])
  let ?over_request = "0 < ct_max_cost_per_request ct \<and> ct_max_cost_per_request ct < cost"
    and ?over_session = "0 < ct_max_cost_per_session ct \<and> ct_max_cost_per_session ct < ct_total_cost ct + cost"
  consider "?over_request" | "\<not> ?over_request" "?over_session" | "\<not> ?over_request" "\<not> ?over_session" by blast
  then show ?thesis
  proof cases
    case 1
    then show ?thesis using assms(1) by (auto simp: cost_step_eq update_totals_def simp flip: cost_def intro: request)
  next
    case 2
    then show ?thesis using assms(1) nonneg
      by (intro session [of "ct_total_cost ct + cost" "ct_max_cost_per_session ct" cost]) (auto simp: cost_step_eq update_totals_def Let_def simp flip: cost_def)
  next
    case 3
    then show ?thesis using assms(1) nonneg
      by (intro returned [of cost "parse_usage (cc_usage c) (cc_metadata c)"]) (auto simp: cost_step_eq update_totals_def Let_def simp flip: cost_def)
  qed
qed

fun returned_cost :: "budget_error + rat \<times> token_usage \<Rightarrow> rat" where
  "returned_cost (Inr (cost, tokens)) = cost"
| "returned_cost (Inl e) = 0"

fun is_returned :: "budget_error + rat \<times> token_usage \<Rightarrow> bool" where
  "is_returned (Inr r) = True"
| "is_returned (Inl e) = False"

lemma over_budget_stays:
  assumes "list_all loaded calls" and "0 < ct_max_cost_per_session ct" and "ct_max_cost_per_session ct < ct_total_cost ct"
  shows "list_all (Not \<circ> is_returned) (fst (answers cost_step ct calls))"
  using assms
proof (induction calls arbitrary: ct)
  case (Cons c calls)
  obtain out ct' where s: "cost_step ct c = (out, ct')" by fastforce
  from Cons.prems have "loaded c" by simp
  then show ?case
    by (cases rule: cost_step_cases [OF s]) (use Cons s in \<open>auto simp: case_prod_unfold Let_def\<close>)
qed simp

lemma session_run:
  assumes "list_all loaded calls" and "0 < ct_max_cost_per_session ct" and "ct_total_cost ct \<le> ct_max_cost_per_session ct"
    and "answers cost_step ct calls = (outs, ct')"
  shows "ct_total_cost ct + sum_list (map returned_cost outs) \<le> ct_max_cost_per_session ct"
  using assms
proof (induction calls arbitrary: ct outs)
  case (Cons c calls)
  obtain out ct1 outs1 where s: "cost_step ct c = (out, ct1)" "answers cost_step ct1 calls = (outs1, ct')" and outs: "outs = out # outs1"
    using Cons.prems(4) by (auto split: prod.splits)
  from Cons.prems have "loaded c" "list_all loaded calls" by auto
  note step = cost_step_cases [OF s(1) this(1)]
  show ?case
  proof (cases rule: step)
    case (2 x l cost)
    then have "list_all (Not \<circ> is_returned) outs1"
      using over_budget_stays [of calls ct1] s(2) \<open>list_all loaded calls\<close> by simp
    then have "sum_list (map returned_cost outs1) = 0"
      by (induction outs1) (auto simp: elim: is_returned.elims)
    then show ?thesis using 2 Cons.prems by (simp add: outs)
  qed (use Cons.IH [of ct1 outs1] Cons.prems s outs in auto)
qed simp

fun returned_tokens :: "budget_error + rat \<times> token_usage \<Rightarrow> token_usage" where
  "returned_tokens (Inr (cost, tokens)) = tokens"
| "returned_tokens (Inl e) = no_tokens"

lemma cost_step_limits:
  "cost_step ct c = (out, ct') \<Longrightarrow> ct_max_cost_per_session ct' = ct_max_cost_per_session ct \<and> ct_max_cost_per_request ct' = ct_max_cost_per_request ct"
  by (auto simp: cost_step_eq update_totals_def Let_def split: if_splits)

lemma counted_run:
  assumes "list_all loaded calls" and "answers cost_step ct calls = (outs, ct')"
  shows "ct_call_count ct' = ct_call_count ct + int (length (filter is_returned outs)) \<and>
    ct_total_tokens ct' = foldl add_tokens (ct_total_tokens ct) (map returned_tokens (filter is_returned outs)) \<and>
    (0 < ct_max_cost_per_request ct \<longrightarrow> list_all (\<lambda>r. returned_cost r \<le> ct_max_cost_per_request ct) outs)"
  using assms
proof (induction calls arbitrary: ct outs)
  case (Cons c calls)
  obtain out ct1 outs1 where s: "cost_step ct c = (out, ct1)" "answers cost_step ct1 calls = (outs1, ct')" and outs: "outs = out # outs1"
    using Cons.prems(2) by (auto split: prod.splits)
  from Cons.prems have "loaded c" "list_all loaded calls" by auto
  note step = cost_step_cases [OF s(1) this(1)] and IH = Cons.IH [OF this(2) s(2)]
  show ?case by (cases rule: step) (use IH outs cost_step_limits [OF s(1)] in auto)
qed simp

lemma session_limit_final:
  assumes "list_all loaded calls" and "answers cost_step ct calls = (us @ Inl (SessionOverLimit x l) # vs, ct')"
  shows "list_all (Not \<circ> is_returned) vs"
  using assms
proof (induction us arbitrary: ct calls)
  case Nil
  then obtain c calls' ct1 where c: "calls = c # calls'" "cost_step ct c = (Inl (SessionOverLimit x l), ct1)" "answers cost_step ct1 calls' = (vs, ct')"
    by (cases calls) (auto split: prod.splits)
  then have "loaded c" "list_all loaded calls'" using Nil.prems(1) by auto
  note step = cost_step_cases [OF c(2) this(1)]
  show ?case by (cases rule: step) (use over_budget_stays [OF \<open>list_all loaded calls'\<close>, of ct1] c(3) in \<open>simp_all add: comp_def\<close>)
next
  case (Cons u us)
  then obtain c calls' ct1 where c: "calls = c # calls'" "answers cost_step ct1 calls' = (us @ Inl (SessionOverLimit x l) # vs, ct')"
    by (cases calls) (auto split: prod.splits)
  show ?case by (rule Cons.IH [OF _ c(2)]) (use Cons.prems(1) c(1) in simp)
qed

text \<open>
  C31: with prices from a pricing file and a session limit, whatever calls a session makes, the costs of the calls that
  returned stay within the session limit and each of them within the limit per request; the call count and
  the token totals are those of the calls that returned; and after the session limit was exceeded once no
  call returns any more.
\<close>

theorem session_budget_enforced:
  assumes "list_all loaded calls" and "0 < max_session"
    and "answers cost_step (tracker_init limit max_request max_session) calls = (outs, ct)"
  shows "sum_list (map returned_cost outs) \<le> max_session \<and>
    (0 < max_request \<longrightarrow> list_all (\<lambda>r. returned_cost r \<le> max_request) outs) \<and>
    ct_call_count ct = int (length (filter is_returned outs)) \<and>
    ct_total_tokens ct = foldl add_tokens no_tokens (map returned_tokens (filter is_returned outs)) \<and>
    (\<forall>us x l vs. outs = us @ Inl (SessionOverLimit x l) # vs \<longrightarrow> list_all (Not \<circ> is_returned) vs)"
  using session_run [OF assms(1) _ _ assms(3)] counted_run [OF assms(1,3)] session_limit_final [OF assms(1)] assms(2,3)
  by (auto simp: tracker_init_def)

definition sample_file :: yaml_file where
  "sample_file = YamlFile (SectionDict (empty_cost_data\<lparr>cd_input := Number 1, cd_output := Number 2\<rparr>))
     (SectionDict [(''gpt-4o'', Some (empty_cost_data\<lparr>cd_input := Number 5, cd_output := Number 10\<rparr>)),
                   (''gpt-4o-mini'', Some (empty_cost_data\<lparr>cd_input := Number (15 / 100), cd_output := Number (60 / 100), cd_context_over_200k := Number 1\<rparr>))])"

definition sample_prices :: "(string, model_cost) dict" where
  "sample_prices = [(''gpt-4o'', ModelCost 5 10 None None None None), (''gpt-4o-mini'', ModelCost (15 / 100) (60 / 100) None None None None)]"

lemma sample_loads: "load_pricing_from_file sample_file = Inr (sample_prices, ModelCost 1 2 None None None None)"
  by (simp add: load_pricing_from_file_def sample_file_def sample_prices_def parse_model_cost_def parse_cost_value_def parse_optional_def empty_cost_data_def)

definition sample_call :: "int \<Rightarrow> cost_call" where
  "sample_call n = \<lparr>cc_costs = sample_prices, cc_default_cost = ModelCost 1 2 None None None None,
     cc_usage = [(''input_tokens'', int_value n)], cc_model_name = ''GPT-4o'', cc_metadata = None\<rparr>"

lemma sample_cost: "0 \<le> n \<Longrightarrow> call_cost limit (sample_call n) = of_int n * 5 / 1000000"
proof -
  assume "0 \<le> n"
  then have "parse_usage [(''input_tokens'', int_value n)] None = no_tokens\<lparr>tu_input := n\<rparr>"
    by (simp add: parse_usage_def int_value_def safe_int_def no_tokens_def)
  moreover have "py_lower ''GPT-4o'' = ''gpt-4o''" by code_simp
  ultimately show ?thesis
    by (simp add: call_cost_def sample_call_def get_cost_info_def sample_prices_def select_cost_info_def calculate_cost_def no_tokens_def true_price_def)
qed

theorem session_budget_enforced_witness:
  "\<exists>outs ct. answers cost_step (tracker_init 200000 0 (2 / 100)) [sample_call 3000, sample_call 2000, sample_call 0] = (outs, ct) \<and>
     map is_returned outs = [True, False, False] \<and> sum_list (map returned_cost outs) \<le> 2 / 100 \<and> ct_call_count ct = 1"
proof -
  have "loaded (sample_call n)" for n using sample_loads by (auto simp: loaded_def sample_call_def)
  then have loaded: "list_all loaded [sample_call 3000, sample_call 2000, sample_call 0]" by simp
  obtain outs ct where run: "answers cost_step (tracker_init 200000 0 (2 / 100)) [sample_call 3000, sample_call 2000, sample_call 0] = (outs, ct)"
    by fastforce
  then have "map is_returned outs = [True, False, False]"
    by (auto simp: cost_step_eq update_totals_def sample_cost tracker_init_def Let_def)
  then show ?thesis
    using session_budget_enforced [OF loaded _ run] run by (auto simp: Cons_eq_map_conv)
qed

section \<open>Gaps\<close>

text \<open>A call over the limit per request was made and paid for, and its cost is added to nothing.\<close>

lemma rejected_request_not_counted: "fst (update_totals cost tokens ct) = Some (RequestOverLimit x l) \<Longrightarrow> snd (update_totals cost tokens ct) = ct"
  by (auto simp: update_totals_def Let_def split: if_splits)

text \<open>The fuzzy search takes the first key contained in the name: a dated mini model is billed at the price of the big one.\<close>

lemma fuzzy_match_not_best:
  "get_cost_info sample_prices dflt ''gpt-4o-mini-2024-07-18'' = ModelCost 5 10 None None None None"
proof -
  have "py_lower ''gpt-4o-mini-2024-07-18'' = ''gpt-4o-mini-2024-07-18''" "py_in ''gpt-4o'' ''gpt-4o-mini-2024-07-18''" by code_simp+
  then show ?thesis by (simp add: get_cost_info_def sample_prices_def)
qed

text \<open>No loaded model has a price for large contexts, whatever the file says.\<close>

lemma overflow_price_never_loaded: "parse_model_cost d = Inr c \<Longrightarrow> select_cost_info limit tokens c = c"
  using parse_model_cost_priced [of d c] by (simp add: priced_def select_cost_info_def)

end
