(* ===== verification/Prewarm.thy ===== *)
theory Prewarm
  imports PoolInstance
begin

text \<open>
  The pool of prepared instances: \<open>src/infrastructure/agent/pool/prewarm/pool.py\<close>. The two dictionaries that have an
  entry for every tier are functions on tiers. Every operation holds the lock (the maintenance task is the only
  caller of \<open>_replenish_pools\<close> and runs it without suspension), so each is one step. Instances the pool stops are
  logged in \<open>pp_stopped\<close>. The clock and the ids of new instances are inputs.
\<close>

section \<open>State\<close>

record prewarm_config =
  pw_l1_pool_size :: int
  pw_l1_ttl_seconds :: int
  pw_l2_pool_size :: int
  pw_l2_ttl_seconds :: int
  pw_l3_pool_size :: int
  pw_l3_ttl_seconds :: int
  pw_maintenance_interval_seconds :: int
  pw_low_watermark_pct :: real

definition default_prewarm_config :: prewarm_config where
  "default_prewarm_config =
     \<lparr>pw_l1_pool_size = 2, pw_l1_ttl_seconds = 3600, pw_l2_pool_size = 5, pw_l2_ttl_seconds = 7200, pw_l3_pool_size = 10,
      pw_l3_ttl_seconds = 86400, pw_maintenance_interval_seconds = 60, pw_low_watermark_pct = 3 / 10\<rparr>"

record prewarmed =
  pw_instance :: agent_instance
  pw_tier :: project_tier
  pw_level :: int
  pw_created_at :: int
  pw_ttl_seconds :: int

definition pw_is_expired :: "int \<Rightarrow> prewarmed \<Rightarrow> bool" where
  "pw_is_expired now p \<longleftrightarrow> now - pw_created_at p > pw_ttl_seconds p * 1000000"

record instance_template =
  tp_tier :: project_tier
  tp_quota :: resource_quota
  tp_created_at :: int

record prewarm_pool =
  pp_config :: prewarm_config
  pp_l1 :: "project_tier \<Rightarrow> prewarmed list"
  pp_l2 :: "project_tier \<Rightarrow> prewarmed list"
  pp_l3 :: "instance_template list"
  pp_running :: bool
  pp_l1_hits :: int
  pp_l2_hits :: int
  pp_l3_hits :: int
  pp_misses :: int
  pp_total_prewarmed :: int
  pp_total_expired :: int
  pp_stopped :: "agent_instance list"

definition prewarm_init :: "prewarm_config option \<Rightarrow> prewarm_pool" where
  "prewarm_init cfg =
     \<lparr>pp_config = (case cfg of None \<Rightarrow> default_prewarm_config | Some c \<Rightarrow> c), pp_l1 = (\<lambda>t. []), pp_l2 = (\<lambda>t. []), pp_l3 = [], pp_running = False,
      pp_l1_hits = 0, pp_l2_hits = 0, pp_l3_hits = 0, pp_misses = 0, pp_total_prewarmed = 0, pp_total_expired = 0, pp_stopped = []\<rparr>"

section \<open>Operations\<close>

definition pp_start :: "prewarm_pool \<Rightarrow> prewarm_pool" where
  "pp_start p = p\<lparr>pp_running := True\<rparr>"

definition all_tiers :: "project_tier list" where
  "all_tiers = [HOT, WARM, COLD]"

definition pp_stop :: "int \<Rightarrow> prewarm_pool \<Rightarrow> prewarm_pool" where
  "pp_stop now p =
     p\<lparr>pp_running := False,
       pp_stopped := pp_stopped p @ map (\<lambda>w. ai_stop now False (pw_instance w)) (concat (map (pp_l1 p) all_tiers) @ concat (map (pp_l2 p) all_tiers)),
       pp_l1 := (\<lambda>t. []), pp_l2 := (\<lambda>t. []), pp_l3 := []\<rparr>"

text \<open>The first entry that has not expired, and the list without it.\<close>

definition take_live :: "int \<Rightarrow> prewarmed list \<Rightarrow> (prewarmed \<times> prewarmed list) option" where
  "take_live now ws =
     (case dropWhile (pw_is_expired now) ws of [] \<Rightarrow> None | w # rest \<Rightarrow> Some (w, takeWhile (pw_is_expired now) ws @ rest))"

definition get_from_l1 :: "int \<Rightarrow> instance_config \<Rightarrow> prewarm_pool \<Rightarrow> (agent_instance \<times> prewarm_pool) option" where
  "get_from_l1 now cfg p =
     (case take_live now (pp_l1 p (ic_tier cfg)) of
        None \<Rightarrow> None
      | Some (w, rest) \<Rightarrow> Some ((pw_instance w)\<lparr>ai_config := cfg\<rparr>, p\<lparr>pp_l1 := (pp_l1 p)(ic_tier cfg := rest)\<rparr>))"

definition get_from_l2 :: "int \<Rightarrow> instance_config \<Rightarrow> prewarm_pool \<Rightarrow> (agent_instance \<times> prewarm_pool) option" where
  "get_from_l2 now cfg p =
     (case take_live now (pp_l2 p (ic_tier cfg)) of
        None \<Rightarrow> None
      | Some (w, rest) \<Rightarrow> Some ((pw_instance w)\<lparr>ai_config := cfg\<rparr>, p\<lparr>pp_l2 := (pp_l2 p)(ic_tier cfg := rest)\<rparr>))"

datatype prewarm_outcome = L1Hit agent_instance | L2Hit agent_instance | L3Hit agent_instance | Miss | ConstructorRaises

definition get_prewarmed_instance :: "int \<Rightarrow> string \<Rightarrow> instance_config \<Rightarrow> prewarm_pool \<Rightarrow> prewarm_outcome \<times> prewarm_pool" where
  "get_prewarmed_instance now iid cfg p =
     (case get_from_l1 now cfg p of
        Some (inst, p1) \<Rightarrow> (L1Hit inst, p1\<lparr>pp_l1_hits := pp_l1_hits p1 + 1\<rparr>)
      | None \<Rightarrow>
          (case get_from_l2 now cfg p of
             Some (inst, p1) \<Rightarrow> (L2Hit inst, p1\<lparr>pp_l2_hits := pp_l2_hits p1 + 1\<rparr>)
           | None \<Rightarrow>
               if list_ex (\<lambda>t. tp_tier t = ic_tier cfg) (pp_l3 p)
               then (case instance_init now iid cfg False of
                       None \<Rightarrow> (ConstructorRaises, p)
                     | Some inst \<Rightarrow> (L3Hit inst, p\<lparr>pp_l3_hits := pp_l3_hits p + 1\<rparr>))
               else (Miss, p\<lparr>pp_misses := pp_misses p + 1\<rparr>)))"

definition return_instance :: "int \<Rightarrow> agent_instance \<Rightarrow> int \<Rightarrow> prewarm_pool \<Rightarrow> bool \<times> prewarm_pool" where
  "return_instance now inst level p =
     (let tier = ic_tier (ai_config inst)
      in if level = 1
         then (if int (length (pp_l1 p tier)) \<ge> pw_l1_pool_size (pp_config p) then (False, p)
               else (True, p\<lparr>pp_l1 := (pp_l1 p)(tier := pp_l1 p tier @
                      [\<lparr>pw_instance = inst, pw_tier = tier, pw_level = level, pw_created_at = now, pw_ttl_seconds = pw_l1_ttl_seconds (pp_config p)\<rparr>])\<rparr>))
         else if level = 2
         then (if int (length (pp_l2 p tier)) \<ge> pw_l2_pool_size (pp_config p) then (False, p)
               else (True, p\<lparr>pp_l2 := (pp_l2 p)(tier := pp_l2 p tier @
                      [\<lparr>pw_instance = inst, pw_tier = tier, pw_level = level, pw_created_at = now, pw_ttl_seconds = pw_l2_ttl_seconds (pp_config p)\<rparr>])\<rparr>))
         else (False, p))"

definition add_template :: "instance_template \<Rightarrow> prewarm_pool \<Rightarrow> bool \<times> prewarm_pool" where
  "add_template t p = (if int (length (pp_l3 p)) \<ge> pw_l3_pool_size (pp_config p) then (False, p) else (True, p\<lparr>pp_l3 := pp_l3 p @ [t]\<rparr>))"

definition cleanup_tier :: "int \<Rightarrow> prewarm_pool \<Rightarrow> project_tier \<Rightarrow> prewarm_pool" where
  "cleanup_tier now p tier =
     (let e1 = filter (pw_is_expired now) (pp_l1 p tier); e2 = filter (pw_is_expired now) (pp_l2 p tier)
      in p\<lparr>pp_l1 := (pp_l1 p)(tier := filter (Not \<circ> pw_is_expired now) (pp_l1 p tier)),
           pp_l2 := (pp_l2 p)(tier := filter (Not \<circ> pw_is_expired now) (pp_l2 p tier)),
           pp_stopped := pp_stopped p @ map (\<lambda>w. ai_stop now False (pw_instance w)) (e1 @ e2),
           pp_total_expired := pp_total_expired p + int (length e1) + int (length e2)\<rparr>)"

definition cleanup_expired :: "int \<Rightarrow> prewarm_pool \<Rightarrow> prewarm_pool" where
  "cleanup_expired now p = foldl (cleanup_tier now) p all_tiers"

definition prewarm_instance_config :: "project_tier \<Rightarrow> instance_config" where
  "prewarm_instance_config tier = new_instance_config ''__prewarm__'' ''__prewarm__'' ''default'' tier default_quota"

definition add_prewarmed :: "int \<Rightarrow> project_tier \<Rightarrow> prewarm_pool \<Rightarrow> string \<Rightarrow> prewarm_pool" where
  "add_prewarmed now tier p iid =
     (case instance_init now iid (prewarm_instance_config tier) False of
        None \<Rightarrow> p
      | Some inst \<Rightarrow>
          p\<lparr>pp_l1 := (pp_l1 p)(tier := pp_l1 p tier @
              [\<lparr>pw_instance = inst, pw_tier = tier, pw_level = 1, pw_created_at = now, pw_ttl_seconds = pw_l1_ttl_seconds (pp_config p)\<rparr>]),
            pp_total_prewarmed := pp_total_prewarmed p + 1\<rparr>)"

definition replenish_tier :: "int \<Rightarrow> (project_tier \<Rightarrow> nat \<Rightarrow> string) \<Rightarrow> prewarm_pool \<Rightarrow> project_tier \<Rightarrow> prewarm_pool" where
  "replenish_tier now ids p tier =
     (let l1_count = int (length (pp_l1 p tier)); l1_target = pw_l1_pool_size (pp_config p)
      in if real_of_int l1_count < real_of_int l1_target * pw_low_watermark_pct (pp_config p)
         then foldl (add_prewarmed now tier) p (map (ids tier) [0..<nat (l1_target - l1_count)])
         else p)"

definition replenish_pools :: "int \<Rightarrow> (project_tier \<Rightarrow> nat \<Rightarrow> string) \<Rightarrow> prewarm_pool \<Rightarrow> prewarm_pool" where
  "replenish_pools now ids p = foldl (replenish_tier now ids) p all_tiers"

text \<open>One round of the maintenance loop.\<close>

definition maintenance_round :: "int \<Rightarrow> int \<Rightarrow> (project_tier \<Rightarrow> nat \<Rightarrow> string) \<Rightarrow> prewarm_pool \<Rightarrow> prewarm_pool" where
  "maintenance_round now later ids p = (if pp_running p then replenish_pools later ids (cleanup_expired now p) else p)"

section \<open>Accounting\<close>

definition in_pools :: "prewarm_pool \<Rightarrow> int" where
  "in_pools p = int (sum_list (map (\<lambda>t. length (pp_l1 p t) + length (pp_l2 p t)) all_tiers))"

definition entries_ok :: "prewarm_pool \<Rightarrow> project_tier \<Rightarrow> bool" where
  "entries_ok p t \<longleftrightarrow>
     list_all (\<lambda>w. pw_tier w = t \<and> pw_level w = 1 \<and> pw_ttl_seconds w = pw_l1_ttl_seconds (pp_config p)) (pp_l1 p t) \<and>
     list_all (\<lambda>w. pw_tier w = t \<and> pw_level w = 2 \<and> pw_ttl_seconds w = pw_l2_ttl_seconds (pp_config p)) (pp_l2 p t) \<and>
     int (length (pp_l1 p t)) \<le> max 0 (pw_l1_pool_size (pp_config p)) \<and> int (length (pp_l2 p t)) \<le> max 0 (pw_l2_pool_size (pp_config p))"

text \<open>\<open>gets\<close> requests were answered and \<open>returned\<close> instances taken back so far.\<close>

definition prewarm_ok :: "int \<Rightarrow> int \<Rightarrow> prewarm_pool \<Rightarrow> bool" where
  "prewarm_ok gets returned p \<longleftrightarrow> (\<forall>t. entries_ok p t) \<and> int (length (pp_l3 p)) \<le> max 0 (pw_l3_pool_size (pp_config p)) \<and>
     pp_l1_hits p + pp_l2_hits p + pp_l3_hits p + pp_misses p = gets \<and>
     pp_total_prewarmed p + returned = pp_l1_hits p + pp_l2_hits p + int (length (pp_stopped p)) + in_pools p"

lemma in_pools_upd:
  "in_pools (p\<lparr>pp_l1 := (pp_l1 p)(t := ws)\<rparr>) = in_pools p + int (length ws) - int (length (pp_l1 p t))"
  "in_pools (p\<lparr>pp_l2 := (pp_l2 p)(t := ws)\<rparr>) = in_pools p + int (length ws) - int (length (pp_l2 p t))"
  by (cases t; simp add: in_pools_def all_tiers_def)+

lemma take_live_props:
  assumes "take_live now ws = Some (w, rest)"
  shows "\<not> pw_is_expired now w" "w \<in> set ws" "set rest \<subseteq> set ws" "length ws = Suc (length rest)"
proof -
  have d: "dropWhile (pw_is_expired now) ws = w # drop 1 (dropWhile (pw_is_expired now) ws)"
    "rest = takeWhile (pw_is_expired now) ws @ drop 1 (dropWhile (pw_is_expired now) ws)"
    using assms by (auto simp: take_live_def split: list.splits)
  then have ws: "ws = takeWhile (pw_is_expired now) ws @ w # drop 1 (dropWhile (pw_is_expired now) ws)" by (metis takeWhile_dropWhile_id)
  show "\<not> pw_is_expired now w" using d(1) by (metis dropWhile_eq_Cons_conv)
  show "w \<in> set ws" by (subst ws) simp
  show "set rest \<subseteq> set ws" by (subst ws) (auto simp: d(2))
  show "length ws = Suc (length rest)" by (subst ws) (simp add: d(2))
qed

lemma take_live_None: "take_live now ws = None \<longleftrightarrow> list_all (pw_is_expired now) ws"
proof -
  have "list_all (pw_is_expired now) ws \<longleftrightarrow> dropWhile (pw_is_expired now) ws = []" by (simp only: dropWhile_eq_Nil_conv list_all_iff)
  then show ?thesis by (auto simp: take_live_def simp del: dropWhile_eq_Nil_conv split: list.split)
qed

lemma prewarm_okI:
  assumes "\<And>t. entries_ok q t" and "int (length (pp_l3 q)) \<le> max 0 (pw_l3_pool_size (pp_config q))"
    and "pp_l1_hits q + pp_l2_hits q + pp_l3_hits q + pp_misses q = gets"
    and "pp_total_prewarmed q + returned = pp_l1_hits q + pp_l2_hits q + int (length (pp_stopped q)) + in_pools q"
  shows "prewarm_ok gets returned q"
  using assms by (simp add: prewarm_ok_def)

lemma prewarm_okD:
  assumes "prewarm_ok gets returned p"
  shows "entries_ok p t" "int (length (pp_l3 p)) \<le> max 0 (pw_l3_pool_size (pp_config p))"
    "pp_l1_hits p + pp_l2_hits p + pp_l3_hits p + pp_misses p = gets"
    "pp_total_prewarmed p + returned = pp_l1_hits p + pp_l2_hits p + int (length (pp_stopped p)) + in_pools p"
  using assms by (simp_all add: prewarm_ok_def)

lemma take_l1_ok:
  assumes "prewarm_ok gets returned p" and "take_live now (pp_l1 p t) = Some (w, rest)"
  shows "prewarm_ok (gets + 1) returned (p\<lparr>pp_l1 := (pp_l1 p)(t := rest), pp_l1_hits := pp_l1_hits p + 1\<rparr>)" (is "prewarm_ok _ _ ?q")
proof (rule prewarm_okI)
  note d = prewarm_okD [OF assms(1)] and w = take_live_props [OF assms(2)]
  show "entries_ok ?q t'" for t' using d(1) [of t'] w(3,4) by (auto simp: entries_ok_def list_all_iff)
  have "in_pools ?q = in_pools p - 1" using w(4) by (cases t) (simp_all add: in_pools_def all_tiers_def)
  then show "pp_total_prewarmed ?q + returned = pp_l1_hits ?q + pp_l2_hits ?q + int (length (pp_stopped ?q)) + in_pools ?q" using d(4) by simp
qed (use prewarm_okD(2,3) [OF assms(1)] in simp_all)

lemma take_l2_ok:
  assumes "prewarm_ok gets returned p" and "take_live now (pp_l2 p t) = Some (w, rest)"
  shows "prewarm_ok (gets + 1) returned (p\<lparr>pp_l2 := (pp_l2 p)(t := rest), pp_l2_hits := pp_l2_hits p + 1\<rparr>)" (is "prewarm_ok _ _ ?q")
proof (rule prewarm_okI)
  note d = prewarm_okD [OF assms(1)] and w = take_live_props [OF assms(2)]
  show "entries_ok ?q t'" for t' using d(1) [of t'] w(3,4) by (auto simp: entries_ok_def list_all_iff)
  have "in_pools ?q = in_pools p - 1" using w(4) by (cases t) (simp_all add: in_pools_def all_tiers_def)
  then show "pp_total_prewarmed ?q + returned = pp_l1_hits ?q + pp_l2_hits ?q + int (length (pp_stopped ?q)) + in_pools ?q" using d(4) by simp
qed (use prewarm_okD(2,3) [OF assms(1)] in simp_all)

text \<open>What a request gets: a live instance of its tier from the first level, else from the second, else a new one.\<close>

lemma get_cases:
  assumes "get_prewarmed_instance now iid cfg p = (out, q)"
  obtains (l1) w rest where "take_live now (pp_l1 p (ic_tier cfg)) = Some (w, rest)" "out = L1Hit ((pw_instance w)\<lparr>ai_config := cfg\<rparr>)"
      "q = p\<lparr>pp_l1 := (pp_l1 p)(ic_tier cfg := rest), pp_l1_hits := pp_l1_hits p + 1\<rparr>"
    | (l2) w rest where "take_live now (pp_l1 p (ic_tier cfg)) = None" "take_live now (pp_l2 p (ic_tier cfg)) = Some (w, rest)"
      "out = L2Hit ((pw_instance w)\<lparr>ai_config := cfg\<rparr>)" "q = p\<lparr>pp_l2 := (pp_l2 p)(ic_tier cfg := rest), pp_l2_hits := pp_l2_hits p + 1\<rparr>"
    | (l3) inst where "take_live now (pp_l1 p (ic_tier cfg)) = None" "take_live now (pp_l2 p (ic_tier cfg)) = None"
      "instance_init now iid cfg False = Some inst" "out = L3Hit inst" "q = p\<lparr>pp_l3_hits := pp_l3_hits p + 1\<rparr>"
    | (raises) "out = ConstructorRaises" "q = p" "instance_init now iid cfg False = None"
    | (miss) "take_live now (pp_l1 p (ic_tier cfg)) = None" "take_live now (pp_l2 p (ic_tier cfg)) = None" "out = Miss"
      "q = p\<lparr>pp_misses := pp_misses p + 1\<rparr>"
proof (cases "take_live now (pp_l1 p (ic_tier cfg))")
  case (Some wr)
  then show ?thesis using assms by (cases wr) (auto simp: get_prewarmed_instance_def get_from_l1_def intro: l1)
next
  case none1: None
  show ?thesis
  proof (cases "take_live now (pp_l2 p (ic_tier cfg))")
    case (Some wr)
    then show ?thesis using assms none1 by (cases wr) (auto simp: get_prewarmed_instance_def get_from_l1_def get_from_l2_def intro: l2)
  next
    case None
    then show ?thesis using assms none1 l3 raises miss
      by (cases "instance_init now iid cfg False") (simp_all add: get_prewarmed_instance_def get_from_l1_def get_from_l2_def split: if_splits)
  qed
qed

lemma counter_ok:
  assumes "prewarm_ok gets returned p"
  shows "prewarm_ok (gets + 1) returned (p\<lparr>pp_l3_hits := pp_l3_hits p + 1\<rparr>)" "prewarm_ok (gets + 1) returned (p\<lparr>pp_misses := pp_misses p + 1\<rparr>)"
  using assms by (simp_all add: prewarm_ok_def entries_ok_def in_pools_def)

lemma get_ok:
  assumes "prewarm_ok gets returned p" and "get_prewarmed_instance now iid cfg p = (out, q)"
  shows "prewarm_ok (if out = ConstructorRaises then gets else gets + 1) returned q"
  by (cases rule: get_cases [OF assms(2)])
    (use assms(1) take_l1_ok [OF assms(1)] take_l2_ok [OF assms(1)] counter_ok [OF assms(1)] in simp_all)

lemma return_ok:
  assumes "prewarm_ok gets returned p" and "return_instance now inst level p = (ok, q)"
  shows "prewarm_ok gets (if ok then returned + 1 else returned) q"
proof -
  note d = prewarm_okD [OF assms(1)]
  let ?t = "ic_tier (ai_config inst)"
  have "entries_ok q t" for t
    using d(1) [of t] assms(2) by (auto simp: return_instance_def Let_def entries_ok_def split: if_splits)
  moreover have "in_pools q = in_pools p + (if ok then 1 else 0)"
    using assms(2) by (auto simp: return_instance_def Let_def in_pools_upd split: if_splits)
  moreover have "pp_l3 q = pp_l3 p" "pp_config q = pp_config p" "pp_l1_hits q = pp_l1_hits p" "pp_l2_hits q = pp_l2_hits p" "pp_l3_hits q = pp_l3_hits p"
    "pp_misses q = pp_misses p" "pp_total_prewarmed q = pp_total_prewarmed p" "pp_stopped q = pp_stopped p"
    using assms(2) by (auto simp: return_instance_def Let_def split: if_splits)
  ultimately show ?thesis using d by (simp add: prewarm_ok_def)
qed

lemma template_ok: "prewarm_ok gets returned p \<Longrightarrow> prewarm_ok gets returned (snd (add_template t p))"
  by (auto simp: add_template_def prewarm_ok_def entries_ok_def in_pools_def)

lemma stop_pool_ok: "prewarm_ok gets returned p \<Longrightarrow> prewarm_ok gets returned (pp_stop now p)"
  by (simp add: pp_stop_def prewarm_ok_def entries_ok_def in_pools_def all_tiers_def)

lemma cleanup_tier_ok:
  assumes "prewarm_ok gets returned p"
  shows "prewarm_ok gets returned (cleanup_tier now p tier)"
proof -
  note d = prewarm_okD [OF assms]
  let ?q = "cleanup_tier now p tier"
  have part: "length (filter (Not \<circ> P) xs) + length (filter P xs) = length xs" for P and xs :: "prewarmed list"
    using sum_length_filter_compl [of P xs] by (simp add: comp_def)
  have "entries_ok ?q t" for t
    using d(1) [of t] part [of "pw_is_expired now" "pp_l1 p t"] part [of "pw_is_expired now" "pp_l2 p t"]
    by (auto simp: cleanup_tier_def Let_def entries_ok_def list_all_iff)
  moreover have "in_pools ?q + int (length (pp_stopped ?q)) = in_pools p + int (length (pp_stopped p))"
    using part [of "pw_is_expired now" "pp_l1 p tier"] part [of "pw_is_expired now" "pp_l2 p tier"]
    by (cases tier) (simp_all add: cleanup_tier_def Let_def in_pools_def all_tiers_def)
  ultimately show ?thesis using d by (simp add: prewarm_ok_def) (simp add: cleanup_tier_def Let_def)
qed

lemma add_prewarmed_eq:
  obtains inst where "instance_init now iid (prewarm_instance_config tier) False = Some inst"
    "add_prewarmed now tier p iid = p\<lparr>pp_l1 := (pp_l1 p)(tier := pp_l1 p tier @
       [\<lparr>pw_instance = inst, pw_tier = tier, pw_level = 1, pw_created_at = now, pw_ttl_seconds = pw_l1_ttl_seconds (pp_config p)\<rparr>]),
       pp_total_prewarmed := pp_total_prewarmed p + 1\<rparr>"
proof -
  obtain inst where "instance_init now iid (prewarm_instance_config tier) False = Some inst"
    by (simp add: instance_init_def Let_def prewarm_instance_config_def new_instance_config_def default_quota_def)
  then show ?thesis using that by (simp add: add_prewarmed_def)
qed

lemma add_prewarmed_ok:
  assumes "prewarm_ok gets returned p" and "int (length (pp_l1 p tier)) < pw_l1_pool_size (pp_config p)"
  shows "prewarm_ok gets returned (add_prewarmed now tier p iid)"
    "length (pp_l1 (add_prewarmed now tier p iid) tier) = Suc (length (pp_l1 p tier))" "pp_config (add_prewarmed now tier p iid) = pp_config p"
proof -
  note d = prewarm_okD [OF assms(1)]
  obtain inst where q: "add_prewarmed now tier p iid = p\<lparr>pp_l1 := (pp_l1 p)(tier := pp_l1 p tier @
       [\<lparr>pw_instance = inst, pw_tier = tier, pw_level = 1, pw_created_at = now, pw_ttl_seconds = pw_l1_ttl_seconds (pp_config p)\<rparr>]),
       pp_total_prewarmed := pp_total_prewarmed p + 1\<rparr>" by (rule add_prewarmed_eq)
  have "entries_ok (add_prewarmed now tier p iid) t" for t using d(1) [of t] assms(2) by (auto simp: q entries_ok_def)
  moreover have "in_pools (add_prewarmed now tier p iid) = in_pools p + 1"
    unfolding q by (cases tier) (simp_all add: in_pools_def all_tiers_def)
  ultimately show "prewarm_ok gets returned (add_prewarmed now tier p iid)" using d by (simp add: prewarm_ok_def) (simp add: q)
  show "length (pp_l1 (add_prewarmed now tier p iid) tier) = Suc (length (pp_l1 p tier))" "pp_config (add_prewarmed now tier p iid) = pp_config p"
    by (simp_all add: q)
qed

lemma add_all_ok:
  "prewarm_ok gets returned p \<Longrightarrow> int (length (pp_l1 p tier)) + int (length iids) \<le> pw_l1_pool_size (pp_config p) \<Longrightarrow>
   prewarm_ok gets returned (foldl (add_prewarmed now tier) p iids)"
proof (induction iids arbitrary: p)
  case (Cons iid iids)
  then have "int (length (pp_l1 p tier)) < pw_l1_pool_size (pp_config p)" by simp
  note a = add_prewarmed_ok [OF Cons.prems(1) this, of now iid]
  show ?case using Cons.IH [OF a(1)] Cons.prems(2) a(2,3) by simp
qed simp

lemma replenish_tier_ok: "prewarm_ok gets returned p \<Longrightarrow> prewarm_ok gets returned (replenish_tier now ids p tier)"
  using add_all_ok [of gets returned p tier "map (ids tier) [0..<nat (pw_l1_pool_size (pp_config p) - int (length (pp_l1 p tier)))]" now]
  by (cases "pw_l1_pool_size (pp_config p) \<le> int (length (pp_l1 p tier))") (simp_all add: replenish_tier_def Let_def)

lemma maintenance_ok: "prewarm_ok gets returned p \<Longrightarrow> prewarm_ok gets returned (maintenance_round now later ids p)"
  by (simp add: maintenance_round_def replenish_pools_def cleanup_expired_def all_tiers_def replenish_tier_ok cleanup_tier_ok)

section \<open>Runs\<close>

datatype prewarm_event =
    Get int string instance_config
  | Return int agent_instance int
  | AddTemplate instance_template
  | Maintain int int "project_tier \<Rightarrow> nat \<Rightarrow> string"
  | StartPool
  | StopPool int

text \<open>The pool with the number of answered requests and of instances taken back.\<close>

fun pw_step :: "int \<times> int \<times> prewarm_pool \<Rightarrow> prewarm_event \<Rightarrow> int \<times> int \<times> prewarm_pool" where
  "pw_step (g, r, p) (Get now iid cfg) =
     (let (out, q) = get_prewarmed_instance now iid cfg p in (if out = ConstructorRaises then g else g + 1, r, q))"
| "pw_step (g, r, p) (Return now inst level) = (let (ok, q) = return_instance now inst level p in (g, if ok then r + 1 else r, q))"
| "pw_step (g, r, p) (AddTemplate t) = (g, r, snd (add_template t p))"
| "pw_step (g, r, p) (Maintain now later ids) = (g, r, maintenance_round now later ids p)"
| "pw_step (g, r, p) StartPool = (g, r, pp_start p)"
| "pw_step (g, r, p) (StopPool now) = (g, r, pp_stop now p)"

definition counted_ok :: "int \<times> int \<times> prewarm_pool \<Rightarrow> bool" where
  "counted_ok s \<longleftrightarrow> prewarm_ok (fst s) (fst (snd s)) (snd (snd s))"

lemma start_ok: "prewarm_ok g r p \<Longrightarrow> prewarm_ok g r (pp_start p)"
  by (simp add: pp_start_def prewarm_ok_def entries_ok_def in_pools_def)

interpretation prewarm: invariant_machine pw_step counted_ok
proof
  fix s e
  assume ok: "counted_ok s"
  obtain g r p where s: "s = (g, r, p)" by (cases s) auto
  then have "prewarm_ok g r p" using ok by (simp add: counted_ok_def)
  note steps = get_ok [OF this prod.collapse [symmetric]] return_ok [OF this prod.collapse [symmetric]] template_ok [OF this]
    maintenance_ok [OF this] start_ok [OF this] stop_pool_ok [OF this]
  show "counted_ok (pw_step s e)"
    by (cases e) (use steps in \<open>simp_all add: s counted_ok_def case_prod_unfold Let_def\<close>)
qed

lemma prewarm_init_ok: "counted_ok (0, 0, prewarm_init cfg)"
  by (simp add: counted_ok_def prewarm_ok_def prewarm_init_def entries_ok_def in_pools_def all_tiers_def)

text \<open>
  C39: whatever requests, returns, templates, maintenance rounds and stops come, no level of the pool grows beyond its
  size, every request is counted as exactly one hit or miss, and instances are accounted for: the prewarmed
  and the returned ones are those handed out, stopped or still in the pool. A request gets a live instance of
  its tier from the first level, from the second only when every instance of the first has expired, and a
  new instance or nothing only when both levels have nothing live.
\<close>

theorem prewarm_pool_accounts:
  assumes "(g, r, p) = foldl pw_step (0, 0, prewarm_init cfg) evs" and "get_prewarmed_instance now iid c p = (out, q)"
  shows "int (length (pp_l1 p t)) \<le> max 0 (pw_l1_pool_size (pp_config p)) \<and> int (length (pp_l2 p t)) \<le> max 0 (pw_l2_pool_size (pp_config p)) \<and>
    int (length (pp_l3 p)) \<le> max 0 (pw_l3_pool_size (pp_config p)) \<and>
    pp_l1_hits p + pp_l2_hits p + pp_l3_hits p + pp_misses p = g \<and>
    pp_total_prewarmed p + r = pp_l1_hits p + pp_l2_hits p + int (length (pp_stopped p)) + in_pools p \<and>
    (case out of
       L1Hit i \<Rightarrow> \<exists>w\<in>set (pp_l1 p (ic_tier c)). \<not> pw_is_expired now w \<and> i = (pw_instance w)\<lparr>ai_config := c\<rparr> \<and> in_pools q = in_pools p - 1
     | L2Hit i \<Rightarrow> list_all (pw_is_expired now) (pp_l1 p (ic_tier c)) \<and>
         (\<exists>w\<in>set (pp_l2 p (ic_tier c)). \<not> pw_is_expired now w \<and> i = (pw_instance w)\<lparr>ai_config := c\<rparr> \<and> in_pools q = in_pools p - 1)
     | ConstructorRaises \<Rightarrow> q = p \<and> q_max_concurrent_requests (ic_quota c) < 0
     | _ \<Rightarrow> list_all (pw_is_expired now) (pp_l1 p (ic_tier c) @ pp_l2 p (ic_tier c)) \<and> in_pools q = in_pools p)"
proof -
  have "counted_ok (g, r, p)" unfolding assms(1) by (rule prewarm.run_inv [OF prewarm_init_ok])
  then have ok: "prewarm_ok g r p" by (simp add: counted_ok_def)
  note d = prewarm_okD [OF ok] and e = prewarm_okD(1) [OF ok, of t, unfolded entries_ok_def]
  have "case out of
       L1Hit i \<Rightarrow> \<exists>w\<in>set (pp_l1 p (ic_tier c)). \<not> pw_is_expired now w \<and> i = (pw_instance w)\<lparr>ai_config := c\<rparr> \<and> in_pools q = in_pools p - 1
     | L2Hit i \<Rightarrow> list_all (pw_is_expired now) (pp_l1 p (ic_tier c)) \<and>
         (\<exists>w\<in>set (pp_l2 p (ic_tier c)). \<not> pw_is_expired now w \<and> i = (pw_instance w)\<lparr>ai_config := c\<rparr> \<and> in_pools q = in_pools p - 1)
     | ConstructorRaises \<Rightarrow> q = p \<and> q_max_concurrent_requests (ic_quota c) < 0
     | _ \<Rightarrow> list_all (pw_is_expired now) (pp_l1 p (ic_tier c) @ pp_l2 p (ic_tier c)) \<and> in_pools q = in_pools p"
  proof (cases rule: get_cases [OF assms(2)])
    case (1 w rest)
    note t = take_live_props [OF 1(1)]
    have "in_pools q = in_pools p - 1" using in_pools_upd(1) [of p "ic_tier c" rest] t(4) by (simp add: 1(3) in_pools_def)
    then show ?thesis using t 1(2) by auto
  next
    case (2 w rest)
    note t = take_live_props [OF 2(2)]
    have "in_pools q = in_pools p - 1" using in_pools_upd(2) [of p "ic_tier c" rest] t(4) by (simp add: 2(4) in_pools_def)
    then show ?thesis using t 2(1,3) by (auto simp: take_live_None)
  qed (auto simp: take_live_None in_pools_def instance_init_def Let_def split: if_splits)
  then show ?thesis using d e by blast
qed

definition cold_config :: instance_config where
  "cold_config = new_instance_config ''p'' ''t'' ''default'' COLD (tc_default_quota cold_tier_config)"

definition returned_one :: prewarm_pool where
  "returned_one = snd (return_instance 0 sample_instance 1 (pp_start (prewarm_init None)))"

lemma returned_one_facts:
  "map_option fst (get_from_l1 1 cold_config returned_one) = Some (sample_instance\<lparr>ai_config := cold_config\<rparr>)"
  "fst (return_instance 0 sample_instance 1 (pp_start (prewarm_init None)))"
  "pp_l1_hits returned_one = 0" "pp_l2_hits returned_one = 0" "pp_total_prewarmed returned_one = 0" "length (pp_stopped returned_one) = 0"
  by code_simp+

theorem prewarm_pool_accounts_witness:
  "in_pools returned_one = 1 \<and>
   (\<exists>w\<in>set (pp_l1 returned_one COLD). \<not> pw_is_expired 1 w \<and> sample_instance\<lparr>ai_config := cold_config\<rparr> = (pw_instance w)\<lparr>ai_config := cold_config\<rparr>)"
proof -
  have run: "(0, 1, returned_one) = foldl pw_step (0, 0, prewarm_init None) [StartPool, Return 0 sample_instance 1]"
    using returned_one_facts(2) by (simp add: returned_one_def case_prod_beta)
  obtain q where get: "get_prewarmed_instance 1 ''n'' cold_config returned_one = (L1Hit (sample_instance\<lparr>ai_config := cold_config\<rparr>), q)"
    using returned_one_facts(1) by (auto simp: get_prewarmed_instance_def)
  have "ic_tier cold_config = COLD" by (simp add: cold_config_def new_instance_config_def)
  then show ?thesis using prewarm_pool_accounts [OF run get, of COLD] returned_one_facts(3-6) by auto
qed

section \<open>Gaps\<close>

text \<open>
  Handing out an instance replaces its configuration and nothing else. A prewarmed instance keeps the semaphore
  it was built with (ten slots of the default quota) and has not been initialised: for a cold project, whose
  quota allows three concurrent requests, it refuses requests until it is initialised and then runs four at
  once.
\<close>

definition prewarmed_cold :: agent_instance where
  "prewarmed_cold = (case get_from_l1 1 cold_config (add_prewarmed 0 COLD (prewarm_init None) ''w'') of Some (i, _) \<Rightarrow> i | None \<Rightarrow> sample_instance)"

lemma prewarmed_cold_runs:
  "ai_active_requests (foldl instance_step prewarmed_cold [Initialize 2 True, Enter 3, Enter 4, Enter 5, Enter 6]) = 4"
  by code_simp

lemma prewarmed_ignores_quota:
  "q_max_concurrent_requests (ic_quota (ai_config prewarmed_cold)) = 3 \<and> ai_slots prewarmed_cold = 10 \<and>
   ai_execute_check prewarmed_cold = Some (InstanceNotActive CREATED) \<and>
   ai_active_requests (foldl instance_step prewarmed_cold [Initialize 2 True, Enter 3, Enter 4, Enter 5, Enter 6]) = 4"
proof -
  have "q_max_concurrent_requests (ic_quota (ai_config prewarmed_cold)) = 3" "ai_slots prewarmed_cold = 10"
    "ai_execute_check prewarmed_cold = Some (InstanceNotActive CREATED)" by code_simp+
  then show ?thesis using prewarmed_cold_runs by simp
qed

text \<open>An instance that is given back twice is in the pool twice, and two projects get the same instance.\<close>

lemma double_return_shares_instance:
  "let p = snd (return_instance 2 sample_instance 1 (snd (return_instance 1 sample_instance 1 (prewarm_init None))));
       (a, q) = get_prewarmed_instance 3 ''n'' (new_instance_config ''p1'' ''t1'' ''default'' COLD default_quota) p;
       (b, _) = get_prewarmed_instance 4 ''m'' (new_instance_config ''p2'' ''t2'' ''default'' COLD default_quota) q
   in case (a, b) of (L1Hit i, L1Hit j) \<Rightarrow> ai_id i = ai_id j \<and> ic_tenant_id (ai_config i) = ''t1'' \<and> ic_tenant_id (ai_config j) = ''t2'' | _ \<Rightarrow> False"
  by code_simp

end
