(* ===== verification/FailureRecovery.thy ===== *)
theory FailureRecovery
  imports Prelude
begin

text \<open>
  The failure recovery of the pool: \<open>src/infrastructure/agent/pool/ha/failure_recovery.py\<close>. Events are mutable and shared
  between the history and the recovery tasks, so they live in a list and are referred to by their position.
  The tasks are part of the state: \<open>fr_scheduled\<close> holds the events whose \<open>_attempt_recovery\<close> was created and has not
  run, \<open>fr_active\<close> the recoveries that sleep or wait for the pool. What the pool manager and the state recovery
  answer is an input. The attribute \<open>_background_tasks\<close> is not set by the constructor, so its use raises
  \<open>AttributeError\<close> right after the task was created.
\<close>

section \<open>State\<close>

datatype failure_type =
    HEALTH_CHECK_FAILED | INITIALIZATION_FAILED | EXECUTION_ERROR | RESOURCE_EXHAUSTED | TIMEOUT | CONNECTION_LOST | CONTAINER_CRASHED | UNKNOWN_FAILURE

datatype recovery_strategy = Restart | Recover | Migrate | Escalate

datatype recovery_status = RecoveryPending | InProgress | RecoverySuccess | RecoveryFailed | Skipped

record failure_event =
  fe_instance_key :: string
  fe_failure_type :: failure_type
  fe_timestamp :: int
  fe_error_message :: "string option"
  fe_recovery_attempted :: bool
  fe_recovery_strategy :: "recovery_strategy option"
  fe_recovery_status :: "recovery_status option"

record failure_recovery_action =
  ra_strategy :: recovery_strategy
  ra_max_retries :: int
  ra_retry_delay_seconds :: int
  ra_backoff_multiplier :: real
  ra_max_delay_seconds :: int

definition action :: "recovery_strategy \<Rightarrow> int \<Rightarrow> int \<Rightarrow> failure_recovery_action" where
  "action strategy retries delay =
     \<lparr>ra_strategy = strategy, ra_max_retries = retries, ra_retry_delay_seconds = delay, ra_backoff_multiplier = 2, ra_max_delay_seconds = 300\<rparr>"

fun recovery_actions :: "failure_type \<Rightarrow> failure_recovery_action" where
  "recovery_actions HEALTH_CHECK_FAILED = action Restart 3 10"
| "recovery_actions INITIALIZATION_FAILED = action Restart 2 30"
| "recovery_actions EXECUTION_ERROR = action Recover 2 5"
| "recovery_actions RESOURCE_EXHAUSTED = action Migrate 1 60"
| "recovery_actions TIMEOUT = action Restart 2 10"
| "recovery_actions CONNECTION_LOST = action Restart 5 5"
| "recovery_actions CONTAINER_CRASHED = action Recover 3 30"
| "recovery_actions UNKNOWN_FAILURE = action Escalate 1 60"

datatype recovery_notice = FailureNotice nat | RecoveryNotice string nat | EscalationNotice string nat string

record recovery_service =
  fr_has_state_recovery :: bool
  fr_has_pool_manager :: bool
  fr_max_failures_per_hour :: int
  fr_pattern_window :: int
  fr_events :: "failure_event list"
  fr_history :: "(string, nat list) dict"
  fr_scheduled :: "nat list"
  fr_active :: "(string, nat) dict"
  fr_attempts :: "(string, int) dict"
  fr_running :: bool
  fr_notices :: "recovery_notice list"

definition recovery_init :: "bool \<Rightarrow> bool \<Rightarrow> int \<Rightarrow> int \<Rightarrow> recovery_service" where
  "recovery_init state_recovery pool_manager max_failures window_minutes =
     \<lparr>fr_has_state_recovery = state_recovery, fr_has_pool_manager = pool_manager, fr_max_failures_per_hour = max_failures,
      fr_pattern_window = window_minutes * 60 * 1000000, fr_events = [], fr_history = [], fr_scheduled = [], fr_active = [], fr_attempts = [],
      fr_running = False, fr_notices = []\<rparr>"

section \<open>Operations\<close>

definition fr_start :: "recovery_service \<Rightarrow> recovery_service" where
  "fr_start s = s\<lparr>fr_running := True\<rparr>"

text \<open>
  \<open>stop\<close> cancels the tasks while it iterates over the dictionary. A cancelled recovery removes its own entry, so the
  iteration raises \<open>RuntimeError\<close> after the first one; \<open>True\<close> is that outcome. A recovery counts as begun as soon as
  \<open>_attempt_recovery\<close> has created its task.
\<close>

definition fr_stop :: "recovery_service \<Rightarrow> bool \<times> recovery_service" where
  "fr_stop s =
     (let s1 = s\<lparr>fr_running := False\<rparr>
      in if fr_active s = [] then (False, s1) else (True, s1\<lparr>fr_active := dict_pop (fst (hd (fr_active s))) (fr_active s)\<rparr>))"

definition update_event :: "nat \<Rightarrow> (failure_event \<Rightarrow> failure_event) \<Rightarrow> recovery_service \<Rightarrow> recovery_service" where
  "update_event i f s = (if i < length (fr_events s) then s\<lparr>fr_events := (fr_events s)[i := f (fr_events s ! i)]\<rparr> else s)"

definition notice :: "recovery_notice \<Rightarrow> recovery_service \<Rightarrow> recovery_service" where
  "notice n s = s\<lparr>fr_notices := fr_notices s @ [n]\<rparr>"

definition escalate :: "string \<Rightarrow> nat \<Rightarrow> string \<Rightarrow> recovery_service \<Rightarrow> recovery_service" where
  "escalate key i reason s = notice (EscalationNotice key i reason) (update_event i (fe_recovery_status_update (\<lambda>_. Some RecoveryFailed)) s)"

definition cleanup_old_failures :: "int \<Rightarrow> string \<Rightarrow> recovery_service \<Rightarrow> recovery_service" where
  "cleanup_old_failures now key s =
     (case dict_get (fr_history s) key of
        None \<Rightarrow> s
      | Some is \<Rightarrow> s\<lparr>fr_history := dict_set key (filter (\<lambda>i. fe_timestamp (fr_events s ! i) > now - fr_pattern_window s) is) (fr_history s)\<rparr>)"

text \<open>The number of failures of a recurring pattern.\<close>

definition detect_pattern :: "string \<Rightarrow> recovery_service \<Rightarrow> int option" where
  "detect_pattern key s =
     (let failures = dict_get_default (fr_history s) key [] in if length failures < 3 then None else Some (int (length failures)))"

datatype report_outcome = Reported nat | AttributeMissing nat

definition report_failure ::
  "int \<Rightarrow> int \<Rightarrow> string \<Rightarrow> failure_type \<Rightarrow> string option \<Rightarrow> bool \<Rightarrow> recovery_service \<Rightarrow> report_outcome \<times> recovery_service" where
  "report_failure now later key kind message auto_recover s =
     (let i = length (fr_events s);
          event = \<lparr>fe_instance_key = key, fe_failure_type = kind, fe_timestamp = now, fe_error_message = message, fe_recovery_attempted = False,
                   fe_recovery_strategy = None, fe_recovery_status = None\<rparr>;
          s1 = s\<lparr>fr_events := fr_events s @ [event], fr_history := dict_set key (dict_get_default (fr_history s) key [] @ [i]) (fr_history s)\<rparr>;
          s2 = notice (FailureNotice i) (cleanup_old_failures later key s1)
      in if (case detect_pattern key s2 of None \<Rightarrow> False | Some n \<Rightarrow> n \<ge> fr_max_failures_per_hour s2)
         then (Reported i, escalate key i ''Too many failures'' s2)
         else if auto_recover then (AttributeMissing i, s2\<lparr>fr_scheduled := fr_scheduled s2 @ [i]\<rparr>)
         else (Reported i, s2))"

text \<open>Python's descending sort keeps the order of equal keys.\<close>

definition fr_get_failure_history :: "string option \<Rightarrow> int \<Rightarrow> recovery_service \<Rightarrow> failure_event list" where
  "fr_get_failure_history key limit s =
     (case key of
        Some (c # cs) \<Rightarrow> List.rev (map ((!) (fr_events s)) (py_last_n limit (dict_get_default (fr_history s) (c # cs) [])))
      | _ \<Rightarrow> py_first_n limit (sort_key (\<lambda>e. - fe_timestamp e) (map ((!) (fr_events s)) (concat (dict_values (fr_history s))))))"

record failure_stats =
  fs_total_failures :: int
  fs_by_type :: "(failure_type, int) dict"
  fs_by_instance :: "(string, int) dict"
  fs_recovered :: int
  fs_failed_recovery :: int
  fs_active_recoveries :: int

definition count_failure :: "failure_event \<Rightarrow> failure_stats \<Rightarrow> failure_stats" where
  "count_failure e st =
     (let st1 = st\<lparr>fs_by_type := dict_set (fe_failure_type e) (dict_get_default (fs_by_type st) (fe_failure_type e) 0 + 1) (fs_by_type st)\<rparr>
      in if fe_recovery_status e = Some RecoverySuccess then st1\<lparr>fs_recovered := fs_recovered st1 + 1\<rparr>
         else if fe_recovery_status e = Some RecoveryFailed then st1\<lparr>fs_failed_recovery := fs_failed_recovery st1 + 1\<rparr>
         else st1)"

definition get_failure_stats :: "recovery_service \<Rightarrow> failure_stats" where
  "get_failure_stats s =
     (let st = fold (\<lambda>(key, is) st.
             fold (\<lambda>i. count_failure (fr_events s ! i)) is
               (st\<lparr>fs_total_failures := fs_total_failures st + int (length is), fs_by_instance := dict_set key (int (length is)) (fs_by_instance st)\<rparr>))
           (fr_history s)
           \<lparr>fs_total_failures = 0, fs_by_type = [], fs_by_instance = [], fs_recovered = 0, fs_failed_recovery = 0, fs_active_recoveries = 0\<rparr>
      in st\<lparr>fs_active_recoveries := int (length (fr_active s))\<rparr>)"

definition attempts_of :: "string \<Rightarrow> recovery_service \<Rightarrow> int" where
  "attempts_of key s = dict_get_default (fr_attempts s) key 0"

definition attempt_recovery :: "nat \<Rightarrow> recovery_service \<Rightarrow> recovery_service" where
  "attempt_recovery i s =
     (let event = fr_events s ! i; key = fe_instance_key event; act = recovery_actions (fe_failure_type event)
      in if dict_get (fr_active s) key \<noteq> None then s
         else if attempts_of key s \<ge> ra_max_retries act then escalate key i ''Max retries exceeded'' s
         else (update_event i (\<lambda>e. e\<lparr>fe_recovery_attempted := True, fe_recovery_strategy := Some (ra_strategy act), fe_recovery_status := Some InProgress\<rparr>) s)
                \<lparr>fr_active := dict_set key i (fr_active s)\<rparr>)"

text \<open>The \<open>k\<close>-th created task gets its turn.\<close>

definition run_scheduled :: "nat \<Rightarrow> recovery_service \<Rightarrow> recovery_service" where
  "run_scheduled k s =
     (if k < length (fr_scheduled s)
      then attempt_recovery (fr_scheduled s ! k) (s\<lparr>fr_scheduled := take k (fr_scheduled s) @ drop (Suc k) (fr_scheduled s)\<rparr>)
      else s)"

definition recovery_delay :: "failure_recovery_action \<Rightarrow> int \<Rightarrow> real" where
  "recovery_delay act attempts = min (real_of_int (ra_retry_delay_seconds act) * ra_backoff_multiplier act ^ nat attempts) (real_of_int (ra_max_delay_seconds act))"

definition fr_parse_instance_key :: "string \<Rightarrow> (string \<times> string \<times> string) option" where
  "fr_parse_instance_key key =
     (case split_at CHR '':'' key of
        None \<Rightarrow> None
      | Some (tenant, rest) \<Rightarrow>
          (case split_at CHR '':'' rest of
             None \<Rightarrow> None
           | Some (project, mode) \<Rightarrow> if tenant = [] \<or> project = [] \<or> mode = [] then None else Some (tenant, project, mode)))"

record recovery_answers =
  an_state_recovery :: "string option"
  an_set_tier :: "string option"
  an_terminate :: "string option"

definition bad_key :: string where
  "bad_key = ''instance_key must have format '' @ [CHR 0x27] @ ''tenant_id:project_id:agent_mode'' @ [CHR 0x27]"

text \<open>\<open>None\<close> when the strategy returns, the text of the exception otherwise.\<close>

definition recovery_restart :: "recovery_answers \<Rightarrow> string \<Rightarrow> recovery_service \<Rightarrow> string option" where
  "recovery_restart a key s =
     (if fr_has_pool_manager s then (case fr_parse_instance_key key of None \<Rightarrow> Some bad_key | Some _ \<Rightarrow> an_terminate a) else None)"

definition recovery_with_state :: "recovery_answers \<Rightarrow> string \<Rightarrow> recovery_service \<Rightarrow> string option" where
  "recovery_with_state a key s =
     (if fr_has_state_recovery s \<and> an_state_recovery a \<noteq> None then an_state_recovery a else recovery_restart a key s)"

definition recovery_migrate :: "recovery_answers \<Rightarrow> string \<Rightarrow> recovery_service \<Rightarrow> string option" where
  "recovery_migrate a key s =
     (if fr_has_pool_manager s
      then (case fr_parse_instance_key key of
              None \<Rightarrow> Some bad_key
            | Some _ \<Rightarrow> if an_set_tier a \<noteq> None then an_set_tier a else recovery_restart a key s)
      else recovery_restart a key s)"

text \<open>The recovery of \<open>key\<close> wakes from its sleep and runs to its end.\<close>

definition finish_recovery :: "recovery_answers \<Rightarrow> string \<Rightarrow> recovery_service \<Rightarrow> recovery_service" where
  "finish_recovery a key s =
     (case dict_get (fr_active s) key of
        None \<Rightarrow> s
      | Some i \<Rightarrow>
          (let act = recovery_actions (fe_failure_type (fr_events s ! i)); attempts = attempts_of key s;
               done = (\<lambda>s. s\<lparr>fr_active := dict_pop key (fr_active s)\<rparr>)
           in case ra_strategy act of
                Escalate \<Rightarrow> done (escalate key i ''Manual intervention required'' s)
              | strategy \<Rightarrow>
                  (case (if strategy = Restart then recovery_restart a key s else if strategy = Recover then recovery_with_state a key s else recovery_migrate a key s) of
                     None \<Rightarrow>
                       done (notice (RecoveryNotice key i)
                         ((update_event i (fe_recovery_status_update (\<lambda>_. Some RecoverySuccess)) s)\<lparr>fr_attempts := dict_set key 0 (fr_attempts s)\<rparr>))
                   | Some e \<Rightarrow>
                       (let s1 = (update_event i (fe_recovery_status_update (\<lambda>_. Some RecoveryFailed)) s)\<lparr>fr_attempts := dict_set key (attempts + 1) (fr_attempts s)\<rparr>
                        in if attempts + 1 < ra_max_retries act then done (s1\<lparr>fr_scheduled := fr_scheduled s1 @ [i]\<rparr>)
                           else done (escalate key i e s1)))))"

section \<open>Correctness\<close>

definition service_ok :: "recovery_service \<Rightarrow> bool" where
  "service_ok s \<longleftrightarrow>
     list_all (\<lambda>i. i < length (fr_events s)) (fr_scheduled s) \<and>
     (\<forall>key. 0 \<le> attempts_of key s \<and> attempts_of key s \<le> 5) \<and>
     (\<forall>key i. dict_get (fr_active s) key = Some i \<longrightarrow> i < length (fr_events s) \<and> fe_instance_key (fr_events s ! i) = key \<and>
        attempts_of key s < ra_max_retries (recovery_actions (fe_failure_type (fr_events s ! i)))) \<and>
     (\<forall>key is. dict_get (fr_history s) key = Some is \<longrightarrow> list_all (\<lambda>i. i < length (fr_events s) \<and> fe_instance_key (fr_events s ! i) = key) is)"

lemma retries_bounded: "1 \<le> ra_max_retries (recovery_actions t) \<and> ra_max_retries (recovery_actions t) \<le> 5"
  by (cases t) (simp_all add: action_def)

lemma delay_bounded: "0 < recovery_delay (recovery_actions t) n \<and> recovery_delay (recovery_actions t) n \<le> 300"
  by (cases t) (simp_all add: action_def recovery_delay_def)

text \<open>Identity of events: updates change neither key nor type.\<close>

lemma update_event_fields [simp]:
  "length (fr_events (update_event i f s)) = length (fr_events s)" "fr_history (update_event i f s) = fr_history s"
  "fr_scheduled (update_event i f s) = fr_scheduled s" "fr_active (update_event i f s) = fr_active s" "fr_attempts (update_event i f s) = fr_attempts s"
  "attempts_of k (update_event i f s) = attempts_of k s"
  by (simp_all add: update_event_def attempts_of_def)

lemma update_event_nth:
  "fr_events (update_event i f s) ! j = (if j = i \<and> i < length (fr_events s) then f (fr_events s ! i) else fr_events s ! j)"
  by (simp add: update_event_def nth_list_update)

lemma notice_fields [simp]:
  "fr_events (notice n s) = fr_events s" "fr_history (notice n s) = fr_history s" "fr_scheduled (notice n s) = fr_scheduled s"
  "fr_active (notice n s) = fr_active s" "attempts_of k (notice n s) = attempts_of k s"
  "fr_max_failures_per_hour (notice n s) = fr_max_failures_per_hour s"
  by (simp_all add: notice_def attempts_of_def)

lemma service_ok_update:
  assumes "service_ok s" and "\<And>e. fe_instance_key (f e) = fe_instance_key e" and "\<And>e. fe_failure_type (f e) = fe_failure_type e"
  shows "service_ok (update_event i f s)"
  using assms by (auto simp: service_ok_def update_event_nth list_all_iff)

lemma service_ok_notice: "service_ok (notice n s) \<longleftrightarrow> service_ok s"
  by (simp add: service_ok_def)

lemma escalate_ok: "service_ok s \<Longrightarrow> service_ok (escalate key i reason s)"
  unfolding escalate_def service_ok_notice by (rule service_ok_update) simp_all

lemma service_okD:
  assumes "service_ok s"
  shows "list_all (\<lambda>i. i < length (fr_events s)) (fr_scheduled s)" "0 \<le> attempts_of key s" "attempts_of key s \<le> 5"
    "dict_get (fr_active s) key = Some i \<Longrightarrow> i < length (fr_events s) \<and> fe_instance_key (fr_events s ! i) = key \<and>
       attempts_of key s < ra_max_retries (recovery_actions (fe_failure_type (fr_events s ! i)))"
    "dict_get (fr_history s) key = Some is \<Longrightarrow> list_all (\<lambda>i. i < length (fr_events s) \<and> fe_instance_key (fr_events s ! i) = key) is"
  using assms unfolding service_ok_def by blast+

lemma add_event_ok:
  assumes "service_ok s" and "fe_instance_key e = key"
  shows "service_ok (s\<lparr>fr_events := fr_events s @ [e], fr_history := dict_set key (dict_get_default (fr_history s) key [] @ [length (fr_events s)]) (fr_history s)\<rparr>)"
  (is "service_ok ?s")
proof -
  note d = service_okD [OF assms(1)]
  have "list_all (\<lambda>j. j < length (fr_events ?s) \<and> fe_instance_key (fr_events ?s ! j) = k) js" if "dict_get (fr_history ?s) k = Some js" for k js
  proof (cases "k = key")
    case True
    then have "js = dict_get_default (fr_history s) key [] @ [length (fr_events s)]" using that by (simp add: dict_get_set)
    moreover have "list_all (\<lambda>j. j < length (fr_events s) \<and> fe_instance_key (fr_events s ! j) = key) (dict_get_default (fr_history s) key [])"
      using d(5) [of key] by (simp add: dict_get_default_def split: option.split)
    ultimately show ?thesis using True assms(2) by (auto simp: list_all_iff nth_append)
  next
    case False
    then show ?thesis using that d(5) [of k js] by (auto simp: dict_get_set list_all_iff nth_append)
  qed
  moreover have "j < length (fr_events ?s) \<and> fe_instance_key (fr_events ?s ! j) = k \<and>
      attempts_of k ?s < ra_max_retries (recovery_actions (fe_failure_type (fr_events ?s ! j)))" if "dict_get (fr_active ?s) k = Some j" for k j
    using that d(4) [of k j] by (simp add: nth_append attempts_of_def)
  moreover have "list_all (\<lambda>j. j < length (fr_events ?s)) (fr_scheduled ?s)" using d(1) by (auto simp: list_all_iff)
  ultimately show ?thesis using d(2,3) unfolding service_ok_def by (simp add: attempts_of_def)
qed

lemma cleanup_ok:
  assumes "service_ok s"
  shows "service_ok (cleanup_old_failures now key s)"
proof (cases "dict_get (fr_history s) key")
  case (Some js)
  then show ?thesis using assms service_okD(5) [OF assms Some] unfolding service_ok_def
    by (auto simp: cleanup_old_failures_def attempts_of_def dict_get_set list_all_iff)
qed (use assms in \<open>simp add: cleanup_old_failures_def\<close>)

lemma cleanup_fields [simp]:
  "fr_events (cleanup_old_failures now key s) = fr_events s" "fr_scheduled (cleanup_old_failures now key s) = fr_scheduled s"
  "fr_active (cleanup_old_failures now key s) = fr_active s" "fr_max_failures_per_hour (cleanup_old_failures now key s) = fr_max_failures_per_hour s"
  "fr_pattern_window (cleanup_old_failures now key s) = fr_pattern_window s" "fr_attempts (cleanup_old_failures now key s) = fr_attempts s"
  by (simp_all add: cleanup_old_failures_def split: option.split)

lemma schedule_ok: "service_ok s \<Longrightarrow> i < length (fr_events s) \<Longrightarrow> service_ok (s\<lparr>fr_scheduled := fr_scheduled s @ [i]\<rparr>)"
  by (simp add: service_ok_def attempts_of_def)

lemma fr_report_ok: "service_ok s \<Longrightarrow> service_ok (snd (report_failure now later key kind message auto_recover s))"
proof -
  assume "service_ok s"
  let ?e = "\<lparr>fe_instance_key = key, fe_failure_type = kind, fe_timestamp = now, fe_error_message = message, fe_recovery_attempted = False,
     fe_recovery_strategy = None, fe_recovery_status = None\<rparr>"
  let ?s1 = "s\<lparr>fr_events := fr_events s @ [?e], fr_history := dict_set key (dict_get_default (fr_history s) key [] @ [length (fr_events s)]) (fr_history s)\<rparr>"
  let ?s2 = "notice (FailureNotice (length (fr_events s))) (cleanup_old_failures later key ?s1)"
  have ok: "service_ok ?s2" using cleanup_ok [OF add_event_ok [OF \<open>service_ok s\<close>]] by (simp add: service_ok_notice)
  then show ?thesis using schedule_ok [OF ok, of "length (fr_events s)"]
    by (simp add: report_failure_def Let_def escalate_ok)
qed

lemma attempt_ok:
  assumes "service_ok s" and "i < length (fr_events s)"
  shows "service_ok (attempt_recovery i s)"
proof -
  let ?e = "fr_events s ! i"
  let ?f = "\<lambda>e. e\<lparr>fe_recovery_attempted := True, fe_recovery_strategy := Some (ra_strategy (recovery_actions (fe_failure_type ?e))), fe_recovery_status := Some InProgress\<rparr>"
  have u: "service_ok (update_event i ?f s)" by (rule service_ok_update [OF assms(1)]) simp_all
  have "service_ok ((update_event i ?f s)\<lparr>fr_active := dict_set (fe_instance_key ?e) i (fr_active s)\<rparr>)"
    if "\<not> attempts_of (fe_instance_key ?e) s \<ge> ra_max_retries (recovery_actions (fe_failure_type ?e))"
    using u that assms(2) unfolding service_ok_def
    by (auto simp: dict_get_set update_event_nth attempts_of_def split: if_splits)
  then show ?thesis using assms(1) by (simp add: attempt_recovery_def Let_def escalate_ok)
qed

lemma run_scheduled_ok: "service_ok s \<Longrightarrow> service_ok (run_scheduled k s)"
proof (cases "k < length (fr_scheduled s)")
  case True
  assume ok: "service_ok s"
  let ?s = "s\<lparr>fr_scheduled := take k (fr_scheduled s) @ drop (Suc k) (fr_scheduled s)\<rparr>"
  have "service_ok ?s" using ok by (auto simp: service_ok_def attempts_of_def list_all_iff dest: in_set_takeD in_set_dropD)
  moreover have "fr_scheduled s ! k < length (fr_events ?s)" using service_okD(1) [OF ok] True by (simp add: list_all_length)
  ultimately show ?thesis using True by (simp add: run_scheduled_def attempt_ok)
qed (simp add: run_scheduled_def)

lemma pop_active_ok: "service_ok s \<Longrightarrow> service_ok (s\<lparr>fr_active := dict_pop key (fr_active s)\<rparr>)"
  by (auto simp: service_ok_def attempts_of_def dict_get_pop split: if_splits)

text \<open>The last recovery of a key writes its counter and drops it from the active ones.\<close>

lemma set_attempts_ok:
  assumes "service_ok s" and "0 \<le> n" and "n \<le> 5"
  shows "service_ok (s\<lparr>fr_attempts := dict_set key n (fr_attempts s), fr_active := dict_pop key (fr_active s)\<rparr>)"
  using assms by (auto simp: service_ok_def attempts_of_def dict_get_default_def dict_get_set dict_get_pop split: if_splits)

lemma service_ok_cong:
  "service_ok s \<Longrightarrow> fr_events q = fr_events s \<Longrightarrow> fr_scheduled q = fr_scheduled s \<Longrightarrow> fr_attempts q = fr_attempts s \<Longrightarrow> fr_active q = fr_active s \<Longrightarrow>
   fr_history q = fr_history s \<Longrightarrow> service_ok q"
  by (simp add: service_ok_def attempts_of_def)

lemma escalate_pop: "(escalate key i reason s)\<lparr>fr_active := dict_pop key (fr_active (escalate key i reason s))\<rparr> =
    escalate key i reason (s\<lparr>fr_active := dict_pop key (fr_active s)\<rparr>)"
  by (simp add: escalate_def notice_def update_event_def)

lemma finish_ok:
  assumes "service_ok s"
  shows "service_ok (finish_recovery a key s)"
proof (cases "dict_get (fr_active s) key")
  case (Some i)
  let ?act = "recovery_actions (fe_failure_type (fr_events s ! i))" and ?n = "attempts_of key s"
  let ?u = "\<lambda>st. update_event i (fe_recovery_status_update (\<lambda>_. Some st)) s"
  let ?set = "\<lambda>st n. (?u st)\<lparr>fr_attempts := dict_set key n (fr_attempts s), fr_active := dict_pop key (fr_active s)\<rparr>"
  have set: "service_ok (?set st n)" if "0 \<le> n" "n \<le> 5" for st n
    using set_attempts_ok [OF service_ok_update [OF assms, of "fe_recovery_status_update (\<lambda>_. Some st)" i] that, of key] by simp
  have n: "0 \<le> ?n" "?n + 1 \<le> 5" and i: "i < length (fr_events s)"
    using service_okD(2) [OF assms, of key] service_okD(4) [OF assms Some] retries_bounded [of "fe_failure_type (fr_events s ! i)"] by auto
  let ?res = "if ra_strategy ?act = Restart then recovery_restart a key s else if ra_strategy ?act = Recover then recovery_with_state a key s else recovery_migrate a key s"
  consider "ra_strategy ?act = Escalate" | "ra_strategy ?act \<noteq> Escalate" "?res = None" | e where "ra_strategy ?act \<noteq> Escalate" "?res = Some e" "?n + 1 < ra_max_retries ?act"
    | e where "ra_strategy ?act \<noteq> Escalate" "?res = Some e" "\<not> ?n + 1 < ra_max_retries ?act" by fastforce
  then show ?thesis
  proof cases
    case 1
    then have "finish_recovery a key s = escalate key i ''Manual intervention required'' (s\<lparr>fr_active := dict_pop key (fr_active s)\<rparr>)"
      by (simp add: finish_recovery_def Some Let_def escalate_pop)
    then show ?thesis using assms by (simp add: escalate_ok pop_active_ok)
  next
    case 2
    then have "finish_recovery a key s = (notice (RecoveryNotice key i) (?set RecoverySuccess 0))"
      by (cases "ra_strategy ?act") (simp_all add: finish_recovery_def Some Let_def notice_def)
    then show ?thesis using set [of 0 RecoverySuccess] by (simp add: service_ok_notice)
  next
    case (3 e)
    then have "finish_recovery a key s = (?set RecoveryFailed (?n + 1))\<lparr>fr_scheduled := fr_scheduled (?set RecoveryFailed (?n + 1)) @ [i]\<rparr>"
      by (cases "ra_strategy ?act") (simp_all add: finish_recovery_def Some Let_def)
    then show ?thesis using schedule_ok [OF set [of "?n + 1" RecoveryFailed]] n i by simp
  next
    case (4 e)
    then have "finish_recovery a key s = escalate key i e (?set RecoveryFailed (?n + 1))"
      by (cases "ra_strategy ?act") (simp_all add: finish_recovery_def Some Let_def escalate_pop)
    then show ?thesis using escalate_ok [OF set [of "?n + 1" RecoveryFailed]] n by simp
  qed
qed (use assms in \<open>simp add: finish_recovery_def\<close>)

section \<open>Runs\<close>

datatype recovery_step =
    ReportFailure int int string failure_type "string option" bool
  | RunScheduled nat
  | FinishRecovery recovery_answers string
  | StartService
  | StopService

fun fr_step :: "recovery_service \<Rightarrow> recovery_step \<Rightarrow> recovery_service" where
  "fr_step s (ReportFailure now later key kind message auto_recover) = snd (report_failure now later key kind message auto_recover s)"
| "fr_step s (RunScheduled k) = run_scheduled k s"
| "fr_step s (FinishRecovery a key) = finish_recovery a key s"
| "fr_step s StartService = fr_start s"
| "fr_step s StopService = snd (fr_stop s)"

lemma start_service_ok: "service_ok s \<Longrightarrow> service_ok (fr_start s)"
  by (erule service_ok_cong) (simp_all add: fr_start_def)

lemma stop_service_ok: "service_ok s \<Longrightarrow> service_ok (snd (fr_stop s))"
proof -
  assume ok: "service_ok s"
  have "service_ok (s\<lparr>fr_running := False\<rparr>)" by (rule service_ok_cong [OF ok]) simp_all
  then have "service_ok (s\<lparr>fr_running := False, fr_active := dict_pop key (fr_active s)\<rparr>)" for key
    using pop_active_ok [of "s\<lparr>fr_running := False\<rparr>"] by simp
  with \<open>service_ok (s\<lparr>fr_running := False\<rparr>)\<close> show ?thesis
    by (simp add: fr_stop_def Let_def)
qed

interpretation recovery: invariant_machine fr_step service_ok
proof
  show "service_ok s \<Longrightarrow> service_ok (fr_step s e)" for s e
    by (cases e) (simp_all add: fr_report_ok run_scheduled_ok finish_ok start_service_ok stop_service_ok)
qed

lemma recovery_init_ok: "service_ok (recovery_init sr pm n w)"
  by (simp add: recovery_init_def service_ok_def attempts_of_def dict_get_default_def)

lemma escalate_history [simp]: "fr_history (escalate key i reason s) = fr_history s" "fr_scheduled (escalate key i reason s) = fr_scheduled s"
  by (simp_all add: escalate_def)


definition flaky :: recovery_service where
  "flaky = foldl fr_step (recovery_init False True 3 60) [ReportFailure 0 0 ''t:p:default'' TIMEOUT None True, RunScheduled 0, ReportFailure 1 1 ''t:p:default'' TIMEOUT None True]"


section \<open>Retries\<close>

text \<open>
  The counter belongs to the instance, not to the failure: after two failed restarts for a lost connection,
  whose limit is five, a time-out of the same instance is escalated without a single recovery attempt.
\<close>

definition refused :: recovery_answers where
  "refused = \<lparr>an_state_recovery = None, an_set_tier = None, an_terminate = Some ''refused''\<rparr>"

lemma retry_budget_shared:
  "let s = foldl fr_step (recovery_init False True 10 60)
        [ReportFailure 0 0 ''t:p:default'' CONNECTION_LOST None True, RunScheduled 0, FinishRecovery refused ''t:p:default'', RunScheduled 0,
         FinishRecovery refused ''t:p:default'', ReportFailure 1 1 ''t:p:default'' TIMEOUT None True, RunScheduled 1]
   in last (fr_notices s) = EscalationNotice ''t:p:default'' 1 ''Max retries exceeded'' \<and> \<not> fe_recovery_attempted (fr_events s ! 1)"
  by code_simp

text \<open>Stopping the service with two active recoveries raises after the first and leaves the second running.\<close>

lemma stop_leaves_recoveries:
  "let s = foldl fr_step (recovery_init False True 10 60)
        [ReportFailure 0 0 ''t:p:default'' TIMEOUT None True, ReportFailure 0 0 ''t:q:default'' TIMEOUT None True, RunScheduled 0, RunScheduled 0]
   in map fst (fr_active s) = [''t:p:default'', ''t:q:default''] \<and> fst (fr_stop s) \<and> map fst (fr_active (snd (fr_stop s))) = [''t:q:default'']"
  by code_simp

section \<open>Statistics\<close>

text \<open>The totals agree: every failure of the histories is counted once for its type, and at most once as recovered or failed.\<close>

definition type_total :: "failure_stats \<Rightarrow> int" where
  "type_total st = sum_list (dict_values (fs_by_type st))"

lemma sum_values_bump: "sum_list (dict_values (dict_set k (dict_get_default d k 0 + 1) d)) = sum_list (dict_values d) + (1 :: int)"
  if "wf_dict d" for d :: "('k, int) dict"
  using that by (induction d) (auto simp: wf_dict_def dict_get_default_def)

lemma count_failure_totals:
  assumes "wf_dict (fs_by_type st)"
  shows "wf_dict (fs_by_type (count_failure e st))" "type_total (count_failure e st) = type_total st + 1"
    "fs_recovered (count_failure e st) + fs_failed_recovery (count_failure e st) \<le> fs_recovered st + fs_failed_recovery st + 1"
    "fs_total_failures (count_failure e st) = fs_total_failures st"
  using assms sum_values_bump [OF assms] by (simp_all add: count_failure_def type_total_def Let_def)

lemma count_failures_totals:
  assumes "wf_dict (fs_by_type st)"
  shows "wf_dict (fs_by_type (fold count_failure es st)) \<and> type_total (fold count_failure es st) = type_total st + int (length es) \<and>
    fs_recovered (fold count_failure es st) + fs_failed_recovery (fold count_failure es st) \<le> fs_recovered st + fs_failed_recovery st + int (length es) \<and>
    fs_total_failures (fold count_failure es st) = fs_total_failures st"
  using assms
proof (induction es arbitrary: st)
  case (Cons e es)
  note c = count_failure_totals [OF Cons.prems, of e]
  show ?case using Cons.IH [OF c(1)] c(2-4) by simp
qed simp

definition totals_agree :: "failure_stats \<Rightarrow> bool" where
  "totals_agree st \<longleftrightarrow> wf_dict (fs_by_type st) \<and> type_total st = fs_total_failures st \<and> fs_recovered st + fs_failed_recovery st \<le> fs_total_failures st"

lemma count_instance_totals:
  assumes "totals_agree st"
  shows "totals_agree (fold count_failure es (st\<lparr>fs_total_failures := fs_total_failures st + int (length es), fs_by_instance := d\<rparr>))"
  using count_failures_totals [of "st\<lparr>fs_total_failures := fs_total_failures st + int (length es), fs_by_instance := d\<rparr>" es] assms
  by (simp add: totals_agree_def type_total_def)

lemma failure_stats_agree:
  "type_total (get_failure_stats s) = fs_total_failures (get_failure_stats s) \<and>
   fs_recovered (get_failure_stats s) + fs_failed_recovery (get_failure_stats s) \<le> fs_total_failures (get_failure_stats s)"
proof -
  let ?f = "\<lambda>(key, is) st. fold (\<lambda>i. count_failure (fr_events s ! i)) is
      (st\<lparr>fs_total_failures := fs_total_failures st + int (length is), fs_by_instance := dict_set key (int (length is)) (fs_by_instance st)\<rparr>)"
  have step: "totals_agree (?f p st)" if "totals_agree st" for p st
    using count_instance_totals [OF that, of "map ((!) (fr_events s)) (snd p)"] by (cases p) (simp add: fold_map comp_def)
  have all: "totals_agree st \<Longrightarrow> totals_agree (fold ?f h st)" for h st
  proof (induction h arbitrary: st)
    case (Cons p h)
    show ?case using Cons.IH [OF step [OF Cons.prems]] by (simp only: fold_simps comp_apply)
  qed simp
  show ?thesis using all [of "\<lparr>fs_total_failures = 0, fs_by_type = [], fs_by_instance = [], fs_recovered = 0, fs_failed_recovery = 0, fs_active_recoveries = 0\<rparr>" "fr_history s"]
    by (simp add: totals_agree_def get_failure_stats_def Let_def type_total_def)
qed

end
