(* ===== verification/AutoScaling.thy ===== *)
theory AutoScaling
  imports Prelude
begin

text \<open>
  The automatic scaling of instance groups: \<open>src/infrastructure/agent/pool/ha/auto_scaling.py\<close>. Times are
  microseconds; averages and thresholds are reals. What the pool manager answers to \<open>scale_instances\<close> is an
  input of the step that waits for it; \<open>scale\<close> computes its event before that wait and updates the counters
  after it, and the metrics reported in between change neither. Callbacks are caught by the code and do not
  change the service.
\<close>

section \<open>State\<close>

datatype scaling_direction = UP | DOWN | NONE

datatype scaling_reason =
    HIGH_CPU | HIGH_MEMORY | HIGH_QUEUE_DEPTH | HIGH_LATENCY | LOW_UTILIZATION | HEALTH_ISSUES | SCHEDULED | MANUAL

record scaling_policy =
  sp_cpu_up :: real
  sp_cpu_down :: real
  sp_memory_up :: real
  sp_memory_down :: real
  sp_queue_up :: int
  sp_queue_down :: int
  sp_latency_up :: real
  sp_latency_down :: real
  sp_up_increment :: int
  sp_down_increment :: int
  sp_min_instances :: int
  sp_max_instances :: int
  sp_up_cooldown :: int
  sp_down_cooldown :: int
  sp_evaluation_periods :: int
  sp_evaluation_interval :: int

definition default_scaling_policy :: scaling_policy where
  "default_scaling_policy =
     \<lparr>sp_cpu_up = 8 / 10, sp_cpu_down = 3 / 10, sp_memory_up = 85 / 100, sp_memory_down = 4 / 10, sp_queue_up = 100, sp_queue_down = 10,
      sp_latency_up = 5000, sp_latency_down = 500, sp_up_increment = 1, sp_down_increment = 1, sp_min_instances = 0, sp_max_instances = 10,
      sp_up_cooldown = 60, sp_down_cooldown = 300, sp_evaluation_periods = 3, sp_evaluation_interval = 30\<rparr>"

record scaling_metrics =
  sm_cpu :: real
  sm_memory :: real
  sm_queue_depth :: int
  sm_latency :: real
  sm_active_requests :: int
  sm_healthy_instances :: int
  sm_total_instances :: int
  sm_timestamp :: int

definition empty_metrics :: "int \<Rightarrow> scaling_metrics" where
  "empty_metrics now =
     \<lparr>sm_cpu = 0, sm_memory = 0, sm_queue_depth = 0, sm_latency = 0, sm_active_requests = 0, sm_healthy_instances = 0, sm_total_instances = 0,
      sm_timestamp = now\<rparr>"

record scaling_event =
  sv_instance_key :: string
  sv_direction :: scaling_direction
  sv_reason :: scaling_reason
  sv_previous_count :: int
  sv_target_count :: int
  sv_metrics :: scaling_metrics
  sv_timestamp :: int
  sv_success :: bool
  sv_error_message :: "string option"

record scaling_decision =
  sd_direction :: scaling_direction
  sd_reason :: scaling_reason
  sd_target_count :: int
  sd_metrics :: scaling_metrics
  sd_confidence :: real

datatype pool_link = NoPoolManager | CannotScale | CanScale

record autoscaler =
  as_pool_manager :: pool_link
  as_default_policy :: scaling_policy
  as_policies :: "(string, scaling_policy) dict"
  as_metrics_history :: "(string, scaling_metrics list) dict"
  as_last_scale_up :: "(string, int) dict"
  as_last_scale_down :: "(string, int) dict"
  as_current_counts :: "(string, int) dict"
  as_scaling_events :: "scaling_event list"
  as_running :: bool

definition autoscaler_init :: "pool_link \<Rightarrow> scaling_policy option \<Rightarrow> autoscaler" where
  "autoscaler_init link policy =
     \<lparr>as_pool_manager = link, as_default_policy = (case policy of None \<Rightarrow> default_scaling_policy | Some p \<Rightarrow> p), as_policies = [],
      as_metrics_history = [], as_last_scale_up = [], as_last_scale_down = [], as_current_counts = [], as_scaling_events = [], as_running = False\<rparr>"

definition max_events :: int where
  "max_events = 1000"

section \<open>Operations\<close>

definition as_start :: "autoscaler \<Rightarrow> autoscaler" where
  "as_start s = s\<lparr>as_running := True\<rparr>"

definition as_stop :: "autoscaler \<Rightarrow> autoscaler" where
  "as_stop s = s\<lparr>as_running := False\<rparr>"

definition set_policy :: "string \<Rightarrow> scaling_policy \<Rightarrow> autoscaler \<Rightarrow> autoscaler" where
  "set_policy key p s = s\<lparr>as_policies := dict_set key p (as_policies s)\<rparr>"

definition get_policy :: "string \<Rightarrow> autoscaler \<Rightarrow> scaling_policy" where
  "get_policy key s = dict_get_default (as_policies s) key (as_default_policy s)"

datatype scaling_error = NoRecentMetrics | ZeroThreshold

definition average :: "('m \<Rightarrow> real) \<Rightarrow> 'm list \<Rightarrow> real" where
  "average f ms = sum_list (map f ms) / real (length ms)"

text \<open>The first of the four metrics whose average reaches its threshold.\<close>

definition metric_checks :: "scaling_policy \<Rightarrow> scaling_metrics list \<Rightarrow> (real \<times> real \<times> scaling_reason) list" where
  "metric_checks policy recent =
     [(average sm_cpu recent, sp_cpu_up policy, HIGH_CPU), (average sm_memory recent, sp_memory_up policy, HIGH_MEMORY),
      (average (\<lambda>m. real_of_int (sm_queue_depth m)) recent, real_of_int (sp_queue_up policy), HIGH_QUEUE_DEPTH),
      (average sm_latency recent, sp_latency_up policy, HIGH_LATENCY)]"

definition cooling :: "(string, int) dict \<Rightarrow> int \<Rightarrow> string \<Rightarrow> int \<Rightarrow> bool" where
  "cooling last_scale seconds key now = (case dict_get last_scale key of None \<Rightarrow> False | Some t \<Rightarrow> now < t + seconds * 1000000)"

definition current_count :: "string \<Rightarrow> autoscaler \<Rightarrow> int" where
  "current_count key s = dict_get_default (as_current_counts s) key 1"

definition check_scale_up ::
  "string \<Rightarrow> scaling_policy \<Rightarrow> scaling_metrics list \<Rightarrow> int \<Rightarrow> autoscaler \<Rightarrow> scaling_error + scaling_decision option" where
  "check_scale_up key policy history now s =
     (if cooling (as_last_scale_up s) (sp_up_cooldown policy) key now then Inr None
      else let current = current_count key s
           in if current \<ge> sp_max_instances policy then Inr None
              else let recent = py_last_n (sp_evaluation_periods policy) history
                   in if recent = [] then Inl NoRecentMetrics
                      else case find (\<lambda>(avg, threshold, reason). avg \<ge> threshold) (metric_checks policy recent) of
                             None \<Rightarrow> Inr None
                           | Some (avg, threshold, reason) \<Rightarrow>
                               if threshold = 0 then Inl ZeroThreshold
                               else Inr (Some \<lparr>sd_direction = UP, sd_reason = reason,
                                               sd_target_count = min (current + sp_up_increment policy) (sp_max_instances policy),
                                               sd_metrics = last recent, sd_confidence = min (avg / threshold) 1\<rparr>))"

definition all_low :: "scaling_policy \<Rightarrow> scaling_metrics list \<Rightarrow> bool" where
  "all_low policy recent \<longleftrightarrow>
     average sm_cpu recent \<le> sp_cpu_down policy \<and> average sm_memory recent \<le> sp_memory_down policy \<and>
     average (\<lambda>m. real_of_int (sm_queue_depth m)) recent \<le> real_of_int (sp_queue_down policy) \<and> average sm_latency recent \<le> sp_latency_down policy"

definition check_scale_down ::
  "string \<Rightarrow> scaling_policy \<Rightarrow> scaling_metrics list \<Rightarrow> int \<Rightarrow> autoscaler \<Rightarrow> scaling_error + scaling_decision option" where
  "check_scale_down key policy history now s =
     (if cooling (as_last_scale_down s) (sp_down_cooldown policy) key now then Inr None
      else let current = current_count key s
           in if current \<le> sp_min_instances policy then Inr None
              else let recent = py_last_n (sp_evaluation_periods policy) history
                   in if recent = [] then Inl NoRecentMetrics
                      else if all_low policy recent
                           then (if sp_cpu_up policy = 0 \<or> sp_memory_up policy = 0 then Inl ZeroThreshold
                                 else Inr (Some \<lparr>sd_direction = DOWN, sd_reason = LOW_UTILIZATION,
                                                 sd_target_count = max (current - sp_down_increment policy) (sp_min_instances policy),
                                                 sd_metrics = last recent,
                                                 sd_confidence = 1 - max (average sm_cpu recent / sp_cpu_up policy) (average sm_memory recent / sp_memory_up policy)\<rparr>))
                           else Inr None)"

definition evaluate_scaling :: "int \<Rightarrow> string \<Rightarrow> autoscaler \<Rightarrow> scaling_error + scaling_decision option" where
  "evaluate_scaling now key s =
     (let policy = get_policy key s; history = dict_get_default (as_metrics_history s) key []
      in if int (length history) < sp_evaluation_periods policy then Inr None
         else case check_scale_up key policy history now s of
                Inl e \<Rightarrow> Inl e
              | Inr (Some d) \<Rightarrow> Inr (Some d)
              | Inr None \<Rightarrow> check_scale_down key policy history now s)"

definition report_metrics :: "int \<Rightarrow> string \<Rightarrow> scaling_metrics \<Rightarrow> autoscaler \<Rightarrow> (scaling_error + scaling_decision option) \<times> autoscaler" where
  "report_metrics now key metrics s =
     (let s1 = (if dict_get (as_metrics_history s) key = None then s\<lparr>as_metrics_history := dict_set key [] (as_metrics_history s)\<rparr> else s);
          history = dict_get_default (as_metrics_history s1) key [] @ [metrics];
          policy = get_policy key s1;
          s2 = s1\<lparr>as_metrics_history := dict_set key (py_last_n (sp_evaluation_periods policy * 2) history) (as_metrics_history s1)\<rparr>
      in (evaluate_scaling now key s2, s2))"

text \<open>The answer of the pool manager: \<open>None\<close> when it returned, the text of the exception otherwise.\<close>

definition apply_pool_manager_scaling :: "string option \<Rightarrow> autoscaler \<Rightarrow> string option" where
  "apply_pool_manager_scaling answer s =
     (case as_pool_manager s of
        NoPoolManager \<Rightarrow> None
      | CannotScale \<Rightarrow> Some ''Auto-scaling requires pool_manager.scale_instances(instance_key, target_count)''
      | CanScale \<Rightarrow> answer)"

definition execute_scaling :: "int \<Rightarrow> string option \<Rightarrow> string \<Rightarrow> scaling_event \<Rightarrow> autoscaler \<Rightarrow> string option \<times> autoscaler" where
  "execute_scaling done_at answer key event s =
     (case apply_pool_manager_scaling answer s of
        Some e \<Rightarrow> (Some e, s)
      | None \<Rightarrow>
          (let s1 = (case sv_direction event of
                       UP \<Rightarrow> s\<lparr>as_last_scale_up := dict_set key done_at (as_last_scale_up s)\<rparr>
                     | DOWN \<Rightarrow> s\<lparr>as_last_scale_down := dict_set key done_at (as_last_scale_down s)\<rparr>
                     | NONE \<Rightarrow> s)
           in (None, s1\<lparr>as_current_counts := dict_set key (sv_target_count event) (as_current_counts s1)\<rparr>)))"

definition record_event :: "scaling_event \<Rightarrow> autoscaler \<Rightarrow> autoscaler" where
  "record_event event s =
     (let events = as_scaling_events s @ [event]
      in s\<lparr>as_scaling_events := (if int (length events) > max_events then py_last_n max_events events else events)\<rparr>)"

definition scale ::
  "int \<Rightarrow> int \<Rightarrow> string option \<Rightarrow> string \<Rightarrow> scaling_direction \<Rightarrow> scaling_reason \<Rightarrow> int option \<Rightarrow> autoscaler \<Rightarrow> scaling_event \<times> autoscaler" where
  "scale now done_at answer key direction reason target s =
     (let policy = get_policy key s; current = current_count key s;
          target_count = (case target of
            Some t \<Rightarrow> t
          | None \<Rightarrow> (case direction of
                       UP \<Rightarrow> min (current + sp_up_increment policy) (sp_max_instances policy)
                     | DOWN \<Rightarrow> max (current - sp_down_increment policy) (sp_min_instances policy)
                     | NONE \<Rightarrow> current));
          metrics = (case dict_get (as_metrics_history s) key of None \<Rightarrow> empty_metrics now | Some ms \<Rightarrow> last ms);
          event = \<lparr>sv_instance_key = key, sv_direction = direction, sv_reason = reason, sv_previous_count = current,
                   sv_target_count = target_count, sv_metrics = metrics, sv_timestamp = now, sv_success = False, sv_error_message = None\<rparr>;
          (failure, s1) = execute_scaling done_at answer key event s;
          event1 = (case failure of None \<Rightarrow> event\<lparr>sv_success := True\<rparr> | Some e \<Rightarrow> event\<lparr>sv_success := False, sv_error_message := Some e\<rparr>)
      in (event1, record_event event1 s1))"

definition get_scaling_history :: "string option \<Rightarrow> int \<Rightarrow> autoscaler \<Rightarrow> scaling_event list" where
  "get_scaling_history key limit s =
     (let events = (case key of None \<Rightarrow> as_scaling_events s
                     | Some k \<Rightarrow> if k = [] then as_scaling_events s else filter (\<lambda>e. sv_instance_key e = k) (as_scaling_events s))
      in rev (py_last_n limit events))"

text \<open>The body of the monitoring loop for one key: the last reported metrics are evaluated again and acted upon.\<close>

definition monitor_key ::
  "int \<Rightarrow> int \<Rightarrow> int \<Rightarrow> string option \<Rightarrow> string \<Rightarrow> autoscaler \<Rightarrow> scaling_error option \<times> autoscaler" where
  "monitor_key now started done_at answer key s =
     (case dict_get (as_metrics_history s) key of
        None \<Rightarrow> (None, s)
      | Some [] \<Rightarrow> (None, s)
      | Some (m # ms) \<Rightarrow>
          (case evaluate_scaling now key s of
             Inl e \<Rightarrow> (Some e, s)
           | Inr None \<Rightarrow> (None, s)
           | Inr (Some d) \<Rightarrow>
               if sd_direction d \<noteq> NONE
               then (None, snd (scale started done_at answer key (sd_direction d) (sd_reason d) (Some (sd_target_count d)) s))
               else (None, s)))"

definition count_events :: "(scaling_event \<Rightarrow> bool) \<Rightarrow> autoscaler \<Rightarrow> int" where
  "count_events P s = int (length (filter P (as_scaling_events s)))"

record scaling_stats =
  ss_total_events :: int
  ss_scale_up_count :: int
  ss_scale_down_count :: int
  ss_success_count :: int
  ss_failure_count :: int
  ss_by_reason :: "(scaling_reason, int) dict"
  ss_active_policies :: int

definition get_scaling_stats :: "autoscaler \<Rightarrow> scaling_stats" where
  "get_scaling_stats s =
     \<lparr>ss_total_events = int (length (as_scaling_events s)), ss_scale_up_count = count_events (\<lambda>e. sv_direction e = UP) s,
      ss_scale_down_count = count_events (\<lambda>e. sv_direction e = DOWN) s, ss_success_count = count_events sv_success s,
      ss_failure_count = int (length (as_scaling_events s)) - count_events sv_success s,
      ss_by_reason = foldl (\<lambda>acc e. dict_set (sv_reason e) (dict_get_default acc (sv_reason e) 0 + 1) acc) [] (as_scaling_events s),
      ss_active_policies = int (length (as_policies s))\<rparr>"

section \<open>What a decision means\<close>

definition policy_ok :: "scaling_policy \<Rightarrow> bool" where
  "policy_ok p \<longleftrightarrow> 1 \<le> sp_evaluation_periods p \<and> 1 \<le> sp_up_increment p \<and> 1 \<le> sp_down_increment p \<and> sp_min_instances p \<le> 1 \<and> 1 \<le> sp_max_instances p \<and>
     sp_cpu_up p \<noteq> 0 \<and> sp_memory_up p \<noteq> 0 \<and> sp_queue_up p \<noteq> 0 \<and> sp_latency_up p \<noteq> 0"

definition justified :: "int \<Rightarrow> string \<Rightarrow> autoscaler \<Rightarrow> scaling_decision \<Rightarrow> bool" where
  "justified now key s d \<longleftrightarrow>
     (let p = get_policy key s; n = current_count key s; recent = py_last_n (sp_evaluation_periods p) (dict_get_default (as_metrics_history s) key [])
      in int (length recent) = sp_evaluation_periods p \<and>
         (if sd_direction d = UP
          then \<not> cooling (as_last_scale_up s) (sp_up_cooldown p) key now \<and> n < sd_target_count d \<and> sd_target_count d \<le> sp_max_instances p \<and>
               list_ex (\<lambda>(avg, threshold, reason). reason = sd_reason d \<and> threshold \<le> avg) (metric_checks p recent)
          else sd_direction d = DOWN \<and> \<not> cooling (as_last_scale_down s) (sp_down_cooldown p) key now \<and>
               sd_target_count d < n \<and> sp_min_instances p \<le> sd_target_count d \<and> all_low p recent))"

lemma recent_length: "1 \<le> k \<Longrightarrow> k \<le> int (length xs) \<Longrightarrow> int (length (py_last_n k xs)) = k"
  by (simp add: py_last_n_def)

lemma scale_up_justified:
  assumes "check_scale_up key p history now s = Inr (Some d)" and "policy_ok p"
    and "p = get_policy key s" and "history = dict_get_default (as_metrics_history s) key []" and "sp_evaluation_periods p \<le> int (length history)"
  shows "justified now key s d"
proof -
  let ?recent = "py_last_n (sp_evaluation_periods p) history"
  obtain avg threshold reason where f: "find (\<lambda>(avg, threshold, reason). avg \<ge> threshold) (metric_checks p ?recent) = Some (avg, threshold, reason)"
    and d: "\<not> cooling (as_last_scale_up s) (sp_up_cooldown p) key now" "current_count key s < sp_max_instances p" "sd_direction d = UP" "sd_reason d = reason"
      "sd_target_count d = min (current_count key s + sp_up_increment p) (sp_max_instances p)"
    using assms(1) by (auto simp: check_scale_up_def Let_def split: if_splits option.splits)
  have "(avg, threshold, reason) \<in> set (metric_checks p ?recent) \<and> threshold \<le> avg"
    using f unfolding find_Some_iff by (metis (mono_tags, lifting) case_prod_conv nth_mem)
  then have "list_ex (\<lambda>(avg, threshold, reason). reason = sd_reason d \<and> threshold \<le> avg) (metric_checks p ?recent)"
    using d(4) by (auto simp: list_ex_iff)
  then show ?thesis using d assms(2,5) recent_length [of "sp_evaluation_periods p" history]
    by (simp add: justified_def policy_ok_def flip: assms(3,4))
qed

lemma scale_down_justified:
  assumes "check_scale_down key p history now s = Inr (Some d)" and "policy_ok p"
    and "p = get_policy key s" and "history = dict_get_default (as_metrics_history s) key []" and "sp_evaluation_periods p \<le> int (length history)"
  shows "justified now key s d"
  using assms(1,2,5) recent_length [of "sp_evaluation_periods p" history]
  by (auto simp: justified_def policy_ok_def check_scale_down_def Let_def simp flip: assms(3,4) split: if_splits)

lemma evaluate_justified: "evaluate_scaling now key s = Inr (Some d) \<Longrightarrow> policy_ok (get_policy key s) \<Longrightarrow> justified now key s d"
  using scale_up_justified [OF _ _ refl refl, where key = key and now = now and s = s]
    scale_down_justified [OF _ _ refl refl, where key = key and now = now and s = s]
  by (auto simp: evaluate_scaling_def Let_def split: if_splits sum.splits option.splits)

lemma evaluate_never_fails: "policy_ok (get_policy key s) \<Longrightarrow> \<exists>r. evaluate_scaling now key s = Inr r"
proof -
  let ?p = "get_policy key s" and ?h = "dict_get_default (as_metrics_history s) key []"
  assume ok: "policy_ok ?p"
  show ?thesis
  proof (cases "int (length ?h) < sp_evaluation_periods ?p")
    case False
    then have "py_last_n (sp_evaluation_periods ?p) ?h \<noteq> []" using ok recent_length [of "sp_evaluation_periods ?p" ?h] by (auto simp: policy_ok_def)
    then have "\<exists>r. check_scale_up key ?p ?h now s = Inr r" "\<exists>r. check_scale_down key ?p ?h now s = Inr r"
      using ok by (auto simp: check_scale_up_def check_scale_down_def Let_def metric_checks_def policy_ok_def split: option.split)
    then show ?thesis by (auto simp: evaluate_scaling_def Let_def split: sum.splits option.splits)
  qed (simp add: evaluate_scaling_def)
qed

section \<open>Runs\<close>

datatype scaling_step = Report int string scaling_metrics | Monitor int int int "string option" string

fun as_step :: "autoscaler \<Rightarrow> scaling_step \<Rightarrow> autoscaler" where
  "as_step s (Report now key m) = snd (report_metrics now key m s)"
| "as_step s (Monitor now started done_at answer key) = snd (monitor_key now started done_at answer key s)"

definition scaling_ok :: "autoscaler \<Rightarrow> bool" where
  "scaling_ok s \<longleftrightarrow> int (length (as_scaling_events s)) \<le> max_events \<and>
     (\<forall>key. policy_ok (get_policy key s) \<and> sp_min_instances (get_policy key s) \<le> current_count key s \<and>
        current_count key s \<le> sp_max_instances (get_policy key s) \<and>
        int (length (dict_get_default (as_metrics_history s) key [])) \<le> 2 * sp_evaluation_periods (get_policy key s))"

lemma scaling_okD:
  assumes "scaling_ok s"
  shows "int (length (as_scaling_events s)) \<le> max_events" "policy_ok (get_policy key s)"
    "sp_min_instances (get_policy key s) \<le> current_count key s" "current_count key s \<le> sp_max_instances (get_policy key s)"
    "int (length (dict_get_default (as_metrics_history s) key [])) \<le> 2 * sp_evaluation_periods (get_policy key s)"
  using assms unfolding scaling_ok_def by blast+

lemma record_event_fields [simp]:
  "as_policies (record_event e s) = as_policies s" "as_default_policy (record_event e s) = as_default_policy s"
  "as_current_counts (record_event e s) = as_current_counts s" "as_metrics_history (record_event e s) = as_metrics_history s"
  "int (length (as_scaling_events (record_event e s))) \<le> max_events"
  by (simp_all add: record_event_def Let_def max_events_def py_last_n_def)

lemma execute_scaling_fields:
  assumes "execute_scaling done_at answer key event s = (failure, s')"
  shows "as_policies s' = as_policies s" "as_default_policy s' = as_default_policy s" "as_metrics_history s' = as_metrics_history s"
    "as_current_counts s' = (if failure = None then dict_set key (sv_target_count event) (as_current_counts s) else as_current_counts s)"
  using assms by (auto simp: execute_scaling_def Let_def split: option.splits scaling_direction.splits)

text \<open>Scaling with a given target.\<close>

lemma scale_fields:
  assumes "scale now done_at answer key direction reason (Some t) s = (e, s')"
  shows "as_policies s' = as_policies s" "as_default_policy s' = as_default_policy s" "as_metrics_history s' = as_metrics_history s"
    "as_current_counts s' = (if sv_success e then dict_set key t (as_current_counts s) else as_current_counts s)"
    "int (length (as_scaling_events s')) \<le> max_events"
proof -
  obtain event failure s1 where x: "execute_scaling done_at answer key event s = (failure, s1)" "sv_target_count event = t"
    and s': "s' = record_event e s1" "sv_success e = (failure = None)"
    using assms by (auto simp: scale_def Let_def split: prod.splits option.splits)
  show "as_policies s' = as_policies s" "as_default_policy s' = as_default_policy s" "as_metrics_history s' = as_metrics_history s"
    "as_current_counts s' = (if sv_success e then dict_set key t (as_current_counts s) else as_current_counts s)"
    "int (length (as_scaling_events s')) \<le> max_events"
    using execute_scaling_fields [OF x(1)] x(2) by (simp_all add: s')
qed

lemma get_policy_cong: "as_policies s' = as_policies s \<Longrightarrow> as_default_policy s' = as_default_policy s \<Longrightarrow> get_policy key s' = get_policy key s"
  by (simp add: get_policy_def)

lemma monitor_cases:
  assumes "policy_ok (get_policy key s)"
  obtains (same) "monitor_key now started done_at answer key s = (None, s)"
  | (scaled) d e s' where "evaluate_scaling now key s = Inr (Some d)" "justified now key s d"
      "scale started done_at answer key (sd_direction d) (sd_reason d) (Some (sd_target_count d)) s = (e, s')"
      "monitor_key now started done_at answer key s = (None, s')"
proof -
  obtain r where r: "evaluate_scaling now key s = Inr r" using evaluate_never_fails [OF assms] by blast
  show ?thesis
  proof (cases r)
    case None
    then show ?thesis using r by (intro same) (auto simp: monitor_key_def split: option.splits list.splits)
  next
    case (Some d)
    obtain e s' where sc: "scale started done_at answer key (sd_direction d) (sd_reason d) (Some (sd_target_count d)) s = (e, s')" by fastforce
    have "monitor_key now started done_at answer key s = (None, s) \<or> monitor_key now started done_at answer key s = (None, s')"
      using r Some sc by (auto simp: monitor_key_def split: option.splits list.splits)
    then show ?thesis using same scaled [OF r [unfolded Some] evaluate_justified [OF r [unfolded Some] assms] sc] by blast
  qed
qed

lemma justified_bounds:
  "justified now key s d \<Longrightarrow> scaling_ok s \<Longrightarrow>
   sp_min_instances (get_policy key s) \<le> sd_target_count d \<and> sd_target_count d \<le> sp_max_instances (get_policy key s)"
  using scaling_okD(3,4) [of s key] by (auto simp: justified_def Let_def split: if_splits)

lemma scaled_ok:
  assumes "scaling_ok s" and "justified now key s d"
    and "scale started done_at answer key direction reason (Some (sd_target_count d)) s = (e, s')"
  shows "scaling_ok s'"
proof -
  note f = scale_fields [OF assms(3)]
  have "current_count k s' = (if k = key \<and> sv_success e then sd_target_count d else current_count k s)" for k
    by (simp add: current_count_def f dict_get_default_def dict_get_set)
  then show ?thesis
    using scaling_okD [OF assms(1)] justified_bounds [OF assms(2,1)] f by (simp add: scaling_ok_def get_policy_cong [OF f(1,2)])
qed

lemma report_ok: "scaling_ok s \<Longrightarrow> scaling_ok (snd (report_metrics now key m s))"
proof -
  assume ok: "scaling_ok s"
  have p: "0 < sp_evaluation_periods (get_policy k s)" for k using scaling_okD(2) [OF ok, of k] by (simp add: policy_ok_def)
  have len: "0 < n \<Longrightarrow> int (length (py_last_n n xs)) \<le> n" for n and xs :: "scaling_metrics list" by (simp add: py_last_n_def)
  let ?s' = "snd (report_metrics now key m s)"
  have pol: "get_policy k ?s' = get_policy k s" for k by (simp add: report_metrics_def Let_def get_policy_def)
  have cnt: "current_count k ?s' = current_count k s" for k by (simp add: report_metrics_def Let_def current_count_def)
  have ev: "as_scaling_events ?s' = as_scaling_events s" by (simp add: report_metrics_def Let_def)
  have hist: "dict_get_default (as_metrics_history ?s') k [] =
      (if k = key then py_last_n (2 * sp_evaluation_periods (get_policy key s)) (dict_get_default (as_metrics_history s) key [] @ [m])
       else dict_get_default (as_metrics_history s) k [])" for k
    by (cases "dict_get (as_metrics_history s) key")
      (simp_all add: report_metrics_def Let_def dict_get_default_def dict_get_set get_policy_cong [of "s\<lparr>as_metrics_history := h\<rparr>" s for h] mult.commute)
  have "int (length (dict_get_default (as_metrics_history ?s') k [])) \<le> 2 * sp_evaluation_periods (get_policy k s)" for k
    using p [of k] scaling_okD(5) [OF ok, of k] len [of "2 * sp_evaluation_periods (get_policy k s)"] unfolding hist by (cases "k = key") simp_all
  then show ?thesis using scaling_okD [OF ok] by (simp add: scaling_ok_def pol cnt ev)
qed

lemma monitor_ok: "scaling_ok s \<Longrightarrow> scaling_ok (snd (monitor_key now started done_at answer key s))"
proof -
  assume ok: "scaling_ok s"
  show ?thesis
    by (cases rule: monitor_cases [OF scaling_okD(2) [OF ok, of key], where now = now and started = started and done_at = done_at and answer = answer])
      (use ok scaled_ok [OF ok] in auto)
qed

interpretation scaling: invariant_machine as_step scaling_ok
proof
  show "scaling_ok s \<Longrightarrow> scaling_ok (as_step s e)" for s e by (cases e) (simp_all add: report_ok monitor_ok)
qed

definition configured :: "pool_link \<Rightarrow> scaling_policy option \<Rightarrow> (string \<times> scaling_policy) list \<Rightarrow> autoscaler" where
  "configured link policy ps = foldl (\<lambda>s kp. set_policy (fst kp) (snd kp) s) (autoscaler_init link policy) ps"

lemma configured_fields:
  "as_current_counts (configured link policy ps) = []" "as_metrics_history (configured link policy ps) = []"
  "as_scaling_events (configured link policy ps) = []"
proof -
  have "as_current_counts (foldl (\<lambda>s kp. set_policy (fst kp) (snd kp) s) s ps) = as_current_counts s \<and>
      as_metrics_history (foldl (\<lambda>s kp. set_policy (fst kp) (snd kp) s) s ps) = as_metrics_history s \<and>
      as_scaling_events (foldl (\<lambda>s kp. set_policy (fst kp) (snd kp) s) s ps) = as_scaling_events s" for s
    by (induction ps arbitrary: s) (simp_all add: set_policy_def)
  then show "as_current_counts (configured link policy ps) = []" "as_metrics_history (configured link policy ps) = []"
    "as_scaling_events (configured link policy ps) = []"
    by (simp_all add: configured_def autoscaler_init_def)
qed


definition busy :: "int \<Rightarrow> scaling_metrics" where
  "busy t = (empty_metrics t)\<lparr>sm_cpu := 9 / 10\<rparr>"

definition three_reports :: "scaling_step list" where
  "three_reports = map (\<lambda>t. Report t ''g'' (busy t)) [1, 2, 3]"

definition busy_group :: autoscaler where
  "busy_group = (configured NoPoolManager None [])\<lparr>as_metrics_history := [(''g'', [busy 1, busy 2, busy 3])]\<rparr>"

lemma busy_group_run: "foldl as_step (configured NoPoolManager None []) three_reports = busy_group"
  by (simp add: three_reports_def busy_group_def configured_def autoscaler_init_def report_metrics_def Let_def dict_get_default_def get_policy_def
      default_scaling_policy_def py_last_n_def)

lemma busy_policy: "get_policy k busy_group = default_scaling_policy" "get_policy k (configured NoPoolManager None []) = default_scaling_policy"
  by (simp_all add: busy_group_def configured_def autoscaler_init_def get_policy_def dict_get_default_def)

lemmas scaling_eval = monitor_key_def evaluate_scaling_def check_scale_up_def scale_def execute_scaling_def apply_pool_manager_scaling_def record_event_def
  metric_checks_def average_def cooling_def current_count_def dict_get_default_def py_last_n_def Let_def busy_def empty_metrics_def max_events_def

definition busy_decision :: scaling_decision where
  "busy_decision = \<lparr>sd_direction = UP, sd_reason = HIGH_CPU, sd_target_count = 2, sd_metrics = busy 3, sd_confidence = 1\<rparr>"

lemma busy_group_scales: "evaluate_scaling 4 ''g'' busy_group = Inr (Some busy_decision)"
  by (simp add: evaluate_scaling_def check_scale_up_def busy_policy busy_decision_def)
    (simp add: scaling_eval busy_group_def configured_def autoscaler_init_def default_scaling_policy_def)


section \<open>Old metrics\<close>

text \<open>
  The age of the metrics is never looked at: after one burst of load and no further report, every pass of the
  monitor after a cooldown adds an instance. Three passes, each a minute after the other, on metrics from the
  first microseconds:
\<close>

lemma monitor_scales_on_stale_metrics:
  "current_count ''g'' (foldl as_step busy_group
     [Monitor 4 5 6 None ''g'', Monitor 60000006 60000007 60000008 None ''g'', Monitor 120000008 120000009 120000010 None ''g'']) = 4"
  by (simp add: scaling_eval get_policy_def busy_group_def configured_def autoscaler_init_def default_scaling_policy_def)

end
