(* ===== verification/PoolScaling.thy ===== *)
theory PoolScaling
  imports AutoScaling PoolManager
begin

text \<open>
  The auto scaler on the agent pool: what \<open>pool/ha/auto_scaling.py\<close> asks of \<open>scale_instances\<close> in \<open>pool/manager.py\<close> and what
  becomes of it. The text of an exception is a parameter: nothing depends on it.
\<close>

definition pool_answer :: "(pool_error \<Rightarrow> string) \<Rightarrow> pool_error + unit \<Rightarrow> string option" where
  "pool_answer text_of r = (case r of Inl e \<Rightarrow> Some (text_of e) | Inr _ \<Rightarrow> None)"

text \<open>The pool keeps one instance for a key, so it refuses every larger target.\<close>

lemma scale_instances_refuses:
  assumes "2 \<le> target"
  shows "\<exists>e. fst (scale_instances now iid created key target pm) = Inl e"
proof (cases "parse_instance_key key")
  case None
  then show ?thesis using assms by (simp add: scale_instances_def)
next
  case (Some p)
  then show ?thesis using assms
    by (cases p) (auto simp: scale_instances_def Let_def split: prod.splits option.splits)
qed

section \<open>The scaler and the pool together\<close>

definition decided_target :: "int \<Rightarrow> string \<Rightarrow> autoscaler \<Rightarrow> int option" where
  "decided_target now key s =
     (if dict_get_default (as_metrics_history s) key [] = [] then None
      else case evaluate_scaling now key s of Inr (Some d) \<Rightarrow> if sd_direction d \<noteq> NONE then Some (sd_target_count d) else None | _ \<Rightarrow> None)"

definition wanted_target :: "string \<Rightarrow> scaling_direction \<Rightarrow> int option \<Rightarrow> autoscaler \<Rightarrow> int" where
  "wanted_target key direction target s = sv_target_count (fst (scale 0 0 None key direction MANUAL target s))"

datatype joint_event =
    JReport int string scaling_metrics
  | JMonitor int int int string bool string
  | JScale int int string bool string scaling_direction scaling_reason "int option"
  | JPool pool_manager

fun joint_step :: "(pool_error \<Rightarrow> string) \<Rightarrow> autoscaler \<times> pool_manager \<Rightarrow> joint_event \<Rightarrow> autoscaler \<times> pool_manager" where
  "joint_step text_of (s, pm) (JReport now key metrics) = (snd (report_metrics now key metrics s), pm)"
| "joint_step text_of (s, pm) (JMonitor now started done_at iid created key) =
     (case decided_target now key s of
        None \<Rightarrow> (s, pm)
      | Some target \<Rightarrow>
          (let (r, pm') = scale_instances started iid created key target pm
           in (snd (monitor_key now started done_at (pool_answer text_of r) key s), pm')))"
| "joint_step text_of (s, pm) (JScale now done_at iid created key direction reason target) =
     (let (r, pm') = scale_instances now iid created key (wanted_target key direction target s) pm
      in (snd (scale now done_at (pool_answer text_of r) key direction reason target s), pm'))"
| "joint_step text_of (s, pm) (JPool pm') = (s, pm')"

definition at_most_one :: "autoscaler \<times> pool_manager \<Rightarrow> bool" where
  "at_most_one sp \<longleftrightarrow> as_pool_manager (fst sp) = CanScale \<and> (\<forall>key. current_count key (fst sp) \<le> 1)"

text \<open>Only a target the pool accepted becomes the new count.\<close>

lemma scale_count:
  assumes "as_pool_manager s = CanScale"
  shows "as_pool_manager (snd (scale now done_at answer key direction reason target s)) = CanScale"
    "answer \<noteq> None \<Longrightarrow> current_count k (snd (scale now done_at answer key direction reason target s)) = current_count k s"
    "current_count k (snd (scale now done_at None key direction reason target s)) =
       (if k = key then wanted_target key direction target s else current_count k s)"
  using assms
  by (auto simp: scale_def Let_def execute_scaling_def apply_pool_manager_scaling_def record_event_def current_count_def wanted_target_def
      dict_get_default_def dict_get_set split: option.splits scaling_direction.splits)

lemma wanted_explicit: "wanted_target key direction (Some t) s = t"
  by (simp add: wanted_target_def scale_def Let_def split: prod.split option.split)

lemma accepted_target: "pool_answer text_of (fst (scale_instances now iid created key target pm)) = None \<Longrightarrow> target \<le> 1"
  using scale_instances_refuses [of target now iid created key pm] by (fastforce simp: pool_answer_def)

lemma scale_through_pool:
  assumes "as_pool_manager s = CanScale" and "\<forall>key. current_count key s \<le> 1"
    and "answer = pool_answer text_of (fst (scale_instances t iid created key (wanted_target key direction target s) pm))"
  shows "at_most_one (snd (scale now done_at answer key direction reason target s), pm')"
proof (cases answer)
  case None
  then have "wanted_target key direction target s \<le> 1" using accepted_target assms(3) by simp
  then show ?thesis using assms(1,2) by (simp add: at_most_one_def scale_count None)
qed (use assms(1,2) in \<open>simp add: at_most_one_def scale_count\<close>)

lemma monitor_decided:
  assumes "decided_target now key s = Some t"
  shows "\<exists>direction reason. \<forall>answer. snd (monitor_key now started done_at answer key s) = snd (scale started done_at answer key direction reason (Some t) s)"
proof -
  obtain m ms d where "dict_get (as_metrics_history s) key = Some (m # ms)" and "evaluate_scaling now key s = Inr (Some d)"
    and "sd_direction d \<noteq> NONE" and "t = sd_target_count d"
    using assms by (auto simp: decided_target_def dict_get_default_def neq_Nil_conv split: if_splits option.splits sum.splits)
  then have "snd (monitor_key now started done_at answer key s) = snd (scale started done_at answer key (sd_direction d) (sd_reason d) (Some t) s)" for answer
    by (simp add: monitor_key_def)
  then show ?thesis by blast
qed

interpretation joint: invariant_machine "joint_step text_of" at_most_one for text_of
proof
  fix sp e
  assume "at_most_one sp"
  obtain s pm where sp: "sp = (s, pm)" by fastforce
  with \<open>at_most_one sp\<close> have ok: "as_pool_manager s = CanScale" "\<forall>key. current_count key s \<le> 1" by (simp_all add: at_most_one_def)
  show "at_most_one (joint_step text_of sp e)"
  proof (cases e)
    case (JReport now key metrics)
    then show ?thesis using ok by (simp add: sp at_most_one_def report_metrics_def Let_def current_count_def)
  next
    case (JMonitor now started done_at iid created key)
    show ?thesis
    proof (cases "decided_target now key s")
      case (Some t)
      let ?r = "scale_instances started iid created key t pm"
      obtain direction reason where "snd (monitor_key now started done_at (pool_answer text_of (fst ?r)) key s) =
          snd (scale started done_at (pool_answer text_of (fst ?r)) key direction reason (Some t) s)"
        using monitor_decided [OF Some] by blast
      then show ?thesis
        using scale_through_pool [OF ok, where t = started and key = key and target = "Some t" and direction = direction, unfolded wanted_explicit, OF refl]
        by (simp add: sp JMonitor Some case_prod_beta)
    qed (use ok in \<open>simp add: sp JMonitor at_most_one_def\<close>)
  next
    case (JScale now done_at iid created key direction reason target)
    then show ?thesis using scale_through_pool [OF ok refl] by (simp add: sp case_prod_beta Let_def)
  next
    case (JPool pm')
    then show ?thesis using ok by (simp add: sp at_most_one_def)
  qed
qed

text \<open>
  C38: an auto scaler that is connected to the agent pool never counts more than one instance of a group, whatever its
  policies, the reported metrics, the manual requests and the other operations on the pool: the pool
  refuses every target above one, so scaling up has no effect beyond the first instance.
\<close>

theorem pool_never_scales_up:
  "current_count key (fst (foldl (joint_step text_of) (configured CanScale policy ps, pm) evs)) \<le> 1"
proof -
  have "as_pool_manager (foldl (\<lambda>s kp. set_policy (fst kp) (snd kp) s) s ps) = as_pool_manager s" for s
    by (induction ps arbitrary: s) (simp_all add: set_policy_def)
  then have "at_most_one (configured CanScale policy ps, pm)"
    using configured_fields(1) [of CanScale policy ps]
    by (simp add: at_most_one_def current_count_def dict_get_default_def configured_def autoscaler_init_def)
  then show ?thesis using joint.run_inv by (auto simp: at_most_one_def)
qed

end
