(* ===== verification/Kahn.thy ===== *)
theory Kahn
  imports Prelude "HOL-Library.Multiset"
begin

text \<open>
  Kahn's algorithm on an in-degree table, in the form \<open>AgentGraph._detect_cycles\<close> and the topological order of the
  pipeline share: a queue of nodes at degree zero, and for the node taken from it one decrement per outgoing
  edge. Edges may occur more than once. The locale \<open>dependency_graph\<close> states what the table has to be at the start and
  shows what the loop returns.
\<close>

section \<open>The loop\<close>

text \<open>\<open>in_degree[t] -= 1\<close>; every target has an entry when the table was built from the same edges.\<close>

fun relax_targets :: "'a list \<Rightarrow> ('a, int) dict \<Rightarrow> 'a list \<Rightarrow> ('a, int) dict \<times> 'a list" where
  "relax_targets [] deg q = (deg, q)"
| "relax_targets (t # ts) deg q =
     (let c = dict_get_default deg t 0 - 1 in relax_targets ts (dict_set t c deg) (if c = 0 then q @ [t] else q))"

definition positive_degrees :: "('a, int) dict \<Rightarrow> 'a set" where
  "positive_degrees deg = {k. \<exists>c. dict_get deg k = Some c \<and> 0 < c}"

lemma finite_positive_degrees [simp]: "finite (positive_degrees deg)"
  by (rule finite_subset [of _ "set (dict_keys deg)"]) (auto simp: positive_degrees_def dest: dict_get_Some_key)

lemma relax_targets_measure:
  "relax_targets ts deg q = (deg', q') \<Longrightarrow> length q' + card (positive_degrees deg') \<le> length q + card (positive_degrees deg)"
proof (induction ts arbitrary: deg q)
  case (Cons t ts)
  let ?c = "dict_get_default deg t 0 - 1"
  let ?deg = "dict_set t ?c deg" and ?q = "if ?c = 0 then q @ [t] else q"
  have sub: "positive_degrees ?deg \<subseteq> positive_degrees deg"
    by (auto simp: positive_degrees_def dict_get_set dict_get_default_def split: if_splits option.splits)
  moreover have "Suc (card (positive_degrees ?deg)) \<le> card (positive_degrees deg)" if "?c = 0"
  proof -
    have "t \<in> positive_degrees deg" and "positive_degrees ?deg \<subseteq> positive_degrees deg - {t}"
      using that sub by (auto simp: positive_degrees_def dict_get_set dict_get_default_def split: option.splits if_splits)
    then show ?thesis
      by (metis card_Suc_Diff1 card_mono finite_Diff finite_positive_degrees Suc_le_mono)
  qed
  ultimately have "length ?q + card (positive_degrees ?deg) \<le> length q + card (positive_degrees deg)"
    using card_mono [OF finite_positive_degrees sub] by auto
  moreover have "length q' + card (positive_degrees deg') \<le> length ?q + card (positive_degrees ?deg)"
    using Cons.IH [of ?deg ?q] Cons.prems by (simp add: Let_def)
  ultimately show ?case by linarith
qed simp

function (sequential) kahn :: "('a \<Rightarrow> 'a list) \<Rightarrow> ('a, int) dict \<Rightarrow> 'a list \<Rightarrow> 'a list" where
  "kahn succs deg [] = []"
| "kahn succs deg (x # q) = x # (case relax_targets (succs x) deg q of (deg', q') \<Rightarrow> kahn succs deg' q')"
  by pat_completeness auto
termination
  by (relation "measure (\<lambda>(succs, deg, q). length q + card (positive_degrees deg))")
    (auto simp: less_Suc_eq_le split: prod.split intro: relax_targets_measure)

text \<open>The table: zero for every node, plus one for every edge at its target.\<close>

definition zero_degrees :: "'a list \<Rightarrow> ('a, int) dict" where
  "zero_degrees ids = foldl (\<lambda>deg k. dict_set k 0 deg) [] ids"

definition count_targets :: "'a list \<Rightarrow> ('a, int) dict \<Rightarrow> ('a, int) dict" where
  "count_targets targets deg = foldl (\<lambda>deg t. dict_set t (dict_get_default deg t 0 + 1) deg) deg targets"

definition zero_keys :: "('a, int) dict \<Rightarrow> 'a list" where
  "zero_keys deg = map fst (filter (\<lambda>kd. snd kd = 0) deg)"

section \<open>What the steps do\<close>

lemma relax_targets_spec:
  assumes "\<forall>k \<in> set ts. \<exists>c. dict_get deg k = Some c \<and> int (count_list ts k) \<le> c"
  shows "\<exists>deg' new. relax_targets ts deg q = (deg', q @ new) \<and> distinct new \<and>
    (\<forall>k. dict_get deg' k = map_option (\<lambda>c. c - int (count_list ts k)) (dict_get deg k)) \<and>
    set new = {k \<in> set ts. dict_get deg k = Some (int (count_list ts k))}"
  using assms
proof (induction ts arbitrary: deg q)
  case (Cons t ts)
  obtain c where c: "dict_get deg t = Some c" "int (count_list (t # ts) t) \<le> c" using Cons.prems [rule_format, of t] by auto
  let ?deg = "dict_set t (c - 1) deg" and ?q = "if c - 1 = 0 then q @ [t] else q"
  have step: "relax_targets (t # ts) deg q = relax_targets ts ?deg ?q" using c by (simp add: dict_get_default_def)
  have pre: "\<exists>c. dict_get ?deg k = Some c \<and> int (count_list ts k) \<le> c" if "k \<in> set ts" for k
  proof (cases "k = t")
    case True
    then show ?thesis using c by (simp add: dict_get_set)
  next
    case False
    then show ?thesis using Cons.prems [rule_format, of k] that by (simp add: dict_get_set)
  qed
  obtain deg' new where ih: "relax_targets ts ?deg ?q = (deg', ?q @ new)" "distinct new"
    "\<forall>k. dict_get deg' k = map_option (\<lambda>c. c - int (count_list ts k)) (dict_get ?deg k)"
    "set new = {k \<in> set ts. dict_get ?deg k = Some (int (count_list ts k))}"
    using Cons.IH [OF ballI [OF pre]] by blast
  have deg': "dict_get deg' k = map_option (\<lambda>c. c - int (count_list (t # ts) k)) (dict_get deg k)" for k
    using ih(3) [rule_format, of k] c(1) by (cases "k = t") (simp_all add: dict_get_set)
  have zero: "c - 1 = 0 \<Longrightarrow> t \<notin> set ts" using c(2) count_list_0_iff [of ts t] by auto
  let ?new = "if c - 1 = 0 then t # new else new"
  have "k \<in> set ?new \<longleftrightarrow> k \<in> set (t # ts) \<and> dict_get deg k = Some (int (count_list (t # ts) k))" for k
  proof (cases "k = t")
    case True
    have "t \<in> set new \<longleftrightarrow> t \<in> set ts \<and> c - 1 = int (count_list ts t)" unfolding ih(4) by (simp add: dict_get_set)
    moreover have "t \<notin> set ts \<longleftrightarrow> count_list ts t = 0" by (simp add: count_list_0_iff)
    ultimately show ?thesis using True c(1) zero by auto
  next
    case False
    then show ?thesis using ih(4) by (auto simp: dict_get_set)
  qed
  then have "set ?new = {k \<in> set (t # ts). dict_get deg k = Some (int (count_list (t # ts) k))}" by blast
  moreover have "distinct ?new" using ih(2,4) zero by auto
  moreover have "relax_targets (t # ts) deg q = (deg', q @ ?new)" using step ih(1) by simp
  ultimately show ?case using deg' by blast
qed (simp add: option.map_ident)

lemma zero_degrees_get: "dict_get (zero_degrees ids) k = (if k \<in> set ids then Some 0 else None)"
proof -
  have "dict_get (foldl (\<lambda>deg k. dict_set k (0::int) deg) d ids) k = (if k \<in> set ids then Some 0 else dict_get d k)" for d
    by (induction ids arbitrary: d) (simp_all add: dict_get_set)
  then show ?thesis by (simp add: zero_degrees_def)
qed

lemma wf_zero_degrees: "wf_dict (zero_degrees ids)"
proof -
  have "wf_dict d \<Longrightarrow> wf_dict (foldl (\<lambda>deg k. dict_set k (0::int) deg) d ids)" for d
    by (induction ids arbitrary: d) simp_all
  then show ?thesis by (simp add: zero_degrees_def)
qed

lemma count_targets_get:
  assumes "set ts \<subseteq> set (dict_keys deg)"
  shows "dict_get (count_targets ts deg) k = map_option (\<lambda>c. c + int (count_list ts k)) (dict_get deg k)"
  using assms
proof (induction ts arbitrary: deg)
  case (Cons t ts)
  obtain c where c: "dict_get deg t = Some c" using Cons.prems dict_get_None_iff [of deg t] by fastforce
  have "set ts \<subseteq> set (dict_keys (dict_set t (c + 1) deg))" using Cons.prems by (auto simp: dict_key_image)
  then show ?case using Cons.IH [of "dict_set t (c + 1) deg"] c
    by (auto simp: count_targets_def dict_get_default_def dict_get_set option.map_comp comp_def intro!: option.map_cong0)
qed (simp add: count_targets_def option.map_ident)

lemma wf_count_targets: "wf_dict deg \<Longrightarrow> wf_dict (count_targets ts deg)"
proof (induction ts arbitrary: deg)
  case (Cons t ts)
  then have "wf_dict (dict_set t (dict_get_default deg t 0 + 1) deg)" by simp
  from Cons.IH [OF this] show ?case by (simp add: count_targets_def)
qed (simp add: count_targets_def)

lemma zero_keys_spec: "wf_dict deg \<Longrightarrow> distinct (zero_keys deg) \<and> (\<forall>k. k \<in> set (zero_keys deg) \<longleftrightarrow> dict_get deg k = Some 0)"
  unfolding zero_keys_def by (auto simp: wf_dict_def distinct_map_filter dict_get_iff_mem image_iff)

lemma count_by_source:
  assumes "finite V" and "s ` set es \<subseteq> V"
  shows "(\<Sum>a \<in> V. count_list (map t (filter (\<lambda>e. s e = a) es)) k) = count_list (map t es) k"
  using assms(2)
proof (induction es)
  case (Cons e es)
  have one: "(\<Sum>a \<in> V. if s e = a \<and> t e = k then 1 else 0) = (if t e = k then 1 else (0::nat))"
    using Cons.prems assms(1) by (cases "t e = k") simp_all
  have "count_list (map t (filter (\<lambda>e. s e = a) (e # es))) k =
      (if s e = a \<and> t e = k then 1 else 0) + count_list (map t (filter (\<lambda>e. s e = a) es)) k" for a
    by simp
  then show ?case using Cons.IH Cons.prems one by (simp add: sum.distrib)
qed simp

text \<open>A list in which every node comes after its predecessors shows that there is no cycle.\<close>

lemma ordered_acyclic:
  assumes "\<And>a b. (a, b) \<in> r \<Longrightarrow> b \<in> set order" and "\<And>xs n ys a. order = xs @ n # ys \<Longrightarrow> (a, n) \<in> r \<Longrightarrow> a \<in> set xs"
  shows "acyclic r"
proof -
  define rank where "rank k = length (takeWhile (\<lambda>x. x \<noteq> k) order)" for k
  have "rank a < rank b" if ab: "(a, b) \<in> r" for a b
  proof -
    obtain xs ys where o: "order = xs @ b # ys" "b \<notin> set xs" using split_list_first [OF assms(1) [OF ab]] by blast
    then have "a \<in> set xs" using assms(2) ab by blast
    then obtain us vs where u: "xs = us @ a # vs" "a \<notin> set us" by (meson split_list_first)
    have "takeWhile (\<lambda>x. x \<noteq> b) (xs @ b # ys) = xs" using o(2) by (subst takeWhile_append2) auto
    moreover have "takeWhile (\<lambda>x. x \<noteq> a) (us @ a # vs @ b # ys) = us" using u(2) by (subst takeWhile_append2) auto
    ultimately show ?thesis using o(1) u(1) by (simp add: rank_def)
  qed
  then have "r \<subseteq> measure rank" by (auto simp: in_measure)
  then show ?thesis using wf_acyclic wf_measure acyclic_subset by blast
qed

section \<open>What the loop returns\<close>

locale dependency_graph =
  fixes nodes :: "'a set" and succs :: "'a \<Rightarrow> 'a list"
  assumes finite_nodes: "finite nodes" and closed: "a \<in> nodes \<Longrightarrow> set (succs a) \<subseteq> nodes"
begin

definition graph_edges :: "('a \<times> 'a) set" where
  "graph_edges = {(a, b). a \<in> nodes \<and> b \<in> set (succs a)}"

definition open_edges :: "'a set \<Rightarrow> 'a \<Rightarrow> nat" where
  "open_edges P k = (\<Sum>a \<in> nodes - P. count_list (succs a) k)"

definition loop_inv :: "('a, int) dict \<Rightarrow> 'a list \<Rightarrow> 'a set \<Rightarrow> bool" where
  "loop_inv deg q P \<longleftrightarrow> P \<subseteq> nodes \<and> distinct q \<and> set q \<inter> P = {} \<and>
     (\<forall>k. dict_get deg k = (if k \<in> nodes then Some (int (open_edges P k)) else None)) \<and>
     (\<forall>k \<in> nodes. open_edges P k = 0 \<longleftrightarrow> k \<in> P \<union> set q) \<and> set q \<subseteq> nodes"

lemma loop_invD:
  assumes "loop_inv deg q P"
  shows "P \<subseteq> nodes" "distinct q" "set q \<inter> P = {}" "dict_get deg k = (if k \<in> nodes then Some (int (open_edges P k)) else None)"
    "k \<in> nodes \<Longrightarrow> open_edges P k = 0 \<longleftrightarrow> k \<in> P \<union> set q" "set q \<subseteq> nodes"
  using assms unfolding loop_inv_def by blast+

lemma open_edges_insert:
  assumes "x \<in> nodes" and "x \<notin> P"
  shows "open_edges P k = count_list (succs x) k + open_edges (insert x P) k"
proof -
  have eq: "nodes - P = insert x (nodes - insert x P)" using assms by blast
  have "(\<Sum>a \<in> insert x (nodes - insert x P). count_list (succs a) k) = count_list (succs x) k + (\<Sum>a \<in> nodes - insert x P. count_list (succs a) k)"
    by (rule sum.insert) (use finite_nodes in auto)
  then show ?thesis unfolding open_edges_def eq .
qed

lemma open_edges_0: "open_edges P k = 0 \<longleftrightarrow> (\<forall>a \<in> nodes. k \<in> set (succs a) \<longrightarrow> a \<in> P)"
  unfolding open_edges_def using finite_nodes by (auto simp: count_list_0_iff)

lemma loop_step:
  assumes inv: "loop_inv deg (x # q) P"
  shows "\<exists>deg' q'. relax_targets (succs x) deg q = (deg', q') \<and> loop_inv deg' q' (insert x P)"
proof -
  have x: "x \<in> nodes" "x \<notin> P" using loop_invD(3,6) [OF inv] by auto
  note split = open_edges_insert [OF x]
  have pre: "\<exists>c. dict_get deg k = Some c \<and> int (count_list (succs x) k) \<le> c" if "k \<in> set (succs x)" for k
  proof -
    have "k \<in> nodes" using closed [OF x(1)] that by blast
    then have "dict_get deg k = Some (int (open_edges P k))" using loop_invD(4) [OF inv, of k] by simp
    moreover have "count_list (succs x) k \<le> open_edges P k" using split [of k] by linarith
    ultimately show ?thesis by simp
  qed
  then have "\<forall>k \<in> set (succs x). \<exists>c. dict_get deg k = Some c \<and> int (count_list (succs x) k) \<le> c" by blast
  from relax_targets_spec [OF this, of q] obtain deg' new where r: "relax_targets (succs x) deg q = (deg', q @ new)" "distinct new"
    "\<forall>k. dict_get deg' k = map_option (\<lambda>c. c - int (count_list (succs x) k)) (dict_get deg k)"
    "set new = {k \<in> set (succs x). dict_get deg k = Some (int (count_list (succs x) k))}"
    by (elim exE conjE) (rule that)
  have deg': "dict_get deg' k = (if k \<in> nodes then Some (int (open_edges (insert x P) k)) else None)" for k
  proof (cases "k \<in> nodes")
    case True
    then have "dict_get deg' k = Some (int (open_edges P k) - int (count_list (succs x) k))" using r(3) loop_invD(4) [OF inv, of k] by simp
    then show ?thesis using True split [of k] by simp
  next
    case False
    then show ?thesis using r(3) loop_invD(4) [OF inv, of k] by simp
  qed
  have new: "k \<in> set new \<longleftrightarrow> k \<in> set (succs x) \<and> open_edges (insert x P) k = 0" for k
  proof (cases "k \<in> set (succs x)")
    case True
    then have "dict_get deg k = Some (int (open_edges P k))" using loop_invD(4) [OF inv, of k] closed [OF x(1)] by auto
    then show ?thesis unfolding r(4) using True split [of k] by simp
  qed (simp add: r(4))
  have pos: "k \<in> set (succs x) \<Longrightarrow> 0 < open_edges P k" for k
    using split [of k] count_list_0_iff [of "succs x" k] by simp
  have zero: "open_edges (insert x P) k = 0 \<longleftrightarrow> k \<in> insert x P \<union> set (q @ new)" if "k \<in> nodes" for k
  proof (cases "k \<in> set (succs x)")
    case True
    then have "k \<notin> P" "k \<noteq> x" "k \<notin> set q" using loop_invD(5) [OF inv that] pos [OF True] by simp_all
    then show ?thesis using new [of k] True by simp
  next
    case False
    then have "open_edges P k = open_edges (insert x P) k" using split [of k] by simp
    moreover have "k \<notin> set new" using new [of k] False by simp
    ultimately show ?thesis using loop_invD(5) [OF inv that] by simp
  qed
  have disj: "k \<notin> set (x # q) \<union> P" if "k \<in> set new" for k
  proof -
    have "k \<in> set (succs x)" using that new by blast
    then show ?thesis using pos [of k] closed [OF x(1)] loop_invD(5) [OF inv, of k] by auto
  qed
  have sub: "set new \<subseteq> nodes" using new closed [OF x(1)] by blast
  have "distinct (q @ new)" "set (q @ new) \<inter> insert x P = {}" "set (q @ new) \<subseteq> nodes" "insert x P \<subseteq> nodes"
    using loop_invD(1-3,6) [OF inv] r(2) disj sub x by auto
  then have "loop_inv deg' (q @ new) (insert x P)" unfolding loop_inv_def by (intro conjI allI ballI deg' zero)
  with r(1) show ?thesis by blast
qed

lemma kahn_correct:
  assumes "loop_inv deg q P"
  shows "distinct (kahn succs deg q) \<and> set (kahn succs deg q) \<inter> P = {} \<and> (\<exists>deg'. loop_inv deg' [] (P \<union> set (kahn succs deg q))) \<and>
    (\<forall>xs n ys. kahn succs deg q = xs @ n # ys \<longrightarrow> (\<forall>a \<in> nodes. n \<in> set (succs a) \<longrightarrow> a \<in> P \<union> set xs))"
  using assms
proof (induction succs \<equiv> succs deg q arbitrary: P rule: kahn.induct)
  case (1 deg)
  then show ?case by auto
next
  case (2 deg x q)
  obtain deg' q' where r: "relax_targets (succs x) deg q = (deg', q')" and inv: "loop_inv deg' q' (insert x P)"
    using loop_step [OF "2.prems"] by blast
  let ?o = "kahn succs deg' q'"
  have o: "kahn succs deg (x # q) = x # ?o" using r by simp
  note ih = "2.hyps" [OF r [symmetric] inv]
  have "open_edges P x = 0" using loop_invD(5,6) [OF "2.prems"] by auto
  then have x: "\<forall>a \<in> nodes. x \<in> set (succs a) \<longrightarrow> a \<in> P" by (simp add: open_edges_0)
  have "\<forall>a \<in> nodes. n \<in> set (succs a) \<longrightarrow> a \<in> P \<union> set xs" if eq: "x # ?o = xs @ n # ys" for xs n ys
  proof (cases xs)
    case Nil
    then show ?thesis using x eq by simp
  next
    case (Cons y zs)
    then have "?o = zs @ n # ys" "y = x" using eq by simp_all
    then show ?thesis using ih Cons by auto
  qed
  moreover have "P \<union> set (x # ?o) = insert x P \<union> set ?o" by auto
  ultimately show ?case using ih loop_invD(3) [OF "2.prems"] unfolding o by auto
qed

lemma final_complete:
  assumes inv: "loop_inv deg [] P" and "acyclic graph_edges"
  shows "P = nodes"
proof (rule ccontr)
  have "graph_edges \<subseteq> nodes \<times> nodes" using closed by (auto simp: graph_edges_def)
  then have "finite graph_edges" using finite_nodes finite_subset by blast
  then have wf: "wf graph_edges" using assms(2) by (rule finite_acyclic_wf)
  assume "P \<noteq> nodes"
  then obtain x where "x \<in> nodes - P" using loop_invD(1) [OF inv] by blast
  then obtain z where z: "z \<in> nodes - P" "\<And>y. (y, z) \<in> graph_edges \<Longrightarrow> y \<notin> nodes - P" by (rule wfE_min [OF wf]) blast
  then have "open_edges P z = 0" by (auto simp: open_edges_0 graph_edges_def)
  then show False using loop_invD(5) [OF inv, of z] z(1) by auto
qed

text \<open>A start is a table with the number of incoming edges and the nodes without any.\<close>

lemma loop_init:
  assumes "\<And>k. dict_get deg k = (if k \<in> nodes then Some (int (open_edges {} k)) else None)" and "distinct q"
    and "\<And>k. k \<in> set q \<longleftrightarrow> dict_get deg k = Some 0"
  shows "loop_inv deg q {}"
  using assms unfolding loop_inv_def by (auto split: if_splits)

theorem kahn_decides:
  assumes "loop_inv deg q {}"
  shows "distinct (kahn succs deg q)" "set (kahn succs deg q) \<subseteq> nodes"
    "kahn succs deg q = xs @ n # ys \<Longrightarrow> a \<in> nodes \<Longrightarrow> n \<in> set (succs a) \<Longrightarrow> a \<in> set xs"
    "set (kahn succs deg q) = nodes \<longleftrightarrow> acyclic graph_edges"
proof -
  let ?o = "kahn succs deg q"
  note k = kahn_correct [OF assms]
  then obtain deg' where fin: "loop_inv deg' [] (set ?o)" by auto
  show "distinct ?o" "set ?o \<subseteq> nodes" using k loop_invD(1) [OF fin] by auto
  show before: "?o = xs @ n # ys \<Longrightarrow> a \<in> nodes \<Longrightarrow> n \<in> set (succs a) \<Longrightarrow> a \<in> set xs" for xs n ys a using k by auto
  show "set ?o = nodes \<longleftrightarrow> acyclic graph_edges"
  proof
    assume all: "set ?o = nodes"
    have "b \<in> set ?o" if "(a, b) \<in> graph_edges" for a b using that all closed by (auto simp: graph_edges_def)
    moreover have "a \<in> set xs" if "?o = xs @ n # ys" "(a, n) \<in> graph_edges" for xs n ys a
      using before [OF that(1)] that(2) by (auto simp: graph_edges_def)
    ultimately show "acyclic graph_edges" by (rule ordered_acyclic)
  qed (rule final_complete [OF fin])
qed

end

end
