(* ===== verification/AgentGraph.thy ===== *)
theory AgentGraph
  imports Kahn JsonText
begin

text \<open>
  Graphs of agents: \<open>domain/model/agent/graph/agent_node.py\<close>, \<open>agent_edge.py\<close>, \<open>graph_pattern.py\<close> and \<open>agent_graph.py\<close>. The
  fields \<open>config\<close>, \<open>metadata\<close>, \<open>description\<close>, \<open>shared_context_keys\<close> and the time stamps, which no operation here reads,
  are left out. The order in which Python enumerates the set \<open>node_ids\<close> is an argument of the cycle check.
\<close>

section \<open>Nodes, edges and graphs\<close>

datatype graph_pattern = SUPERVISOR | PIPELINE | FAN_OUT | SWARM | HIERARCHICAL

record agent_node =
  an_node_id :: string
  an_agent_definition_id :: string
  an_label :: string
  an_instruction :: string
  an_is_entry :: bool
  an_is_terminal :: bool

record agent_edge =
  ae_source :: string
  ae_target :: string
  ae_condition :: string

record agent_graph =
  ag_id :: string
  ag_tenant_id :: string
  ag_project_id :: string
  ag_name :: string
  ag_pattern :: graph_pattern
  ag_nodes :: "agent_node list"
  ag_edges :: "agent_edge list"
  ag_max_total_steps :: int
  ag_is_active :: bool

text \<open>The checks of the constructors: the first message that is raised.\<close>

definition agent_node_init :: "agent_node \<Rightarrow> string option" where
  "agent_node_init n =
     (if an_node_id n = [] then Some ''node_id cannot be empty''
      else if an_agent_definition_id n = [] then Some ''agent_definition_id cannot be empty''
      else if an_label n = [] then Some ''label cannot be empty'' else None)"

definition agent_edge_init :: "agent_edge \<Rightarrow> string option" where
  "agent_edge_init e =
     (if ae_source e = [] then Some ''source_node_id cannot be empty''
      else if ae_target e = [] then Some ''target_node_id cannot be empty''
      else if ae_source e = ae_target e then Some ''self-loops are not allowed'' else None)"

definition agent_graph_init :: "agent_graph \<Rightarrow> string option" where
  "agent_graph_init g =
     (if ag_tenant_id g = [] then Some ''tenant_id cannot be empty''
      else if ag_project_id g = [] then Some ''project_id cannot be empty''
      else if ag_name g = [] then Some ''name cannot be empty''
      else if ag_max_total_steps g < 1 then Some ''max_total_steps must be >= 1'' else None)"

section \<open>Queries\<close>

definition entry_nodes :: "agent_graph \<Rightarrow> agent_node list" where
  "entry_nodes g = filter an_is_entry (ag_nodes g)"

definition terminal_nodes :: "agent_graph \<Rightarrow> agent_node list" where
  "terminal_nodes g = filter an_is_terminal (ag_nodes g)"

definition ag_node_ids :: "agent_graph \<Rightarrow> string set" where
  "ag_node_ids g = set (map an_node_id (ag_nodes g))"

definition get_node :: "agent_graph \<Rightarrow> string \<Rightarrow> agent_node option" where
  "get_node g nid = find (\<lambda>n. an_node_id n = nid) (ag_nodes g)"

definition get_successors :: "agent_graph \<Rightarrow> string \<Rightarrow> agent_edge list" where
  "get_successors g nid = filter (\<lambda>e. ae_source e = nid) (ag_edges g)"

definition get_predecessors :: "agent_graph \<Rightarrow> string \<Rightarrow> agent_edge list" where
  "get_predecessors g nid = filter (\<lambda>e. ae_target e = nid) (ag_edges g)"

section \<open>Validation\<close>

definition graph_in_degrees :: "string list \<Rightarrow> agent_graph \<Rightarrow> (string, int) dict" where
  "graph_in_degrees ids g = count_targets (map ae_target (ag_edges g)) (zero_degrees ids)"

definition detect_cycles :: "string list \<Rightarrow> agent_graph \<Rightarrow> bool" where
  "detect_cycles ids g =
     (let in_degree = graph_in_degrees ids g;
          visited = kahn (\<lambda>nid. map ae_target (get_successors g nid)) in_degree (zero_keys in_degree)
      in length visited \<noteq> length ids)"

definition edge_errors :: "agent_graph \<Rightarrow> string list" where
  "edge_errors g =
     concat (map (\<lambda>e. (if ae_source e \<notin> ag_node_ids g then [''edge references unknown source node: '' @ ae_source e] else []) @
                      (if ae_target e \<notin> ag_node_ids g then [''edge references unknown target node: '' @ ae_target e] else [])) (ag_edges g))"

definition validate_graph :: "string list \<Rightarrow> agent_graph \<Rightarrow> string list" where
  "validate_graph ids g =
     (if ag_nodes g = [] then [''graph must have at least one node'']
      else let errors = (if entry_nodes g = [] then [''graph must have at least one entry node''] else []) @
                        (if terminal_nodes g = [] then [''graph must have at least one terminal node''] else []) @ edge_errors g
           in if errors = [] \<and> detect_cycles ids g then [''graph contains a cycle''] else errors)"

section \<open>The cycle check is exact\<close>

definition known_edges :: "agent_graph \<Rightarrow> bool" where
  "known_edges g \<longleftrightarrow> (\<forall>e \<in> set (ag_edges g). ae_source e \<in> ag_node_ids g \<and> ae_target e \<in> ag_node_ids g)"

definition edge_rel :: "agent_graph \<Rightarrow> (string \<times> string) set" where
  "edge_rel g = (\<lambda>e. (ae_source e, ae_target e)) ` set (ag_edges g)"

definition known_targets :: "agent_graph \<Rightarrow> string \<Rightarrow> string list" where
  "known_targets g nid = map ae_target (filter (\<lambda>e. ae_target e \<in> ag_node_ids g) (get_successors g nid))"

interpretation edge_order: dependency_graph "ag_node_ids g" "known_targets g" for g
  by unfold_locales (auto simp: ag_node_ids_def known_targets_def)

interpretation sorted_order: dependency_graph "ag_node_ids g" "\<lambda>nid. sort (known_targets g nid)" for g
  by unfold_locales (auto simp: ag_node_ids_def known_targets_def)

lemma known_targets_all: "known_edges g \<Longrightarrow> map ae_target (get_successors g nid) = known_targets g nid"
  unfolding known_targets_def get_successors_def known_edges_def by (intro arg_cong [of _ _ "map ae_target"]) (simp add: filter_filter, intro filter_cong, auto)

lemma graph_edges_rel:
  assumes "known_edges g"
  shows "edge_order.graph_edges g = edge_rel g" "sorted_order.graph_edges g = edge_rel g"
  using assms unfolding edge_order.graph_edges_def sorted_order.graph_edges_def
  by (auto simp: known_targets_def get_successors_def edge_rel_def known_edges_def image_iff)

lemma in_degrees_get:
  assumes "known_edges g" and "set ids = ag_node_ids g"
  shows "dict_get (graph_in_degrees ids g) k = (if k \<in> ag_node_ids g then Some (int (edge_order.open_edges g {} k)) else None)"
    "edge_order.open_edges g {} k = sorted_order.open_edges g {} k"
proof -
  have "k \<in> set (dict_keys (zero_degrees ids)) \<longleftrightarrow> k \<in> set ids" for k
    using dict_get_None_iff [of "zero_degrees ids" k] by (simp add: zero_degrees_get del: set_map split: if_splits)
  then have "set (map ae_target (ag_edges g)) \<subseteq> set (dict_keys (zero_degrees ids))"
    using assms unfolding known_edges_def by auto
  note c = count_targets_get [OF this, of k]
  have "edge_order.open_edges g {} k = (\<Sum>a \<in> ag_node_ids g. count_list (map ae_target (filter (\<lambda>e. ae_source e = a) (ag_edges g))) k)"
    using known_targets_all [OF assms(1)] by (simp add: edge_order.open_edges_def get_successors_def)
  also have "\<dots> = count_list (map ae_target (ag_edges g)) k"
    using assms(1) by (intro count_by_source) (auto simp: ag_node_ids_def known_edges_def)
  finally show "dict_get (graph_in_degrees ids g) k = (if k \<in> ag_node_ids g then Some (int (edge_order.open_edges g {} k)) else None)"
    using c assms(2) by (simp add: graph_in_degrees_def zero_degrees_get)
  show "edge_order.open_edges g {} k = sorted_order.open_edges g {} k"
    unfolding edge_order.open_edges_def sorted_order.open_edges_def by (intro sum.cong refl) (metis count_mset mset_sort)
qed

lemma graph_zero_keys:
  "distinct (zero_keys (graph_in_degrees ids g))" "k \<in> set (zero_keys (graph_in_degrees ids g)) \<longleftrightarrow> dict_get (graph_in_degrees ids g) k = Some 0"
  using zero_keys_spec [OF wf_count_targets [OF wf_zero_degrees [of ids]], of "map ae_target (ag_edges g)"] by (simp_all add: graph_in_degrees_def)

lemma detect_cycles_exact:
  assumes "known_edges g" and "distinct ids" and "set ids = ag_node_ids g"
  shows "detect_cycles ids g \<longleftrightarrow> \<not> acyclic (edge_rel g)"
proof -
  let ?deg = "graph_in_degrees ids g"
  have "edge_order.loop_inv g ?deg (zero_keys ?deg) {}"
    by (rule edge_order.loop_init) (simp_all add: in_degrees_get [OF assms(1,3)] graph_zero_keys)
  note k = edge_order.kahn_decides [OF this]
  let ?o = "kahn (known_targets g) ?deg (zero_keys ?deg)"
  have "length ?o = card (set ?o)" using k(1) distinct_card by metis
  moreover have "length ids = card (ag_node_ids g)" using assms(2,3) distinct_card by metis
  ultimately have "length ?o = length ids \<longleftrightarrow> set ?o = ag_node_ids g"
    using k(2) card_subset_eq [of "ag_node_ids g" "set ?o"] edge_order.finite_nodes by metis
  then show ?thesis using k(4) graph_edges_rel(1) [OF assms(1)] known_targets_all [OF assms(1)] by (simp add: detect_cycles_def Let_def)
qed

lemma edge_errors_Nil: "edge_errors g = [] \<longleftrightarrow> known_edges g"
  by (auto simp: edge_errors_def known_edges_def split: if_splits)

definition valid_graph :: "agent_graph \<Rightarrow> bool" where
  "valid_graph g \<longleftrightarrow> entry_nodes g \<noteq> [] \<and> terminal_nodes g \<noteq> [] \<and> known_edges g \<and> acyclic (edge_rel g)"

text \<open>
  C34: whatever order Python enumerates the set of node ids in, \<open>validate_graph\<close> reports no error exactly for graphs that have an
  entry node and a terminal node, whose edges connect known nodes, and whose edges form no cycle.
\<close>

theorem validate_graph_exact:
  assumes "distinct ids" and "set ids = ag_node_ids g"
  shows "validate_graph ids g = [] \<longleftrightarrow> valid_graph g"
proof -
  have "entry_nodes g = []" if "ag_nodes g = []" using that by (simp add: entry_nodes_def)
  then show ?thesis
    using detect_cycles_exact [OF _ assms] edge_errors_Nil [of g] by (auto simp: validate_graph_def valid_graph_def Let_def)
qed

definition plain_node :: "string \<Rightarrow> bool \<Rightarrow> bool \<Rightarrow> agent_node" where
  "plain_node nid entry terminal =
     \<lparr>an_node_id = nid, an_agent_definition_id = ''agent'', an_label = nid, an_instruction = [], an_is_entry = entry, an_is_terminal = terminal\<rparr>"

definition plain_edge :: "string \<Rightarrow> string \<Rightarrow> agent_edge" where
  "plain_edge a b = \<lparr>ae_source = a, ae_target = b, ae_condition = []\<rparr>"

definition plain_graph :: "graph_pattern \<Rightarrow> int \<Rightarrow> agent_node list \<Rightarrow> agent_edge list \<Rightarrow> agent_graph" where
  "plain_graph pattern steps ns es =
     \<lparr>ag_id = ''g'', ag_tenant_id = ''t'', ag_project_id = ''p'', ag_name = ''graph'', ag_pattern = pattern, ag_nodes = ns, ag_edges = es,
      ag_max_total_steps = steps, ag_is_active = True\<rparr>"

definition square :: "graph_pattern \<Rightarrow> agent_graph" where
  "square pattern = plain_graph pattern 50
     [plain_node ''a'' True False, plain_node ''b'' False False, plain_node ''c'' False False, plain_node ''d'' False True]
     [plain_edge ''a'' ''b'', plain_edge ''a'' ''c'', plain_edge ''b'' ''d'', plain_edge ''c'' ''d'']"

lemma square_ids: "distinct [''c'', ''a'', ''d'', ''b'']" "set [''c'', ''a'', ''d'', ''b''] = ag_node_ids (square pattern)"
  by (auto simp: square_def plain_graph_def plain_node_def ag_node_ids_def)

lemma square_validates: "validate_graph [''c'', ''a'', ''d'', ''b''] (square FAN_OUT) = []"
  by code_simp

theorem validate_graph_exact_witness:
  "distinct [''c'', ''a'', ''d'', ''b''] \<and> set [''c'', ''a'', ''d'', ''b''] = ag_node_ids (square FAN_OUT) \<and> valid_graph (square FAN_OUT)"
  using validate_graph_exact [OF square_ids, of FAN_OUT] square_validates square_ids by blast

text \<open>
  Nothing asks for distinct node identifiers: two nodes with the same one pass the validation, and a run of the
  graph raises when the second is added.
\<close>

definition twins :: agent_graph where
  "twins = plain_graph FAN_OUT 50 [plain_node ''a'' True True, plain_node ''a'' True True] []"

lemma duplicate_ids_validate: "validate_graph [''a''] twins = []"
  by code_simp

end
