(* ===== verification/GraphRun.thy ===== *)
theory GraphRun
  imports Prelude JsonText
begin

text \<open>
  Runs of agent graphs: \<open>graph_run_status.py\<close>, \<open>node_execution_status.py\<close>, \<open>node_execution.py\<close> and \<open>graph_run.py\<close> of
  \<open>domain/model/agent/graph\<close>. The methods change the entity in place and raise \<open>ValueError\<close>; here they return the error
  or the changed entity. Values of contexts are JSON values.
\<close>

section \<open>Statuses\<close>

datatype graph_run_status = GrPENDING | GrRUNNING | GrCOMPLETED | GrFAILED | GrCANCELLED

datatype node_execution_status = NePENDING | NeRUNNING | NeCOMPLETED | NeFAILED | NeSKIPPED | NeCANCELLED

definition gr_status_terminal :: "graph_run_status \<Rightarrow> bool" where
  "gr_status_terminal st \<longleftrightarrow> st \<in> {GrCOMPLETED, GrFAILED, GrCANCELLED}"

definition ne_status_terminal :: "node_execution_status \<Rightarrow> bool" where
  "ne_status_terminal st \<longleftrightarrow> st \<in> {NeCOMPLETED, NeFAILED, NeSKIPPED, NeCANCELLED}"

section \<open>Entities\<close>

record node_execution =
  ne_graph_run_id :: string
  ne_node_id :: string
  ne_agent_session_id :: "string option"
  ne_status :: node_execution_status
  ne_input_context :: "(string, json) dict"
  ne_output_context :: "(string, json) dict"
  ne_error_message :: "string option"
  ne_started_at :: "int option"
  ne_completed_at :: "int option"

record graph_run =
  gr_id :: string
  gr_graph_id :: string
  gr_conversation_id :: string
  gr_tenant_id :: string
  gr_project_id :: string
  gr_status :: graph_run_status
  gr_node_executions :: "(string, node_execution) dict"
  gr_shared_context :: "(string, json) dict"
  gr_current_node_ids :: "string list"
  gr_total_steps :: int
  gr_max_total_steps :: int
  gr_error_message :: "string option"
  gr_started_at :: "int option"
  gr_completed_at :: "int option"

datatype graph_error =
    EmptyField string
  | MaxStepsTooSmall
  | CannotStartRun graph_run_status
  | CannotCompleteRun graph_run_status
  | CannotFailRun graph_run_status
  | CannotStartNode node_execution_status
  | CannotCompleteNode node_execution_status
  | CannotFailNode node_execution_status
  | CannotSkipNode node_execution_status
  | NodeExecutionExists string
  | GraphNotFound string
  | GraphScopeMismatch string
  | GraphInactive string
  | InvalidGraph "string list"
  | NoEntryNodes
  | SpawnRaised string
  | RunNotFound string
  | RunOfOtherGraph string
  | RunScopeMismatch string
  | NodeExecutionNotFound string
  | HandoffUnsupported
  | HandoffInvalid string

section \<open>Node executions\<close>

definition node_execution_init :: "string \<Rightarrow> string \<Rightarrow> (string, json) dict \<Rightarrow> graph_error + node_execution" where
  "node_execution_init run_id nid ctx =
     (if run_id = [] then Inl (EmptyField ''graph_run_id'')
      else if nid = [] then Inl (EmptyField ''node_id'')
      else Inr \<lparr>ne_graph_run_id = run_id, ne_node_id = nid, ne_agent_session_id = None, ne_status = NePENDING, ne_input_context = ctx,
                ne_output_context = [], ne_error_message = None, ne_started_at = None, ne_completed_at = None\<rparr>)"

definition ne_mark_running :: "int \<Rightarrow> string \<Rightarrow> node_execution \<Rightarrow> graph_error + node_execution" where
  "ne_mark_running now session ne =
     (if ne_status ne \<noteq> NePENDING then Inl (CannotStartNode (ne_status ne))
      else Inr (ne\<lparr>ne_status := NeRUNNING, ne_agent_session_id := Some session, ne_started_at := Some now\<rparr>))"

definition ne_mark_completed :: "int \<Rightarrow> (string, json) dict option \<Rightarrow> node_execution \<Rightarrow> graph_error + node_execution" where
  "ne_mark_completed now output ne =
     (if ne_status ne \<noteq> NeRUNNING then Inl (CannotCompleteNode (ne_status ne))
      else Inr (ne\<lparr>ne_status := NeCOMPLETED, ne_output_context := (case output of None \<Rightarrow> ne_output_context ne | Some c \<Rightarrow> c),
                   ne_completed_at := Some now\<rparr>))"

definition ne_mark_failed :: "int \<Rightarrow> string \<Rightarrow> node_execution \<Rightarrow> graph_error + node_execution" where
  "ne_mark_failed now message ne =
     (if ne_status ne \<noteq> NeRUNNING then Inl (CannotFailNode (ne_status ne))
      else Inr (ne\<lparr>ne_status := NeFAILED, ne_error_message := Some message, ne_completed_at := Some now\<rparr>))"

definition ne_mark_skipped :: "int \<Rightarrow> node_execution \<Rightarrow> graph_error + node_execution" where
  "ne_mark_skipped now ne =
     (if ne_status ne \<noteq> NePENDING then Inl (CannotSkipNode (ne_status ne))
      else Inr (ne\<lparr>ne_status := NeSKIPPED, ne_completed_at := Some now\<rparr>))"

definition ne_mark_cancelled :: "int \<Rightarrow> node_execution \<Rightarrow> node_execution" where
  "ne_mark_cancelled now ne =
     (if ne_status_terminal (ne_status ne) then ne else ne\<lparr>ne_status := NeCANCELLED, ne_completed_at := Some now\<rparr>)"

definition ne_duration :: "node_execution \<Rightarrow> int option" where
  "ne_duration ne = (case (ne_started_at ne, ne_completed_at ne) of (Some a, Some b) \<Rightarrow> Some (b - a) | _ \<Rightarrow> None)"

section \<open>Runs\<close>

definition graph_run_init ::
  "string \<Rightarrow> string \<Rightarrow> string \<Rightarrow> string \<Rightarrow> string \<Rightarrow> int \<Rightarrow> (string, json) dict \<Rightarrow> graph_error + graph_run" where
  "graph_run_init rid graph conversation tenant project max_steps ctx =
     (if graph = [] then Inl (EmptyField ''graph_id'')
      else if conversation = [] then Inl (EmptyField ''conversation_id'')
      else if tenant = [] then Inl (EmptyField ''tenant_id'')
      else if project = [] then Inl (EmptyField ''project_id'')
      else if max_steps < 1 then Inl MaxStepsTooSmall
      else Inr \<lparr>gr_id = rid, gr_graph_id = graph, gr_conversation_id = conversation, gr_tenant_id = tenant, gr_project_id = project,
                gr_status = GrPENDING, gr_node_executions = [], gr_shared_context = ctx, gr_current_node_ids = [], gr_total_steps = 0,
                gr_max_total_steps = max_steps, gr_error_message = None, gr_started_at = None, gr_completed_at = None\<rparr>)"

definition gr_mark_running :: "int \<Rightarrow> string list \<Rightarrow> graph_run \<Rightarrow> graph_error + graph_run" where
  "gr_mark_running now entries r =
     (if gr_status r \<noteq> GrPENDING then Inl (CannotStartRun (gr_status r))
      else Inr (r\<lparr>gr_status := GrRUNNING, gr_current_node_ids := entries, gr_started_at := Some now\<rparr>))"

definition gr_mark_completed :: "int \<Rightarrow> graph_run \<Rightarrow> graph_error + graph_run" where
  "gr_mark_completed now r =
     (if gr_status r \<noteq> GrRUNNING then Inl (CannotCompleteRun (gr_status r))
      else Inr (r\<lparr>gr_status := GrCOMPLETED, gr_current_node_ids := [], gr_completed_at := Some now\<rparr>))"

definition gr_mark_failed :: "int \<Rightarrow> string \<Rightarrow> graph_run \<Rightarrow> graph_error + graph_run" where
  "gr_mark_failed now message r =
     (if gr_status r \<noteq> GrRUNNING then Inl (CannotFailRun (gr_status r))
      else Inr (r\<lparr>gr_status := GrFAILED, gr_error_message := Some message, gr_current_node_ids := [], gr_completed_at := Some now\<rparr>))"

definition gr_mark_cancelled :: "int \<Rightarrow> graph_run \<Rightarrow> graph_run" where
  "gr_mark_cancelled now r =
     (if gr_status_terminal (gr_status r) then r
      else r\<lparr>gr_status := GrCANCELLED, gr_current_node_ids := [], gr_completed_at := Some now,
             gr_node_executions := map (\<lambda>(k, ne). (k, ne_mark_cancelled now ne)) (gr_node_executions r)\<rparr>)"

definition get_node_execution :: "string \<Rightarrow> graph_run \<Rightarrow> node_execution option" where
  "get_node_execution nid r = dict_get (gr_node_executions r) nid"

definition add_node_execution :: "node_execution \<Rightarrow> graph_run \<Rightarrow> graph_error + graph_run" where
  "add_node_execution ne r =
     (if dict_get (gr_node_executions r) (ne_node_id ne) \<noteq> None then Inl (NodeExecutionExists (ne_node_id ne))
      else Inr (r\<lparr>gr_node_executions := dict_set (ne_node_id ne) ne (gr_node_executions r)\<rparr>))"

text \<open>An entry that is changed in place.\<close>

definition put_node_execution :: "node_execution \<Rightarrow> graph_run \<Rightarrow> graph_run" where
  "put_node_execution ne r = r\<lparr>gr_node_executions := dict_set (ne_node_id ne) ne (gr_node_executions r)\<rparr>"

definition increment_step :: "int \<Rightarrow> graph_run \<Rightarrow> graph_error + graph_run" where
  "increment_step now r =
     (let r1 = r\<lparr>gr_total_steps := gr_total_steps r + 1\<rparr>
      in if gr_total_steps r1 \<ge> gr_max_total_steps r1
         then gr_mark_failed now (''Graph run exceeded maximum steps ('' @ int_str (gr_max_total_steps r1) @ '')'') r1
         else Inr r1)"

definition update_shared_context :: "(string, json) dict \<Rightarrow> graph_run \<Rightarrow> graph_run" where
  "update_shared_context updates r = r\<lparr>gr_shared_context := dict_merge (gr_shared_context r) updates\<rparr>"

definition gr_is_terminal :: "graph_run \<Rightarrow> bool" where
  "gr_is_terminal r \<longleftrightarrow> gr_status_terminal (gr_status r)"

definition all_nodes_terminal :: "graph_run \<Rightarrow> bool" where
  "all_nodes_terminal r \<longleftrightarrow> gr_node_executions r \<noteq> [] \<and> list_all (\<lambda>ne. ne_status_terminal (ne_status ne)) (dict_values (gr_node_executions r))"

definition ids_with_status :: "node_execution_status \<Rightarrow> graph_run \<Rightarrow> string list" where
  "ids_with_status st r = map fst (filter (\<lambda>(k, ne). ne_status ne = st) (gr_node_executions r))"

definition running_node_ids :: "graph_run \<Rightarrow> string list" where
  "running_node_ids r = ids_with_status NeRUNNING r"

definition completed_node_ids :: "graph_run \<Rightarrow> string list" where
  "completed_node_ids r = ids_with_status NeCOMPLETED r"

definition failed_node_ids :: "graph_run \<Rightarrow> string list" where
  "failed_node_ids r = ids_with_status NeFAILED r"

definition gr_duration :: "graph_run \<Rightarrow> int option" where
  "gr_duration r = (case (gr_started_at r, gr_completed_at r) of (Some a, Some b) \<Rightarrow> Some (b - a) | _ \<Rightarrow> None)"

end
