(* ===== verification/GraphPatterns.thy ===== *)
theory GraphPatterns
  imports AgentGraph GraphRun
begin

text \<open>
  The pattern coordinators of \<open>infrastructure/agent/orchestration/patterns\<close>: which nodes of a graph run next, and when
  a run is complete.
\<close>

section \<open>Shared tests\<close>

definition node_completed :: "graph_run \<Rightarrow> string \<Rightarrow> bool" where
  "node_completed r nid \<longleftrightarrow> (case get_node_execution nid r of None \<Rightarrow> False | Some ne \<Rightarrow> ne_status ne = NeCOMPLETED)"

definition predecessors_done :: "agent_graph \<Rightarrow> graph_run \<Rightarrow> string \<Rightarrow> bool" where
  "predecessors_done g r nid \<longleftrightarrow> list_all (\<lambda>e. node_completed r (ae_source e)) (get_predecessors g nid)"

definition terminals_completed :: "agent_graph \<Rightarrow> graph_run \<Rightarrow> bool" where
  "terminals_completed g r \<longleftrightarrow> list_all (\<lambda>t. node_completed r (an_node_id t)) (terminal_nodes g)"

section \<open>Supervisor\<close>

definition supervisor_next :: "agent_graph \<Rightarrow> graph_run \<Rightarrow> string list" where
  "supervisor_next g r =
     (if gr_is_terminal r then []
      else if running_node_ids r \<noteq> [] then []
      else if gr_node_executions r = [] then map an_node_id (entry_nodes g)
      else case find (\<lambda>n. get_node_execution (an_node_id n) r = None \<and> get_predecessors g (an_node_id n) \<noteq> [] \<and>
                          predecessors_done g r (an_node_id n)) (ag_nodes g) of
             None \<Rightarrow> [] | Some n \<Rightarrow> [an_node_id n])"

section \<open>Pipeline\<close>

definition pipeline_order :: "agent_graph \<Rightarrow> string list" where
  "pipeline_order g =
     (let in_degree = graph_in_degrees (map an_node_id (ag_nodes g)) g
      in kahn (\<lambda>nid. sort (map ae_target (get_successors g nid))) in_degree (sort (zero_keys in_degree)))"

definition pipeline_next :: "agent_graph \<Rightarrow> graph_run \<Rightarrow> string list" where
  "pipeline_next g r =
     (if gr_is_terminal r then []
      else if running_node_ids r \<noteq> [] then []
      else if gr_node_executions r = [] then take 1 (map an_node_id (entry_nodes g))
      else case find (\<lambda>nid. get_node_execution nid r = None \<and> predecessors_done g r nid) (pipeline_order g) of
             None \<Rightarrow> [] | Some nid \<Rightarrow> [nid])"

section \<open>Fan-out\<close>

definition fan_out_next :: "agent_graph \<Rightarrow> graph_run \<Rightarrow> string list" where
  "fan_out_next g r =
     (if gr_is_terminal r then []
      else if gr_node_executions r = [] then map an_node_id (entry_nodes g)
      else map an_node_id (filter (\<lambda>n. get_node_execution (an_node_id n) r = None \<and>
              (get_predecessors g (an_node_id n) = [] \<or> predecessors_done g r (an_node_id n))) (ag_nodes g)))"

section \<open>Swarm\<close>

definition swarm_next :: "agent_graph \<Rightarrow> graph_run \<Rightarrow> string list" where
  "swarm_next g r =
     (if gr_is_terminal r then []
      else if gr_node_executions r = [] then map an_node_id (entry_nodes g) else [])"

definition swarm_complete :: "agent_graph \<Rightarrow> graph_run \<Rightarrow> bool" where
  "swarm_complete g r \<longleftrightarrow>
     (if terminals_completed g r then True
      else if running_node_ids r = [] \<and> gr_node_executions r \<noteq> []
           then list_all (\<lambda>ne. ne_status_terminal (ne_status ne)) (dict_values (gr_node_executions r))
           else False)"

fun ne_status_value :: "node_execution_status \<Rightarrow> string" where
  "ne_status_value NePENDING = ''pending''"
| "ne_status_value NeRUNNING = ''running''"
| "ne_status_value NeCOMPLETED = ''completed''"
| "ne_status_value NeFAILED = ''failed''"
| "ne_status_value NeSKIPPED = ''skipped''"
| "ne_status_value NeCANCELLED = ''cancelled''"

definition validate_handoff_target :: "agent_graph \<Rightarrow> graph_run \<Rightarrow> string \<Rightarrow> string option" where
  "validate_handoff_target g r target =
     (if target \<notin> ag_node_ids g then Some (''Handoff target '' @ [CHR 0x27] @ target @ [CHR 0x27] @ '' does not exist in graph'')
      else case get_node_execution target r of
             None \<Rightarrow> None
           | Some ne \<Rightarrow>
               if ne_status ne \<noteq> NeFAILED
               then Some (''Handoff target '' @ [CHR 0x27] @ target @ [CHR 0x27] @ '' already has execution in status '' @ ne_status_value (ne_status ne))
               else None)"

section \<open>The coordinator of a pattern\<close>

fun next_node_ids :: "graph_pattern \<Rightarrow> agent_graph \<Rightarrow> graph_run \<Rightarrow> string list" where
  "next_node_ids SUPERVISOR = supervisor_next"
| "next_node_ids PIPELINE = pipeline_next"
| "next_node_ids FAN_OUT = fan_out_next"
| "next_node_ids SWARM = swarm_next"
| "next_node_ids HIERARCHICAL = supervisor_next"

fun should_complete_run :: "graph_pattern \<Rightarrow> agent_graph \<Rightarrow> graph_run \<Rightarrow> bool" where
  "should_complete_run SWARM = swarm_complete"
| "should_complete_run _ = terminals_completed"

section \<open>What the coordinators have in common\<close>

lemma ids_with_status_iff: "wf_dict (gr_node_executions r) \<Longrightarrow> k \<in> set (ids_with_status st r) \<longleftrightarrow> (\<exists>ne. get_node_execution k r = Some ne \<and> ne_status ne = st)"
  by (force simp: ids_with_status_def get_node_execution_def dict_get_iff_mem)

text \<open>The pipeline's order contains every node of a valid graph once, each after its predecessors.\<close>

lemma pipeline_order_correct:
  assumes "known_edges g" and "acyclic (edge_rel g)"
  shows "distinct (pipeline_order g)" "set (pipeline_order g) = ag_node_ids g"
    "pipeline_order g = xs @ n # ys \<Longrightarrow> e \<in> set (get_predecessors g n) \<Longrightarrow> ae_source e \<in> set xs"
proof -
  let ?deg = "graph_in_degrees (map an_node_id (ag_nodes g)) g"
  have ids: "set (map an_node_id (ag_nodes g)) = ag_node_ids g" by (simp add: ag_node_ids_def)
  have "sorted_order.loop_inv g ?deg (sort (zero_keys ?deg)) {}"
    by (rule sorted_order.loop_init) (simp_all add: in_degrees_get [OF assms(1) ids] graph_zero_keys)
  note k = sorted_order.kahn_decides [OF this]
  have order: "pipeline_order g = kahn (\<lambda>nid. sort (known_targets g nid)) ?deg (sort (zero_keys ?deg))"
    by (simp add: pipeline_order_def Let_def known_targets_all [OF assms(1)])
  show "distinct (pipeline_order g)" "set (pipeline_order g) = ag_node_ids g"
    using k(1,4) assms(2) graph_edges_rel(2) [OF assms(1)] unfolding order by simp_all
  show "ae_source e \<in> set xs" if "pipeline_order g = xs @ n # ys" "e \<in> set (get_predecessors g n)"
  proof -
    have e: "e \<in> set (ag_edges g)" "ae_target e = n" using that(2) by (simp_all add: get_predecessors_def)
    then have "ae_source e \<in> ag_node_ids g" "ae_target e \<in> ag_node_ids g" using assms(1) by (auto simp: known_edges_def)
    moreover have "n \<in> set (sort (known_targets g (ae_source e)))"
      using e \<open>ae_target e \<in> ag_node_ids g\<close> by (auto simp: known_targets_def get_successors_def)
    ultimately show ?thesis using k(3) [of xs n ys "ae_source e"] that(1) unfolding order by simp
  qed
qed

text \<open>
  A coordinator proposes entry nodes at the start, and afterwards nodes of the graph that have no execution
  yet and whose predecessors are completed.
\<close>

lemma find_member: "find P xs = Some x \<Longrightarrow> x \<in> set xs \<and> P x"
  by (metis find_Some_iff nth_mem)

lemma first_proposed:
  assumes "gr_node_executions r = []"
  shows "set (next_node_ids (ag_pattern g) g r) \<subseteq> an_node_id ` set (entry_nodes g)"
  using assms by (cases "ag_pattern g")
    (auto simp: supervisor_next_def pipeline_next_def fan_out_next_def swarm_next_def dest: in_set_takeD)

lemma later_proposed:
  assumes "gr_node_executions r \<noteq> []" and "nid \<in> set (next_node_ids (ag_pattern g) g r)"
  shows "get_node_execution nid r = None \<and> predecessors_done g r nid \<and> (nid \<in> ag_node_ids g \<or> nid \<in> set (pipeline_order g))"
proof -
  have none: "get_predecessors g k = [] \<Longrightarrow> predecessors_done g r k" for k by (simp add: predecessors_done_def)
  show ?thesis using assms none
    by (cases "ag_pattern g")
      (auto simp: supervisor_next_def pipeline_next_def fan_out_next_def swarm_next_def ag_node_ids_def
        split: if_splits option.splits dest!: sym [of "Some _"] find_member)
qed

lemma proposed_known:
  assumes "known_edges g" and "acyclic (edge_rel g)" and "nid \<in> set (next_node_ids (ag_pattern g) g r)"
  shows "nid \<in> ag_node_ids g" "get_node_execution nid r = None"
proof -
  have "nid \<in> ag_node_ids g \<and> get_node_execution nid r = None"
  proof (cases "gr_node_executions r = []")
    case True
    then show ?thesis using first_proposed [OF True, of g] assms(3) by (auto simp: entry_nodes_def ag_node_ids_def get_node_execution_def)
  next
    case False
    then show ?thesis using later_proposed [OF False assms(3)] pipeline_order_correct(2) [OF assms(1,2)] by blast
  qed
  then show "nid \<in> ag_node_ids g" "get_node_execution nid r = None" by simp_all
qed

end
