(* ===== verification/GraphOrchestrator.thy ===== *)
theory GraphOrchestrator
  imports GraphPatterns
begin

text \<open>
  The orchestrator of graph runs: \<open>infrastructure/agent/orchestration/graph_orchestrator.py\<close>. The two repositories are the
  dictionaries of a store; \<open>find_by_id\<close> gives a copy, so a handler that raises leaves the stored run as it was. The
  agents that were spawned are logged even then. What \<open>spawn_agent\<close> answers for a node (a session, or \<open>None\<close> for an
  exception), the identifier of a new run and the clock are arguments; one clock value stands for the readings of a
  handler. The text of the message to the agent is left out.
\<close>

section \<open>Scheduling one node\<close>

datatype graph_event =
    GraphRunStarted "string list"
  | GraphNodeStarted string string
  | GraphNodeSkipped string
  | GraphNodeCompleted string "string list" "int option"
  | GraphNodeFailed string string
  | GraphRunCompleted int "int option"
  | GraphRunFailed string string
  | GraphRunCancelled string
  | GraphHandoff string string string

type_synonym 'a spawning = "string list \<times> (graph_error + 'a)"

text \<open>\<open>node_exec.mark_running\<close>, \<open>run.add_node_execution\<close> and \<open>run.increment_step\<close>.\<close>

definition start_execution :: "int \<Rightarrow> string \<Rightarrow> node_execution \<Rightarrow> graph_run \<Rightarrow> graph_error + graph_run" where
  "start_execution now session ne r =
     (case ne_mark_running now session ne of
        Inl e \<Rightarrow> Inl e
      | Inr ne' \<Rightarrow> (case add_node_execution ne' r of Inl e \<Rightarrow> Inl e | Inr r' \<Rightarrow> increment_step now r'))"

definition skip_execution :: "int \<Rightarrow> node_execution \<Rightarrow> graph_run \<Rightarrow> graph_error + graph_run" where
  "skip_execution now ne r = (case ne_mark_skipped now ne of Inl e \<Rightarrow> Inl e | Inr ne' \<Rightarrow> add_node_execution ne' r)"

definition with_event :: "graph_event \<Rightarrow> graph_error + graph_run \<Rightarrow> graph_error + graph_run \<times> graph_event list" where
  "with_event ev res = (case res of Inl e \<Rightarrow> Inl e | Inr r \<Rightarrow> Inr (r, [ev]))"

text \<open>The flag says whether a failed spawn raises (the loop of \<open>start_run\<close>) or skips the node (\<open>_schedule_node\<close>).\<close>

definition schedule_node ::
  "bool \<Rightarrow> int \<Rightarrow> (string \<Rightarrow> string option) \<Rightarrow> agent_graph \<Rightarrow> graph_run \<Rightarrow> string \<Rightarrow> (graph_run \<times> graph_event list) spawning" where
  "schedule_node raises now spawn g r nid =
     (case get_node g nid of
        None \<Rightarrow> ([], Inr (r, []))
      | Some node \<Rightarrow>
          (case node_execution_init (gr_id r) (an_node_id node) (gr_shared_context r) of
             Inl e \<Rightarrow> ([], Inl e)
           | Inr ne \<Rightarrow>
               (case spawn nid of
                  None \<Rightarrow> ([], if raises then Inl (SpawnRaised nid) else with_event (GraphNodeSkipped nid) (skip_execution now ne r))
                | Some session \<Rightarrow> ([nid], with_event (GraphNodeStarted nid session) (start_execution now session ne r)))))"

fun each_node :: "(graph_run \<Rightarrow> string \<Rightarrow> (graph_run \<times> graph_event list) spawning) \<Rightarrow> graph_run \<Rightarrow> string list \<Rightarrow> (graph_run \<times> graph_event list) spawning" where
  "each_node f r [] = ([], Inr (r, []))"
| "each_node f r (nid # nids) =
     (case f r nid of
        (sp, Inl e) \<Rightarrow> (sp, Inl e)
      | (sp, Inr (r1, ev)) \<Rightarrow>
          (case each_node f r1 nids of
             (sp', Inl e) \<Rightarrow> (sp @ sp', Inl e)
           | (sp', Inr (r2, ev')) \<Rightarrow> (sp @ sp', Inr (r2, ev @ ev'))))"

section \<open>Handlers on a run\<close>

definition launch ::
  "int \<Rightarrow> (string \<Rightarrow> string option) \<Rightarrow> agent_graph \<Rightarrow> graph_run \<Rightarrow> (graph_run \<times> graph_event list) spawning" where
  "launch now spawn g r =
     (let entries = next_node_ids (ag_pattern g) g r
      in if entries = [] then ([], Inl NoEntryNodes)
         else case gr_mark_running now entries r of
                Inl e \<Rightarrow> ([], Inl e)
              | Inr r1 \<Rightarrow>
                  (case each_node (schedule_node True now spawn g) r1 entries of
                     (sp, Inl e) \<Rightarrow> (sp, Inl e)
                   | (sp, Inr (r2, evs)) \<Rightarrow> (sp, Inr (r2, GraphRunStarted entries # evs))))"

definition complete_node ::
  "int \<Rightarrow> (string \<Rightarrow> string option) \<Rightarrow> agent_graph \<Rightarrow> string \<Rightarrow> (string, json) dict option \<Rightarrow> graph_run \<Rightarrow> (graph_run \<times> graph_event list) spawning" where
  "complete_node now spawn g nid output r =
     (case get_node_execution nid r of
        None \<Rightarrow> ([], Inl (NodeExecutionNotFound nid))
      | Some ne \<Rightarrow>
          (case ne_mark_completed now output ne of
             Inl e \<Rightarrow> ([], Inl e)
           | Inr ne' \<Rightarrow>
               (let r1 = put_node_execution ne' r;
                    r2 = (case output of None \<Rightarrow> r1 | Some c \<Rightarrow> if c = [] then r1 else update_shared_context c r1);
                    ev = GraphNodeCompleted nid (case output of None \<Rightarrow> [] | Some c \<Rightarrow> dict_keys c) (ne_duration ne')
                in if should_complete_run (ag_pattern g) g r2
                   then (case gr_mark_completed now r2 of
                           Inl e \<Rightarrow> ([], Inl e)
                         | Inr r3 \<Rightarrow> ([], Inr (r3, [ev, GraphRunCompleted (gr_total_steps r3) (gr_duration r3)])))
                   else (case each_node (schedule_node False now spawn g) r2 (next_node_ids (ag_pattern g) g r2) of
                           (sp, Inl e) \<Rightarrow> (sp, Inl e)
                         | (sp, Inr (r3, evs)) \<Rightarrow> (sp, Inr (r3, ev # evs))))))"

definition node_label :: "agent_graph \<Rightarrow> string \<Rightarrow> string" where
  "node_label g nid = (case get_node g nid of None \<Rightarrow> nid | Some n \<Rightarrow> an_label n)"

definition fail_node :: "int \<Rightarrow> agent_graph \<Rightarrow> string \<Rightarrow> string \<Rightarrow> graph_run \<Rightarrow> graph_error + graph_run \<times> graph_event list" where
  "fail_node now g nid message r =
     (case get_node_execution nid r of
        None \<Rightarrow> Inl (NodeExecutionNotFound nid)
      | Some ne \<Rightarrow>
          (case ne_mark_failed now message ne of
             Inl e \<Rightarrow> Inl e
           | Inr ne' \<Rightarrow>
               (case gr_mark_failed now (''Node '' @ [CHR 0x27] @ node_label g nid @ [CHR 0x27] @ '' failed: '' @ message) (put_node_execution ne' r) of
                  Inl e \<Rightarrow> Inl e
                | Inr r1 \<Rightarrow> Inr (r1, [GraphNodeFailed nid message, GraphRunFailed message nid]))))"

definition handoff_to ::
  "int \<Rightarrow> (string \<Rightarrow> string option) \<Rightarrow> agent_graph \<Rightarrow> string \<Rightarrow> string \<Rightarrow> string \<Rightarrow> graph_run \<Rightarrow> (graph_run \<times> graph_event list) spawning" where
  "handoff_to now spawn g from_id to_id summary r =
     (if ag_pattern g \<noteq> SWARM then ([], Inl HandoffUnsupported)
      else case validate_handoff_target g r to_id of
             Some message \<Rightarrow> ([], Inl (HandoffInvalid message))
           | None \<Rightarrow>
               (case schedule_node False now spawn g r to_id of
                  (sp, Inl e) \<Rightarrow> (sp, Inl e)
                | (sp, Inr (r1, evs)) \<Rightarrow> (sp, Inr (r1, GraphHandoff from_id to_id summary # evs))))"

section \<open>Handlers on the store\<close>

record graph_store =
  gs_graphs :: "(string, agent_graph) dict"
  gs_runs :: "(string, graph_run) dict"
  gs_spawned :: "(string \<times> string) list"

type_synonym handler_result = "(graph_error + graph_run \<times> graph_event list) \<times> graph_store"

definition save_result :: "string \<Rightarrow> (graph_run \<times> graph_event list) spawning \<Rightarrow> graph_store \<Rightarrow> handler_result" where
  "save_result rid res st =
     (let st1 = st\<lparr>gs_spawned := gs_spawned st @ map (Pair rid) (fst res)\<rparr>
      in case snd res of
           Inl e \<Rightarrow> (Inl e, st1)
         | Inr (r, evs) \<Rightarrow> (Inr (r, evs), st1\<lparr>gs_runs := dict_set (gr_id r) r (gs_runs st1)\<rparr>))"

definition start_run ::
  "int \<Rightarrow> (string \<Rightarrow> string option) \<Rightarrow> string list \<Rightarrow> string \<Rightarrow> string \<Rightarrow> string \<Rightarrow> string \<Rightarrow> string \<Rightarrow> (string, json) dict \<Rightarrow> graph_store \<Rightarrow> handler_result" where
  "start_run now spawn ids rid gid conversation tenant project ctx st =
     (case dict_get (gs_graphs st) gid of
        None \<Rightarrow> (Inl (GraphNotFound gid), st)
      | Some g \<Rightarrow>
          if ag_tenant_id g \<noteq> tenant \<or> ag_project_id g \<noteq> project then (Inl (GraphScopeMismatch (ag_id g)), st)
          else if \<not> ag_is_active g then (Inl (GraphInactive gid), st)
          else if validate_graph ids g \<noteq> [] then (Inl (InvalidGraph (validate_graph ids g)), st)
          else case graph_run_init rid (ag_id g) conversation tenant project (ag_max_total_steps g) ctx of
                 Inl e \<Rightarrow> (Inl e, st)
               | Inr r \<Rightarrow> save_result rid (launch now spawn g r) st)"

definition fetch_run :: "string \<Rightarrow> string \<Rightarrow> graph_store \<Rightarrow> graph_error + agent_graph \<times> graph_run" where
  "fetch_run gid rid st =
     (case dict_get (gs_graphs st) gid of
        None \<Rightarrow> Inl (GraphNotFound gid)
      | Some g \<Rightarrow>
          (case dict_get (gs_runs st) rid of
             None \<Rightarrow> Inl (RunNotFound rid)
           | Some r \<Rightarrow>
               if gr_graph_id r \<noteq> ag_id g then Inl (RunOfOtherGraph (gr_id r))
               else if ag_tenant_id g \<noteq> gr_tenant_id r \<or> ag_project_id g \<noteq> gr_project_id r then Inl (RunScopeMismatch (gr_id r))
               else Inr (g, r)))"

definition on_run :: "string \<Rightarrow> string \<Rightarrow> (agent_graph \<Rightarrow> graph_run \<Rightarrow> (graph_run \<times> graph_event list) spawning) \<Rightarrow> graph_store \<Rightarrow> handler_result" where
  "on_run gid rid f st =
     (case fetch_run gid rid st of
        Inl e \<Rightarrow> (Inl e, st)
      | Inr (g, r) \<Rightarrow> if gr_is_terminal r then (Inr (r, []), st) else save_result rid (f g r) st)"

definition on_node_completed ::
  "int \<Rightarrow> (string \<Rightarrow> string option) \<Rightarrow> string \<Rightarrow> string \<Rightarrow> string \<Rightarrow> (string, json) dict option \<Rightarrow> graph_store \<Rightarrow> handler_result" where
  "on_node_completed now spawn gid rid nid output = on_run gid rid (\<lambda>g. complete_node now spawn g nid output)"

definition on_node_failed :: "int \<Rightarrow> string \<Rightarrow> string \<Rightarrow> string \<Rightarrow> string \<Rightarrow> graph_store \<Rightarrow> handler_result" where
  "on_node_failed now gid rid nid message = on_run gid rid (\<lambda>g r. ([], fail_node now g nid message r))"

definition handoff_node ::
  "int \<Rightarrow> (string \<Rightarrow> string option) \<Rightarrow> string \<Rightarrow> string \<Rightarrow> string \<Rightarrow> string \<Rightarrow> string \<Rightarrow> graph_store \<Rightarrow> handler_result" where
  "handoff_node now spawn gid rid from_id to_id summary = on_run gid rid (\<lambda>g. handoff_to now spawn g from_id to_id summary)"

definition cancel_run :: "int \<Rightarrow> string \<Rightarrow> string \<Rightarrow> graph_store \<Rightarrow> handler_result" where
  "cancel_run now rid reason st =
     (case dict_get (gs_runs st) rid of
        None \<Rightarrow> (Inl (RunNotFound rid), st)
      | Some r \<Rightarrow>
          if gr_is_terminal r then (Inr (r, []), st)
          else save_result rid ([], Inr (gr_mark_cancelled now r, [GraphRunCancelled reason])) st)"

end
