(* ===== verification/GraphRunProps.thy ===== *)
theory GraphRunProps
  imports GraphOrchestrator
begin

text \<open>
  What holds of every run the orchestrator stores, whatever order the handlers are called in and whichever spawns
  fail: the steps are counted, nodes start after their predecessors, and final states are final.
\<close>

section \<open>The invariant of a run\<close>

definition started :: "graph_run \<Rightarrow> int" where
  "started r = int (length (filter (\<lambda>ne. ne_status ne \<noteq> NeSKIPPED) (dict_values (gr_node_executions r))))"

definition entry_id :: "agent_graph \<Rightarrow> string \<Rightarrow> bool" where
  "entry_id g k \<longleftrightarrow> k \<in> an_node_id ` set (entry_nodes g)"

definition may_start :: "agent_graph \<Rightarrow> graph_run \<Rightarrow> string \<Rightarrow> bool" where
  "may_start g r k \<longleftrightarrow> ag_pattern g = SWARM \<or> entry_id g k \<or> predecessors_done g r k"

definition run_core :: "agent_graph \<Rightarrow> graph_run \<Rightarrow> bool" where
  "run_core g r \<longleftrightarrow>
     wf_dict (gr_node_executions r) \<and>
     (\<forall>k ne. get_node_execution k r = Some ne \<longrightarrow>
        ne_node_id ne = k \<and> k \<in> ag_node_ids g \<and> ne_status ne \<noteq> NePENDING \<and> may_start g r k \<and>
        (gr_status r = GrRUNNING \<longrightarrow> ne_status ne \<in> {NeRUNNING, NeCOMPLETED, NeSKIPPED})) \<and>
     gr_total_steps r = started r \<and> gr_total_steps r \<le> gr_max_total_steps r \<and>
     (gr_status r = GrRUNNING \<longrightarrow> gr_total_steps r < gr_max_total_steps r) \<and> gr_status r \<noteq> GrPENDING"

lemma run_coreD:
  assumes "run_core g r"
  shows "wf_dict (gr_node_executions r)"
    "get_node_execution k r = Some ne \<Longrightarrow> ne_node_id ne = k" "get_node_execution k r = Some ne \<Longrightarrow> k \<in> ag_node_ids g"
    "get_node_execution k r = Some ne \<Longrightarrow> ne_status ne \<noteq> NePENDING" "get_node_execution k r = Some ne \<Longrightarrow> may_start g r k"
    "get_node_execution k r = Some ne \<Longrightarrow> gr_status r = GrRUNNING \<Longrightarrow> ne_status ne \<in> {NeRUNNING, NeCOMPLETED, NeSKIPPED}"
    "gr_total_steps r = started r" "gr_total_steps r \<le> gr_max_total_steps r"
    "gr_status r = GrRUNNING \<Longrightarrow> gr_total_steps r < gr_max_total_steps r" "gr_status r \<noteq> GrPENDING"
  using assms unfolding run_core_def by blast+

text \<open>Completed nodes stay completed.\<close>

definition keeps_completed :: "graph_run \<Rightarrow> graph_run \<Rightarrow> bool" where
  "keeps_completed r r' \<longleftrightarrow> (\<forall>k. node_completed r k \<longrightarrow> node_completed r' k)"

lemma may_start_mono: "keeps_completed r r' \<Longrightarrow> may_start g r k \<Longrightarrow> may_start g r' k"
  unfolding may_start_def predecessors_done_def keeps_completed_def by (auto simp: list_all_iff)

lemma keeps_completed_trans: "keeps_completed a b \<Longrightarrow> keeps_completed b c \<Longrightarrow> keeps_completed a c"
  by (auto simp: keeps_completed_def)

section \<open>Starting and skipping nodes\<close>

definition same_run :: "graph_run \<Rightarrow> graph_run \<Rightarrow> bool" where
  "same_run r r' \<longleftrightarrow> gr_id r' = gr_id r \<and> gr_graph_id r' = gr_graph_id r \<and> gr_max_total_steps r' = gr_max_total_steps r \<and>
     gr_tenant_id r' = gr_tenant_id r \<and> gr_project_id r' = gr_project_id r"

definition scheduled :: "agent_graph \<Rightarrow> graph_run \<Rightarrow> string \<Rightarrow> node_execution_status \<Rightarrow> graph_run \<Rightarrow> bool" where
  "scheduled g r nid st r' \<longleftrightarrow> same_run r r' \<and> nid \<in> ag_node_ids g \<and> get_node_execution nid r = None \<and>
     (\<exists>ne. ne_node_id ne = nid \<and> ne_status ne = st \<and> gr_node_executions r' = gr_node_executions r @ [(nid, ne)]) \<and>
     (st = NeSKIPPED \<and> gr_total_steps r' = gr_total_steps r \<and> gr_status r' = gr_status r \<or>
      st = NeRUNNING \<and> gr_total_steps r' = gr_total_steps r + 1 \<and>
        (if gr_max_total_steps r \<le> gr_total_steps r + 1 then gr_status r = GrRUNNING \<and> gr_status r' = GrFAILED else gr_status r' = gr_status r))"

lemma get_node_id: "get_node g nid = Some node \<Longrightarrow> an_node_id node = nid \<and> nid \<in> ag_node_ids g"
  using find_member [of _ "ag_nodes g" node] by (force simp: get_node_def ag_node_ids_def)

lemma get_node_known: "nid \<in> ag_node_ids g \<Longrightarrow> get_node g nid \<noteq> None"
  by (auto simp: get_node_def ag_node_ids_def find_None_iff)

lemma add_fresh: "get_node_execution nid r = None \<Longrightarrow> dict_set nid ne (gr_node_executions r) = gr_node_executions r @ [(nid, ne)]"
  by (simp add: get_node_execution_def dict_get_None_iff dict_set_fresh del: set_map)

lemma start_execution_scheduled:
  assumes "start_execution now session ne r = Inr r'" and "ne_status ne = NePENDING" and "ne_node_id ne \<in> ag_node_ids g"
  shows "scheduled g r (ne_node_id ne) NeRUNNING r'"
proof -
  let ?ne = "ne\<lparr>ne_status := NeRUNNING, ne_agent_session_id := Some session, ne_started_at := Some now\<rparr>"
  let ?r1 = "r\<lparr>gr_node_executions := dict_set (ne_node_id ne) ?ne (gr_node_executions r)\<rparr>"
  have fresh: "get_node_execution (ne_node_id ne) r = None" and inc: "increment_step now ?r1 = Inr r'"
    using assms(1,2) by (auto simp: start_execution_def ne_mark_running_def add_node_execution_def get_node_execution_def split: if_splits)
  have "same_run r r'" "gr_total_steps r' = gr_total_steps r + 1" "gr_node_executions r' = gr_node_executions ?r1"
    "if gr_max_total_steps r \<le> gr_total_steps r + 1 then gr_status r = GrRUNNING \<and> gr_status r' = GrFAILED else gr_status r' = gr_status r"
    using inc by (auto simp: increment_step_def gr_mark_failed_def same_run_def Let_def split: if_splits)
  moreover have "ne_node_id ?ne = ne_node_id ne" "ne_status ?ne = NeRUNNING" by simp_all
  ultimately show ?thesis using fresh assms(3) add_fresh [OF fresh, of ?ne] unfolding scheduled_def by auto
qed

lemma skip_execution_scheduled:
  assumes "skip_execution now ne r = Inr r'" and "ne_status ne = NePENDING" and "ne_node_id ne \<in> ag_node_ids g"
  shows "scheduled g r (ne_node_id ne) NeSKIPPED r'"
proof -
  let ?ne = "ne\<lparr>ne_status := NeSKIPPED, ne_completed_at := Some now\<rparr>"
  have fresh: "get_node_execution (ne_node_id ne) r = None" and r': "r' = r\<lparr>gr_node_executions := dict_set (ne_node_id ne) ?ne (gr_node_executions r)\<rparr>"
    using assms(1,2) by (auto simp: skip_execution_def ne_mark_skipped_def add_node_execution_def get_node_execution_def split: if_splits)
  then show ?thesis using add_fresh [OF fresh, of ?ne] assms(3) unfolding scheduled_def same_run_def by auto
qed

lemma schedule_node_result:
  assumes "schedule_node raises now spawn g r nid = (sp, Inr (r', evs))"
  shows "get_node g nid = None \<and> r' = r \<or> spawn nid \<noteq> None \<and> scheduled g r nid NeRUNNING r' \<or> \<not> raises \<and> spawn nid = None \<and> scheduled g r nid NeSKIPPED r'"
proof (cases "get_node g nid")
  case (Some node)
  note id = get_node_id [OF Some]
  obtain ne where ne: "node_execution_init (gr_id r) (an_node_id node) (gr_shared_context r) = Inr ne"
    using assms Some by (auto simp: schedule_node_def split: sum.splits)
  then have "ne_status ne = NePENDING" "ne_node_id ne = nid" using id by (auto simp: node_execution_init_def split: if_splits)
  then show ?thesis
    using assms Some ne id start_execution_scheduled [of now _ ne r r' g] skip_execution_scheduled [of now ne r r' g]
    by (auto simp: schedule_node_def with_event_def split: option.splits sum.splits if_splits)
qed (use assms in \<open>simp add: schedule_node_def\<close>)

lemma scheduled_get:
  assumes "scheduled g r nid st r'"
  shows "\<exists>ne. ne_node_id ne = nid \<and> ne_status ne = st \<and> gr_node_executions r' = gr_node_executions r @ [(nid, ne)] \<and>
    (\<forall>k. get_node_execution k r' = (if k = nid then Some ne else get_node_execution k r))"
proof -
  obtain ne where ne: "ne_node_id ne = nid" "ne_status ne = st" "gr_node_executions r' = gr_node_executions r @ [(nid, ne)]"
    and fresh: "get_node_execution nid r = None"
    using assms unfolding scheduled_def by blast
  then have "get_node_execution k r' = (if k = nid then Some ne else get_node_execution k r)" for k
    by (auto simp: get_node_execution_def map_of_append map_add_def split: option.splits)
  with ne show ?thesis by blast
qed

definition extends :: "graph_run \<Rightarrow> graph_run \<Rightarrow> bool" where
  "extends r r' \<longleftrightarrow> same_run r r' \<and> (\<forall>k. node_completed r' k = node_completed r k) \<and>
     (\<forall>k ne. get_node_execution k r = Some ne \<longrightarrow> get_node_execution k r' = Some ne)"

lemma extends_refl [simp]: "extends r r"
  by (simp add: extends_def same_run_def)

lemma extends_trans: "extends a b \<Longrightarrow> extends b c \<Longrightarrow> extends a c"
  by (auto simp: extends_def same_run_def)

lemma extends_keeps: "extends r r' \<Longrightarrow> keeps_completed r r'"
  by (simp add: extends_def keeps_completed_def)

lemma scheduled_extends:
  assumes "scheduled g r nid st r'"
  shows "extends r r'"
proof -
  have fresh: "get_node_execution nid r = None" and st: "st \<noteq> NeCOMPLETED" and same: "same_run r r'"
    using assms by (auto simp: scheduled_def)
  obtain ne where ne: "ne_status ne = st" and get: "\<And>k. get_node_execution k r' = (if k = nid then Some ne else get_node_execution k r)"
    using scheduled_get [OF assms] by metis
  have "node_completed r' k = node_completed r k" for k
    using fresh st ne by (cases "k = nid") (simp_all add: node_completed_def get)
  then show ?thesis using same fresh by (auto simp: extends_def get)
qed

lemmas scheduled_keeps = scheduled_extends [THEN extends_keeps]

lemma scheduled_running:
  assumes "scheduled g r nid st r'"
  shows "running_node_ids r' = running_node_ids r @ (if st = NeRUNNING then [nid] else [])"
  using scheduled_get [OF assms] by (auto simp: running_node_ids_def ids_with_status_def)

lemma scheduled_core:
  assumes "run_core g r" and "scheduled g r nid st r'" and "may_start g r nid"
  shows "run_core g r'"
proof -
  obtain ne where ne: "ne_node_id ne = nid" "ne_status ne = st" and fresh: "gr_node_executions r' = gr_node_executions r @ [(nid, ne)]"
    and get: "\<And>k. get_node_execution k r' = (if k = nid then Some ne else get_node_execution k r)"
    using scheduled_get [OF assms(2)] by metis
  note s = assms(2) [unfolded scheduled_def same_run_def]
  note d = run_coreD [OF assms(1)]
  have "gr_node_executions r' = dict_set nid ne (gr_node_executions r)" using fresh add_fresh s by simp
  then have wf: "wf_dict (gr_node_executions r')" using d(1) by simp
  have st: "st = NeRUNNING \<or> st = NeSKIPPED" using s by auto
  have status: "gr_status r' = GrRUNNING \<Longrightarrow> gr_status r = GrRUNNING" using s by (auto split: if_splits)
  have each: "ne_node_id x = k \<and> k \<in> ag_node_ids g \<and> ne_status x \<noteq> NePENDING \<and> may_start g r' k \<and>
      (gr_status r' = GrRUNNING \<longrightarrow> ne_status x \<in> {NeRUNNING, NeCOMPLETED, NeSKIPPED})" if "get_node_execution k r' = Some x" for k x
  proof (cases "k = nid")
    case True
    then show ?thesis using that get [of nid] ne st s may_start_mono [OF scheduled_keeps [OF assms(2)] assms(3)] by auto
  next
    case False
    then have old: "get_node_execution k r = Some x" using that get by simp
    show ?thesis using d(2-5) [OF old] d(6) [OF old] status may_start_mono [OF scheduled_keeps [OF assms(2)] d(5) [OF old]] by blast
  qed
  have steps: "gr_total_steps r' = started r'" "gr_total_steps r' \<le> gr_max_total_steps r'"
    "gr_status r' = GrRUNNING \<Longrightarrow> gr_total_steps r' < gr_max_total_steps r'" "gr_status r' \<noteq> GrPENDING"
    using s d(7-10) ne(2) by (auto simp: started_def fresh split: if_splits)
  show ?thesis unfolding run_core_def using wf each steps by blast
qed

section \<open>Scheduling a list of nodes\<close>

lemma each_node_core:
  assumes "run_core g r" and "each_node (schedule_node raises now spawn g) r nids = (sp, Inr (r', evs))"
    and "\<And>nid. nid \<in> set nids \<Longrightarrow> may_start g r nid"
  shows "run_core g r' \<and> extends r r' \<and> length (running_node_ids r') \<le> length (running_node_ids r) + length nids \<and>
    (\<forall>nid \<in> set nids. nid \<in> ag_node_ids g \<longrightarrow> spawn nid \<noteq> None \<longrightarrow> nid \<in> set (running_node_ids r')) \<and>
    set (running_node_ids r) \<subseteq> set (running_node_ids r')"
  using assms
proof (induction nids arbitrary: r sp evs)
  case (Cons nid nids)
  obtain sp1 r1 ev1 sp2 ev2 where one: "schedule_node raises now spawn g r nid = (sp1, Inr (r1, ev1))"
    and rest: "each_node (schedule_node raises now spawn g) r1 nids = (sp2, Inr (r', ev2))"
    using Cons.prems(2) by (auto split: prod.splits sum.splits)
  have step: "run_core g r1 \<and> extends r r1 \<and> length (running_node_ids r1) \<le> Suc (length (running_node_ids r)) \<and>
      (nid \<in> ag_node_ids g \<longrightarrow> spawn nid \<noteq> None \<longrightarrow> nid \<in> set (running_node_ids r1)) \<and> set (running_node_ids r) \<subseteq> set (running_node_ids r1)"
    using schedule_node_result [OF one]
  proof (elim disjE conjE)
    assume "get_node g nid = None" "r1 = r"
    then show ?thesis using Cons.prems(1) get_node_known [of nid g] by auto
  next
    assume "scheduled g r nid NeRUNNING r1"
    then show ?thesis using scheduled_core [OF Cons.prems(1)] scheduled_extends scheduled_running Cons.prems(3) by fastforce
  next
    assume "spawn nid = None" "scheduled g r nid NeSKIPPED r1"
    then show ?thesis using scheduled_core [OF Cons.prems(1)] scheduled_extends scheduled_running Cons.prems(3) by fastforce
  qed
  moreover have "may_start g r1 k" if "k \<in> set nids" for k
    using may_start_mono [OF extends_keeps] step Cons.prems(3) that by auto
  ultimately show ?case using Cons.IH [OF _ rest] extends_trans [of r r1 r'] by fastforce
qed simp

section \<open>Changing executions in place\<close>

lemma started_card:
  assumes "wf_dict (gr_node_executions r)"
  shows "started r = int (card {k. \<exists>ne. get_node_execution k r = Some ne \<and> ne_status ne \<noteq> NeSKIPPED})"
proof -
  let ?ps = "filter (\<lambda>p. ne_status (snd p) \<noteq> NeSKIPPED) (gr_node_executions r)"
  have "length (filter (\<lambda>ne. ne_status ne \<noteq> NeSKIPPED) (dict_values (gr_node_executions r))) = length (map fst ?ps)"
    by (simp add: filter_map comp_def)
  also have "\<dots> = card (set (map fst ?ps))" using assms by (simp only: wf_dict_def distinct_map_filter distinct_card)
  also have "set (map fst ?ps) = {k. \<exists>ne. get_node_execution k r = Some ne \<and> ne_status ne \<noteq> NeSKIPPED}"
    using dict_get_iff_mem [OF assms] by (force simp: get_node_execution_def)
  finally show ?thesis by (simp add: started_def)
qed

definition revised :: "graph_run \<Rightarrow> graph_run \<Rightarrow> bool" where
  "revised r r' \<longleftrightarrow> wf_dict (gr_node_executions r') \<and> same_run r r' \<and> gr_total_steps r' = gr_total_steps r \<and> gr_status r' \<noteq> GrPENDING \<and>
     (gr_status r' = GrRUNNING \<longrightarrow> gr_status r = GrRUNNING) \<and> keeps_completed r r' \<and>
     (\<forall>k. rel_option (\<lambda>ne ne'. ne_node_id ne' = ne_node_id ne \<and> ne_status ne' \<noteq> NePENDING \<and> (ne_status ne' = NeSKIPPED \<longleftrightarrow> ne_status ne = NeSKIPPED) \<and>
        (gr_status r' = GrRUNNING \<longrightarrow> ne_status ne' \<in> {NeRUNNING, NeCOMPLETED, NeSKIPPED})) (get_node_execution k r) (get_node_execution k r'))"

lemma revised_core:
  assumes "run_core g r" and "revised r r'"
  shows "run_core g r'"
proof -
  note d = run_coreD [OF assms(1)]
  note v = assms(2) [unfolded revised_def same_run_def]
  have rel: "rel_option (\<lambda>ne ne'. ne_node_id ne' = ne_node_id ne \<and> ne_status ne' \<noteq> NePENDING \<and> (ne_status ne' = NeSKIPPED \<longleftrightarrow> ne_status ne = NeSKIPPED) \<and>
        (gr_status r' = GrRUNNING \<longrightarrow> ne_status ne' \<in> {NeRUNNING, NeCOMPLETED, NeSKIPPED})) (get_node_execution k r) (get_node_execution k r')" for k
    using v by blast
  have "(\<exists>ne. get_node_execution k r' = Some ne \<and> ne_status ne \<noteq> NeSKIPPED) \<longleftrightarrow> (\<exists>ne. get_node_execution k r = Some ne \<and> ne_status ne \<noteq> NeSKIPPED)" for k
    using rel [of k] by (cases "get_node_execution k r"; cases "get_node_execution k r'") auto
  then have "started r' = started r" using started_card v d(1) by simp
  moreover have "ne_node_id x = k \<and> k \<in> ag_node_ids g \<and> ne_status x \<noteq> NePENDING \<and> may_start g r' k \<and>
      (gr_status r' = GrRUNNING \<longrightarrow> ne_status x \<in> {NeRUNNING, NeCOMPLETED, NeSKIPPED})" if x: "get_node_execution k r' = Some x" for k x
  proof -
    obtain ne where ne: "get_node_execution k r = Some ne" using rel [of k] x by (cases "get_node_execution k r") auto
    have "may_start g r' k" using may_start_mono [OF _ d(5) [OF ne]] v by blast
    then show ?thesis using rel [of k] x ne d(2,3) [OF ne] by auto
  qed
  ultimately show ?thesis unfolding run_core_def using v d(7-10) by auto
qed

lemma put_revised:
  assumes "run_core g r" and "get_node_execution nid r = Some ne" and "ne_node_id ne' = ne_node_id ne" and "ne_status ne = NeRUNNING"
    and "ne_status ne' = NeCOMPLETED \<or> ne_status ne' = NeFAILED \<and> gr_status r' \<noteq> GrRUNNING"
    and "gr_node_executions r' = gr_node_executions (put_node_execution ne' r)" and "same_run r r'" and "gr_total_steps r' = gr_total_steps r"
    and "gr_status r' = GrRUNNING \<longrightarrow> gr_status r = GrRUNNING" and "gr_status r' \<noteq> GrPENDING"
  shows "revised r r'"
proof -
  note d = run_coreD [OF assms(1)]
  have get: "get_node_execution k r' = (if k = nid then Some ne' else get_node_execution k r)" for k
    using assms(3,6) d(2) [OF assms(2)] by (simp add: get_node_execution_def put_node_execution_def dict_get_set)
  have "rel_option (\<lambda>ne ne'. ne_node_id ne' = ne_node_id ne \<and> ne_status ne' \<noteq> NePENDING \<and> (ne_status ne' = NeSKIPPED \<longleftrightarrow> ne_status ne = NeSKIPPED) \<and>
        (gr_status r' = GrRUNNING \<longrightarrow> ne_status ne' \<in> {NeRUNNING, NeCOMPLETED, NeSKIPPED})) (get_node_execution k r) (get_node_execution k r')" for k
  proof (cases "k = nid")
    case True
    then show ?thesis using assms(2-5) get by auto
  next
    case False
    then show ?thesis using d(4,6) [of k] assms(9) by (cases "get_node_execution k r") (auto simp: get)
  qed
  moreover have "keeps_completed r r'" using assms(2,4) by (auto simp: keeps_completed_def node_completed_def get split: option.splits)
  moreover have "wf_dict (gr_node_executions r')" using d(1) assms(6) by (simp add: put_node_execution_def)
  ultimately show ?thesis unfolding revised_def using assms(7-10) by blast
qed

section \<open>The handlers\<close>

lemma execs_cong:
  assumes "gr_node_executions r' = gr_node_executions r"
  shows "get_node_execution k r' = get_node_execution k r" "node_completed r' k = node_completed r k" "running_node_ids r' = running_node_ids r"
    "should_complete_run p g r' = should_complete_run p g r" "may_start g r' k = may_start g r k" "started r' = started r"
proof -
  show get: "get_node_execution k r' = get_node_execution k r" for k using assms by (simp add: get_node_execution_def)
  show fin: "node_completed r' k = node_completed r k" for k by (simp add: node_completed_def get)
  show running: "running_node_ids r' = running_node_ids r" using assms by (simp add: running_node_ids_def ids_with_status_def)
  show "should_complete_run p g r' = should_complete_run p g r"
    using assms by (cases p) (simp_all add: terminals_completed_def swarm_complete_def fin running)
  show "may_start g r' k = may_start g r k" "started r' = started r" using assms by (simp_all add: may_start_def predecessors_done_def fin started_def)
qed

lemma extends_same: "extends r r' \<Longrightarrow> same_run r r'"
  by (simp add: extends_def)

lemma same_run_trans: "same_run a b \<Longrightarrow> same_run b c \<Longrightarrow> same_run a c"
  by (simp add: same_run_def)

lemma active_running: "run_core g r \<Longrightarrow> \<not> gr_is_terminal r \<Longrightarrow> gr_status r = GrRUNNING"
  by (cases "gr_status r") (auto simp: run_core_def gr_is_terminal_def gr_status_terminal_def)

lemma launch_core:
  assumes "graph_run_init rid (ag_id g) conversation tenant project max_steps ctx = Inr r" and "launch now spawn g r = (sp, Inr (r', evs))"
  shows "run_core g r' \<and> same_run r r' \<and> length (running_node_ids r') \<le> length (next_node_ids (ag_pattern g) g r)"
proof -
  let ?entries = "next_node_ids (ag_pattern g) g r"
  let ?r1 = "r\<lparr>gr_status := GrRUNNING, gr_current_node_ids := ?entries, gr_started_at := Some now\<rparr>"
  have r: "gr_node_executions r = []" "gr_total_steps r = 0" "1 \<le> gr_max_total_steps r" "gr_status r = GrPENDING"
    using assms(1) by (auto simp: graph_run_init_def split: if_splits)
  obtain sp1 evs1 where each: "each_node (schedule_node True now spawn g) ?r1 ?entries = (sp1, Inr (r', evs1))"
    using assms(2) r by (auto simp: launch_def Let_def gr_mark_running_def split: if_splits prod.splits sum.splits)
  have core: "run_core g ?r1" using r by (auto simp: run_core_def get_node_execution_def started_def)
  have "may_start g ?r1 nid" if "nid \<in> set ?entries" for nid
    using first_proposed [OF r(1), of g] that by (auto simp: may_start_def entry_id_def)
  note e = each_node_core [OF core each this]
  have "running_node_ids ?r1 = []" using r by (simp add: running_node_ids_def ids_with_status_def)
  moreover have "same_run r ?r1" by (simp add: same_run_def)
  ultimately show ?thesis using e extends_same same_run_trans by fastforce
qed

lemma put_running:
  assumes "wf_dict (gr_node_executions r)" and "ne_status ne \<noteq> NeRUNNING"
  shows "length (running_node_ids (put_node_execution ne r)) \<le> length (running_node_ids r)"
    "set (running_node_ids (put_node_execution ne r)) = set (running_node_ids r) - {ne_node_id ne}"
proof -
  let ?r = "put_node_execution ne r"
  have wf: "wf_dict (gr_node_executions ?r)" using assms(1) by (simp add: put_node_execution_def)
  show set: "set (running_node_ids ?r) = set (running_node_ids r) - {ne_node_id ne}"
    using ids_with_status_iff [OF wf] ids_with_status_iff [OF assms(1)] assms(2)
    by (auto simp: running_node_ids_def put_node_execution_def get_node_execution_def dict_get_set split: if_splits)
  have dist: "distinct (running_node_ids q)" if "wf_dict (gr_node_executions q)" for q
    using that by (simp add: running_node_ids_def ids_with_status_def wf_dict_def distinct_map_filter)
  have "card (set (running_node_ids ?r)) \<le> card (set (running_node_ids r))" unfolding set by (simp add: card_Diff1_le)
  then show "length (running_node_ids ?r) \<le> length (running_node_ids r)" using dist [OF wf] dist [OF assms(1)] distinct_card by metis
qed

lemma complete_node_result:
  assumes "run_core g r" and "gr_status r = GrRUNNING" and "complete_node now spawn g nid output r = (sp, Inr (r', evs))"
  obtains r2 where "revised r r2" "gr_status r2 = GrRUNNING" "\<And>k. node_completed r2 k \<longleftrightarrow> k = nid \<or> node_completed r k"
    "length (running_node_ids r2) \<le> length (running_node_ids r)" "set (running_node_ids r2) = set (running_node_ids r) - {nid}"
    "nid \<in> set (running_node_ids r)"
    "should_complete_run (ag_pattern g) g r2 \<and> gr_mark_completed now r2 = Inr r' \<or>
     \<not> should_complete_run (ag_pattern g) g r2 \<and> (\<exists>sp evs. each_node (schedule_node False now spawn g) r2 (next_node_ids (ag_pattern g) g r2) = (sp, Inr (r', evs)))"
proof -
  obtain ne ne' where ne: "get_node_execution nid r = Some ne" "ne_mark_completed now output ne = Inr ne'"
    using assms(3) by (auto simp: complete_node_def split: option.splits sum.splits)
  then have st: "ne_status ne = NeRUNNING" "ne_status ne' = NeCOMPLETED" "ne_node_id ne' = ne_node_id ne"
    by (auto simp: ne_mark_completed_def split: if_splits)
  have id: "ne_node_id ne = nid" using run_coreD(2) [OF assms(1) ne(1)] .
  define r2 where "r2 = (case output of None \<Rightarrow> put_node_execution ne' r
    | Some c \<Rightarrow> if c = [] then put_node_execution ne' r else update_shared_context c (put_node_execution ne' r))"
  have f: "gr_node_executions r2 = gr_node_executions (put_node_execution ne' r)" "same_run r r2" "gr_total_steps r2 = gr_total_steps r" "gr_status r2 = GrRUNNING"
    using assms(2) by (simp_all add: r2_def put_node_execution_def update_shared_context_def same_run_def split: option.split)
  have "revised r r2" by (rule put_revised [OF assms(1) ne(1) st(3,1) _ f(1-3)]) (use st(2) f(4) assms(2) in auto)
  moreover have "node_completed r2 k \<longleftrightarrow> k = nid \<or> node_completed r k" for k
    using st(2,3) id f(1) by (simp add: node_completed_def get_node_execution_def put_node_execution_def dict_get_set)
  moreover have "running_node_ids r2 = running_node_ids (put_node_execution ne' r)" using f(1) by (simp add: running_node_ids_def ids_with_status_def)
  moreover have "nid \<in> set (running_node_ids r)"
    using ids_with_status_iff [OF run_coreD(1) [OF assms(1)]] ne(1) st(1) by (auto simp: running_node_ids_def)
  moreover have "should_complete_run (ag_pattern g) g r2 \<and> gr_mark_completed now r2 = Inr r' \<or>
     \<not> should_complete_run (ag_pattern g) g r2 \<and> (\<exists>sp evs. each_node (schedule_node False now spawn g) r2 (next_node_ids (ag_pattern g) g r2) = (sp, Inr (r', evs)))"
    using assms(3) ne unfolding complete_node_def r2_def [symmetric]
    by (simp add: Let_def r2_def [symmetric] split: if_splits prod.splits sum.splits)
  ultimately show thesis using that [of r2] f(4) put_running [OF run_coreD(1) [OF assms(1)], of ne'] st(2,3) id by simp
qed

section \<open>The invariant of stored runs\<close>

definition serial :: "agent_graph \<Rightarrow> bool" where
  "serial g \<longleftrightarrow> ag_pattern g = PIPELINE \<or> ag_pattern g \<in> {SUPERVISOR, HIERARCHICAL} \<and> length (entry_nodes g) \<le> 1"

definition graph_run_ok :: "agent_graph \<Rightarrow> graph_run \<Rightarrow> bool" where
  "graph_run_ok g r \<longleftrightarrow> run_core g r \<and> (serial g \<longrightarrow> length (running_node_ids r) \<le> 1) \<and>
     (gr_status r = GrCOMPLETED \<longrightarrow> should_complete_run (ag_pattern g) g r)"

lemma serial_next:
  assumes "serial g"
  shows "length (next_node_ids (ag_pattern g) g r) \<le> 1" "next_node_ids (ag_pattern g) g r \<noteq> [] \<Longrightarrow> running_node_ids r = []"
  using assms by (auto simp: serial_def supervisor_next_def pipeline_next_def split: if_splits option.splits)

lemma each_node_status:
  "each_node (schedule_node raises now spawn g) r nids = (sp, Inr (r', evs)) \<Longrightarrow> gr_status r \<noteq> GrCOMPLETED \<Longrightarrow> gr_status r' \<noteq> GrCOMPLETED"
proof (induction nids arbitrary: r sp evs)
  case (Cons nid nids)
  obtain sp1 r1 ev1 sp2 ev2 where one: "schedule_node raises now spawn g r nid = (sp1, Inr (r1, ev1))"
    and rest: "each_node (schedule_node raises now spawn g) r1 nids = (sp2, Inr (r', ev2))"
    using Cons.prems(1) by (auto split: prod.splits sum.splits)
  have "gr_status r1 \<noteq> GrCOMPLETED" using schedule_node_result [OF one] Cons.prems(2) by (auto simp: scheduled_def split: if_splits)
  then show ?case using Cons.IH [OF rest] by simp
qed simp

lemma launch_ok:
  assumes "graph_run_init rid (ag_id g) conversation tenant project max_steps ctx = Inr r" and "launch now spawn g r = (sp, Inr (r', evs))"
  shows "graph_run_ok g r' \<and> same_run r r'"
proof -
  have "gr_status r = GrPENDING" using assms(1) by (auto simp: graph_run_init_def split: if_splits)
  then have "gr_status r' \<noteq> GrCOMPLETED"
    using assms(2) by (auto simp: launch_def Let_def gr_mark_running_def split: if_splits prod.splits sum.splits dest!: each_node_status)
  then show ?thesis using launch_core [OF assms] serial_next(1) [of g r] by (auto simp: graph_run_ok_def)
qed

lemma complete_ok:
  assumes "graph_run_ok g r" and "gr_status r = GrRUNNING" and "complete_node now spawn g nid output r = (sp, Inr (r', evs))"
  shows "graph_run_ok g r' \<and> same_run r r' \<and> keeps_completed r r'"
proof -
  have core: "run_core g r" and ser: "serial g \<longrightarrow> length (running_node_ids r) \<le> 1" using assms(1) by (simp_all add: graph_run_ok_def)
  obtain r2 where r2: "revised r r2" "gr_status r2 = GrRUNNING" "length (running_node_ids r2) \<le> length (running_node_ids r)" and nid: "node_completed r2 nid"
    and out: "should_complete_run (ag_pattern g) g r2 \<and> gr_mark_completed now r2 = Inr r' \<or>
     \<not> should_complete_run (ag_pattern g) g r2 \<and> (\<exists>sp evs. each_node (schedule_node False now spawn g) r2 (next_node_ids (ag_pattern g) g r2) = (sp, Inr (r', evs)))"
    using complete_node_result [OF core assms(2,3)] by metis
  have core2: "run_core g r2" by (rule revised_core [OF core r2(1)])
  have base: "same_run r r2" "keeps_completed r r2" using r2(1) by (simp_all add: revised_def)
  from out show ?thesis
  proof (elim disjE conjE exE)
    assume fin: "should_complete_run (ag_pattern g) g r2" and "gr_mark_completed now r2 = Inr r'"
    then have r': "r' = r2\<lparr>gr_status := GrCOMPLETED, gr_current_node_ids := [], gr_completed_at := Some now\<rparr>"
      by (simp add: gr_mark_completed_def r2(2))
    have "gr_node_executions r' = gr_node_executions r2" by (simp add: r')
    note same = execs_cong [OF this]
    have "should_complete_run (ag_pattern g) g r'" using fin by (simp add: same)
    moreover have "run_core g r'" using core2 unfolding run_core_def same by (auto simp: r')
    moreover have "same_run r r'" using base(1) by (simp add: same_run_def r')
    moreover have "keeps_completed r r'" using base(2) by (simp add: keeps_completed_def same)
    moreover have "serial g \<longrightarrow> length (running_node_ids r') \<le> 1" using ser r2(3) by (auto simp: same)
    ultimately show ?thesis by (simp add: graph_run_ok_def)
  next
    fix sp' evs'
    assume each: "each_node (schedule_node False now spawn g) r2 (next_node_ids (ag_pattern g) g r2) = (sp', Inr (r', evs'))"
    have execs: "gr_node_executions r2 \<noteq> []" using nid by (auto simp: node_completed_def get_node_execution_def)
    have "may_start g r2 k" if "k \<in> set (next_node_ids (ag_pattern g) g r2)" for k
      using later_proposed [OF execs that] by (simp add: may_start_def)
    note e = each_node_core [OF core2 each this]
    have "length (running_node_ids r') \<le> 1" if "serial g"
      using e serial_next [OF that, of r2] ser r2(3) that by (cases "next_node_ids (ag_pattern g) g r2 = []") auto
    moreover have "gr_status r' \<noteq> GrCOMPLETED" by (rule each_node_status [OF each]) (simp add: r2(2))
    ultimately show ?thesis using e base extends_same extends_keeps same_run_trans keeps_completed_trans by (auto simp: graph_run_ok_def)
  qed
qed

lemma fail_ok:
  assumes "graph_run_ok g r" and "gr_status r = GrRUNNING" and "fail_node now g nid message r = Inr (r', evs)"
  shows "graph_run_ok g r' \<and> same_run r r' \<and> keeps_completed r r'"
proof -
  have core: "run_core g r" using assms(1) by (simp add: graph_run_ok_def)
  obtain ne where ne: "get_node_execution nid r = Some ne" "ne_status ne = NeRUNNING"
    using assms(3) by (auto simp: fail_node_def ne_mark_failed_def split: option.splits if_splits)
  let ?ne = "ne\<lparr>ne_status := NeFAILED, ne_error_message := Some message, ne_completed_at := Some now\<rparr>"
  have f: "gr_node_executions r' = gr_node_executions (put_node_execution ?ne r)" "same_run r r'" "gr_total_steps r' = gr_total_steps r" "gr_status r' = GrFAILED"
    using assms(2,3) ne by (auto simp: fail_node_def ne_mark_failed_def gr_mark_failed_def put_node_execution_def same_run_def split: if_splits)
  have rev: "revised r r'" by (rule put_revised [OF core ne(1) _ ne(2) _ f(1-3)]) (simp_all add: f(4))
  have "running_node_ids r' = running_node_ids (put_node_execution ?ne r)" by (rule execs_cong(3) [OF f(1)])
  then have "length (running_node_ids r') \<le> length (running_node_ids r)" using put_running(1) [OF run_coreD(1) [OF core], of ?ne] by simp
  then show ?thesis using rev revised_core [OF core rev] assms(1) f(2,4) by (auto simp: graph_run_ok_def revised_def)
qed

lemma cancel_ok:
  assumes "graph_run_ok g r" and "gr_status r = GrRUNNING"
  shows "graph_run_ok g (gr_mark_cancelled now r) \<and> same_run r (gr_mark_cancelled now r) \<and> keeps_completed r (gr_mark_cancelled now r)"
    "list_all (\<lambda>ne. ne_status_terminal (ne_status ne)) (dict_values (gr_node_executions (gr_mark_cancelled now r)))"
proof -
  let ?r = "gr_mark_cancelled now r" and ?c = "ne_mark_cancelled now"
  have core: "run_core g r" using assms(1) by (simp add: graph_run_ok_def)
  have r': "?r = r\<lparr>gr_status := GrCANCELLED, gr_current_node_ids := [], gr_completed_at := Some now,
      gr_node_executions := map (\<lambda>(k, ne). (k, ?c ne)) (gr_node_executions r)\<rparr>"
    using assms(2) by (simp add: gr_mark_cancelled_def gr_status_terminal_def)
  have get: "get_node_execution k ?r = map_option ?c (get_node_execution k r)" for k
    by (simp add: r' get_node_execution_def map_of_map)
  have c: "ne_node_id (?c ne) = ne_node_id ne" "ne_status (?c ne) = (if ne_status_terminal (ne_status ne) then ne_status ne else NeCANCELLED)" for ne
    by (simp_all add: ne_mark_cancelled_def)
  have keeps: "keeps_completed r ?r"
    by (auto simp: keeps_completed_def node_completed_def get c ne_status_terminal_def split: option.splits)
  have "rel_option (\<lambda>ne ne'. ne_node_id ne' = ne_node_id ne \<and> ne_status ne' \<noteq> NePENDING \<and> (ne_status ne' = NeSKIPPED \<longleftrightarrow> ne_status ne = NeSKIPPED) \<and>
        (gr_status ?r = GrRUNNING \<longrightarrow> ne_status ne' \<in> {NeRUNNING, NeCOMPLETED, NeSKIPPED})) (get_node_execution k r) (get_node_execution k ?r)" for k
    unfolding get by (cases "get_node_execution k r") (auto simp: c r' ne_status_terminal_def)
  moreover have "wf_dict (gr_node_executions ?r)" using run_coreD(1) [OF core] by (simp add: r' wf_dict_def comp_def case_prod_beta)
  ultimately have rev: "revised r ?r" using keeps by (simp add: revised_def same_run_def r')
  have "running_node_ids ?r = []"
    by (auto simp: running_node_ids_def ids_with_status_def r' filter_empty_conv c ne_status_terminal_def split: if_splits)
  then show "graph_run_ok g ?r \<and> same_run r ?r \<and> keeps_completed r ?r"
    using revised_core [OF core rev] keeps by (simp add: graph_run_ok_def r' same_run_def)
  show "list_all (\<lambda>ne. ne_status_terminal (ne_status ne)) (dict_values (gr_node_executions ?r))"
    by (auto simp: r' list_all_iff c ne_status_terminal_def split: if_splits)
qed

lemma handoff_ok:
  assumes "graph_run_ok g r" and "gr_status r = GrRUNNING" and "handoff_to now spawn g from_id to_id summary r = (sp, Inr (r', evs))"
  shows "graph_run_ok g r' \<and> same_run r r' \<and> keeps_completed r r'"
proof -
  have core: "run_core g r" using assms(1) by (simp add: graph_run_ok_def)
  obtain sp1 evs1 where swarm: "ag_pattern g = SWARM" and one: "schedule_node False now spawn g r to_id = (sp1, Inr (r', evs1))"
    using assms(3) by (auto simp: handoff_to_def split: if_splits option.splits prod.splits sum.splits)
  have each: "each_node (schedule_node False now spawn g) r [to_id] = (sp1, Inr (r', evs1))" using one by simp
  have "may_start g r nid" for nid by (simp add: may_start_def swarm)
  note e = each_node_core [OF core each this]
  have "gr_status r' \<noteq> GrCOMPLETED" by (rule each_node_status [OF each]) (simp add: assms(2))
  then show ?thesis using e extends_same extends_keeps by (auto simp: graph_run_ok_def serial_def swarm)
qed

section \<open>All runs of a store\<close>

datatype graph_call =
    StartRun int "string \<Rightarrow> string option" "string list" string string string string string "(string, json) dict"
  | NodeCompleted int "string \<Rightarrow> string option" string string string "(string, json) dict option"
  | NodeFailed int string string string string
  | Handoff int "string \<Rightarrow> string option" string string string string string
  | CancelRun int string string

fun graph_call_step :: "graph_store \<Rightarrow> graph_call \<Rightarrow> graph_store" where
  "graph_call_step st (StartRun now spawn ids rid gid conversation tenant project ctx) =
     (if dict_get (gs_runs st) rid \<noteq> None then st else snd (start_run now spawn ids rid gid conversation tenant project ctx st))"
| "graph_call_step st (NodeCompleted now spawn gid rid nid output) = snd (on_node_completed now spawn gid rid nid output st)"
| "graph_call_step st (NodeFailed now gid rid nid message) = snd (on_node_failed now gid rid nid message st)"
| "graph_call_step st (Handoff now spawn gid rid from_id to_id summary) = snd (handoff_node now spawn gid rid from_id to_id summary st)"
| "graph_call_step st (CancelRun now rid reason) = snd (cancel_run now rid reason st)"

definition graphs_ok :: "graph_store \<Rightarrow> bool" where
  "graphs_ok st \<longleftrightarrow> (\<forall>gid g. dict_get (gs_graphs st) gid = Some g \<longrightarrow> ag_id g = gid)"

definition store_ok :: "graph_store \<Rightarrow> bool" where
  "store_ok st \<longleftrightarrow> graphs_ok st \<and>
     (\<forall>rid r. dict_get (gs_runs st) rid = Some r \<longrightarrow> gr_id r = rid \<and> (\<exists>g. dict_get (gs_graphs st) (gr_graph_id r) = Some g \<and> graph_run_ok g r))"

lemma graph_run_ok_core: "graph_run_ok g r \<Longrightarrow> run_core g r"
  by (simp add: graph_run_ok_def)

lemma save_result_ok:
  assumes "store_ok st" and "\<And>r evs. snd res = Inr (r, evs) \<Longrightarrow> \<exists>g. dict_get (gs_graphs st) (gr_graph_id r) = Some g \<and> graph_run_ok g r"
  shows "store_ok (snd (save_result rid res st))"
proof (cases "snd res")
  case (Inl e)
  then show ?thesis using assms(1) by (simp add: save_result_def Let_def store_ok_def graphs_ok_def)
next
  case (Inr p)
  then show ?thesis using assms(1) assms(2) [of "fst p" "snd p"]
    by (cases p) (auto simp: save_result_def Let_def store_ok_def graphs_ok_def dict_get_set)
qed

lemma on_run_ok:
  assumes "store_ok st"
    and "\<And>g r sp r' evs. graph_run_ok g r \<Longrightarrow> gr_status r = GrRUNNING \<Longrightarrow> f g r = (sp, Inr (r', evs)) \<Longrightarrow> graph_run_ok g r' \<and> same_run r r'"
  shows "store_ok (snd (on_run gid rid f st))"
proof (cases "fetch_run gid rid st")
  case (Inl e)
  then show ?thesis using assms(1) by (simp add: on_run_def)
next
  case (Inr p)
  obtain g r where p: "p = (g, r)" by fastforce
  have g: "dict_get (gs_graphs st) gid = Some g" "gr_graph_id r = ag_id g" "dict_get (gs_runs st) rid = Some r"
    using Inr p by (auto simp: fetch_run_def split: option.splits if_splits)
  have id: "ag_id g = gid" using assms(1) g(1) by (simp add: store_ok_def graphs_ok_def)
  have ok: "graph_run_ok g r" using assms(1) g id unfolding store_ok_def by (metis option.inject)
  show ?thesis
  proof (cases "gr_is_terminal r")
    case True
    then show ?thesis using assms(1) Inr p by (simp add: on_run_def)
  next
    case False
    then have run: "gr_status r = GrRUNNING" using active_running [OF graph_run_ok_core [OF ok]] by simp
    have "\<exists>g. dict_get (gs_graphs st) (gr_graph_id r') = Some g \<and> graph_run_ok g r'" if fgr: "snd (f g r) = Inr (r', evs)" for r' evs
    proof -
      obtain sp where "f g r = (sp, Inr (r', evs))" using fgr by (cases "f g r") simp
      then have "graph_run_ok g r' \<and> same_run r r'" by (rule assms(2) [OF ok run])
      then show ?thesis using g id by (auto simp: same_run_def)
    qed
    then show ?thesis using save_result_ok [OF assms(1)] Inr p False by (simp add: on_run_def)
  qed
qed

lemma save_result_other: "(\<And>r evs. snd res = Inr (r, evs) \<Longrightarrow> gr_id r \<noteq> k) \<Longrightarrow> dict_get (gs_runs (snd (save_result rid res st))) k = dict_get (gs_runs st) k"
  by (auto simp: save_result_def Let_def dict_get_set split: sum.splits prod.splits)

lemma save_result_graphs [simp]: "gs_graphs (snd (save_result rid res st)) = gs_graphs st"
  by (auto simp: save_result_def Let_def split: sum.splits prod.splits)

lemma on_run_final:
  assumes "store_ok st" and "dict_get (gs_runs st) k = Some q" and "gr_is_terminal q"
    and "\<And>g r sp r' evs. graph_run_ok g r \<Longrightarrow> gr_status r = GrRUNNING \<Longrightarrow> f g r = (sp, Inr (r', evs)) \<Longrightarrow> graph_run_ok g r' \<and> same_run r r'"
  shows "dict_get (gs_runs (snd (on_run gid rid f st))) k = Some q"
proof (cases "fetch_run gid rid st")
  case (Inr p)
  obtain g r where p: "p = (g, r)" by fastforce
  have g: "dict_get (gs_graphs st) gid = Some g" "gr_graph_id r = ag_id g" "dict_get (gs_runs st) rid = Some r"
    using Inr p by (auto simp: fetch_run_def split: option.splits if_splits)
  have "ag_id g = gid" using assms(1) g(1) by (simp add: store_ok_def graphs_ok_def)
  then have ok: "graph_run_ok g r" "gr_id r = rid" using assms(1) g unfolding store_ok_def by (metis option.inject)+
  show ?thesis
  proof (cases "gr_is_terminal r")
    case False
    then have run: "gr_status r = GrRUNNING" using active_running [OF graph_run_ok_core [OF ok(1)]] by simp
    have "rid \<noteq> k" using False assms(2,3) g(3) by auto
    have "gr_id r' \<noteq> k" if fgr: "snd (f g r) = Inr (r', evs)" for r' evs
    proof -
      obtain sp where "f g r = (sp, Inr (r', evs))" using fgr by (cases "f g r") simp
      then have "same_run r r'" using assms(4) [OF ok(1) run] by blast
      then show ?thesis using \<open>rid \<noteq> k\<close> ok(2) by (simp add: same_run_def)
    qed
    then show ?thesis using save_result_other [of "f g r" k rid st] assms(2) Inr p False by (simp add: on_run_def)
  qed (use assms(2) Inr p in \<open>simp add: on_run_def\<close>)
qed (use assms(2) in \<open>simp add: on_run_def\<close>)

lemma complete_handler: "graph_run_ok g r \<Longrightarrow> gr_status r = GrRUNNING \<Longrightarrow> complete_node now spawn g nid output r = (sp, Inr (r', evs)) \<Longrightarrow> graph_run_ok g r' \<and> same_run r r'"
  using complete_ok by blast

lemma fail_handler: "graph_run_ok g r \<Longrightarrow> gr_status r = GrRUNNING \<Longrightarrow> ([], fail_node now g nid message r) = (sp, Inr (r', evs)) \<Longrightarrow> graph_run_ok g r' \<and> same_run r r'"
  using fail_ok by blast

lemma handoff_handler: "graph_run_ok g r \<Longrightarrow> gr_status r = GrRUNNING \<Longrightarrow> handoff_to now spawn g a b c r = (sp, Inr (r', evs)) \<Longrightarrow> graph_run_ok g r' \<and> same_run r r'"
  using handoff_ok by blast

lemma failed_step:
  assumes "store_ok st"
  shows "store_ok (snd (on_node_failed now gid rid nid message st))"
    "dict_get (gs_runs st) k = Some q \<Longrightarrow> gr_is_terminal q \<Longrightarrow> dict_get (gs_runs (snd (on_node_failed now gid rid nid message st))) k = Some q"
  unfolding on_node_failed_def by (rule on_run_ok [OF assms], erule (2) fail_handler) (rule on_run_final [OF assms], assumption+, erule (2) fail_handler)

lemma start_run_cases:
  "snd (start_run now spawn ids rid gid conversation tenant project ctx st) = st \<or>
   (\<exists>g r. dict_get (gs_graphs st) gid = Some g \<and> validate_graph ids g = [] \<and>
        graph_run_init rid (ag_id g) conversation tenant project (ag_max_total_steps g) ctx = Inr r \<and>
        start_run now spawn ids rid gid conversation tenant project ctx st = save_result rid (launch now spawn g r) st)"
  by (auto simp: start_run_def split: option.split sum.split)

lemma init_ids: "graph_run_init rid gid conversation tenant project n ctx = Inr r \<Longrightarrow> gr_id r = rid \<and> gr_graph_id r = gid \<and> gr_max_total_steps r = n \<and> gr_node_executions r = []"
  by (auto simp: graph_run_init_def split: if_splits)

lemma launch_result:
  assumes "graph_run_init rid gid conversation tenant project n ctx = Inr r" and "ag_id g = gid" and "snd (launch now spawn g r) = Inr (r', evs)"
  shows "graph_run_ok g r' \<and> gr_id r' = rid \<and> gr_graph_id r' = gid"
proof -
  obtain sp where "launch now spawn g r = (sp, Inr (r', evs))" using assms(3) by (cases "launch now spawn g r") simp
  then have "graph_run_ok g r' \<and> same_run r r'" using launch_ok assms(1,2) by blast
  then show ?thesis using init_ids [OF assms(1)] by (simp add: same_run_def)
qed

lemma start_step:
  assumes "store_ok st"
  shows "store_ok (snd (start_run now spawn ids rid gid conversation tenant project ctx st)) \<and>
    (k \<noteq> rid \<longrightarrow> dict_get (gs_runs (snd (start_run now spawn ids rid gid conversation tenant project ctx st))) k = dict_get (gs_runs st) k)"
  using start_run_cases [of now spawn ids rid gid conversation tenant project ctx st]
proof (elim disjE exE conjE)
  fix g r
  assume g: "dict_get (gs_graphs st) gid = Some g" and r: "graph_run_init rid (ag_id g) conversation tenant project (ag_max_total_steps g) ctx = Inr r"
    and eq: "start_run now spawn ids rid gid conversation tenant project ctx st = save_result rid (launch now spawn g r) st"
  have id: "ag_id g = gid" using assms g by (simp add: store_ok_def graphs_ok_def)
  note l = launch_result [OF r [unfolded id] id]
  have "store_ok (snd (save_result rid (launch now spawn g r) st))"
    by (rule save_result_ok [OF assms]) (use l g in blast)
  moreover have "dict_get (gs_runs (snd (save_result rid (launch now spawn g r) st))) k = dict_get (gs_runs st) k" if "k \<noteq> rid"
    by (rule save_result_other) (use l that in blast)
  ultimately show ?thesis unfolding eq by blast
qed (use assms in simp)

lemma cancel_step:
  assumes "store_ok st"
  shows "store_ok (snd (cancel_run now rid reason st))"
    "dict_get (gs_runs st) k = Some q \<Longrightarrow> gr_is_terminal q \<Longrightarrow> dict_get (gs_runs (snd (cancel_run now rid reason st))) k = Some q"
proof -
  have "store_ok (snd (cancel_run now rid reason st)) \<and>
      (dict_get (gs_runs st) k = Some q \<longrightarrow> gr_is_terminal q \<longrightarrow> dict_get (gs_runs (snd (cancel_run now rid reason st))) k = Some q)"
  proof (cases "dict_get (gs_runs st) rid")
    case (Some r)
    then obtain g where g: "dict_get (gs_graphs st) (gr_graph_id r) = Some g" "graph_run_ok g r" "gr_id r = rid" using assms unfolding store_ok_def by blast
    show ?thesis
    proof (cases "gr_is_terminal r")
      case False
      then have run: "gr_status r = GrRUNNING" using active_running [OF graph_run_ok_core [OF g(2)]] by simp
      note c = cancel_ok(1) [OF g(2) run, of now]
      have "store_ok (snd (cancel_run now rid reason st))"
        using save_result_ok [OF assms, of "([], Inr (gr_mark_cancelled now r, [GraphRunCancelled reason]))" rid] c g Some False
        by (simp add: cancel_run_def same_run_def)
      moreover have "dict_get (gs_runs (snd (cancel_run now rid reason st))) k = dict_get (gs_runs st) k" if "k \<noteq> rid"
        using save_result_other [of "([], Inr (gr_mark_cancelled now r, [GraphRunCancelled reason]))" k rid st] c g that Some False
        by (simp add: cancel_run_def same_run_def)
      ultimately show ?thesis using Some False by (cases "k = rid") auto
    qed (use assms Some in \<open>simp add: cancel_run_def\<close>)
  qed (use assms in \<open>simp add: cancel_run_def\<close>)
  then show "store_ok (snd (cancel_run now rid reason st))"
    "dict_get (gs_runs st) k = Some q \<Longrightarrow> gr_is_terminal q \<Longrightarrow> dict_get (gs_runs (snd (cancel_run now rid reason st))) k = Some q" by simp_all
qed

interpretation graph_store: invariant_machine graph_call_step store_ok
proof
  show "store_ok st \<Longrightarrow> store_ok (graph_call_step st c)" for st c
    by (cases c) (simp_all add: start_step cancel_step(1) failed_step(1) on_node_completed_def handoff_node_def
        on_run_ok [OF _ complete_handler] on_run_ok [OF _ handoff_handler])
qed

lemma call_final:
  assumes "store_ok st" and "dict_get (gs_runs st) k = Some q" and "gr_is_terminal q"
  shows "dict_get (gs_runs (graph_call_step st c)) k = Some q"
proof (cases c)
  case (StartRun now spawn ids rid gid conversation tenant project ctx)
  then show ?thesis using assms(2) start_step [OF assms(1)] by (cases "k = rid") auto
qed (simp_all add: cancel_step(2) [OF assms] failed_step(2) [OF assms] on_node_completed_def handoff_node_def
    on_run_final [OF assms complete_handler] on_run_final [OF assms handoff_handler])

lemma calls_final:
  assumes "store_ok st" and "dict_get (gs_runs st) k = Some q" and "gr_is_terminal q"
  shows "dict_get (gs_runs (foldl graph_call_step st cs)) k = Some q"
  using assms
proof (induction cs arbitrary: st)
  case (Cons c cs)
  then show ?case using call_final [OF Cons.prems] graph_store.run_inv [OF Cons.prems(1), of "[c]"] by simp
qed simp

end
