(* ===== verification/GraphProps.thy ===== *)
theory GraphProps
  imports GraphRunProps
begin

text \<open>
  The guarantees of graph runs: safety for every store the handlers produce, and progress for runs whose agents all
  answer. At the end, what the code does in the situations its comments do not cover.
\<close>

section \<open>Nothing is scheduled twice, and scheduling succeeds\<close>

lemma each_node_new:
  assumes "each_node (schedule_node raises now spawn g) r nids = (sp, Inr (r', evs))" and "get_node_execution k r' = Some ne"
  shows "get_node_execution k r = Some ne \<or> ne_status ne = NeRUNNING \<or> spawn k = None"
  using assms
proof (induction nids arbitrary: r sp evs)
  case (Cons nid nids)
  obtain sp1 r1 ev1 sp2 ev2 where one: "schedule_node raises now spawn g r nid = (sp1, Inr (r1, ev1))"
    and rest: "each_node (schedule_node raises now spawn g) r1 nids = (sp2, Inr (r', ev2))"
    using Cons.prems(1) by (auto split: prod.splits sum.splits)
  have "get_node_execution k r1 = Some ne \<Longrightarrow> get_node_execution k r = Some ne \<or> ne_status ne = NeRUNNING \<or> spawn k = None"
    using schedule_node_result [OF one] by (elim disjE conjE) (auto dest!: scheduled_get split: if_splits)
  then show ?case using Cons.IH [OF rest Cons.prems(2)] by (elim disjE) simp_all
qed simp

lemma schedule_node_succeeds:
  assumes "gr_id r \<noteq> []" and "nid \<noteq> []" and "nid \<in> ag_node_ids g" and "get_node_execution nid r = None" and "spawn nid = Some session"
    and "gr_total_steps r + 1 < gr_max_total_steps r"
  shows "\<exists>sp r' evs. schedule_node raises now spawn g r nid = (sp, Inr (r', evs)) \<and> scheduled g r nid NeRUNNING r' \<and> gr_status r' = gr_status r"
proof -
  obtain node where node: "get_node g nid = Some node" using get_node_known [OF assms(3)] by blast
  have id: "an_node_id node = nid" using get_node_id [OF node] by simp
  define ne where "ne = \<lparr>ne_graph_run_id = gr_id r, ne_node_id = nid, ne_agent_session_id = None, ne_status = NePENDING,
    ne_input_context = gr_shared_context r, ne_output_context = [], ne_error_message = None, ne_started_at = None, ne_completed_at = None\<rparr>"
  have init: "node_execution_init (gr_id r) (an_node_id node) (gr_shared_context r) = Inr ne"
    using assms(1,2) id by (simp add: node_execution_init_def ne_def)
  have "dict_get (gr_node_executions r) nid = None" using assms(4) by (simp add: get_node_execution_def)
  then have "\<exists>r'. start_execution now session ne r = Inr r' \<and> gr_status r' = gr_status r"
    using assms(6) by (simp add: start_execution_def ne_mark_running_def add_node_execution_def increment_step_def ne_def)
  then obtain r' where r': "start_execution now session ne r = Inr r'" "gr_status r' = gr_status r" by blast
  have "scheduled g r nid NeRUNNING r'" using start_execution_scheduled [OF r'(1), of g] assms(3) by (simp add: ne_def)
  then show ?thesis using node init assms(5) r' by (simp add: schedule_node_def with_event_def)
qed

lemma each_node_succeeds:
  assumes "gr_id r \<noteq> []" and "distinct nids" and "\<forall>k. spawn k \<noteq> None"
    and "\<And>nid. nid \<in> set nids \<Longrightarrow> nid \<noteq> [] \<and> nid \<in> ag_node_ids g \<and> get_node_execution nid r = None"
    and "gr_total_steps r + int (length nids) < gr_max_total_steps r"
  shows "\<exists>sp r' evs. each_node (schedule_node raises now spawn g) r nids = (sp, Inr (r', evs)) \<and> gr_status r' = gr_status r"
  using assms
proof (induction nids arbitrary: r)
  case (Cons nid nids)
  obtain session where session: "spawn nid = Some session" using Cons.prems(3) by blast
  have "gr_total_steps r + 1 < gr_max_total_steps r" using Cons.prems(5) by simp
  then obtain sp r1 evs where one: "schedule_node raises now spawn g r nid = (sp, Inr (r1, evs))" "scheduled g r nid NeRUNNING r1" "gr_status r1 = gr_status r"
    using schedule_node_succeeds [where spawn = spawn and nid = nid and r = r and raises = raises and now = now and g = g] session Cons.prems(1) Cons.prems(4) [of nid]
    by auto
  have "gr_id r1 \<noteq> []" "gr_total_steps r1 + int (length nids) < gr_max_total_steps r1"
    using one(2) Cons.prems(1,5) by (auto simp: scheduled_def same_run_def)
  moreover have "k \<noteq> [] \<and> k \<in> ag_node_ids g \<and> get_node_execution k r1 = None" if "k \<in> set nids" for k
  proof -
    have "get_node_execution k r1 = get_node_execution k r" using scheduled_get [OF one(2)] Cons.prems(2) that by auto
    then show ?thesis using Cons.prems(4) [of k] that by simp
  qed
  ultimately obtain sp2 r2 evs2 where "each_node (schedule_node raises now spawn g) r1 nids = (sp2, Inr (r2, evs2))" "gr_status r2 = gr_status r1"
    using Cons.IH [of r1] Cons.prems(2,3) by auto
  then show ?case using one by auto
qed simp

lemma proposed_distinct:
  assumes "distinct (map an_node_id (ag_nodes g))"
  shows "distinct (next_node_ids (ag_pattern g) g r)"
  using assms by (cases "ag_pattern g")
    (auto simp: supervisor_next_def pipeline_next_def fan_out_next_def swarm_next_def entry_nodes_def distinct_map_filter split: option.splits)

section \<open>A run that waits for nothing is finished\<close>

definition schedulable :: "agent_graph \<Rightarrow> bool" where
  "schedulable g \<longleftrightarrow> valid_graph g \<and> distinct (map an_node_id (ag_nodes g)) \<and> (\<forall>n \<in> set (ag_nodes g). an_node_id n \<noteq> []) \<and> ag_pattern g \<noteq> SWARM \<and>
     (ag_pattern g \<in> {SUPERVISOR, HIERARCHICAL} \<longrightarrow> (\<forall>n \<in> set (ag_nodes g). an_is_entry n \<or> get_predecessors g (an_node_id n) \<noteq> []))"

definition alive :: "agent_graph \<Rightarrow> graph_run \<Rightarrow> bool" where
  "alive g r \<longleftrightarrow> run_core g r \<and> gr_status r = GrRUNNING \<and> gr_id r \<noteq> [] \<and> gr_node_executions r \<noteq> [] \<and> \<not> terminals_completed g r \<and>
     (\<forall>k ne. get_node_execution k r = Some ne \<longrightarrow> ne_status ne \<noteq> NeSKIPPED) \<and>
     (running_node_ids r = [] \<longrightarrow> next_node_ids (ag_pattern g) g r = []) \<and>
     (ag_pattern g \<in> {SUPERVISOR, HIERARCHICAL} \<longrightarrow> (\<forall>n \<in> set (entry_nodes g). get_node_execution (an_node_id n) r \<noteq> None))"

lemma unproposed:
  assumes "schedulable g" and "alive g r" and "running_node_ids r = []" and "n \<in> set (ag_nodes g)" and "predecessors_done g r (an_node_id n)"
  shows "get_node_execution (an_node_id n) r \<noteq> None"
proof
  assume none: "get_node_execution (an_node_id n) r = None"
  have nil: "next_node_ids (ag_pattern g) g r = []" "gr_node_executions r \<noteq> []" "\<not> gr_is_terminal r"
    using assms(2,3) by (simp_all add: alive_def gr_is_terminal_def gr_status_terminal_def)
  have order: "an_node_id n \<in> set (pipeline_order g)"
    using pipeline_order_correct(2) [of g] assms(1,4) by (auto simp: schedulable_def valid_graph_def ag_node_ids_def)
  have entry: "ag_pattern g \<in> {SUPERVISOR, HIERARCHICAL} \<Longrightarrow> get_predecessors g (an_node_id n) \<noteq> []"
    using assms(1,2,4) none by (auto simp: schedulable_def alive_def entry_nodes_def)
  show False using nil none order entry assms(1,3,4,5)
    by (cases "ag_pattern g")
      (auto simp: supervisor_next_def pipeline_next_def fan_out_next_def schedulable_def find_None_iff filter_empty_conv split: option.splits)
qed

lemma alive_running:
  assumes "schedulable g" and "alive g r"
  shows "running_node_ids r \<noteq> []"
proof
  assume idle: "running_node_ids r = []"
  have core: "run_core g r" using assms(2) by (simp add: alive_def)
  have known: "known_edges g" "acyclic (edge_rel g)" using assms(1) by (simp_all add: schedulable_def valid_graph_def)
  have completed: "node_completed r k" if x: "get_node_execution k r = Some ne" for k ne
  proof -
    have "ne_status ne \<noteq> NeRUNNING" using idle x ids_with_status_iff [OF run_coreD(1) [OF core], of k NeRUNNING] by (auto simp: running_node_ids_def)
    then have "ne_status ne = NeCOMPLETED" using run_coreD(6) [OF core x] assms(2) x by (auto simp: alive_def)
    then show ?thesis using x by (simp add: node_completed_def)
  qed
  have "finite (edge_rel g)" by (simp add: edge_rel_def)
  then have "wf (edge_rel g)" using known(2) by (rule finite_acyclic_wf)
  then have all: "k \<in> ag_node_ids g \<longrightarrow> node_completed r k" for k
  proof (induction k rule: wf_induct_rule)
    case (less k)
    have "predecessors_done g r k"
      unfolding predecessors_done_def list_all_iff
    proof
      fix e assume "e \<in> set (get_predecessors g k)"
      then have e: "e \<in> set (ag_edges g)" "ae_target e = k" by (simp_all add: get_predecessors_def)
      then have "(ae_source e, k) \<in> edge_rel g" by (auto simp: edge_rel_def)
      then show "node_completed r (ae_source e)" using less e(1) known(1) by (auto simp: known_edges_def)
    qed
    then show ?case using unproposed [OF assms idle] completed by (auto simp: ag_node_ids_def)
  qed
  then have "terminals_completed g r" by (auto simp: terminals_completed_def list_all_iff terminal_nodes_def ag_node_ids_def)
  then show False using assms(2) by (simp add: alive_def)
qed

section \<open>A step of a run whose agents all answer\<close>

lemma started_bound:
  assumes "run_core g r" and "finite B" and "ag_node_ids g \<subseteq> A \<union> B" and "\<And>k. k \<in> B \<Longrightarrow> get_node_execution k r = None" and "B \<subseteq> ag_node_ids g"
  shows "started r + int (card B) \<le> int (card (ag_node_ids g))"
proof -
  let ?S = "{k. \<exists>ne. get_node_execution k r = Some ne \<and> ne_status ne \<noteq> NeSKIPPED}"
  have sub: "?S \<union> B \<subseteq> ag_node_ids g" using run_coreD(3) [OF assms(1)] assms(5) by blast
  have fin: "finite (ag_node_ids g)" by (simp add: ag_node_ids_def)
  have "card ?S + card B = card (?S \<union> B)"
    using assms(2,4) finite_subset [OF _ fin, of ?S] sub by (intro card_Un_disjoint [symmetric]) auto
  also have "\<dots> \<le> card (ag_node_ids g)" by (rule card_mono [OF fin sub])
  finally show ?thesis using started_card [OF run_coreD(1) [OF assms(1)]] by simp
qed

lemma each_proposed_succeeds:
  assumes "schedulable g" and "run_core g r" and "gr_id r \<noteq> []" and "\<forall>k. spawn k \<noteq> None" and "int (card (ag_node_ids g)) < gr_max_total_steps r"
    and "nids = next_node_ids (ag_pattern g) g q" and "gr_node_executions q = gr_node_executions r"
  shows "\<exists>sp r' evs. each_node (schedule_node raises now spawn g) r nids = (sp, Inr (r', evs)) \<and> gr_status r' = gr_status r"
proof -
  have v: "known_edges g" "acyclic (edge_rel g)" "distinct (map an_node_id (ag_nodes g))" "\<forall>n \<in> set (ag_nodes g). an_node_id n \<noteq> []"
    using assms(1) by (simp_all add: schedulable_def valid_graph_def)
  have fresh: "nid \<noteq> [] \<and> nid \<in> ag_node_ids g \<and> get_node_execution nid r = None" if "nid \<in> set nids" for nid
    using proposed_known [OF v(1,2), of nid q] that v(4) execs_cong(1) [OF assms(7), of nid] unfolding assms(6) by (auto simp: ag_node_ids_def)
  have dist: "distinct nids" unfolding assms(6) by (rule proposed_distinct [OF v(3)])
  have "started r + int (card (set nids)) \<le> int (card (ag_node_ids g))"
    by (rule started_bound [OF assms(2), where A = "ag_node_ids g"]) (use fresh in auto)
  then have "gr_total_steps r + int (length nids) < gr_max_total_steps r"
    using assms(5) run_coreD(7) [OF assms(2)] distinct_card [OF dist] by simp
  then show ?thesis using each_node_succeeds [OF assms(3) dist assms(4)] fresh by blast
qed

lemma complete_node_total:
  assumes "schedulable g" and "alive g r" and "nid \<in> set (running_node_ids r)" and "\<forall>k. spawn k \<noteq> None" and "int (card (ag_node_ids g)) < gr_max_total_steps r"
  shows "\<exists>sp r' evs. complete_node now spawn g nid output r = (sp, Inr (r', evs))"
proof -
  have core: "run_core g r" and run: "gr_status r = GrRUNNING" and id: "gr_id r \<noteq> []" using assms(2) by (simp_all add: alive_def)
  obtain ne where ne: "get_node_execution nid r = Some ne" "ne_status ne = NeRUNNING"
    using assms(3) ids_with_status_iff [OF run_coreD(1) [OF core]] by (auto simp: running_node_ids_def)
  obtain ne' where ne': "ne_mark_completed now output ne = Inr ne'" "ne_status ne' = NeCOMPLETED" "ne_node_id ne' = ne_node_id ne"
    using ne(2) by (simp add: ne_mark_completed_def)
  define r2 where "r2 = (case output of None \<Rightarrow> put_node_execution ne' r
    | Some c \<Rightarrow> if c = [] then put_node_execution ne' r else update_shared_context c (put_node_execution ne' r))"
  have f: "gr_node_executions r2 = gr_node_executions (put_node_execution ne' r)" "same_run r r2" "gr_total_steps r2 = gr_total_steps r" "gr_status r2 = GrRUNNING"
    using run by (simp_all add: r2_def put_node_execution_def update_shared_context_def same_run_def split: option.split)
  have "revised r r2" by (rule put_revised [OF core ne(1) ne'(3) ne(2) _ f(1-3)]) (use ne'(2) f(4) run in auto)
  then have core2: "run_core g r2" by (rule revised_core [OF core])
  have "gr_id r2 \<noteq> []" "int (card (ag_node_ids g)) < gr_max_total_steps r2" using f(2) id assms(5) by (simp_all add: same_run_def)
  then obtain sp r' evs where "each_node (schedule_node False now spawn g) r2 (next_node_ids (ag_pattern g) g r2) = (sp, Inr (r', evs))"
    using each_proposed_succeeds [OF assms(1) core2 _ assms(4) _ refl refl] by blast
  moreover have "\<exists>r3. gr_mark_completed now r2 = Inr r3" using f(4) by (simp add: gr_mark_completed_def)
  ultimately show ?thesis using ne(1) ne'(1) by (auto simp: complete_node_def Let_def r2_def [symmetric])
qed

text \<open>Its outcome: the run is complete, or it is alive with one more completed node.\<close>

lemma complete_node_progress:
  assumes "schedulable g" and "alive g r" and "complete_node now spawn g nid output r = (sp, Inr (r', evs))" and "\<forall>k. spawn k \<noteq> None"
    and "int (card (ag_node_ids g)) < gr_max_total_steps r"
  shows "gr_status r' = GrCOMPLETED \<or> alive g r' \<and> gr_max_total_steps r' = gr_max_total_steps r \<and> {k. node_completed r' k} = insert nid {k. node_completed r k} \<and> \<not> node_completed r nid"
proof -
  have core: "run_core g r" and run: "gr_status r = GrRUNNING" and id: "gr_id r \<noteq> []" using assms(2) by (simp_all add: alive_def)
  have swarm: "should_complete_run (ag_pattern g) g q = terminals_completed g q" for q using assms(1) by (cases "ag_pattern g") (simp_all add: schedulable_def)
  obtain r2 where r2: "revised r r2" "gr_status r2 = GrRUNNING" "\<And>k. node_completed r2 k \<longleftrightarrow> k = nid \<or> node_completed r k"
      "set (running_node_ids r2) = set (running_node_ids r) - {nid}" "nid \<in> set (running_node_ids r)"
    and out: "should_complete_run (ag_pattern g) g r2 \<and> gr_mark_completed now r2 = Inr r' \<or>
     \<not> should_complete_run (ag_pattern g) g r2 \<and> (\<exists>sp evs. each_node (schedule_node False now spawn g) r2 (next_node_ids (ag_pattern g) g r2) = (sp, Inr (r', evs)))"
    using complete_node_result [OF core run assms(3)] by metis
  have core2: "run_core g r2" by (rule revised_core [OF core r2(1)])
  have pending: "\<not> node_completed r nid"
    using r2(5) ids_with_status_iff [OF run_coreD(1) [OF core], of nid NeRUNNING] by (auto simp: running_node_ids_def node_completed_def)
  from out show ?thesis
  proof (elim disjE conjE exE)
    assume "gr_mark_completed now r2 = Inr r'"
    then show ?thesis by (auto simp: gr_mark_completed_def r2(2))
  next
    fix sp' evs'
    assume go: "\<not> should_complete_run (ag_pattern g) g r2"
      and each: "each_node (schedule_node False now spawn g) r2 (next_node_ids (ag_pattern g) g r2) = (sp', Inr (r', evs'))"
    have execs: "gr_node_executions r2 \<noteq> []" using r2(3) [of nid] by (auto simp: node_completed_def get_node_execution_def)
    have may: "may_start g r2 k" if "k \<in> set (next_node_ids (ag_pattern g) g r2)" for k
      using later_proposed [OF execs that] by (simp add: may_start_def)
    note e = each_node_core [OF core2 each may]
    have rv: "same_run r r2" "\<And>k. rel_option (\<lambda>ne ne'. ne_status ne' = NeSKIPPED \<longleftrightarrow> ne_status ne = NeSKIPPED) (get_node_execution k r) (get_node_execution k r2)"
      using r2(1) by (auto simp: revised_def elim!: option.rel_mono_strong)
    have ext: "extends r2 r'" using e by blast
    have comp: "node_completed r' k \<longleftrightarrow> k = nid \<or> node_completed r k" for k using ext r2(3) by (simp add: extends_def)
    have st: "gr_status r' = GrRUNNING"
      using each_proposed_succeeds [OF assms(1) core2 _ assms(4) _ refl refl, of False now] each rv(1) id assms(5) r2(2) by (auto simp: same_run_def)
    have noskip: "ne_status ne \<noteq> NeSKIPPED" if x: "get_node_execution k r' = Some ne" for k ne
    proof -
      have "ne_status y \<noteq> NeSKIPPED" if "get_node_execution k r2 = Some y" for y
        using rv(2) [of k] that assms(2) by (cases "get_node_execution k r") (auto simp: alive_def)
      then show ?thesis using each_node_new [OF each x] assms(4) by auto
    qed
    have idle: "next_node_ids (ag_pattern g) g r' = []" if "running_node_ids r' = []"
    proof -
      have "nid \<notin> set (next_node_ids (ag_pattern g) g r2)" for nid
        using e that assms(4) proposed_known(1) [of g nid r2] assms(1) by (auto simp: schedulable_def valid_graph_def)
      then have "next_node_ids (ag_pattern g) g r2 = []" by (metis list.set_intros(1) neq_Nil_conv)
      then show ?thesis using each by simp
    qed
    have "get_node_execution k r' \<noteq> None" if "get_node_execution k r \<noteq> None" for k
      using that rv(2) [of k] ext by (cases "get_node_execution k r"; cases "get_node_execution k r2") (auto simp: extends_def)
    moreover have "\<not> terminals_completed g r'" using go swarm ext by (simp add: terminals_completed_def extends_def)
    moreover have "gr_node_executions r' \<noteq> []" using comp [of nid] by (auto simp: node_completed_def get_node_execution_def)
    moreover have "gr_id r' \<noteq> []" "gr_max_total_steps r' = gr_max_total_steps r" using rv(1) extends_same [OF ext] id by (simp_all add: same_run_def)
    ultimately have "alive g r'" unfolding alive_def using e st noskip idle assms(2) by (auto simp: alive_def)
    then show ?thesis using comp pending \<open>gr_max_total_steps r' = gr_max_total_steps r\<close> by auto
  qed
qed

lemma launch_alive:
  assumes "schedulable g" and "graph_run_init rid (ag_id g) conversation tenant project max_steps ctx = Inr r" and "rid \<noteq> []"
    and "\<forall>k. spawn k \<noteq> None" and "int (card (ag_node_ids g)) < max_steps"
  shows "\<exists>sp r' evs. launch now spawn g r = (sp, Inr (r', evs)) \<and> alive g r' \<and> gr_max_total_steps r' = max_steps"
proof -
  let ?entries = "next_node_ids (ag_pattern g) g r"
  let ?r1 = "r\<lparr>gr_status := GrRUNNING, gr_current_node_ids := ?entries, gr_started_at := Some now\<rparr>"
  have r: "gr_node_executions r = []" "gr_total_steps r = 0" "1 \<le> gr_max_total_steps r" "gr_status r = GrPENDING" "gr_id r = rid" "gr_max_total_steps r = max_steps"
    using assms(2) by (auto simp: graph_run_init_def split: if_splits)
  have v: "entry_nodes g \<noteq> []" "terminal_nodes g \<noteq> []" "known_edges g" "acyclic (edge_rel g)" using assms(1) by (simp_all add: schedulable_def valid_graph_def)
  have entries: "?entries = map an_node_id (entry_nodes g) \<or> ag_pattern g = PIPELINE \<and> ?entries = take 1 (map an_node_id (entry_nodes g))"
    using r assms(1) by (cases "ag_pattern g")
      (simp_all add: supervisor_next_def pipeline_next_def fan_out_next_def schedulable_def gr_is_terminal_def gr_status_terminal_def running_node_ids_def ids_with_status_def)
  then have ne: "?entries \<noteq> []" using v(1) by auto
  have core: "run_core g ?r1" using r by (auto simp: run_core_def get_node_execution_def started_def)
  obtain sp r' evs where each: "each_node (schedule_node True now spawn g) ?r1 ?entries = (sp, Inr (r', evs))" and st: "gr_status r' = GrRUNNING"
    using each_proposed_succeeds [OF assms(1) core _ assms(4) _ refl, of r True now] assms(3,5) r by auto
  have may: "may_start g ?r1 nid" if "nid \<in> set ?entries" for nid
    using first_proposed [OF r(1), of g] that by (auto simp: may_start_def entry_id_def)
  note e = each_node_core [OF core each may]
  have started: "nid \<in> set (running_node_ids r')" if "nid \<in> set ?entries" for nid
    using e that assms(4) proposed_known(1) [OF v(3,4) that] by auto
  have nonempty: "running_node_ids r' \<noteq> []" using started ne by (metis list.set_intros(1) list.exhaust empty_iff list.set(1))
  have none: "\<not> node_completed r' k" for k using e r(1) by (simp add: extends_def node_completed_def get_node_execution_def)
  have noskip: "ne_status x \<noteq> NeSKIPPED" if "get_node_execution k r' = Some x" for k x
    using each_node_new [OF each that] assms(4) r(1) by (auto simp: get_node_execution_def)
  have sup: "get_node_execution (an_node_id n) r' \<noteq> None" if "ag_pattern g \<in> {SUPERVISOR, HIERARCHICAL}" "n \<in> set (entry_nodes g)" for n
  proof -
    have "an_node_id n \<in> set (ids_with_status NeRUNNING r')" using started [of "an_node_id n"] entries that by (auto simp: running_node_ids_def)
    then show ?thesis using e ids_with_status_iff [OF run_coreD(1), of g r'] by auto
  qed
  have "gr_id r' \<noteq> []" "gr_max_total_steps r' = max_steps" using extends_same [of ?r1 r'] e r assms(3) by (auto simp: same_run_def)
  moreover have "\<not> terminals_completed g r'" using v(2) none by (cases "terminal_nodes g") (simp_all add: terminals_completed_def)
  moreover have "gr_node_executions r' \<noteq> []" using nonempty by (auto simp: running_node_ids_def ids_with_status_def)
  ultimately have "alive g r'" unfolding alive_def using e st noskip nonempty sup by auto
  moreover have "launch now spawn g r = (sp, Inr (r', GraphRunStarted ?entries # evs))" using ne each r(4) by (simp add: launch_def Let_def gr_mark_running_def)
  ultimately show ?thesis using \<open>gr_max_total_steps r' = max_steps\<close> by blast
qed

section \<open>Driving a run to its end\<close>

record agents_behaviour =
  bh_clock :: "graph_run \<Rightarrow> int"
  bh_spawn :: "graph_run \<Rightarrow> string \<Rightarrow> string option"
  bh_pick :: "graph_run \<Rightarrow> string"
  bh_output :: "graph_run \<Rightarrow> (string, json) dict option"

fun drive :: "agents_behaviour \<Rightarrow> agent_graph \<Rightarrow> nat \<Rightarrow> graph_run \<Rightarrow> graph_run" where
  "drive b g 0 r = r"
| "drive b g (Suc n) r =
     (if gr_is_terminal r then r
      else case complete_node (bh_clock b r) (bh_spawn b r) g (bh_pick b r) (bh_output b r) r of
             (_, Inl _) \<Rightarrow> r | (_, Inr (r', _)) \<Rightarrow> drive b g n r')"

definition answering :: "agents_behaviour \<Rightarrow> bool" where
  "answering b \<longleftrightarrow> (\<forall>r k. bh_spawn b r k \<noteq> None) \<and> (\<forall>r. running_node_ids r \<noteq> [] \<longrightarrow> bh_pick b r \<in> set (running_node_ids r))"

lemma completed_known: "run_core g r \<Longrightarrow> {k. node_completed r k} \<subseteq> ag_node_ids g"
  using run_coreD(3) [of g r] by (auto simp: node_completed_def split: option.splits)

lemma drive_completes:
  assumes "schedulable g" and "answering b" and "alive g r" and "int (card (ag_node_ids g)) < gr_max_total_steps r"
    and "card (ag_node_ids g) \<le> card {k. node_completed r k} + n"
  shows "gr_status (drive b g n r) = GrCOMPLETED"
  using assms(3-5)
proof (induction n arbitrary: r)
  case 0
  have fin: "finite (ag_node_ids g)" by (simp add: ag_node_ids_def)
  have core: "run_core g r" using "0.prems"(1) by (simp add: alive_def)
  have "{k. node_completed r k} = ag_node_ids g"
    by (rule card_subset_eq [OF fin completed_known [OF core]])
      (use "0.prems"(3) card_mono [OF fin completed_known [OF core]] in simp)
  then have "terminals_completed g r" by (auto simp: terminals_completed_def list_all_iff terminal_nodes_def ag_node_ids_def)
  then show ?case using "0.prems"(1) by (simp add: alive_def)
next
  case (Suc n)
  have sp: "\<forall>k. bh_spawn b r k \<noteq> None" and pick: "bh_pick b r \<in> set (running_node_ids r)"
    using assms(2) alive_running [OF assms(1) Suc.prems(1)] by (simp_all add: answering_def)
  obtain s r' evs where step: "complete_node (bh_clock b r) (bh_spawn b r) g (bh_pick b r) (bh_output b r) r = (s, Inr (r', evs))"
    using complete_node_total [OF assms(1) Suc.prems(1) pick sp Suc.prems(2)] by blast
  have "\<not> gr_is_terminal r" using Suc.prems(1) by (simp add: alive_def gr_is_terminal_def gr_status_terminal_def)
  then have d: "drive b g (Suc n) r = drive b g n r'" using step by simp
  show ?case using complete_node_progress [OF assms(1) Suc.prems(1) step sp Suc.prems(2)]
  proof
    assume fin: "gr_status r' = GrCOMPLETED"
    then have "drive b g n r' = r'" by (cases n) (simp_all add: gr_is_terminal_def gr_status_terminal_def)
    then show ?thesis using d fin by simp
  next
    assume p: "alive g r' \<and> gr_max_total_steps r' = gr_max_total_steps r \<and> {k. node_completed r' k} = insert (bh_pick b r) {k. node_completed r k} \<and> \<not> node_completed r (bh_pick b r)"
    have "finite {k. node_completed r k}"
      using completed_known [of g r] Suc.prems(1) finite_subset [of _ "ag_node_ids g"] by (auto simp: alive_def ag_node_ids_def)
    then have "card {k. node_completed r' k} = Suc (card {k. node_completed r k})" using p by simp
    then have "gr_status (drive b g n r') = GrCOMPLETED" using Suc.IH [of r'] p Suc.prems(2,3) by simp
    then show ?thesis using d by simp
  qed
qed

section \<open>The guarantees\<close>


definition obedient :: "string \<Rightarrow> string option" where
  "obedient nid = Some (''session-'' @ nid)"

definition square_store :: "graph_pattern \<Rightarrow> graph_store" where
  "square_store pattern = \<lparr>gs_graphs = [(''g'', square pattern)], gs_runs = [], gs_spawned = []\<rparr>"

definition start_call :: "string list \<Rightarrow> graph_call" where
  "start_call ids = StartRun 0 obedient ids ''r'' ''g'' ''c'' ''t'' ''p'' []"

definition square_calls :: "graph_call list" where
  "square_calls = [start_call [''a'', ''b'', ''c'', ''d''], NodeCompleted 1 obedient ''g'' ''r'' ''a'' None]"



definition steady :: agents_behaviour where
  "steady = \<lparr>bh_clock = (\<lambda>_. 1), bh_spawn = (\<lambda>_. obedient), bh_pick = (\<lambda>r. last (running_node_ids r)), bh_output = (\<lambda>_. None)\<rparr>"

definition square_run :: graph_run where
  "square_run = \<lparr>gr_id = ''r'', gr_graph_id = ''g'', gr_conversation_id = ''c'', gr_tenant_id = ''t'', gr_project_id = ''p'',
     gr_status = GrPENDING, gr_node_executions = [], gr_shared_context = [], gr_current_node_ids = [], gr_total_steps = 0,
     gr_max_total_steps = 50, gr_error_message = None, gr_started_at = None, gr_completed_at = None\<rparr>"

lemma square_schedulable: "schedulable (square PIPELINE)"
proof -
  have known: "known_edges (square PIPELINE)" by (simp add: known_edges_def square_def plain_graph_def plain_edge_def plain_node_def ag_node_ids_def)
  have "\<not> detect_cycles [''c'', ''a'', ''d'', ''b''] (square PIPELINE)" by code_simp
  then have "acyclic (edge_rel (square PIPELINE))" using detect_cycles_exact [OF known square_ids] by blast
  then show ?thesis using known
    by (simp add: schedulable_def valid_graph_def) (simp add: square_def plain_graph_def plain_node_def entry_nodes_def terminal_nodes_def)
qed


section \<open>Other situations\<close>

definition stored :: "graph_store \<Rightarrow> graph_run" where
  "stored st = the (dict_get (gs_runs st) ''r'')"

definition graph_of :: "agent_graph \<Rightarrow> graph_store" where
  "graph_of g = \<lparr>gs_graphs = [(''g'', g)], gs_runs = [], gs_spawned = []\<rparr>"

text \<open>The run of a graph with a duplicate identifier raises after both agents were spawned; nothing is stored.\<close>

lemma duplicate_ids_leak_agents:
  "case start_run 0 obedient [''a''] ''r'' ''g'' ''c'' ''t'' ''p'' [] (graph_of twins) of
     (res, st) \<Rightarrow> res = Inl (NodeExecutionExists ''a'') \<and> gs_spawned st = [(''r'', ''a''), (''r'', ''a'')] \<and> gs_runs st = []"
  by code_simp

text \<open>The supervisor starts all entry nodes at once, although only one node is documented to run at any moment.\<close>

lemma supervisor_starts_all_entries:
  "let g = plain_graph SUPERVISOR 50 [plain_node ''a'' True True, plain_node ''b'' True True] []
   in running_node_ids (stored (foldl graph_call_step (graph_of g) [start_call [''a'', ''b'']])) = [''a'', ''b'']"
  by code_simp

text \<open>
  A node whose agent cannot be spawned is skipped and counts as not completed: the run stays RUNNING with
  no node running, and no handler will ever change it except a cancellation.
\<close>

lemma failed_spawn_stalls_run:
  "let g = plain_graph PIPELINE 50 [plain_node ''a'' True False, plain_node ''b'' False True] [plain_edge ''a'' ''b''];
       r = stored (foldl graph_call_step (graph_of g) [start_call [''a'', ''b''], NodeCompleted 1 (\<lambda>_. None) ''g'' ''r'' ''a'' None])
   in gr_status r = GrRUNNING \<and> running_node_ids r = [] \<and> next_node_ids PIPELINE g r = [] \<and> \<not> should_complete_run PIPELINE g r"
  by code_simp

text \<open>
  Reaching the step limit fails the run, and the next node that is started in the same handler raises because the
  run has already failed: the completion of the node is lost, and three agents are left without a run.
\<close>

lemma step_limit_raises:
  "let g = plain_graph FAN_OUT 3 [plain_node ''a'' True False, plain_node ''b'' False True, plain_node ''c'' False True, plain_node ''d'' False True]
             [plain_edge ''a'' ''b'', plain_edge ''a'' ''c'', plain_edge ''a'' ''d''];
       st = foldl graph_call_step (graph_of g) [start_call [''a'', ''b'', ''c'', ''d'']];
       (res, st') = on_node_completed 1 obedient ''g'' ''r'' ''a'' None st
   in res = Inl (CannotFailRun GrFAILED) \<and> running_node_ids (stored st') = [''a''] \<and> map snd (gs_spawned st') = [''a'', ''b'', ''c'', ''d'']"
  by code_simp

text \<open>A limit of one step fails every run when its only node starts.\<close>

lemma step_limit_off_by_one:
  "let g = plain_graph PIPELINE 1 [plain_node ''a'' True True] []
   in gr_status (stored (foldl graph_call_step (graph_of g) [start_call [''a'']])) = GrFAILED"
  by code_simp

text \<open>When a node fails, the other nodes stay RUNNING in the failed run for ever; only a cancellation settles them.\<close>

lemma failure_leaves_nodes_running:
  "let r = stored (foldl graph_call_step (square_store FAN_OUT) (square_calls @ [NodeFailed 2 ''g'' ''r'' ''b'' ''boom'']))
   in gr_status r = GrFAILED \<and> running_node_ids r = [''c'']"
  by code_simp

text \<open>The list of current nodes is set once, to the entry nodes.\<close>

lemma current_nodes_stale:
  "gr_current_node_ids (stored (foldl graph_call_step (square_store FAN_OUT) square_calls)) = [''a'']"
  by code_simp

end
