(* ===== verification/ParallelScheduler.thy ===== *)
theory ParallelScheduler
  imports Prelude
begin

text \<open>
  Parallel sub-agents: the sub-tasks a decomposition yields (\<open>infrastructure/agent/subagent/task_decomposer.py\<close>,
  \<open>_parse_arguments\<close>) and their schedule (\<open>parallel_scheduler.py\<close>). Each sub-task is one asyncio task; the places where it
  gives up control are the steps below: one turn of the loop that waits for its dependencies, taking the semaphore, and
  the end of its process, whose outcome is an input. The order in which waiting tasks get the semaphore is left open.
\<close>

section \<open>Sub-tasks\<close>

record subtask =
  st_id :: string
  st_description :: string
  st_target_subagent :: "string option"
  st_dependencies :: "string list"
  st_priority :: int

text \<open>An item of the model's answer; \<open>None\<close> is a missing key.\<close>

record raw_subtask =
  rt_id :: "string option"
  rt_description :: "string option"
  rt_target_agent :: "string option"
  rt_depends_on :: "string list option"
  rt_priority :: "int option"

record decomposition =
  dc_subtasks :: "subtask list"
  dc_reasoning :: string
  dc_is_decomposed :: bool

definition default_or :: "'a option \<Rightarrow> 'a \<Rightarrow> 'a" where
  "default_or x d = (case x of None \<Rightarrow> d | Some v \<Rightarrow> v)"

definition raw_to_subtask :: "string \<Rightarrow> nat \<Rightarrow> raw_subtask \<Rightarrow> subtask" where
  "raw_to_subtask query i t =
     \<lparr>st_id = default_or (rt_id t) (''t'' @ nat_str (i + 1)), st_description = default_or (rt_description t) query,
      st_target_subagent = (if rt_target_agent t \<noteq> Some ''auto'' then rt_target_agent t else None),
      st_dependencies = default_or (rt_depends_on t) [], st_priority = default_or (rt_priority t) 0\<rparr>"

definition single_task :: "string \<Rightarrow> string \<Rightarrow> decomposition" where
  "single_task query reasoning =
     \<lparr>dc_subtasks = [\<lparr>st_id = ''t1'', st_description = query, st_target_subagent = None, st_dependencies = [], st_priority = 0\<rparr>],
      dc_reasoning = reasoning, dc_is_decomposed = False\<rparr>"

definition parse_arguments :: "nat \<Rightarrow> raw_subtask list \<Rightarrow> string \<Rightarrow> string \<Rightarrow> decomposition" where
  "parse_arguments max_subtasks raw reasoning query =
     (if raw = [] then single_task query (if reasoning = [] then ''No sub-tasks produced'' else reasoning)
      else let tasks = map (\<lambda>(i, t). raw_to_subtask query i t) (enumerate 0 (take max_subtasks raw))
           in \<lparr>dc_subtasks = tasks, dc_reasoning = reasoning, dc_is_decomposed = 1 < length tasks\<rparr>)"

section \<open>The schedule\<close>

datatype task_phase = Waiting | Queued | Running | Finished | Aborted

record execution =
  ex_subtask :: subtask
  ex_subagent :: string
  ex_phase :: task_phase
  ex_result :: "string option"
  ex_completed :: bool
  ex_error :: "string option"

datatype schedule_event = SubtaskStarted string | SubtaskCompleted string bool "string option"

record schedule =
  sc_execs :: "(string, execution) dict"
  sc_completed :: "string list"
  sc_free :: int
  sc_abort :: bool
  sc_results :: "string list"
  sc_events :: "schedule_event list"

text \<open>The agents by name, in the order of the map.\<close>

definition resolve_agent :: "subtask \<Rightarrow> (string, string) dict \<Rightarrow> string option" where
  "resolve_agent t agents =
     (case st_target_subagent t of
        Some name \<Rightarrow> (if name \<noteq> [] \<and> dict_get agents name \<noteq> None then dict_get agents name
                      else if agents = [] then None else Some (snd (hd agents)))
      | None \<Rightarrow> if agents = [] then None else Some (snd (hd agents)))"

definition build_execution_map :: "subtask list \<Rightarrow> (string, string) dict \<Rightarrow> (string, execution) dict" where
  "build_execution_map tasks agents =
     foldl (\<lambda>m t. case resolve_agent t agents of
                    None \<Rightarrow> m
                  | Some a \<Rightarrow> dict_set (st_id t) \<lparr>ex_subtask = t, ex_subagent = a, ex_phase = Waiting, ex_result = None, ex_completed = False, ex_error = None\<rparr> m)
       [] tasks"

definition schedule_init :: "int \<Rightarrow> subtask list \<Rightarrow> (string, string) dict \<Rightarrow> schedule" where
  "schedule_init max_concurrency tasks agents =
     \<lparr>sc_execs = build_execution_map tasks agents, sc_completed = [], sc_free = max_concurrency, sc_abort = False, sc_results = [], sc_events = []\<rparr>"

definition set_exec :: "string \<Rightarrow> execution \<Rightarrow> schedule \<Rightarrow> schedule" where
  "set_exec tid ex s = s\<lparr>sc_execs := dict_set tid ex (sc_execs s)\<rparr>"

definition deps_done :: "execution \<Rightarrow> schedule \<Rightarrow> bool" where
  "deps_done ex s \<longleftrightarrow> list_all (\<lambda>d. d \<in> set (sc_completed s)) (st_dependencies (ex_subtask ex))"

text \<open>One turn of \<open>_wait_for_dependencies\<close>, with the test of the abort signal that follows it.\<close>

definition poll :: "string \<Rightarrow> schedule \<Rightarrow> schedule" where
  "poll tid s =
     (case dict_get (sc_execs s) tid of
        None \<Rightarrow> s
      | Some ex \<Rightarrow>
          if ex_phase ex \<noteq> Waiting then s
          else if sc_abort s then set_exec tid (ex\<lparr>ex_phase := Aborted\<rparr>) s
          else if deps_done ex s then set_exec tid (ex\<lparr>ex_phase := Queued\<rparr>) s else s)"

definition take_slot :: "string \<Rightarrow> schedule \<Rightarrow> schedule" where
  "take_slot tid s =
     (case dict_get (sc_execs s) tid of
        None \<Rightarrow> s
      | Some ex \<Rightarrow>
          if ex_phase ex \<noteq> Queued \<or> sc_free s \<le> 0 then s
          else (set_exec tid (ex\<lparr>ex_phase := Running\<rparr>) s)\<lparr>sc_free := sc_free s - 1, sc_events := sc_events s @ [SubtaskStarted tid]\<rparr>)"

datatype process_outcome = Returned "string option" | TimedOut | Raised string

definition outcome_exec :: "string \<Rightarrow> process_outcome \<Rightarrow> execution \<Rightarrow> execution" where
  "outcome_exec tid outcome ex =
     (case outcome of
        Returned res \<Rightarrow> ex\<lparr>ex_result := res, ex_completed := True\<rparr>
      | TimedOut \<Rightarrow> ex\<lparr>ex_error := Some (''Task '' @ tid @ '' timed out'')\<rparr>
      | Raised message \<Rightarrow> ex\<lparr>ex_error := Some message\<rparr>)"

text \<open>Python's truth value of \<open>error\<close>.\<close>

definition has_error :: "execution \<Rightarrow> bool" where
  "has_error ex \<longleftrightarrow> ex_error ex \<noteq> None \<and> ex_error ex \<noteq> Some []"

definition end_process :: "string \<Rightarrow> process_outcome \<Rightarrow> schedule \<Rightarrow> schedule" where
  "end_process tid outcome s =
     (case dict_get (sc_execs s) tid of
        None \<Rightarrow> s
      | Some ex \<Rightarrow>
          if ex_phase ex \<noteq> Running then s
          else (let ex1 = outcome_exec tid outcome ex
                in (set_exec tid (ex1\<lparr>ex_phase := Finished\<rparr>) s)
                     \<lparr>sc_completed := List.insert tid (sc_completed s), sc_free := sc_free s + 1,
                      sc_results := sc_results s @ (case ex_result ex1 of None \<Rightarrow> [] | Some r \<Rightarrow> [r]),
                      sc_events := sc_events s @ [SubtaskCompleted tid (ex_completed ex1 \<and> \<not> has_error ex1) (ex_error ex1)]\<rparr>))"

definition succeeded :: "schedule \<Rightarrow> int" where
  "succeeded s = int (length (filter (\<lambda>ex. ex_completed ex \<and> \<not> has_error ex) (dict_values (sc_execs s))))"

definition failed :: "schedule \<Rightarrow> int" where
  "failed s = int (length (filter has_error (dict_values (sc_execs s))))"

datatype schedule_step = Poll string | TakeSlot string | EndProcess string process_outcome | Abort

fun sched_step :: "schedule \<Rightarrow> schedule_step \<Rightarrow> schedule" where
  "sched_step s (Poll tid) = poll tid s"
| "sched_step s (TakeSlot tid) = take_slot tid s"
| "sched_step s (EndProcess tid outcome) = end_process tid outcome s"
| "sched_step s Abort = s\<lparr>sc_abort := True\<rparr>"

section \<open>Concurrency and order\<close>

definition ids_in :: "task_phase \<Rightarrow> schedule \<Rightarrow> string set" where
  "ids_in p s = {k. \<exists>ex. dict_get (sc_execs s) k = Some ex \<and> ex_phase ex = p}"

definition sched_ok :: "int \<Rightarrow> schedule \<Rightarrow> bool" where
  "sched_ok m s \<longleftrightarrow> 0 \<le> sc_free s \<and> int (card (ids_in Running s)) + sc_free s = m \<and> set (sc_completed s) = ids_in Finished s \<and>
     (\<forall>k ex. dict_get (sc_execs s) k = Some ex \<longrightarrow> ex_phase ex \<in> {Queued, Running, Finished} \<longrightarrow> deps_done ex s)"

lemma finite_ids_in [simp]: "finite (ids_in p s)"
  by (rule finite_subset [of _ "set (dict_keys (sc_execs s))"]) (auto simp: ids_in_def dest: dict_get_Some_key)

lemma ids_in_set:
  assumes "dict_get (sc_execs s) tid = Some ex" and "sc_execs s' = dict_set tid ex' (sc_execs s)"
  shows "ids_in p s' = (if ex_phase ex' = p then insert tid (ids_in p s) else ids_in p s - {tid})"
  using assms by (auto simp: ids_in_def dict_get_set split: if_splits)

lemma sched_okD:
  assumes "sched_ok m s"
  shows "0 \<le> sc_free s" "int (card (ids_in Running s)) + sc_free s = m" "set (sc_completed s) = ids_in Finished s"
    "dict_get (sc_execs s) k = Some ex \<Longrightarrow> ex_phase ex \<in> {Queued, Running, Finished} \<Longrightarrow> deps_done ex s"
  using assms unfolding sched_ok_def by blast+

lemma deps_done_mono: "deps_done ex s \<Longrightarrow> set (sc_completed s) \<subseteq> set (sc_completed s') \<Longrightarrow> deps_done ex s'"
  by (auto simp: deps_done_def list_all_iff)

text \<open>A step replaces one execution; what has to be shown of it.\<close>

lemma sched_ok_replace:
  assumes "sched_ok m s" and "dict_get (sc_execs s) tid = Some ex" and "sc_execs s' = dict_set tid ex' (sc_execs s)"
    and "ex_subtask ex' = ex_subtask ex" and "ex_phase ex \<noteq> Finished"
    and "set (sc_completed s') = (if ex_phase ex' = Finished then insert tid (set (sc_completed s)) else set (sc_completed s))"
    and "ex_phase ex' \<in> {Queued, Running, Finished} \<Longrightarrow> deps_done ex s"
    and "sc_free s' = sc_free s + (if ex_phase ex = Running then 1 else 0) - (if ex_phase ex' = Running then 1 else 0)" and "0 \<le> sc_free s'"
  shows "sched_ok m s'"
proof -
  note d = sched_okD [OF assms(1)]
  note ids = ids_in_set [OF assms(2,3)]
  have mono: "set (sc_completed s) \<subseteq> set (sc_completed s')" using assms(6) by auto
  have "deps_done e s'" if e: "dict_get (sc_execs s') k = Some e" "ex_phase e \<in> {Queued, Running, Finished}" for k e
  proof (cases "k = tid")
    case True
    then have "e = ex'" using e(1) assms(3) by (simp add: dict_get_set)
    then have "deps_done ex s" using assms(7) e(2) by simp
    then have "deps_done ex s'" using deps_done_mono mono by blast
    then show ?thesis using \<open>e = ex'\<close> assms(4) by (simp add: deps_done_def)
  next
    case False
    then have "dict_get (sc_execs s) k = Some e" using e(1) assms(3) by (simp add: dict_get_set)
    then show ?thesis using d(4) e(2) deps_done_mono mono by blast
  qed
  moreover have "set (sc_completed s') = ids_in Finished s'"
    using assms(5,6) d(3) ids [of Finished] assms(2) by (auto simp: ids_in_def)
  moreover have "(tid \<in> ids_in Running s) = (ex_phase ex = Running)" using assms(2) by (simp add: ids_in_def)
  then have "int (card (ids_in Running s')) + sc_free s' = m"
    using d(2) assms(8) card_gt_0_iff [of "ids_in Running s"] unfolding ids by (auto simp: card_insert_if card_Diff_singleton_if of_nat_diff Suc_le_eq)
  ultimately show ?thesis unfolding sched_ok_def using assms(9) by blast
qed

lemma poll_ok: "sched_ok m s \<Longrightarrow> sched_ok m (poll tid s)"
proof (cases "dict_get (sc_execs s) tid")
  case (Some ex)
  assume ok: "sched_ok m s"
  have "sched_ok m (set_exec tid (ex\<lparr>ex_phase := p\<rparr>) s)" if "ex_phase ex = Waiting" "p = Aborted \<or> p = Queued \<and> deps_done ex s" for p
    by (rule sched_ok_replace [OF ok Some, where ex' = "ex\<lparr>ex_phase := p\<rparr>"]) (use that sched_okD(1) [OF ok] in \<open>auto simp: set_exec_def\<close>)
  then show ?thesis using ok Some by (auto simp: poll_def)
qed (simp add: poll_def)

lemma take_slot_ok: "sched_ok m s \<Longrightarrow> sched_ok m (take_slot tid s)"
proof (cases "dict_get (sc_execs s) tid")
  case (Some ex)
  assume ok: "sched_ok m s"
  show ?thesis
  proof (cases "ex_phase ex \<noteq> Queued \<or> sc_free s \<le> 0")
    case False
    then show ?thesis unfolding take_slot_def Some option.case
      by (subst if_not_P) (auto simp: set_exec_def intro!: sched_ok_replace [OF ok Some] sched_okD(4) [OF ok Some])
  qed (use ok Some in \<open>auto simp: take_slot_def\<close>)
qed (simp add: take_slot_def)

lemma outcome_exec_fields [simp]: "ex_subtask (outcome_exec tid o' ex) = ex_subtask ex" "ex_phase (outcome_exec tid o' ex) = ex_phase ex"
  by (simp_all add: outcome_exec_def split: process_outcome.split)

lemma end_process_ok: "sched_ok m s \<Longrightarrow> sched_ok m (end_process tid outcome s)"
proof (cases "dict_get (sc_execs s) tid")
  case (Some ex)
  assume ok: "sched_ok m s"
  show ?thesis
  proof (cases "ex_phase ex = Running")
    case True
    then show ?thesis using sched_okD(1) [OF ok] unfolding end_process_def Some option.case Let_def
      by (subst if_not_P) (auto simp: set_exec_def intro!: sched_ok_replace [OF ok Some] sched_okD(4) [OF ok Some])
  qed (use ok Some in \<open>simp add: end_process_def\<close>)
qed (simp add: end_process_def)

interpretation sched: invariant_machine sched_step "sched_ok m" for m
proof
  show "sched_ok m s \<Longrightarrow> sched_ok m (sched_step s e)" for s e
    by (cases e) (simp_all add: poll_ok take_slot_ok end_process_ok, auto simp: sched_ok_def ids_in_def deps_done_def)
qed

section \<open>Progress\<close>

definition effective :: "schedule \<Rightarrow> schedule_step \<Rightarrow> bool" where
  "effective s e \<longleftrightarrow> e \<noteq> Abort \<and> sched_step s e \<noteq> s"

fun all_effective :: "schedule \<Rightarrow> schedule_step list \<Rightarrow> bool" where
  "all_effective s [] = True"
| "all_effective s (e # es) = (effective s e \<and> all_effective (sched_step s e) es)"

definition work_left :: "schedule \<Rightarrow> nat" where
  "work_left s = 3 * card (ids_in Waiting s) + 2 * card (ids_in Queued s) + card (ids_in Running s)"

text \<open>The effective steps of a schedule that was not aborted.\<close>

lemma effective_cases:
  assumes "effective s e" and "\<not> sc_abort s"
  obtains tid ex ex' where "dict_get (sc_execs s) tid = Some ex" "sc_execs (sched_step s e) = dict_set tid ex' (sc_execs s)" "ex_subtask ex' = ex_subtask ex"
    "(ex_phase ex, ex_phase ex') \<in> {(Waiting, Queued), (Queued, Running), (Running, Finished)}" "\<not> sc_abort (sched_step s e)"
proof -
  have "\<exists>tid ex ex'. dict_get (sc_execs s) tid = Some ex \<and> sc_execs (sched_step s e) = dict_set tid ex' (sc_execs s) \<and> ex_subtask ex' = ex_subtask ex \<and>
      (ex_phase ex, ex_phase ex') \<in> {(Waiting, Queued), (Queued, Running), (Running, Finished)} \<and> \<not> sc_abort (sched_step s e)"
  proof (cases e)
    case (Poll tid)
    then obtain ex where "dict_get (sc_execs s) tid = Some ex" "ex_phase ex = Waiting" "poll tid s = set_exec tid (ex\<lparr>ex_phase := Queued\<rparr>) s"
      using assms by (auto simp: effective_def poll_def split: option.splits if_splits)
    then show ?thesis using Poll assms(2) by (intro exI [of _ tid] exI [of _ ex] exI [of _ "ex\<lparr>ex_phase := Queued\<rparr>"]) (simp add: set_exec_def)
  next
    case (TakeSlot tid)
    then obtain ex where "dict_get (sc_execs s) tid = Some ex" "ex_phase ex = Queued" "sc_free s > 0"
      using assms by (auto simp: effective_def take_slot_def split: option.splits if_splits)
    then show ?thesis using TakeSlot assms(2)
      by (intro exI [of _ tid] exI [of _ ex] exI [of _ "ex\<lparr>ex_phase := Running\<rparr>"]) (simp add: take_slot_def set_exec_def)
  next
    case (EndProcess tid outcome)
    then obtain ex where "dict_get (sc_execs s) tid = Some ex" "ex_phase ex = Running"
      using assms by (auto simp: effective_def end_process_def split: option.splits if_splits)
    then show ?thesis using EndProcess assms(2)
      by (intro exI [of _ tid] exI [of _ ex] exI [of _ "(outcome_exec tid outcome ex)\<lparr>ex_phase := Finished\<rparr>"]) (simp add: end_process_def set_exec_def Let_def)
  qed (use assms in \<open>simp add: effective_def\<close>)
  then show thesis using that by blast
qed

lemma effective_work:
  assumes "effective s e" and "\<not> sc_abort s"
  shows "work_left (sched_step s e) < work_left s"
proof -
  obtain tid ex ex' where ex: "dict_get (sc_execs s) tid = Some ex" and s': "sc_execs (sched_step s e) = dict_set tid ex' (sc_execs s)"
    and p: "(ex_phase ex, ex_phase ex') \<in> {(Waiting, Queued), (Queued, Running), (Running, Finished)}"
    using effective_cases [OF assms] by metis
  have mem: "tid \<in> ids_in q s \<longleftrightarrow> ex_phase ex = q" for q using ex by (simp add: ids_in_def)
  have pos: "0 < card (ids_in q s)" if "ex_phase ex = q" for q using mem [of q] that card_gt_0_iff [of "ids_in q s"] by auto
  have card: "card (ids_in q (sched_step s e)) = (if ex_phase ex' = q then Suc (card (ids_in q s)) else if ex_phase ex = q then card (ids_in q s) - 1 else card (ids_in q s))"
    if "ex_phase ex \<noteq> ex_phase ex'" for q
    using mem [of q] that unfolding ids_in_set [OF ex s'] by (auto simp: card_insert_if card_Diff_singleton_if)
  from p show ?thesis unfolding work_left_def
    using card [of Waiting] card [of Queued] card [of Running] pos [of Waiting] pos [of Queued] pos [of Running] by (elim insertE emptyE) auto
qed

text \<open>The dependencies and the absence of aborted tasks are kept.\<close>

definition deps_of :: "schedule \<Rightarrow> string \<Rightarrow> string list option" where
  "deps_of s k = map_option (\<lambda>ex. st_dependencies (ex_subtask ex)) (dict_get (sc_execs s) k)"

definition unaborted :: "schedule \<Rightarrow> bool" where
  "unaborted s \<longleftrightarrow> \<not> sc_abort s \<and> ids_in Aborted s = {}"

lemma effective_static:
  assumes "effective s e" and "unaborted s"
  shows "deps_of (sched_step s e) = deps_of s" "unaborted (sched_step s e)"
proof -
  have ab: "\<not> sc_abort s" using assms(2) by (simp add: unaborted_def)
  obtain tid ex ex' where ex: "dict_get (sc_execs s) tid = Some ex" and s': "sc_execs (sched_step s e) = dict_set tid ex' (sc_execs s)" "ex_subtask ex' = ex_subtask ex"
    and p: "(ex_phase ex, ex_phase ex') \<in> {(Waiting, Queued), (Queued, Running), (Running, Finished)}" "\<not> sc_abort (sched_step s e)"
    using effective_cases [OF assms(1) ab] by metis
  show "deps_of (sched_step s e) = deps_of s" using ex s' by (auto simp: deps_of_def dict_get_set fun_eq_iff)
  show "unaborted (sched_step s e)" using assms(2) p unfolding unaborted_def ids_in_set [OF ex s'(1)] by auto
qed

lemma effective_run:
  assumes "all_effective s es" and "unaborted s"
  shows "deps_of (foldl sched_step s es) = deps_of s \<and> unaborted (foldl sched_step s es) \<and> length es + work_left (foldl sched_step s es) \<le> work_left s"
  using assms
proof (induction es arbitrary: s)
  case (Cons e es)
  have e: "effective s e" and rest: "all_effective (sched_step s e) es" using Cons.prems(1) by simp_all
  note st = effective_static [OF e Cons.prems(2)]
  have "work_left (sched_step s e) < work_left s" using effective_work [OF e] Cons.prems(2) by (simp add: unaborted_def)
  then show ?case using Cons.IH [OF rest st(2)] st(1) by simp
qed simp

text \<open>A schedule in which nothing can happen any more has finished every task.\<close>

lemma settled_finished:
  assumes ok: "sched_ok m s" "1 \<le> m" and un: "unaborted s" and "\<forall>e. \<not> effective s e"
    and closed: "\<forall>k ds. deps_of s k = Some ds \<longrightarrow> (\<forall>d \<in> set ds. deps_of s d \<noteq> None)"
    and ac: "acyclic {(d, k). \<exists>ds. deps_of s k = Some ds \<and> d \<in> set ds}"
  shows "dict_get (sc_execs s) k = Some ex \<Longrightarrow> ex_phase ex = Finished"
proof -
  have still: "sched_step s e = s" if "e \<noteq> Abort" for e using assms(4) that unfolding effective_def by blast
  have "ex_phase x \<noteq> Running" if x: "dict_get (sc_execs s) j = Some x" for j x
  proof
    assume run: "ex_phase x = Running"
    then have "sc_free (end_process j TimedOut s) = sc_free s + 1" using x by (simp add: end_process_def Let_def)
    then show False using still [of "EndProcess j TimedOut"] by simp
  qed
  then have run: "ids_in Running s = {}" by (auto simp: ids_in_def)
  then have free: "1 \<le> sc_free s" using sched_okD(2) [OF ok(1)] ok(2) by simp
  have queued: "ex_phase x \<noteq> Queued" if x: "dict_get (sc_execs s) j = Some x" for j x
  proof
    assume "ex_phase x = Queued"
    then have "sc_free (take_slot j s) = sc_free s - 1" using x free by (simp add: take_slot_def)
    then show False using still [of "TakeSlot j"] by simp
  qed
  let ?R = "{(d, k). \<exists>ds. deps_of s k = Some ds \<and> d \<in> set ds}"
  let ?K = "set (dict_keys (sc_execs s))"
  have key: "deps_of s k \<noteq> None \<Longrightarrow> k \<in> ?K" for k using dict_get_None_iff [of "sc_execs s" k] by (auto simp: deps_of_def)
  have "?R \<subseteq> ?K \<times> ?K" using key closed by blast
  then have "finite ?R" by (rule finite_subset) simp
  then have wf: "wf ?R" using ac by (rule finite_acyclic_wf)
  have waiting: "ids_in Waiting s = {}"
  proof (rule ccontr)
    assume "ids_in Waiting s \<noteq> {}"
    then obtain k where "k \<in> ids_in Waiting s" by blast
    then obtain z where z: "z \<in> ids_in Waiting s" "\<And>y. (y, z) \<in> ?R \<Longrightarrow> y \<notin> ids_in Waiting s" by (rule wfE_min [OF wf]) blast
    then obtain x where x: "dict_get (sc_execs s) z = Some x" "ex_phase x = Waiting" by (auto simp: ids_in_def)
    have "d \<in> set (sc_completed s)" if d: "d \<in> set (st_dependencies (ex_subtask x))" for d
    proof -
      have zd: "deps_of s z = Some (st_dependencies (ex_subtask x))" using x by (simp add: deps_of_def)
      then have "deps_of s d \<noteq> None" using closed d by blast
      then obtain y where y: "dict_get (sc_execs s) d = Some y" by (auto simp: deps_of_def)
      have "ex_phase y \<noteq> Waiting" using z(2) [of d] zd d y by (auto simp: ids_in_def)
      moreover have "ex_phase y \<noteq> Aborted" "ex_phase y \<noteq> Running" using un run y by (auto simp: unaborted_def ids_in_def)
      ultimately have "ex_phase y = Finished" using queued [OF y] by (cases "ex_phase y") simp_all
      then show ?thesis using sched_okD(3) [OF ok(1)] y by (auto simp: ids_in_def)
    qed
    then have "deps_done x s" by (simp add: deps_done_def list_all_iff)
    then have "dict_get (sc_execs (poll z s)) z = Some (x\<lparr>ex_phase := Queued\<rparr>)" using x un by (simp add: poll_def set_exec_def dict_get_set unaborted_def)
    moreover have "x\<lparr>ex_phase := Queued\<rparr> \<noteq> x" using x(2) by (metis execution.select_convs(3) execution.surjective execution.update_convs(3) task_phase.distinct(1))
    ultimately show False using still [of "Poll z"] x(1) by simp
  qed
  show "ex_phase ex = Finished" if e: "dict_get (sc_execs s) k = Some ex"
    using run waiting un queued [OF e] e by (cases "ex_phase ex") (auto simp: ids_in_def unaborted_def)
qed

section \<open>The start\<close>

lemma resolve_agent_total: "agents \<noteq> [] \<Longrightarrow> \<exists>a. resolve_agent t agents = Some a"
  by (cases "st_target_subagent t") (auto simp: resolve_agent_def)

lemma build_map_distinct:
  assumes "agents \<noteq> []" and "distinct (map st_id tasks)"
  shows "build_execution_map tasks agents =
    map (\<lambda>t. (st_id t, \<lparr>ex_subtask = t, ex_subagent = the (resolve_agent t agents), ex_phase = Waiting, ex_result = None, ex_completed = False, ex_error = None\<rparr>)) tasks"
  using assms(2)
proof (induction tasks rule: rev_induct)
  case (snoc t tasks)
  obtain a where "resolve_agent t agents = Some a" using resolve_agent_total [OF assms(1)] by blast
  then show ?case using snoc by (simp add: build_execution_map_def) (subst dict_set_fresh, auto)
qed (simp add: build_execution_map_def)

lemma start_ids:
  assumes "agents \<noteq> []" and "distinct (map st_id tasks)"
  shows "dict_get (sc_execs (schedule_init m tasks agents)) k = Some ex \<Longrightarrow> ex_phase ex = Waiting \<and> ex_subtask ex \<in> set tasks \<and> st_id (ex_subtask ex) = k"
    "t \<in> set tasks \<Longrightarrow> dict_get (sc_execs (schedule_init m tasks agents)) (st_id t) \<noteq> None"
proof -
  note b = build_map_distinct [OF assms]
  show "dict_get (sc_execs (schedule_init m tasks agents)) k = Some ex \<Longrightarrow> ex_phase ex = Waiting \<and> ex_subtask ex \<in> set tasks \<and> st_id (ex_subtask ex) = k"
    unfolding schedule_init_def b by (auto dest!: map_of_SomeD)
  show "t \<in> set tasks \<Longrightarrow> dict_get (sc_execs (schedule_init m tasks agents)) (st_id t) \<noteq> None"
    unfolding schedule_init_def b by (simp add: dict_get_None_iff del: set_map) (auto simp: comp_def)
qed

lemma start_facts:
  assumes "agents \<noteq> []" and "distinct (map st_id tasks)" and "0 \<le> m"
  shows "sched_ok m (schedule_init m tasks agents)" "unaborted (schedule_init m tasks agents)" "work_left (schedule_init m tasks agents) = 3 * length tasks"
proof -
  let ?s = "schedule_init m tasks agents"
  note ids = start_ids [OF assms(1,2), where m = m]
  have none: "ids_in p ?s = {}" if "p \<noteq> Waiting" for p using ids(1) that by (auto simp: ids_in_def)
  have "ids_in Waiting ?s = st_id ` set tasks" using ids by (force simp: ids_in_def)
  then have "card (ids_in Waiting ?s) = length tasks" using assms(2) by (metis distinct_card length_map set_map)
  then show "work_left ?s = 3 * length tasks" by (simp add: work_left_def none)
  show "sched_ok m ?s" using none ids(1) assms(3) by (auto simp: sched_ok_def schedule_init_def)
  show "unaborted ?s" using none by (simp add: unaborted_def schedule_init_def)
qed

definition well_formed_tasks :: "subtask list \<Rightarrow> bool" where
  "well_formed_tasks tasks \<longleftrightarrow> distinct (map st_id tasks) \<and> (\<forall>t \<in> set tasks. set (st_dependencies t) \<subseteq> st_id ` set tasks) \<and>
     acyclic {(d, st_id t) | d t. t \<in> set tasks \<and> d \<in> set (st_dependencies t)}"

lemma start_deps:
  assumes "agents \<noteq> []" and "well_formed_tasks tasks"
  shows "deps_of (schedule_init m tasks agents) k = Some ds \<longleftrightarrow> (\<exists>t \<in> set tasks. st_id t = k \<and> st_dependencies t = ds)"
proof -
  have d: "distinct (map st_id tasks)" using assms(2) by (simp add: well_formed_tasks_def)
  note ids = start_ids [OF assms(1) d, where m = m]
  show ?thesis
  proof
    assume "deps_of (schedule_init m tasks agents) k = Some ds"
    then show "\<exists>t \<in> set tasks. st_id t = k \<and> st_dependencies t = ds" using ids(1) by (auto simp: deps_of_def)
  next
    assume "\<exists>t \<in> set tasks. st_id t = k \<and> st_dependencies t = ds"
    then obtain t where t: "t \<in> set tasks" "st_id t = k" "st_dependencies t = ds" by blast
    then obtain ex where ex: "dict_get (sc_execs (schedule_init m tasks agents)) k = Some ex" using ids(2) by blast
    then have "ex_subtask ex = t" using ids(1) [OF ex] t d by (auto simp: distinct_map inj_on_def)
    then show "deps_of (schedule_init m tasks agents) k = Some ds" using ex t by (simp add: deps_of_def)
  qed
qed

section \<open>The guarantees\<close>

text \<open>
  C35: whatever the sub-tasks do and in whatever order they get their turns, aborted or not, at most \<open>max_concurrency\<close>
  of them run at a time, and a sub-task that has started had all its dependencies finished. If moreover the
  identifiers are distinct, the dependencies refer to tasks of the list without a cycle and the run is not aborted, every sequence of
  turns in which something happens ends after at most three turns per task, and then every task has finished.
\<close>

theorem parallel_tasks_scheduled:
  assumes "agents \<noteq> []" and "distinct (map st_id tasks)" and "1 \<le> m" and "s = foldl sched_step (schedule_init m tasks agents) evs"
  shows "int (card (ids_in Running s)) \<le> m \<and>
    (\<forall>k ex. dict_get (sc_execs s) k = Some ex \<longrightarrow> ex_phase ex \<in> {Running, Finished} \<longrightarrow> set (st_dependencies (ex_subtask ex)) \<subseteq> ids_in Finished s) \<and>
    (well_formed_tasks tasks \<longrightarrow> all_effective (schedule_init m tasks agents) evs \<longrightarrow>
       length evs \<le> 3 * length tasks \<and> ((\<forall>e. \<not> effective s e) \<longrightarrow> ids_in Finished s = st_id ` set tasks))"
proof -
  let ?s0 = "schedule_init m tasks agents"
  note start = start_facts [OF assms(1,2), of m]
  have ok: "sched_ok m s" unfolding assms(4) by (rule sched.run_inv) (use start(1) assms(3) in simp)
  note d = sched_okD [OF ok]
  have "length evs \<le> 3 * length tasks \<and> ((\<forall>e. \<not> effective s e) \<longrightarrow> ids_in Finished s = st_id ` set tasks)"
    if wf: "well_formed_tasks tasks" and eff: "all_effective ?s0 evs"
  proof -
    have r: "deps_of s = deps_of ?s0" "unaborted s" "length evs + work_left s \<le> 3 * length tasks"
      using effective_run [OF eff start(2)] start(3) assms(3,4) by auto
    have rel: "{(d, k). \<exists>ds. deps_of s k = Some ds \<and> d \<in> set ds} = {(d, st_id t) | d t. t \<in> set tasks \<and> d \<in> set (st_dependencies t)}"
      unfolding r(1) start_deps [OF assms(1) wf] by blast
    have ac: "acyclic {(d, k). \<exists>ds. deps_of s k = Some ds \<and> d \<in> set ds}" unfolding rel using wf by (simp add: well_formed_tasks_def)
    have "deps_of s e \<noteq> None" if kd: "deps_of s k = Some ds" "e \<in> set ds" for k ds e
    proof -
      obtain t where "t \<in> set tasks" "st_dependencies t = ds" using kd(1) unfolding r(1) start_deps [OF assms(1) wf] by blast
      then obtain t' where "t' \<in> set tasks" "st_id t' = e" using wf kd(2) by (auto simp: well_formed_tasks_def)
      then have "deps_of s e = Some (st_dependencies t')" unfolding r(1) start_deps [OF assms(1) wf] by blast
      then show ?thesis by simp
    qed
    then have closed: "\<forall>k ds. deps_of s k = Some ds \<longrightarrow> (\<forall>d \<in> set ds. deps_of s d \<noteq> None)" by blast
    have fin: "ids_in Finished s = st_id ` set tasks" if "\<forall>e. \<not> effective s e"
    proof -
      note all = settled_finished [OF ok assms(3) r(2) that closed ac]
      have "k \<in> st_id ` set tasks \<longleftrightarrow> deps_of s k \<noteq> None" for k
        unfolding r(1) using start_deps [OF assms(1) wf, of m k] by auto
      moreover have "deps_of s k \<noteq> None \<longleftrightarrow> k \<in> ids_in Finished s" for k
        using all [of k] by (cases "dict_get (sc_execs s) k") (simp_all add: ids_in_def deps_of_def)
      ultimately show ?thesis by blast
    qed
    show ?thesis using r(3) fin by auto
  qed
  moreover have "set (st_dependencies (ex_subtask ex)) \<subseteq> ids_in Finished s" if "dict_get (sc_execs s) k = Some ex" "ex_phase ex \<in> {Running, Finished}" for k ex
    using d(4) [OF that(1)] that(2) d(3) by (auto simp: deps_done_def list_all_iff)
  moreover have "int (card (ids_in Running s)) \<le> m" using d(1,2) by simp
  ultimately show ?thesis by blast
qed

definition small_task :: "string \<Rightarrow> string list \<Rightarrow> subtask" where
  "small_task tid deps = \<lparr>st_id = tid, st_description = tid, st_target_subagent = None, st_dependencies = deps, st_priority = 0\<rparr>"

definition two_tasks :: "subtask list" where
  "two_tasks = [small_task ''b'' [''a''], small_task ''a'' []]"

definition one_agent :: "(string, string) dict" where
  "one_agent = [(''coder'', ''coder'')]"

definition two_turns :: "schedule_step list" where
  "two_turns = [Poll ''a'', TakeSlot ''a'', EndProcess ''a'' (Returned None), Poll ''b'', TakeSlot ''b'', EndProcess ''b'' (Raised ''no'')]"

lemma two_tasks_wf: "well_formed_tasks two_tasks"
proof -
  have "{(d, st_id t) | d t. t \<in> set two_tasks \<and> d \<in> set (st_dependencies t)} \<subseteq> measure (\<lambda>k. if k = ''b'' then 1 else 0)"
    by (auto simp: two_tasks_def small_task_def)
  then have "acyclic {(d, st_id t) | d t. t \<in> set two_tasks \<and> d \<in> set (st_dependencies t)}" using acyclic_subset wf_acyclic wf_measure by blast
  then show ?thesis by (simp add: well_formed_tasks_def) (simp add: two_tasks_def small_task_def)
qed

theorem parallel_tasks_scheduled_witness:
  "well_formed_tasks two_tasks \<and> length two_turns \<le> 3 * length two_tasks \<and>
   int (card (ids_in Running (foldl sched_step (schedule_init 3 two_tasks one_agent) two_turns))) \<le> 3 \<and>
   failed (foldl sched_step (schedule_init 3 two_tasks one_agent) two_turns) = 1"
proof -
  let ?s = "schedule_init 3 two_tasks one_agent"
  have d: "distinct (map st_id two_tasks)" using two_tasks_wf by (simp add: well_formed_tasks_def)
  have a: "one_agent \<noteq> []" by (simp add: one_agent_def)
  have "all_effective ?s two_turns"
    by (simp add: two_turns_def two_tasks_def small_task_def one_agent_def schedule_init_def build_execution_map_def resolve_agent_def effective_def
        poll_def take_slot_def end_process_def set_exec_def deps_done_def outcome_exec_def has_error_def Let_def)
  moreover have "failed (foldl sched_step ?s two_turns) = 1" by code_simp
  ultimately show ?thesis using parallel_tasks_scheduled [OF a d _ refl, of 3 two_turns] two_tasks_wf by auto
qed

section \<open>Dependencies that never finish\<close>

text \<open>
  The parser keeps the first \<open>max_subtasks\<close> items and their dependencies as they are. A dependency on an
  item that was cut off is never in \<open>completed_ids\<close>: the task waits for ever and \<open>execute\<close> never returns.
\<close>

definition raw_item :: "string \<Rightarrow> string list \<Rightarrow> raw_subtask" where
  "raw_item tid deps = \<lparr>rt_id = Some tid, rt_description = None, rt_target_agent = Some ''auto'', rt_depends_on = Some deps, rt_priority = None\<rparr>"

lemma truncated_dependency:
  "map (\<lambda>t. (st_id t, st_dependencies t)) (dc_subtasks (parse_arguments 2 [raw_item ''t1'' [''t3''], raw_item ''t2'' [], raw_item ''t3'' []] [] ''q'')) =
     [(''t1'', [''t3'']), (''t2'', [])]"
  by code_simp

lemma unknown_dependency_waits:
  assumes "dict_get (sc_execs s) tid = Some ex" and "ex_phase ex = Waiting" and "d \<in> set (st_dependencies (ex_subtask ex))"
    and "dict_get (sc_execs s) d = None" and "sched_ok m s" and "Abort \<notin> set evs" and "\<not> sc_abort s"
  shows "\<exists>ex'. dict_get (sc_execs (foldl sched_step s evs)) tid = Some ex' \<and> ex_phase ex' = Waiting"
  using assms
proof (induction evs arbitrary: s)
  case (Cons e evs)
  have "d \<notin> set (sc_completed s)" using Cons.prems(4) sched_okD(3) [OF Cons.prems(5)] by (simp add: ids_in_def)
  then have wait: "\<not> deps_done ex s" using Cons.prems(3) by (auto simp: deps_done_def list_all_iff)
  have get: "dict_get (sc_execs (sched_step s e)) tid = Some ex" "dict_get (sc_execs (sched_step s e)) d = None" "\<not> sc_abort (sched_step s e)"
    using Cons.prems wait
    by (cases e; auto simp: poll_def take_slot_def end_process_def set_exec_def Let_def dict_get_set split: option.splits)+
  show ?case using Cons.IH [OF get(1) Cons.prems(2,3) get(2) _ _ get(3)] sched.run_inv [OF Cons.prems(5), of "[e]"] Cons.prems(6) by simp
qed simp

text \<open>An exception without a message is counted neither as a success nor as a failure.\<close>

lemma silent_failure_uncounted:
  "let s = foldl sched_step (schedule_init 3 [small_task ''a'' []] one_agent) [Poll ''a'', TakeSlot ''a'', EndProcess ''a'' (Raised [])]
   in succeeded s = 0 \<and> failed s = 0 \<and> set (sc_completed s) = {''a''}"
  by code_simp

end
