(* ===== verification/ConnectionPool.thy ===== *)
theory ConnectionPool
  imports Prelude
begin

text \<open>
  The connections to MCP servers: the process-wide limiter \<open>infrastructure/mcp/clients/global_connection_limiter.py\<close> and the pools
  \<open>mcp_connection_pool.py\<close> that call it. A request first waits for a slot of the limiter (\<open>cp_waiting\<close>), holds it while it waits for
  one of the pool (\<open>cp_pending\<close>), and then has a connection (\<open>cp_lent\<close>), which may still be connecting. A discarded dead connection
  sends the request back to the start. Whether a connection is alive or can be made is an input; the connections of a
  pool are numbered. \<open>cp_evicted\<close> counts evictions and is read by no operation. Times are integers.
\<close>

section \<open>The limiter\<close>

record connection_entry =
  ce_created_at :: int
  ce_last_used :: int

record global_limiter =
  gl_max :: int
  gl_ttl :: int
  gl_free :: int
  gl_active :: "(string, connection_entry list) dict"
  gl_callbacks :: "string list"

definition global_limiter_init :: "int \<Rightarrow> int \<Rightarrow> global_limiter" where
  "global_limiter_init max_connections ttl = \<lparr>gl_max = max_connections, gl_ttl = ttl, gl_free = max_connections, gl_active = [], gl_callbacks = []\<rparr>"

definition active_count :: "global_limiter \<Rightarrow> int" where
  "active_count l = sum_list (map (\<lambda>es. int (length es)) (dict_values (gl_active l)))"

definition register_pool :: "string \<Rightarrow> global_limiter \<Rightarrow> global_limiter" where
  "register_pool url l =
     (let l1 = l\<lparr>gl_callbacks := List.insert url (gl_callbacks l)\<rparr>
      in if dict_get (gl_active l1) url = None then l1\<lparr>gl_active := dict_set url [] (gl_active l1)\<rparr> else l1)"

definition unregister_pool :: "string \<Rightarrow> global_limiter \<Rightarrow> global_limiter" where
  "unregister_pool url l = l\<lparr>gl_callbacks := removeAll url (gl_callbacks l), gl_active := dict_pop url (gl_active l)\<rparr>"

text \<open>\<open>acquire\<close> once the semaphore lets it through.\<close>

definition gl_acquire :: "int \<Rightarrow> string \<Rightarrow> global_limiter \<Rightarrow> global_limiter" where
  "gl_acquire now url l =
     l\<lparr>gl_free := gl_free l - 1,
       gl_active := dict_set url (dict_get_default (gl_active l) url [] @ [\<lparr>ce_created_at = now, ce_last_used = now\<rparr>]) (gl_active l)\<rparr>"

definition gl_touch :: "int \<Rightarrow> string \<Rightarrow> global_limiter \<Rightarrow> global_limiter" where
  "gl_touch now url l =
     (let entries = dict_get_default (gl_active l) url []
      in if entries = [] then l
         else l\<lparr>gl_active := dict_set url (butlast entries @ [(last entries)\<lparr>ce_last_used := now\<rparr>]) (gl_active l)\<rparr>)"

definition gl_release :: "string \<Rightarrow> global_limiter \<Rightarrow> global_limiter" where
  "gl_release url l =
     (let entries = dict_get_default (gl_active l) url [];
          l1 = (if entries = [] then l
                else if butlast entries = [] then l\<lparr>gl_active := dict_pop url (gl_active l)\<rparr>
                else l\<lparr>gl_active := dict_set url (butlast entries) (gl_active l)\<rparr>)
      in l1\<lparr>gl_free := gl_free l1 + 1\<rparr>)"

definition oldest :: "connection_entry list \<Rightarrow> int" where
  "oldest es = Min (set (map ce_last_used es))"

fun lru_scan :: "string option \<Rightarrow> (string, connection_entry list) dict \<Rightarrow> (int \<times> string) option \<Rightarrow> (int \<times> string) option" where
  "lru_scan exclude [] best = best"
| "lru_scan exclude ((url, es) # rest) best =
     (if Some url = exclude \<or> es = [] then lru_scan exclude rest best
      else lru_scan exclude rest
        (case best of None \<Rightarrow> Some (oldest es, url) | Some (t, u) \<Rightarrow> if oldest es < t then Some (oldest es, url) else Some (t, u)))"

text \<open>The pool whose callback \<open>try_evict_lru\<close> calls.\<close>

definition lru_victim :: "string option \<Rightarrow> global_limiter \<Rightarrow> string option" where
  "lru_victim exclude l =
     (case lru_scan exclude (gl_active l) None of
        None \<Rightarrow> None
      | Some (_, url) \<Rightarrow> if url \<in> set (gl_callbacks l) then Some url else None)"

text \<open>The pools whose callbacks \<open>evict_idle\<close> calls.\<close>

definition expired_pools :: "int \<Rightarrow> global_limiter \<Rightarrow> string list" where
  "expired_pools now l = filter (\<lambda>url. url \<in> set (gl_callbacks l))
     (map fst (filter (\<lambda>(url, es). list_ex (\<lambda>e. now - ce_created_at e > gl_ttl l) es) (gl_active l)))"

section \<open>The pools\<close>

record connection_pool =
  cp_size :: int
  cp_queue :: "nat list"
  cp_free :: int
  cp_created :: int
  cp_waiting :: nat
  cp_pending :: nat
  cp_lent :: "nat list"
  cp_evicted :: nat
  cp_next :: nat

record connections =
  cw_limiter :: global_limiter
  cw_pools :: "(string, connection_pool) dict"

definition connections_init :: "int \<Rightarrow> int \<Rightarrow> connections" where
  "connections_init max_connections ttl = \<lparr>cw_limiter = global_limiter_init max_connections ttl, cw_pools = []\<rparr>"

text \<open>A negative size makes the semaphore raise.\<close>

definition open_pool :: "string \<Rightarrow> int \<Rightarrow> connections \<Rightarrow> connections" where
  "open_pool url pool_size w =
     (if dict_get (cw_pools w) url \<noteq> None \<or> pool_size < 0 then w
      else w\<lparr>cw_limiter := register_pool url (cw_limiter w),
             cw_pools := dict_set url \<lparr>cp_size = pool_size, cp_queue = [], cp_free = pool_size, cp_created = 0, cp_waiting = 0, cp_pending = 0,
               cp_lent = [], cp_evicted = 0, cp_next = 0\<rparr> (cw_pools w)\<rparr>)"

definition update_pool :: "string \<Rightarrow> (connection_pool \<Rightarrow> connection_pool) \<Rightarrow> connections \<Rightarrow> connections" where
  "update_pool url f w =
     (case dict_get (cw_pools w) url of None \<Rightarrow> w | Some p \<Rightarrow> w\<lparr>cw_pools := dict_set url (f p) (cw_pools w)\<rparr>)"

definition release_global :: "string \<Rightarrow> connections \<Rightarrow> connections" where
  "release_global url w = w\<lparr>cw_limiter := gl_release url (cw_limiter w)\<rparr>"

definition evict_one_idle :: "string \<Rightarrow> connections \<Rightarrow> connections" where
  "evict_one_idle url w =
     (case dict_get (cw_pools w) url of
        None \<Rightarrow> w
      | Some p \<Rightarrow>
          if cp_queue p = [] then w
          else release_global url
            (update_pool url (\<lambda>p. p\<lparr>cp_queue := tl (cp_queue p), cp_created := cp_created p - 1, cp_free := cp_free p + 1, cp_evicted := Suc (cp_evicted p)\<rparr>) w))"

definition try_evict_lru :: "string \<Rightarrow> connections \<Rightarrow> connections" where
  "try_evict_lru exclude w = (case lru_victim (Some exclude) (cw_limiter w) of None \<Rightarrow> w | Some url \<Rightarrow> evict_one_idle url w)"

definition evict_idle :: "int \<Rightarrow> connections \<Rightarrow> connections" where
  "evict_idle now w = foldl (\<lambda>w url. evict_one_idle url w) w (expired_pools now (cw_limiter w))"

text \<open>\<open>Semaphore.locked\<close>: no slot, or tasks that wait for one.\<close>

definition locked :: "connections \<Rightarrow> bool" where
  "locked w \<longleftrightarrow> gl_free (cw_limiter w) \<le> 0 \<or> list_ex (\<lambda>p. 0 < cp_waiting p) (dict_values (cw_pools w))"

text \<open>\<open>acquire\<close> of the limiter at the start of \<open>get_connection\<close>: at once, or by waiting after an eviction.\<close>

definition want_connection :: "int \<Rightarrow> string \<Rightarrow> connections \<Rightarrow> connections" where
  "want_connection now url w =
     (if dict_get (cw_pools w) url = None then w
      else if locked w then update_pool url (\<lambda>p. p\<lparr>cp_waiting := Suc (cp_waiting p)\<rparr>) (try_evict_lru url w)
      else update_pool url (\<lambda>p. p\<lparr>cp_pending := Suc (cp_pending p)\<rparr>) (w\<lparr>cw_limiter := gl_acquire now url (cw_limiter w)\<rparr>))"

definition grant_slot :: "int \<Rightarrow> string \<Rightarrow> connections \<Rightarrow> connections" where
  "grant_slot now url w =
     (case dict_get (cw_pools w) url of
        None \<Rightarrow> w
      | Some p \<Rightarrow>
          if cp_waiting p = 0 \<or> gl_free (cw_limiter w) \<le> 0 then w
          else update_pool url (\<lambda>p. p\<lparr>cp_waiting := cp_waiting p - 1, cp_pending := Suc (cp_pending p)\<rparr>)
            (w\<lparr>cw_limiter := gl_acquire now url (cw_limiter w)\<rparr>))"

text \<open>\<open>get_connection\<close> behind the pool's semaphore: a connection of the queue, or a new one. A dead one is discarded.\<close>

definition take_connection :: "(nat \<Rightarrow> bool) \<Rightarrow> string \<Rightarrow> connections \<Rightarrow> connections" where
  "take_connection alive url w =
     (case dict_get (cw_pools w) url of
        None \<Rightarrow> w
      | Some p \<Rightarrow>
          if cp_pending p = 0 \<or> cp_free p \<le> 0 then w
          else (case cp_queue p of
                  c # rest \<Rightarrow>
                    if alive c
                    then update_pool url (\<lambda>p. p\<lparr>cp_pending := cp_pending p - 1, cp_queue := rest, cp_free := cp_free p - 1, cp_lent := cp_lent p @ [c]\<rparr>) w
                    else release_global url (update_pool url (\<lambda>p. p\<lparr>cp_pending := cp_pending p - 1, cp_queue := rest, cp_created := cp_created p - 1\<rparr>) w)
                | [] \<Rightarrow>
                    update_pool url (\<lambda>p. p\<lparr>cp_pending := cp_pending p - 1, cp_free := cp_free p - 1, cp_created := cp_created p + 1,
                      cp_lent := cp_lent p @ [cp_next p], cp_next := Suc (cp_next p)\<rparr>) w))"

text \<open>The end of a connection that could not be made, or that was dead when it came back.\<close>

definition discard_connection :: "string \<Rightarrow> nat \<Rightarrow> connections \<Rightarrow> connections" where
  "discard_connection url c w =
     release_global url (update_pool url (\<lambda>p. p\<lparr>cp_lent := remove1 c (cp_lent p), cp_created := cp_created p - 1, cp_free := cp_free p + 1\<rparr>) w)"

definition holds :: "string \<Rightarrow> nat \<Rightarrow> connections \<Rightarrow> bool" where
  "holds url c w \<longleftrightarrow> (case dict_get (cw_pools w) url of None \<Rightarrow> False | Some p \<Rightarrow> c \<in> set (cp_lent p))"

definition return_connection :: "bool \<Rightarrow> string \<Rightarrow> nat \<Rightarrow> connections \<Rightarrow> connections" where
  "return_connection alive url c w =
     (case dict_get (cw_pools w) url of
        None \<Rightarrow> w
      | Some p \<Rightarrow>
          if alive \<and> int (length (cp_queue p)) < cp_size p
          then release_global url (update_pool url (\<lambda>p. p\<lparr>cp_lent := remove1 c (cp_lent p), cp_queue := cp_queue p @ [c], cp_free := cp_free p + 1\<rparr>) w)
          else discard_connection url c w)"

definition close_all :: "string \<Rightarrow> connections \<Rightarrow> connections" where
  "close_all url w =
     (case dict_get (cw_pools w) url of
        None \<Rightarrow> w
      | Some p \<Rightarrow>
          (let w1 = (release_global url ^^ length (cp_queue p)) (update_pool url (\<lambda>p. p\<lparr>cp_queue := [], cp_created := 0\<rparr>) w)
           in w1\<lparr>cw_limiter := unregister_pool url (cw_limiter w1)\<rparr>))"

text \<open>A connection is returned, or fails to connect, only while it is lent.\<close>

datatype connection_step =
    OpenPool string int
  | WantConnection int string
  | GrantSlot int string
  | TakeConnection "nat \<Rightarrow> bool" string
  | FailConnect string nat
  | ReturnConnection bool string nat
  | TouchConnection int string
  | EvictIdle int

fun conn_step :: "connections \<Rightarrow> connection_step \<Rightarrow> connections" where
  "conn_step w (OpenPool url pool_size) = open_pool url pool_size w"
| "conn_step w (WantConnection now url) = want_connection now url w"
| "conn_step w (GrantSlot now url) = grant_slot now url w"
| "conn_step w (TakeConnection alive url) = take_connection alive url w"
| "conn_step w (FailConnect url c) = (if holds url c w then discard_connection url c w else w)"
| "conn_step w (ReturnConnection alive url c) = (if holds url c w then return_connection alive url c w else w)"
| "conn_step w (TouchConnection now url) = w\<lparr>cw_limiter := gl_touch now url (cw_limiter w)\<rparr>"
| "conn_step w (EvictIdle now) = evict_idle now w"

section \<open>Accounting\<close>

definition slots_held :: "connection_pool \<Rightarrow> int" where
  "slots_held p = int (cp_pending p) + int (length (cp_lent p))"

definition conn_pool_ok :: "connection_entry list \<Rightarrow> connection_pool \<Rightarrow> bool" where
  "conn_pool_ok es p \<longleftrightarrow> 0 \<le> cp_free p \<and> cp_free p + int (length (cp_lent p)) = cp_size p + int (cp_evicted p) \<and>
     int (length (cp_queue p)) \<le> cp_size p \<and> cp_created p = int (length (cp_lent p)) + int (length (cp_queue p)) \<and>
     distinct (cp_lent p @ cp_queue p) \<and> (\<forall>c \<in> set (cp_lent p @ cp_queue p). c < cp_next p) \<and>
     int (length es) \<le> slots_held p \<and> slots_held p \<le> int (length es) + int (cp_evicted p)"

definition entries :: "string \<Rightarrow> global_limiter \<Rightarrow> connection_entry list" where
  "entries url l = dict_get_default (gl_active l) url []"

definition pool_total :: "(connection_pool \<Rightarrow> int) \<Rightarrow> connections \<Rightarrow> int" where
  "pool_total f w = sum_list (map f (dict_values (cw_pools w)))"

definition conn_ok :: "int \<Rightarrow> connections \<Rightarrow> bool" where
  "conn_ok m w \<longleftrightarrow> 0 \<le> gl_free (cw_limiter w) \<and> gl_free (cw_limiter w) + pool_total (\<lambda>p. slots_held p - int (cp_evicted p)) w = m \<and>
     (\<forall>url. case dict_get (cw_pools w) url of None \<Rightarrow> entries url (cw_limiter w) = [] | Some p \<Rightarrow> conn_pool_ok (entries url (cw_limiter w)) p)"

lemma sum_dict_set:
  fixes f :: "'v \<Rightarrow> int"
  shows "sum_list (map f (dict_values (dict_set k v d))) = sum_list (map f (dict_values d)) + f v - (case dict_get d k of None \<Rightarrow> 0 | Some u \<Rightarrow> f u)"
  by (induction d) auto

lemma release_entries: "entries u (gl_release url l) = (if u = url then butlast (entries url l) else entries u l)"
proof (cases "dict_get (gl_active l) url")
  case None
  then show ?thesis by (simp add: gl_release_def entries_def Let_def dict_get_default_def)
next
  case (Some es)
  then show ?thesis by (cases "es = []"; cases "butlast es = []") (simp_all add: gl_release_def entries_def Let_def dict_get_default_def dict_get_set dict_get_pop)
qed

lemma acquire_entries: "length (entries u (gl_acquire now url l)) = length (entries u l) + (if u = url then 1 else 0)"
  by (simp add: gl_acquire_def entries_def dict_get_default_def dict_get_set split: option.split)

lemma touch_entries: "length (entries u (gl_touch now url l)) = length (entries u l)"
  by (auto simp: gl_touch_def entries_def Let_def dict_get_default_def dict_get_set split: option.splits)

lemma register_entries: "entries u (register_pool url l) = entries u l"
  by (auto simp: register_pool_def entries_def Let_def dict_get_default_def dict_get_set split: option.splits)

lemma limiter_free [simp]:
  "gl_free (gl_release url l) = gl_free l + 1" "gl_free (gl_acquire now url l) = gl_free l - 1"
  "gl_free (register_pool url l) = gl_free l" "gl_free (gl_touch now url l) = gl_free l"
  by (simp_all add: gl_release_def register_pool_def gl_touch_def gl_acquire_def Let_def)

lemma conn_pool_ok_length: "length es = length es' \<Longrightarrow> conn_pool_ok es p = conn_pool_ok es' p"
  by (simp add: conn_pool_ok_def)

text \<open>A step on one pool: what has to be shown of it.\<close>

lemma conn_okD:
  assumes "conn_ok m w"
  shows "0 \<le> gl_free (cw_limiter w)" "gl_free (cw_limiter w) + pool_total (\<lambda>p. slots_held p - int (cp_evicted p)) w = m"
    "dict_get (cw_pools w) url = Some p \<Longrightarrow> conn_pool_ok (entries url (cw_limiter w)) p"
    "dict_get (cw_pools w) url = None \<Longrightarrow> entries url (cw_limiter w) = []"
proof -
  have "case dict_get (cw_pools w) url of None \<Rightarrow> entries url (cw_limiter w) = [] | Some p \<Rightarrow> conn_pool_ok (entries url (cw_limiter w)) p"
    using assms unfolding conn_ok_def by blast
  then show "dict_get (cw_pools w) url = Some p \<Longrightarrow> conn_pool_ok (entries url (cw_limiter w)) p"
    "dict_get (cw_pools w) url = None \<Longrightarrow> entries url (cw_limiter w) = []" by simp_all
qed (use assms in \<open>simp_all add: conn_ok_def\<close>)

lemma conn_okI:
  assumes "\<And>url. case dict_get (cw_pools w) url of None \<Rightarrow> entries url (cw_limiter w) = [] | Some p \<Rightarrow> conn_pool_ok (entries url (cw_limiter w)) p"
    and "gl_free (cw_limiter w) + pool_total (\<lambda>p. slots_held p - int (cp_evicted p)) w = m" and "0 \<le> gl_free (cw_limiter w)"
  shows "conn_ok m w"
  using assms unfolding conn_ok_def by blast

lemma conn_ok_update:
  assumes "conn_ok m w" and "dict_get (cw_pools w) url = Some p" and "\<And>u. u \<noteq> url \<Longrightarrow> entries u l = entries u (cw_limiter w)"
    and "conn_pool_ok (entries url (cw_limiter w)) p \<Longrightarrow> conn_pool_ok (entries url l) (f p)"
    and "gl_free l + slots_held (f p) - int (cp_evicted (f p)) = gl_free (cw_limiter w) + slots_held p - int (cp_evicted p)" and "0 \<le> gl_free l"
    and "cw_limiter w' = l" and "cw_pools w' = dict_set url (f p) (cw_pools w)"
  shows "conn_ok m w'"
proof -
  note d = conn_okD [OF assms(1)]
  have "case dict_get (cw_pools w') u of None \<Rightarrow> entries u l = [] | Some p \<Rightarrow> conn_pool_ok (entries u l) p" for u
  proof (cases "u = url")
    case True
    then show ?thesis using d(3) [OF assms(2)] assms(4) by (simp add: assms(8) dict_get_set)
  next
    case False
    then show ?thesis
      using d(3,4) [of u] assms(3) [OF False] by (cases "dict_get (cw_pools w) u") (simp_all add: assms(8) dict_get_set)
  qed
  moreover have "gl_free l + pool_total (\<lambda>p. slots_held p - int (cp_evicted p)) w' = m"
    using d(2) assms(2,5) unfolding pool_total_def assms(8) sum_dict_set by simp
  ultimately show ?thesis using assms(6) unfolding assms(7) [symmetric] by (rule conn_okI)
qed

lemma open_pool_ok:
  assumes "conn_ok m w"
  shows "conn_ok m (open_pool url pool_size w)"
proof (cases "dict_get (cw_pools w) url \<noteq> None \<or> pool_size < 0")
  case False
  then have n: "dict_get (cw_pools w) url = None" "0 \<le> pool_size" by auto
  note d = conn_okD [OF assms]
  have e: "entries url (cw_limiter w) = []" by (rule d(4) [OF n(1)])
  let ?w = "open_pool url pool_size w"
  have "case dict_get (cw_pools ?w) u of None \<Rightarrow> entries u (cw_limiter ?w) = [] | Some p \<Rightarrow> conn_pool_ok (entries u (cw_limiter ?w)) p" for u
    using d(3,4) [of u] n e by (cases "dict_get (cw_pools w) u") (simp_all add: open_pool_def dict_get_set register_entries conn_pool_ok_def slots_held_def)
  moreover have "gl_free (cw_limiter ?w) + pool_total (\<lambda>p. slots_held p - int (cp_evicted p)) ?w = m"
    using d(2) n unfolding pool_total_def by (simp add: open_pool_def sum_dict_set [unfolded map_map] slots_held_def)
  moreover have "0 \<le> gl_free (cw_limiter ?w)" using d(1) n by (simp add: open_pool_def)
  ultimately show ?thesis by (rule conn_okI)
qed (use assms in \<open>auto simp: open_pool_def\<close>)

lemma evict_one_ok:
  assumes "conn_ok m w"
  shows "conn_ok m (evict_one_idle url w)"
proof (cases "dict_get (cw_pools w) url")
  case (Some p)
  show ?thesis
  proof (cases "cp_queue p")
    case (Cons c rest)
    show ?thesis
      by (rule conn_ok_update [OF assms Some, where l = "gl_release url (cw_limiter w)" and
            f = "\<lambda>p. p\<lparr>cp_queue := tl (cp_queue p), cp_created := cp_created p - 1, cp_free := cp_free p + 1, cp_evicted := Suc (cp_evicted p)\<rparr>"])
        (use conn_okD(1) [OF assms] Some Cons in \<open>auto simp: evict_one_idle_def release_global_def update_pool_def release_entries conn_pool_ok_def slots_held_def\<close>)
  qed (use Some assms in \<open>simp add: evict_one_idle_def\<close>)
qed (use assms in \<open>simp add: evict_one_idle_def\<close>)

lemma try_evict_ok: "conn_ok m w \<Longrightarrow> conn_ok m (try_evict_lru url w)"
  by (simp add: try_evict_lru_def evict_one_ok split: option.split)

lemma evict_idle_ok:
  assumes "conn_ok m w"
  shows "conn_ok m (evict_idle now w)"
proof -
  have "conn_ok m v \<Longrightarrow> conn_ok m (foldl (\<lambda>w url. evict_one_idle url w) v urls)" for v urls
    by (induction urls arbitrary: v) (simp_all add: evict_one_ok)
  then show ?thesis unfolding evict_idle_def using assms by blast
qed

lemma evict_keeps_pool: "(dict_get (cw_pools (try_evict_lru u w)) url = None) = (dict_get (cw_pools w) url = None)"
  by (simp add: try_evict_lru_def evict_one_idle_def release_global_def update_pool_def dict_get_set split: option.split)

lemma update_same_ok:
  assumes "conn_ok m w" and "\<And>p es. conn_pool_ok es p \<Longrightarrow> conn_pool_ok es (f p)" and "\<And>p. slots_held (f p) = slots_held p \<and> cp_evicted (f p) = cp_evicted p"
  shows "conn_ok m (update_pool url f w)"
proof (cases "dict_get (cw_pools w) url")
  case (Some p)
  show ?thesis
    by (rule conn_ok_update [OF assms(1) Some, where l = "cw_limiter w" and f = f]) (use conn_okD(1) [OF assms(1)] assms(2,3) Some in \<open>auto simp: update_pool_def\<close>)
qed (use assms in \<open>simp add: update_pool_def\<close>)

lemma slot_ok:
  assumes "conn_ok m w" and "0 < gl_free (cw_limiter w)" and "dict_get (cw_pools w) url = Some p"
  shows "conn_ok m (update_pool url (\<lambda>p. p\<lparr>cp_waiting := g p, cp_pending := Suc (cp_pending p)\<rparr>) (w\<lparr>cw_limiter := gl_acquire now url (cw_limiter w)\<rparr>))"
  by (rule conn_ok_update [OF assms(1,3), where l = "gl_acquire now url (cw_limiter w)" and f = "\<lambda>p. p\<lparr>cp_waiting := g p, cp_pending := Suc (cp_pending p)\<rparr>"])
    (use assms(2,3) acquire_entries [of _ now url] in \<open>auto simp: update_pool_def conn_pool_ok_def slots_held_def gl_acquire_def entries_def dict_get_default_def dict_get_set\<close>)

lemma want_ok:
  assumes "conn_ok m w"
  shows "conn_ok m (want_connection now url w)"
proof (cases "dict_get (cw_pools w) url")
  case (Some p)
  show ?thesis
  proof (cases "locked w")
    case True
    have "conn_ok m (update_pool url (\<lambda>p. p\<lparr>cp_waiting := Suc (cp_waiting p)\<rparr>) (try_evict_lru url w))"
      by (rule update_same_ok [OF try_evict_ok [OF assms]]) (simp_all add: conn_pool_ok_def slots_held_def)
    then show ?thesis using Some True by (simp add: want_connection_def)
  next
    case False
    then have "0 < gl_free (cw_limiter w)" by (simp add: locked_def)
    from slot_ok [OF assms this Some, where g = cp_waiting] show ?thesis using Some False by (simp add: want_connection_def)
  qed
qed (use assms in \<open>simp add: want_connection_def\<close>)

lemma grant_ok:
  assumes "conn_ok m w"
  shows "conn_ok m (grant_slot now url w)"
  using slot_ok [OF assms, of url _ "\<lambda>p. cp_waiting p - 1" now] assms by (cases "dict_get (cw_pools w) url") (simp_all add: grant_slot_def)

lemma take_ok:
  assumes "conn_ok m w"
  shows "conn_ok m (take_connection alive url w)"
proof (cases "dict_get (cw_pools w) url")
  case (Some p)
  note d = conn_okD(1) [OF assms] conn_okD(3) [OF assms Some]
  note simps = take_connection_def release_global_def update_pool_def release_entries conn_pool_ok_def slots_held_def Some
  show ?thesis
  proof (cases "cp_pending p = 0 \<or> cp_free p \<le> 0")
    case False
    show ?thesis
    proof (cases "cp_queue p")
      case Nil
      show ?thesis
        by (rule conn_ok_update [OF assms Some, where l = "cw_limiter w" and f = "\<lambda>p. p\<lparr>cp_pending := cp_pending p - 1, cp_free := cp_free p - 1,
              cp_created := cp_created p + 1, cp_lent := cp_lent p @ [cp_next p], cp_next := Suc (cp_next p)\<rparr>"])
          (use d(1) False Nil in \<open>auto simp: simps\<close>)
    next
      case (Cons c rest)
      show ?thesis
      proof (cases "alive c")
        case True
        show ?thesis
          by (rule conn_ok_update [OF assms Some, where l = "cw_limiter w" and
                f = "\<lambda>p. p\<lparr>cp_pending := cp_pending p - 1, cp_queue := rest, cp_free := cp_free p - 1, cp_lent := cp_lent p @ [c]\<rparr>"])
            (use d(1) False Cons True in \<open>auto simp: simps\<close>)
      next
        case dead: False
        show ?thesis
          by (rule conn_ok_update [OF assms Some, where l = "gl_release url (cw_limiter w)" and
                f = "\<lambda>p. p\<lparr>cp_pending := cp_pending p - 1, cp_queue := rest, cp_created := cp_created p - 1\<rparr>"])
            (use d(1) False Cons dead in \<open>auto simp: simps\<close>)
      qed
    qed
  qed (use assms Some in \<open>auto simp: take_connection_def\<close>)
qed (use assms in \<open>simp add: take_connection_def\<close>)

lemma length_lent_remove: "c \<in> set cs \<Longrightarrow> int (length (remove1 c cs)) = int (length cs) - 1"
  using length_pos_if_in_set [of c cs] by (simp add: length_remove1 of_nat_diff Suc_leI del: length_greater_0_conv)

lemma discard_ok:
  assumes "conn_ok m w" and "holds url c w"
  shows "conn_ok m (discard_connection url c w)"
proof -
  obtain p where p: "dict_get (cw_pools w) url = Some p" "c \<in> set (cp_lent p)" using assms(2) by (auto simp: holds_def split: option.splits)
  note l = length_lent_remove [OF p(2)]
  show ?thesis
    by (rule conn_ok_update [OF assms(1) p(1), where l = "gl_release url (cw_limiter w)" and
          f = "\<lambda>p. p\<lparr>cp_lent := remove1 c (cp_lent p), cp_created := cp_created p - 1, cp_free := cp_free p + 1\<rparr>"])
      (use conn_okD(1) [OF assms(1)] p l in \<open>auto simp: discard_connection_def release_global_def update_pool_def release_entries conn_pool_ok_def slots_held_def set_remove1_eq\<close>)
qed

lemma return_conn_ok:
  assumes "conn_ok m w" and "holds url c w"
  shows "conn_ok m (return_connection alive url c w)"
proof -
  obtain p where p: "dict_get (cw_pools w) url = Some p" "c \<in> set (cp_lent p)" using assms(2) by (auto simp: holds_def split: option.splits)
  note l = length_lent_remove [OF p(2)]
  show ?thesis
  proof (cases "alive \<and> int (length (cp_queue p)) < cp_size p")
    case True
    show ?thesis
      by (rule conn_ok_update [OF assms(1) p(1), where l = "gl_release url (cw_limiter w)" and
            f = "\<lambda>p. p\<lparr>cp_lent := remove1 c (cp_lent p), cp_queue := cp_queue p @ [c], cp_free := cp_free p + 1\<rparr>"])
        (use conn_okD(1) [OF assms(1)] p l True in \<open>auto simp: return_connection_def release_global_def update_pool_def release_entries conn_pool_ok_def slots_held_def set_remove1_eq\<close>)
  qed (use discard_ok [OF assms] p in \<open>auto simp: return_connection_def\<close>)
qed

lemma touch_ok:
  assumes "conn_ok m w"
  shows "conn_ok m (w\<lparr>cw_limiter := gl_touch now url (cw_limiter w)\<rparr>)"
proof (rule conn_okI)
  note d = conn_okD [OF assms]
  let ?w = "w\<lparr>cw_limiter := gl_touch now url (cw_limiter w)\<rparr>"
  fix u
  show "case dict_get (cw_pools ?w) u of None \<Rightarrow> entries u (cw_limiter ?w) = [] | Some p \<Rightarrow> conn_pool_ok (entries u (cw_limiter ?w)) p"
    using d(3,4) [of u] touch_entries [of u now url "cw_limiter w"] conn_pool_ok_length [of "entries u (gl_touch now url (cw_limiter w))"]
    by (cases "dict_get (cw_pools w) u") auto
qed (use conn_okD(1,2) [OF assms] in \<open>simp_all add: pool_total_def\<close>)

interpretation conns: invariant_machine conn_step "conn_ok m"
proof unfold_locales
  fix w e
  assume ok: "conn_ok m w"
  then show "conn_ok m (conn_step w e)"
    by (cases e) (simp_all add: open_pool_ok want_ok grant_ok take_ok discard_ok return_conn_ok touch_ok evict_idle_ok)
qed

lemma conn_init_ok: "0 \<le> m \<Longrightarrow> conn_ok m (connections_init m ttl)"
  by (simp add: conn_ok_def connections_init_def global_limiter_init_def pool_total_def entries_def dict_get_default_def)

lemma pool_total_diff: "pool_total (\<lambda>p. f p - g p) w = pool_total f w - pool_total g w"
  by (simp only: pool_total_def sum_list_subtractf)


definition all_alive :: "nat \<Rightarrow> bool" where
  "all_alive c = True"

definition lend :: "int \<Rightarrow> string \<Rightarrow> connection_step list" where
  "lend now url = [WantConnection now url, TakeConnection all_alive url]"

definition two_servers :: "connection_step list" where
  "two_servers = [OpenPool ''a'' 2, OpenPool ''b'' 2] @ lend 1 ''a'' @ lend 2 ''a'' @ [ReturnConnection True ''a'' 0] @ lend 3 ''b''"


section \<open>Defects\<close>

text \<open>
  An eviction gives back a slot of both semaphores, which the idle connection gave back when it was returned: afterwards
  three connections are lent under a limit of two.
\<close>

lemma eviction_exceeds_limit:
  "pool_total slots_held (foldl conn_step (connections_init 2 300) (two_servers @ [WantConnection 4 ''b'', GrantSlot 5 ''b'', TakeConnection all_alive ''b''])) = 3"
  by code_simp

text \<open>Idle connections stay open but hold no slot: two servers are connected under a limit of one.\<close>

lemma idle_connections_uncounted:
  "pool_total cp_created (foldl conn_step (connections_init 1 300)
     ([OpenPool ''a'' 1, OpenPool ''b'' 1] @ lend 1 ''a'' @ [ReturnConnection True ''a'' 0] @ lend 2 ''b'')) = 2"
  by code_simp

text \<open>\<open>close_all\<close> gives back slots the idle connections do not hold: the limiter has more free slots than its maximum.\<close>

lemma close_all_adds_slots:
  "gl_free (cw_limiter (close_all ''a'' (foldl conn_step (connections_init 1 300) ([OpenPool ''a'' 1] @ lend 1 ''a'' @ [ReturnConnection True ''a'' 0])))) = 2"
  by code_simp

end
