(* ===== verification/Spec2Isabelle.thy ===== *)
theory Spec2Isabelle
  imports PlanBuild RunRegistryQueries SpawnProps SpawnPolicy PoolBreaker LlmBreaker RateLimiter
    PoolAccounting PoolClassifier PermissionProps SandboxPool ProjectSandbox SandboxRetry DoomLoop CostTracker
    Prewarm FailureRecovery PoolScaling GraphProps ParallelScheduler ConnectionPool
begin

text \<open>
  \<^bold>\<open>What the program is.\<close> The repository is a platform that runs language-model agents for many tenants
  and projects. A request reaches an agent instance of the pool; an agent may decompose its goal into a
  plan, spawn sub-agents whose runs are tracked in a registry, run in parallel or follow an agent graph, ask
  the user for permission to use a tool, work in a sandbox, connect to tool servers, and call a
  language model through a rate limiter and a circuit breaker while its costs are counted. This library models the
  parts that decide, count and remember. All paths below are relative to \<open>src/src\<close>.

  \<^bold>\<open>Theories and sources.\<close>

  \<^item> \<open>Prelude\<close>: dictionaries as association lists in insertion order (\<open>dict_get\<close>, \<open>dict_set\<close>, \<open>dict_pop\<close>),
    result types, Python's list slices, and the interfaces several components are proved against: the laws of
    a dictionary (\<open>mutable_mapping\<close>), a status table with its guarded transition (\<open>status_machine\<close>), an invariant
    kept by every step and so by every run (\<open>invariant_machine\<close>), and a simulation of single calls that
    gives a refinement of runs (\<open>refinement\<close>). \<open>HeapQ\<close> models \<open>heapq\<close> with a bounded heap that keeps the largest items; \<open>Worklist\<close> the
    breadth-first search that several queries use; \<open>Kahn\<close> the topological sort that graphs are checked and
    ordered with; \<open>Fnmatch\<close> the shell patterns of \<open>fnmatch\<close>; \<open>JsonText\<close> JSON values and \<open>json.dumps\<close>.
  \<^item> \<open>PlanNode\<close>: \<open>domain/model/workspace_plan/plan_node.py\<close> and \<open>state_machine.py\<close>, nodes and the two status tables.
    \<open>Plan\<close>: \<open>plan.py\<close>. \<open>PlanOrder\<close>: \<open>topological_order\<close> is correct. \<open>PlanBuild\<close>: what \<open>add_node\<close> and the status
    changes keep true, the frontier of ready leaves, and \<open>descendants_of\<close>.
  \<^item> \<open>SubAgentRun\<close>: \<open>domain/model/agent/subagent_run.py\<close> and the JSON payload of a run in both directions.
    \<open>RunRegistry\<close>: \<open>infrastructure/agent/subagent/run_registry.py\<close>, every operation on memory and the shared file.
    \<open>RunRegistryProps\<close>: eviction, and an invariant of any number of processes on one file.
    \<open>RunRegistryQueries\<close>: visibility, descendants, counters, recovery and lineage.
  \<^item> \<open>SessionRegistry\<close>, \<open>SpawnManager\<close>, \<open>SpawnProps\<close>: \<open>infrastructure/agent/orchestration\<close>; the spawn manager calls
    the run registry and the session registry, which its state contains. \<open>SpawnPolicy\<close>: \<open>domain/model/agent/spawn_policy.py\<close>
    and \<open>infrastructure/agent/subagent/spawn_validator.py\<close>, composed with \<open>create_run\<close>. \<open>ParallelScheduler\<close>: \<open>parallel_scheduler.py\<close>
    and the reading of sub-tasks in \<open>task_decomposer.py\<close> of \<open>infrastructure/agent/subagent\<close>.
  \<^item> \<open>AgentGraph\<close>, \<open>GraphRun\<close>: \<open>domain/model/agent/graph\<close>, graphs with their validation, and runs with their node
    executions. \<open>GraphPatterns\<close>: the coordinators in \<open>infrastructure/agent/orchestration/patterns\<close>. \<open>GraphOrchestrator\<close>:
    \<open>graph_orchestrator.py\<close>, every handler on a store of graphs and runs. \<open>GraphRunProps\<close>, \<open>GraphProps\<close>: what all
    handlers keep true of a run, and that runs complete.
  \<^item> \<open>CircuitGate\<close>: the contract both breakers keep; \<open>PoolBreaker\<close>: \<open>infrastructure/agent/pool/circuit_breaker/breaker.py\<close>;
    \<open>LlmBreaker\<close>: \<open>infrastructure/llm/resilience/circuit_breaker.py\<close> and \<open>redis_store.py\<close>;
    \<open>RateLimiter\<close>: \<open>infrastructure/llm/resilience/rate_limiter.py\<close>.
  \<^item> \<open>PoolConfig\<close>, \<open>PoolLifecycle\<close>, \<open>PoolResource\<close>, \<open>PoolInstance\<close>, \<open>PoolHealth\<close>, \<open>PoolManager\<close>, \<open>PoolClassifier\<close>: the files
    \<open>config.py\<close>, \<open>lifecycle/state_machine.py\<close>, \<open>resource/manager.py\<close>, \<open>instance.py\<close>, \<open>health/monitor.py\<close>, \<open>manager.py\<close> and
    \<open>classification/classifier.py\<close> of \<open>infrastructure/agent/pool\<close>. \<open>PoolAccounting\<close>: the pool as a whole, where
    requests, health checks, recoveries and clean-ups interleave. \<open>Prewarm\<close>: \<open>prewarm/pool.py\<close>. \<open>AutoScaling\<close>:
    \<open>ha/auto_scaling.py\<close>; \<open>PoolScaling\<close>: the auto scaler connected to the pool. \<open>FailureRecovery\<close>: \<open>ha/failure_recovery.py\<close>.
  \<^item> \<open>PermissionRules\<close>, \<open>PermissionManager\<close>, \<open>PermissionProps\<close>: \<open>infrastructure/agent/permission\<close>, rules with their patterns, the
    manager that asks the user, and the guarantees of both.
  \<^item> \<open>SandboxPool\<close>, \<open>SandboxStates\<close>, \<open>ProjectSandbox\<close>, \<open>SandboxRetry\<close>: \<open>domain/model/sandbox\<close>, the resource pool, the two state
    machines, the entity and the retry policy with its exceptions.
  \<^item> \<open>DoomLoop\<close>: \<open>infrastructure/agent/doom_loop/detector.py\<close>. \<open>CostTracker\<close>: \<open>infrastructure/agent/cost\<close>, the pricing loader and
    the tracker. \<open>ConnectionPool\<close>: the pools of connections to MCP servers and their limiter, \<open>infrastructure/mcp/clients\<close>.

  \<^bold>\<open>How code becomes definitions.\<close> A class is a record of its attributes and an operation a function from
  the state (and the inputs below) to its answer and the new state; an exception is a value of an error
  type, and the state that an exception leaves behind is part of the answer. Attributes that no modelled
  operation reads are left out. A coroutine is one step where it holds its lock, and is split at the
  awaits where other tasks may run: requests of an instance, calls through a breaker, waits in the
  rate limiter, for the user, for a resource, a semaphore or a dependency are an entry and an exit step, and the
  theorems quantify over all interleavings. The clock, fresh identifiers, what a language model, a Redis server or
  a spawned agent answers, the order in which a set is enumerated and whether constructing an agent succeeds are
  arguments. Instances of the pool are objects with identity: the pool keeps a heap
  of them, so a task that still refers to a removed instance is represented. Times are integers in
  microseconds (seconds as reals where the code uses \<open>time.time()\<close>); floats are reals and decimals rationals, so rounding is not
  modelled. Texts are lists of characters below code point 256.

  \<^bold>\<open>What is shown.\<close> The plan: the topological order is a permutation that respects the dependencies
  exactly when there is no cycle; plans grown by \<open>add_node\<close> are valid and their frontier is never stuck.
  Runs: the lifecycle graph, the JSON round trip, eviction bounds, the multi-process invariant, exactness of
  the descendant and visibility queries. Spawning: depth and children limits, cascading stop, isolation of
  projects. Parallel sub-tasks: the concurrency bound, the order of dependencies, and that all of them finish.
  Agent graphs: validation is exact, stored runs respect their graph whatever handlers are called, and
  runs of valid graphs complete. Breakers and limiter: they open and reject exactly as configured, recover, and never exceed
  the concurrency. The pool: the resource manager refines a specification that only knows the bag of
  held instances; an instance never serves more requests than its quota; stopping is final; the history is
  an audit trail; the monitor detects exactly the runs of failures; the counters of the resource manager always
  are those of the registered instances; the auto scaler stays within its bounds, the prewarm pool accounts for its
  instances and the recovery service for its retries. Permissions: read-only modes are read-only and replies
  reach exactly the tasks they answer. Sandboxes: the resource pool stays consistent, the simplified
  state machine refines the full one exactly on the described runs, retries end as configured. The doom-loop
  detector is exact, budgets hold, and the slots of the connection limiter add up. Lemmas that show a defect of
  the code say so in their text.

  \<^bold>\<open>Termination and fuel.\<close> No definition uses fuel: loops over work lists that keep a visited set end by
  a measure on the unvisited items, \<open>topo_loop\<close> and \<open>kahn\<close> by the positive in-degrees; \<open>descendants_of\<close>, which keeps no
  visited set and need not return, is a \<open>partial_function\<close> whose result \<open>None\<close> stands for not returning, and
  it is proved to return on every plan that \<open>add_node\<close> can build. Loops that wait (the scheduler's polling, the
  semaphores) are steps of a machine, and that they end is a theorem about its runs.

  \<^bold>\<open>Not modelled.\<close> Logging, metrics export and \<open>to_dict\<close> views; the SQL and Redis repositories, the Redis
  rate limiter and the checkpoints of the pool's state recovery (sequences of server commands); the ReAct loop, prompts and
  tools; Docker, MCP and gRPC adapters; web routers; the orchestration of workspace plans through the database; the front end.
  These parts perform input and output or are determined by services whose code is not in the repository.
  Of the remaining parts with logic of their own, the compaction of contexts and the verification of workspace plans
  would be the next to model.
\<close>

end
